(* ===== verification/Prelude.thy ===== *)
theory Prelude
  imports Main "HOL-Library.Word" "HOL-Library.Sublist" "HOL-Library.Monad_Syntax"
begin

text \<open>
  What the components of the development share: the machine integers and pointers of the C
  sources, the few memory and string functions of the C library they use
  (\<^verbatim>\<open>snprintf\<close> into a buffer, \<^verbatim>\<open>memcpy\<close> into the middle of an array, a checked array store),
  the bytes of a word in memory, and the lemma collections that carry the component proofs.

  Conventions of the whole development. A pointer is an option, \<^term>\<open>None\<close> is
  \<^verbatim>\<open>NULL\<close>; where the pointed-to object matters, the option holds the object, where only its
  identity matters, it holds a number. A C string is a \<^typ>\<open>string\<close> without its final NUL.
  A \<^verbatim>\<open>double\<close> is the 64 bits that represent it.
\<close>

unbundle bit_operations_syntax

section \<open>Machine integers\<close>

type_synonym u8 = "8 word"
type_synonym u32 = "32 word"
type_synonym u64 = "64 word"
type_synonym double = "64 word"

text \<open>An object known by its address only.\<close>

type_synonym addr = nat
type_synonym ptr = "addr option"

section \<open>Lemma collections\<close>

named_theorems calls_defs \<open>definitions of the handlers that make calls\<close>
named_theorems inv_intros \<open>preservation lemmas of the invariants\<close>

section \<open>The C library functions the sources use\<close>

text \<open>
  \<^verbatim>\<open>snprintf(buf, n, ...)\<close>: at most \<open>n - 1\<close> characters of the formatted text are kept.
\<close>

definition snprintf :: "nat \<Rightarrow> string \<Rightarrow> string" where
  "snprintf n s = take (n - 1) s"

lemma snprintf_short [simp]: "length s < n \<Longrightarrow> snprintf n s = s"
  by (simp add: snprintf_def)

lemma length_snprintf: "0 < n \<Longrightarrow> length (snprintf n s) < n"
  by (simp add: snprintf_def less_eq_Suc_le min_def) arith

text \<open>\<^verbatim>\<open>memcpy(dst + off, src, length src)\<close> for a destination array that is a list.\<close>

definition memcpy_at :: "'a list \<Rightarrow> nat \<Rightarrow> 'a list \<Rightarrow> 'a list" where
  "memcpy_at dst off src = take off dst @ src @ drop (off + length src) dst"

lemma length_memcpy_at [simp]:
  "off + length src \<le> length dst \<Longrightarrow> length (memcpy_at dst off src) = length dst"
  by (simp add: memcpy_at_def)

text \<open>
  A store \<^verbatim>\<open>a[i] = v\<close>; outside the array it is undefined behaviour, which is
  \<^term>\<open>None\<close>. The load is the same.
\<close>

definition store_at :: "'a list \<Rightarrow> nat \<Rightarrow> 'a \<Rightarrow> 'a list option" where
  "store_at xs i v = (if i < length xs then Some (xs[i := v]) else None)"

definition load_at :: "'a list \<Rightarrow> nat \<Rightarrow> 'a option" where
  "load_at xs i = (if i < length xs then Some (xs ! i) else None)"

lemma store_at_Some [simp]: "i < length xs \<Longrightarrow> store_at xs i v = Some (xs[i := v])"
  by (simp add: store_at_def)

lemma load_at_Some [simp]: "i < length xs \<Longrightarrow> load_at xs i = Some (xs ! i)"
  by (simp add: load_at_def)

text \<open>
  The bytes of a 64-bit word and the 32-bit word of four bytes, in the byte order of the
  machines the program is built for (x86_64 and aarch64, little-endian).
\<close>

definition le_bytes64 :: "u64 \<Rightarrow> u8 list" where
  "le_bytes64 w = map (\<lambda>k. ucast (drop_bit (8 * k) w)) [0..<8]"

definition le_word32 :: "u8 list \<Rightarrow> u32" where
  "le_word32 bs = foldr (\<lambda>b w. ucast b OR push_bit 8 w) bs 0"

lemma length_le_bytes64 [simp]: "length (le_bytes64 w) = 8"
  by (simp add: le_bytes64_def)

section \<open>Numbers as text\<close>

text \<open>The decimal digits, as \<^verbatim>\<open>QString::arg\<close> writes an integer.\<close>

fun decimal :: "nat \<Rightarrow> string" where
  "decimal n = (if n < 10 then [] else decimal (n div 10)) @ [char_of (48 + n mod 10)]"

declare decimal.simps [simp del]

definition number :: "int \<Rightarrow> string" where
  "number i = (if i < 0 then ''-'' @ decimal (nat (- i)) else decimal (nat i))"

end
