(* ===== verification/Api_Types.thy ===== *)
theory Api_Types
  imports Prelude
begin

text \<open>
  The types of the public header \<^verbatim>\<open>include/coder_dlp.h\<close>: the policy, the sandbox
  configuration of a launched application and the log verbosity.
\<close>

text \<open>\<^verbatim>\<open>struct coder_dlp_policy\<close>\<close>

record coder_dlp_policy =
  clipboard_block_outgoing :: bool
  clipboard_block_incoming :: bool
  screenshot_block :: bool
  file_sandbox :: bool
  network_sandbox :: bool
  watermark_enabled :: bool

text \<open>
  \<^verbatim>\<open>struct coder_dlp_sandbox_config\<close>. The two string arrays are pointers to arrays of
  possibly \<^verbatim>\<open>NULL\<close> strings, with their length kept by the caller in the count field.
\<close>

record coder_dlp_sandbox_config =
  workspace_path :: "string option"
  network_namespace :: "string option"
  isolate_pid :: bool
  isolate_ipc :: bool
  isolate_filesystem :: bool
  bind_home_rw :: bool
  extra_bind_paths :: "string option list option"
  extra_bind_count :: int
  filter_dbus :: bool
  dbus_talk_names :: "string option list option"
  dbus_talk_count :: int

text \<open>A configuration whose memory is all zero, as \<^verbatim>\<open>memset\<close> and C initialisers give it.\<close>

definition zero_sandbox_config :: coder_dlp_sandbox_config where
  "zero_sandbox_config =
     \<lparr>workspace_path = None, network_namespace = None, isolate_pid = False, isolate_ipc = False,
      isolate_filesystem = False, bind_home_rw = False, extra_bind_paths = None,
      extra_bind_count = 0, filter_dbus = False, dbus_talk_names = None, dbus_talk_count = 0\<rparr>"

text \<open>
  \<^verbatim>\<open>enum coder_dlp_log_level\<close>; an integer outside the enumeration is possible in C and
  takes the \<^verbatim>\<open>default\<close> branch of \<^verbatim>\<open>coder_dlp_create\<close>.
\<close>

datatype coder_dlp_log_level =
  CODER_DLP_LOG_ERROR | CODER_DLP_LOG_INFO | CODER_DLP_LOG_DEBUG | Other_log_level int

end
