(* ===== verification/Watermark.thy ===== *)
theory Watermark
  imports Prelude
begin

text \<open>
  The steganographic watermark of \<^verbatim>\<open>src/watermark.c\<close> and \<^verbatim>\<open>src/watermark.h\<close>: the
  fingerprint of an identity (FNV-1a with four prefixes), the xorshift generator that chooses the
  marked pixels, and the pass over the pixels of a buffer that writes one fingerprint bit into the
  lowest bit of the blue byte of each chosen pixel. The last sections relate the pass over the
  bytes to the abstract list of marks and give the reader that recovers the fingerprint.
\<close>

section \<open>State\<close>

record dlp_watermark_state =
  wm_enabled :: bool
  fingerprint :: "u8 list"
  has_identity :: bool

text \<open>The state inside a freshly \<^verbatim>\<open>calloc\<close>ed compositor.\<close>

definition zero_watermark_state :: dlp_watermark_state where
  "zero_watermark_state =
     \<lparr>wm_enabled = False, fingerprint = replicate 32 0, has_identity = False\<rparr>"

text \<open>The C array has 32 bytes.\<close>

definition wm_wf :: "dlp_watermark_state \<Rightarrow> bool" where
  "wm_wf st \<longleftrightarrow> length (fingerprint st) = 32"

section \<open>FNV-1a 64-bit hash\<close>

fun fnv1a_loop :: "u64 \<Rightarrow> u8 list \<Rightarrow> u64" where
  "fnv1a_loop h [] = h"
| "fnv1a_loop h (b # bs) = fnv1a_loop ((h XOR ucast b) * 0x100000001b3) bs"

definition fnv1a_64 :: "u8 list \<Rightarrow> u64" where
  "fnv1a_64 data = fnv1a_loop 0xcbf29ce484222325 data"

section \<open>Identity\<close>

definition bytes_of :: "string \<Rightarrow> u8 list" where
  "bytes_of s = map of_char s"

text \<open>
  One round of the loop: \<^verbatim>\<open>buf[0] = i\<close>, then at most 255 bytes of the identity, hashed and
  copied to bytes \<open>8 * i .. 8 * i + 7\<close> of the fingerprint.
\<close>

definition identity_buf :: "nat \<Rightarrow> u8 list \<Rightarrow> u8 list" where
  "identity_buf i identity =
     (let len = length identity; copy = (if len < 255 then len else 255)
      in of_nat i # take copy identity)"

definition identity_round :: "u8 list \<Rightarrow> u8 list \<Rightarrow> nat \<Rightarrow> u8 list" where
  "identity_round identity fp i =
     memcpy_at fp (i * 8) (le_bytes64 (fnv1a_64 (identity_buf i identity)))"

text \<open>\<^verbatim>\<open>dlp_watermark_set_identity\<close>: does nothing if the state or the identity is NULL.\<close>

definition dlp_watermark_set_identity ::
    "dlp_watermark_state option \<Rightarrow> string option \<Rightarrow> dlp_watermark_state option" where
  "dlp_watermark_set_identity state identity =
     (case (state, identity) of
        (Some st, Some s) \<Rightarrow>
          Some (st\<lparr>fingerprint := foldl (identity_round (bytes_of s)) (fingerprint st) [0..<4],
                   has_identity := True\<rparr>)
      | _ \<Rightarrow> state)"

section \<open>The xorshift generator\<close>

record xorshift128 =
  rs0 :: u32
  rs1 :: u32
  rs2 :: u32
  rs3 :: u32

definition xorshift128_next :: "xorshift128 \<Rightarrow> u32 \<times> xorshift128" where
  "xorshift128_next rng =
     (let t = rs3 rng;
          t = t XOR push_bit 11 t;
          t = t XOR drop_bit 8 t;
          rng = rng\<lparr>rs3 := rs2 rng\<rparr>;
          rng = rng\<lparr>rs2 := rs1 rng\<rparr>;
          rng = rng\<lparr>rs1 := rs0 rng\<rparr>;
          t = t XOR rs0 rng;
          t = t XOR drop_bit 19 (rs0 rng);
          rng = rng\<lparr>rs0 := t\<rparr>
      in (t, rng))"

text \<open>
  The seed: the two 16-byte halves of the fingerprint read as four words each and combined with
  XOR; the all-zero state is replaced by one with \<open>s[0] = 1\<close>.
\<close>

definition fp_words :: "u8 list \<Rightarrow> nat \<Rightarrow> u32 list" where
  "fp_words fp off = map (\<lambda>k. le_word32 (take 4 (drop (off + 4 * k) fp))) [0..<4]"

definition seed_rng :: "u8 list \<Rightarrow> xorshift128" where
  "seed_rng fp =
     (let a = fp_words fp 0; b = fp_words fp 16;
          rng = \<lparr>rs0 = a ! 0 XOR b ! 0, rs1 = a ! 1 XOR b ! 1,
                 rs2 = a ! 2 XOR b ! 2, rs3 = a ! 3 XOR b ! 3\<rparr>
      in if rs0 rng = 0 \<and> rs1 rng = 0 \<and> rs2 rng = 0 \<and> rs3 rng = 0
         then rng\<lparr>rs0 := 1\<rparr> else rng)"

section \<open>Applying the watermark to a buffer\<close>

text \<open>
  The pixel formats \<^verbatim>\<open>blue_offset\<close> distinguishes; their numbers are macros of the DRM
  header and do not matter here.
\<close>

datatype drm_format =
  DRM_FORMAT_ARGB8888 | DRM_FORMAT_XRGB8888 | DRM_FORMAT_ABGR8888 | DRM_FORMAT_XBGR8888
| Other_format u32

fun blue_offset :: "drm_format \<Rightarrow> int" where
  "blue_offset DRM_FORMAT_ARGB8888 = 0"
| "blue_offset DRM_FORMAT_XRGB8888 = 0"
| "blue_offset DRM_FORMAT_ABGR8888 = 2"
| "blue_offset DRM_FORMAT_XBGR8888 = 2"
| "blue_offset (Other_format _) = -1"

text \<open>
  A \<^verbatim>\<open>struct wlr_buffer\<close> as the code sees it: its size, and what
  \<^verbatim>\<open>wlr_buffer_begin_data_ptr_access\<close> answers (\<^term>\<open>buf_access = False\<close> is the
  refusal; otherwise the bytes, the format and the stride).
\<close>

record wlr_buffer =
  buf_width :: int
  buf_height :: int
  buf_access :: bool
  buf_format :: drm_format
  buf_stride :: nat
  buf_data :: "u8 list"

datatype buffer_call = BeginDataPtrAccess | EndDataPtrAccess

text \<open>The loop state: the generator, the index of the next fingerprint bit, the pixel bytes.\<close>

type_synonym wm_loop = "xorshift128 \<times> nat \<times> u8 list"

definition fp_bit :: "u8 list \<Rightarrow> nat \<Rightarrow> u8" where
  "fp_bit fp bit_idx = drop_bit (bit_idx mod 8) (fp ! (bit_idx div 8)) AND 1"

definition mark_byte :: "u8 \<Rightarrow> u8 \<Rightarrow> u8" where
  "mark_byte p b = (p AND 0xFE) OR b"

text \<open>
  The body of the inner loop at pixel \<open>x\<close> of the row that starts at byte \<open>row\<close>. An access
  outside the buffer or outside the fingerprint is undefined behaviour (\<^term>\<open>None\<close>).
\<close>

definition wm_pixel ::
    "u8 list \<Rightarrow> nat \<Rightarrow> nat \<Rightarrow> nat \<Rightarrow> wm_loop \<Rightarrow> wm_loop option" where
  "wm_pixel fp boff row x st =
     (case st of (rng, bit_idx, pixels) \<Rightarrow>
       (let (r, rng) = xorshift128_next rng
        in if r AND 0xF \<noteq> 0 then Some (rng, bit_idx, pixels)
           else do {
             _ \<leftarrow> load_at fp (bit_idx div 8);
             let b = fp_bit fp bit_idx;
             let i = row + x * 4 + boff;
             p \<leftarrow> load_at pixels i;
             pixels \<leftarrow> store_at pixels i (mark_byte p b);
             Some (rng, (bit_idx + 1) mod 256, pixels)
           }))"

fun wm_row :: "u8 list \<Rightarrow> nat \<Rightarrow> nat \<Rightarrow> nat list \<Rightarrow> wm_loop \<Rightarrow> wm_loop option" where
  "wm_row fp boff row [] st = Some st"
| "wm_row fp boff row (x # xs) st =
     Option.bind (wm_pixel fp boff row x st) (wm_row fp boff row xs)"

fun wm_rows :: "u8 list \<Rightarrow> nat \<Rightarrow> nat \<Rightarrow> nat \<Rightarrow> nat list \<Rightarrow> wm_loop \<Rightarrow> wm_loop option" where
  "wm_rows fp boff stride width [] st = Some st"
| "wm_rows fp boff stride width (y # ys) st =
     Option.bind (wm_row fp boff (y * stride) [0..<width] st) (wm_rows fp boff stride width ys)"

text \<open>
  \<^verbatim>\<open>dlp_watermark_apply\<close>: the returned flag, the buffer afterwards and the buffer-access
  calls made. \<^term>\<open>None\<close> is undefined behaviour.
\<close>

definition dlp_watermark_apply ::
    "wlr_buffer option \<Rightarrow> dlp_watermark_state option
       \<Rightarrow> (bool \<times> wlr_buffer option \<times> buffer_call list) option" where
  "dlp_watermark_apply buffer state =
     (case (buffer, state) of
        (Some buf, Some st) \<Rightarrow>
          if \<not> has_identity st then Some (False, buffer, [])
          else if \<not> buf_access buf then Some (False, buffer, [BeginDataPtrAccess])
          else
            let boff = blue_offset (buf_format buf)
            in if boff < 0 then Some (False, buffer, [BeginDataPtrAccess, EndDataPtrAccess])
               else do {
                 (_, _, pixels) \<leftarrow>
                   wm_rows (fingerprint st) (nat boff) (buf_stride buf) (nat (buf_width buf))
                     [0..<nat (buf_height buf)] (seed_rng (fingerprint st), 0, buf_data buf);
                 Some (True, Some (buf\<lparr>buf_data := pixels\<rparr>),
                       [BeginDataPtrAccess, EndDataPtrAccess])
               }
      | _ \<Rightarrow> Some (False, buffer, []))"

lemma xor_eq_0_imp_eq: "a XOR b = 0 \<Longrightarrow> a = b" for a b :: "'a::len word"
  by (metis xor.assoc xor_self_eq xor.left_neutral xor.right_neutral)

lemma push_bit_fixpoint:
  fixes t :: "'a::len word"
  assumes "t = push_bit n t" and "0 < n"
  shows "t = 0"
proof -
  have "\<not> bit t i" for i
  proof (induction i rule: less_induct)
    case (less i)
    show ?case
    proof (cases "n \<le> i")
      case True
      then have "\<not> bit t (i - n)" using less assms(2) by simp
      then show ?thesis by (subst assms(1)) (simp add: bit_push_bit_iff)
    next
      case False
      then show ?thesis by (subst assms(1)) (simp add: bit_push_bit_iff)
    qed
  qed
  then show ?thesis by (simp add: bit_eq_iff)
qed

lemma drop_bit_fixpoint:
  fixes t :: "'a::len word"
  assumes "t = drop_bit n t" and "0 < n"
  shows "t = 0"
proof (rule ccontr)
  assume "t \<noteq> 0"
  then have pos: "0 < unat t" by (simp add: unat_gt_0)
  have "unat t = unat t div 2 ^ n"
    by (subst assms(1)) (simp only: unat_drop_bit_eq, simp add: drop_bit_eq_div)
  also have "\<dots> < unat t"
    using pos assms(2) by (intro div_less_dividend one_less_power) simp_all
  finally show False by simp
qed

lemma inj_xor_push_bit: "0 < n \<Longrightarrow> inj (\<lambda>t :: 'a::len word. t XOR push_bit n t)"
proof (rule injI)
  fix a b :: "'a word"
  assume n: "0 < n" and "a XOR push_bit n a = b XOR push_bit n b"
  then have "(a XOR b) XOR push_bit n (a XOR b) = 0"
    by (metis (no_types, lifting) push_bit_xor xor.assoc xor.left_commute xor_self_eq)
  then show "a = b" using n by (metis push_bit_fixpoint xor_eq_0_imp_eq)
qed

lemma inj_xor_drop_bit: "0 < n \<Longrightarrow> inj (\<lambda>t :: 'a::len word. t XOR drop_bit n t)"
proof (rule injI)
  fix a b :: "'a word"
  assume n: "0 < n" and "a XOR drop_bit n a = b XOR drop_bit n b"
  then have "(a XOR b) XOR drop_bit n (a XOR b) = 0"
    by (metis (no_types, lifting) drop_bit_xor xor.assoc xor.left_commute xor_self_eq)
  then show "a = b" using n by (metis drop_bit_fixpoint xor_eq_0_imp_eq)
qed

lemma xorshift128_next_simp:
  "xorshift128_next rng =
     (let u = rs3 rng XOR push_bit 11 (rs3 rng);
          t = ((u XOR drop_bit 8 u) XOR rs0 rng) XOR drop_bit 19 (rs0 rng)
      in (t, \<lparr>rs0 = t, rs1 = rs0 rng, rs2 = rs1 rng, rs3 = rs2 rng\<rparr>))"
  by (cases rng) (simp add: xorshift128_next_def Let_def)

lemma xor_right_cancel: "(a XOR c = b XOR c) = (a = b)" for a b c :: "'a::len word"
  by (metis xor.assoc xor_self_eq xor.right_neutral)

lemma inj_xorshift128_next: "inj (snd \<circ> xorshift128_next)"
proof (rule injI)
  fix a b
  assume "(snd \<circ> xorshift128_next) a = (snd \<circ> xorshift128_next) b"
  then have e: "rs0 a = rs0 b" "rs1 a = rs1 b" "rs2 a = rs2 b"
    and m: "(\<lambda>u. u XOR drop_bit 8 u) (rs3 a XOR push_bit 11 (rs3 a)) =
      (\<lambda>u. u XOR drop_bit 8 u) (rs3 b XOR push_bit 11 (rs3 b))"
    by (auto simp: xorshift128_next_simp Let_def xor_right_cancel)
  from m have "rs3 a XOR push_bit 11 (rs3 a) = rs3 b XOR push_bit 11 (rs3 b)"
    by (rule injD [OF inj_xor_drop_bit, rotated]) simp
  then have "rs3 a = rs3 b"
    by (rule injD [OF inj_xor_push_bit, rotated]) simp
  with e show "a = b" by (cases a; cases b) simp
qed

definition rng_zero :: "xorshift128 \<Rightarrow> bool" where
  "rng_zero rng \<longleftrightarrow> rs0 rng = 0 \<and> rs1 rng = 0 \<and> rs2 rng = 0 \<and> rs3 rng = 0"

lemma rng_zero_iff: "rng_zero rng \<longleftrightarrow> rng = \<lparr>rs0 = 0, rs1 = 0, rs2 = 0, rs3 = 0\<rparr>"
  by (cases rng) (simp add: rng_zero_def)

lemma seed_rng_nonzero: "\<not> rng_zero (seed_rng fp)"
  by (simp add: rng_zero_def seed_rng_def Let_def)

lemma next_zero: "snd (xorshift128_next \<lparr>rs0 = 0, rs1 = 0, rs2 = 0, rs3 = 0\<rparr>) =
   \<lparr>rs0 = 0, rs1 = 0, rs2 = 0, rs3 = 0\<rparr>"
  by (simp add: xorshift128_next_simp Let_def)

lemma next_nonzero: "\<not> rng_zero rng \<Longrightarrow> \<not> rng_zero (snd (xorshift128_next rng))"
  using injD [OF inj_xorshift128_next, of rng "\<lparr>rs0 = 0, rs1 = 0, rs2 = 0, rs3 = 0\<rparr>"]
  by (auto simp: rng_zero_iff next_zero)

section \<open>The marks\<close>

text \<open>
  The reference description of the pass: from a generator state and the index of the next
  fingerprint bit, the list of marks (byte index in the buffer, fingerprint bit index) chosen among
  a list of blue-byte indices.
\<close>

fun wm_marks :: "xorshift128 \<Rightarrow> nat \<Rightarrow> nat list \<Rightarrow> (nat \<times> nat) list" where
  "wm_marks rng k [] = []"
| "wm_marks rng k (i # is) =
     (let (r, rng) = xorshift128_next rng
      in if r AND 0xF \<noteq> 0 then wm_marks rng k is
         else (i, k) # wm_marks rng ((k + 1) mod 256) is)"

fun wm_end :: "xorshift128 \<Rightarrow> nat \<Rightarrow> nat list \<Rightarrow> xorshift128 \<times> nat" where
  "wm_end rng k [] = (rng, k)"
| "wm_end rng k (i # is) =
     (let (r, rng) = xorshift128_next rng
      in wm_end rng (if r AND 0xF \<noteq> 0 then k else (k + 1) mod 256) is)"

definition write_mark :: "u8 list \<Rightarrow> u8 list \<Rightarrow> nat \<times> nat \<Rightarrow> u8 list" where
  "write_mark fp px m = px[fst m := mark_byte (px ! fst m) (fp_bit fp (snd m))]"

definition write_marks :: "u8 list \<Rightarrow> u8 list \<Rightarrow> (nat \<times> nat) list \<Rightarrow> u8 list" where
  "write_marks fp px ms = foldl (write_mark fp) px ms"

definition row_bytes :: "nat \<Rightarrow> nat \<Rightarrow> nat list \<Rightarrow> nat list" where
  "row_bytes boff row xs = map (\<lambda>x. row + x * 4 + boff) xs"

definition blue_bytes :: "nat \<Rightarrow> nat \<Rightarrow> nat \<Rightarrow> nat list \<Rightarrow> nat list" where
  "blue_bytes boff stride width ys =
     concat (map (\<lambda>y. row_bytes boff (y * stride) [0..<width]) ys)"

lemma length_write_mark [simp]: "length (write_mark fp px m) = length px"
  by (simp add: write_mark_def)

lemma length_write_marks [simp]: "length (write_marks fp px ms) = length px"
  by (induction ms arbitrary: px) (simp_all add: write_marks_def)

lemma write_marks_simps [simp]:
  "write_marks fp px [] = px"
  "write_marks fp px (m # ms) = write_marks fp (write_mark fp px m) ms"
  by (simp_all add: write_marks_def)

lemma write_marks_append: "write_marks fp px (ms @ ns) = write_marks fp (write_marks fp px ms) ns"
  by (simp add: write_marks_def)

lemma wm_marks_append:
  "wm_marks rng k (is @ js) =
     wm_marks rng k is @ (case wm_end rng k is of (rng', k') \<Rightarrow> wm_marks rng' k' js)"
  by (induction "is" arbitrary: rng k) (simp_all split: prod.split)

lemma wm_end_append:
  "wm_end rng k (is @ js) = (case wm_end rng k is of (rng', k') \<Rightarrow> wm_end rng' k' js)"
  by (induction "is" arbitrary: rng k) (simp_all split: prod.split)

lemma wm_end_bound: "k < 256 \<Longrightarrow> snd (wm_end rng k is) < 256"
  by (induction "is" arbitrary: rng k) (simp_all split: prod.split)

text \<open>The loops compute exactly the marks, when the bytes they touch are in the buffer.\<close>

definition wm_done ::
    "u8 list \<Rightarrow> xorshift128 \<Rightarrow> nat \<Rightarrow> u8 list \<Rightarrow> nat list \<Rightarrow> wm_loop" where
  "wm_done fp rng k px is =
     (case wm_end rng k is of
        (rng', k') \<Rightarrow> (rng', k', write_marks fp px (wm_marks rng k is)))"

lemma wm_pixel_done:
  assumes "length fp = 32" and "k < 256" and "row + x * 4 + boff < length px"
  shows "wm_pixel fp boff row x (rng, k, px) = Some (wm_done fp rng k px [row + x * 4 + boff])"
  using assms
  by (simp add: wm_pixel_def wm_done_def write_mark_def Let_def split: prod.split)

lemma wm_done_append:
  "wm_done fp rng k px (is @ js) =
     (case wm_done fp rng k px is of (rng', k', px') \<Rightarrow> wm_done fp rng' k' px' js)"
  by (simp add: wm_done_def wm_end_append wm_marks_append write_marks_append split: prod.split)

lemma wm_row_done:
  assumes "length fp = 32" and "k < 256"
    and "\<forall>i \<in> set (row_bytes boff row xs). i < length px"
  shows "wm_row fp boff row xs (rng, k, px) = Some (wm_done fp rng k px (row_bytes boff row xs))"
  using assms(2,3)
proof (induction xs arbitrary: rng k px)
  case Nil
  then show ?case by (simp add: row_bytes_def wm_done_def)
next
  case (Cons x xs)
  obtain rng' k' px' where d: "wm_done fp rng k px [row + x * 4 + boff] = (rng', k', px')"
    by (metis prod_cases3)
  have pix: "wm_pixel fp boff row x (rng, k, px) = Some (rng', k', px')"
    using wm_pixel_done [OF assms(1) Cons.prems(1)] Cons.prems(2) d by (simp add: row_bytes_def)
  have k': "k' < 256" and len: "length px' = length px"
    using d wm_end_bound [OF Cons.prems(1), of rng "[row + x * 4 + boff]"]
    by (auto simp: wm_done_def split: prod.splits)
  have "wm_row fp boff row xs (rng', k', px') =
      Some (wm_done fp rng' k' px' (row_bytes boff row xs))"
    using Cons.prems(2) len by (intro Cons.IH k') (simp add: row_bytes_def)
  moreover have "row_bytes boff row (x # xs) = [row + x * 4 + boff] @ row_bytes boff row xs"
    by (simp add: row_bytes_def)
  ultimately show ?case
    using pix d by (simp only: wm_done_append) simp
qed

lemma wm_rows_done:
  assumes "length fp = 32" and "k < 256"
    and "\<forall>i \<in> set (blue_bytes boff stride width ys). i < length px"
  shows "wm_rows fp boff stride width ys (rng, k, px) =
           Some (wm_done fp rng k px (blue_bytes boff stride width ys))"
  using assms(2,3)
proof (induction ys arbitrary: rng k px)
  case Nil
  then show ?case by (simp add: blue_bytes_def wm_done_def)
next
  case (Cons y ys)
  let ?row = "row_bytes boff (y * stride) [0..<width]"
  have split: "blue_bytes boff stride width (y # ys) = ?row @ blue_bytes boff stride width ys"
    by (simp add: blue_bytes_def)
  obtain rng' k' px' where d: "wm_done fp rng k px ?row = (rng', k', px')"
    by (metis prod_cases3)
  have k': "k' < 256" and len: "length px' = length px"
    using d wm_end_bound [OF Cons.prems(1), of rng ?row]
    by (auto simp: wm_done_def split: prod.splits)
  have "wm_row fp boff (y * stride) [0..<width] (rng, k, px) = Some (rng', k', px')"
    using wm_row_done [OF assms(1) Cons.prems(1)] Cons.prems(2) d by (simp add: split)
  moreover have "wm_rows fp boff stride width ys (rng', k', px') =
      Some (wm_done fp rng' k' px' (blue_bytes boff stride width ys))"
    using Cons.prems(2) len by (intro Cons.IH k') (simp add: split)
  ultimately show ?case
    using d by (simp only: split wm_done_append) simp
qed

text \<open>Where the blue bytes are: in the buffer, and each only once.\<close>

definition buffer_fits :: "wlr_buffer \<Rightarrow> bool" where
  "buffer_fits buf \<longleftrightarrow>
     4 * nat (buf_width buf) \<le> buf_stride buf \<and>
     nat (buf_height buf) * buf_stride buf \<le> length (buf_data buf)"

lemma pixel_index_bound:
  fixes x y :: nat
  assumes "x < w" and "y < h" and "4 * w \<le> stride" and "h * stride \<le> n" and "boff < 4"
  shows "y * stride + x * 4 + boff < n"
proof -
  have "y * stride + x * 4 + boff < Suc y * stride"
    using assms(1,3,5) by simp
  also have "\<dots> \<le> h * stride"
    using assms(2) by (intro mult_le_mono1) simp
  also have "\<dots> \<le> n" by fact
  finally show ?thesis .
qed

lemma pixel_index_inj:
  fixes x y :: nat
  assumes "y * stride + x * 4 + boff = y' * stride + x' * 4 + boff"
    and "x < w" and "x' < w" and "4 * w \<le> stride"
  shows "y = y' \<and> x = x'"
proof -
  have "(y * stride + x * 4) div stride = y" "(y' * stride + x' * 4) div stride = y'"
    using assms(2-4) by simp_all
  moreover have "y * stride + x * 4 = y' * stride + x' * 4" using assms(1) by simp
  ultimately have "y = y'" by simp
  with assms(1) show ?thesis by simp
qed

lemma mem_row_bytes: "i \<in> set (row_bytes boff row xs) \<longleftrightarrow> (\<exists>x \<in> set xs. i = row + x * 4 + boff)"
  by (simp add: row_bytes_def image_iff)

lemma mem_blue_bytes:
  "i \<in> set (blue_bytes boff stride width ys) \<longleftrightarrow>
     (\<exists>y \<in> set ys. \<exists>x < width. i = y * stride + x * 4 + boff)"
proof -
  have "set (blue_bytes boff stride width ys) =
      (\<Union>y \<in> set ys. set (row_bytes boff (y * stride) [0..<width]))"
    by (simp add: blue_bytes_def)
  then show ?thesis by (simp add: mem_row_bytes Bex_def)
qed

lemma distinct_blue_bytes:
  assumes "4 * width \<le> stride" and "distinct ys"
  shows "distinct (blue_bytes boff stride width ys)"
  using assms(2)
proof (induction ys)
  case Nil
  then show ?case by (simp add: blue_bytes_def)
next
  case (Cons y ys)
  have "distinct (row_bytes boff (y * stride) [0..<width])"
    by (simp add: row_bytes_def distinct_map inj_on_def)
  moreover have "set (row_bytes boff (y * stride) [0..<width]) \<inter>
      set (blue_bytes boff stride width ys) = {}"
  proof (rule ccontr)
    assume "\<not> ?thesis"
    then obtain x x' y' where "x < width" "x' < width" "y' \<in> set ys"
      and "y * stride + x * 4 + boff = y' * stride + x' * 4 + boff"
      by (auto simp: mem_blue_bytes row_bytes_def)
    with pixel_index_inj [of y stride x boff y' x' width] assms(1) Cons.prems
    show False by auto
  qed
  moreover have "blue_bytes boff stride width (y # ys) =
      row_bytes boff (y * stride) [0..<width] @ blue_bytes boff stride width ys"
    by (simp add: blue_bytes_def)
  ultimately show ?case using Cons by simp
qed

lemma set_wm_marks: "fst ` set (wm_marks rng k is) \<subseteq> set is"
proof (induction "is" arbitrary: rng k)
  case (Cons i "is")
  obtain r rng' where n: "xorshift128_next rng = (r, rng')" by fastforce
  show ?case
    using Cons.IH [of rng' k] Cons.IH [of rng' "(k + 1) mod 256"] by (auto simp: n)
qed simp

lemma distinct_wm_marks: "distinct is \<Longrightarrow> distinct (map fst (wm_marks rng k is))"
proof (induction "is" arbitrary: rng k)
  case (Cons i "is")
  then show ?case
    using set_wm_marks by (fastforce simp: image_iff split: prod.split)
qed simp

lemma wm_marks_bits:
  "k < 256 \<Longrightarrow> map snd (wm_marks rng k is) =
     map (\<lambda>j. (k + j) mod 256) [0..<length (wm_marks rng k is)]"
proof (induction "is" arbitrary: rng k)
  case (Cons i "is")
  show ?case
    using Cons.IH [of "(k + 1) mod 256"] Cons.IH [of k] Cons.prems
    by (simp add: upt_conv_Cons map_Suc_upt [symmetric] o_def mod_simps del: upt_Suc
        split: prod.split)
qed simp

section \<open>Writing and reading marks\<close>

lemma and_one_cases: "x AND 1 = 0 \<or> x AND 1 = (1::'a::len word)"
  by (simp add: and_one_eq mod_2_eq_odd)

lemma fp_bit_and_1 [simp]: "fp_bit fp k AND 1 = fp_bit fp k"
  by (simp add: fp_bit_def and.assoc)

lemma mark_byte_and_1: "b AND 1 = b \<Longrightarrow> mark_byte p b AND 1 = b"
  by (simp add: mark_byte_def bit.conj_disj_distrib2 and.assoc)

lemma mark_byte_high: "b AND 1 = b \<Longrightarrow> mark_byte p b AND 0xFE = p AND 0xFE"
proof -
  assume b: "b AND 1 = b"
  have "b AND 0xFE = b AND (1 AND 0xFE)"
    by (subst b [symmetric]) (simp only: and.assoc)
  then have "b AND 0xFE = 0" by simp
  then show ?thesis by (simp add: mark_byte_def bit.conj_disj_distrib2 and.assoc)
qed

lemma mark_byte_idem: "mark_byte (mark_byte p b) b = mark_byte p b"
  by (simp add: mark_byte_def bit.conj_disj_distrib2 and.assoc or.assoc)

lemma write_marks_nth:
  assumes "distinct (map fst ms)" and "\<forall>m \<in> set ms. fst m < length px"
  shows "write_marks fp px ms ! i =
    (case map_of ms i of None \<Rightarrow> px ! i | Some k \<Rightarrow> mark_byte (px ! i) (fp_bit fp k))"
  using assms
proof (induction ms arbitrary: px)
  case (Cons m ms)
  obtain j k where m: "m = (j, k)" by fastforce
  have ih: "write_marks fp (write_mark fp px m) ms ! i =
    (case map_of ms i of None \<Rightarrow> write_mark fp px m ! i
     | Some k \<Rightarrow> mark_byte (write_mark fp px m ! i) (fp_bit fp k))"
    using Cons.prems by (intro Cons.IH) auto
  show ?case
  proof (cases "i = j")
    case True
    then have "map_of ms i = None"
      using Cons.prems m by (simp add: map_of_eq_None_iff)
    then show ?thesis using ih True m Cons.prems by (simp add: write_mark_def)
  next
    case False
    then show ?thesis using ih m by (simp add: write_mark_def split: option.split)
  qed
qed simp

definition read_marks :: "u8 list \<Rightarrow> (nat \<times> nat) list \<Rightarrow> u8 list" where
  "read_marks px ms = map (\<lambda>m. px ! fst m AND 1) ms"

lemma read_write_marks:
  assumes "distinct (map fst ms)" and "\<forall>m \<in> set ms. fst m < length px"
  shows "read_marks (write_marks fp px ms) ms = map (fp_bit fp \<circ> snd) ms"
  using assms
  by (auto simp: read_marks_def write_marks_nth mark_byte_and_1 dest: map_of_is_SomeI)

lemma write_marks_high:
  assumes "distinct (map fst ms)" and "\<forall>m \<in> set ms. fst m < length px"
  shows "write_marks fp px ms ! i AND 0xFE = px ! i AND 0xFE"
  using write_marks_nth [OF assms, of fp i] by (simp add: mark_byte_high split: option.splits)

lemma write_marks_other:
  assumes "i \<notin> fst ` set ms"
  shows "write_marks fp px ms ! i = px ! i"
  using assms by (induction ms arbitrary: px) (auto simp: write_mark_def)

lemma write_marks_idem:
  assumes "distinct (map fst ms)" and "\<forall>m \<in> set ms. fst m < length px"
  shows "write_marks fp (write_marks fp px ms) ms = write_marks fp px ms"
  using assms
  by (intro nth_equalityI) (auto simp: write_marks_nth mark_byte_idem split: option.splits)

text \<open>The fingerprint reassembled from its bits, lowest bit of a byte first.\<close>

definition byte_of_bits :: "u8 list \<Rightarrow> u8" where
  "byte_of_bits bs = horner_sum of_bool 2 (map odd bs)"

definition fp_of_bits :: "u8 list \<Rightarrow> u8 list" where
  "fp_of_bits bs = map (\<lambda>j. byte_of_bits (take 8 (drop (8 * j) bs))) [0..<32]"

lemma byte_of_bits_byte: "byte_of_bits (map (\<lambda>i. drop_bit i b AND 1) [0..<8]) = b"
proof -
  have "odd (drop_bit i b AND 1) = bit b i" for i
    by (simp add: and_one_eq bit_iff_odd_drop_bit)
  then have "byte_of_bits (map (\<lambda>i. drop_bit i b AND 1) [0..<8]) =
      horner_sum of_bool 2 (map (bit b) [0..<8])"
    by (simp only: byte_of_bits_def map_map o_def)
  also have "\<dots> = take_bit 8 b" by (rule horner_sum_bit_eq_take_bit)
  also have "\<dots> = b" by (simp add: take_bit_word_eq_self)
  finally show ?thesis .
qed

lemma fp_of_bits_all:
  assumes "length fp = 32"
  shows "fp_of_bits (map (fp_bit fp) [0..<256]) = fp"
proof (rule nth_equalityI)
  show "length (fp_of_bits (map (fp_bit fp) [0..<256])) = length fp"
    by (simp add: fp_of_bits_def assms)
  fix j assume "j < length (fp_of_bits (map (fp_bit fp) [0..<256]))"
  then have j: "j < 32" by (simp add: fp_of_bits_def)
  then have "take 8 (drop (8 * j) (map (fp_bit fp) [0..<256])) = map (\<lambda>i. fp_bit fp (8 * j + i)) [0..<8]"
    by (intro nth_equalityI) auto
  also have "\<dots> = map (\<lambda>i. drop_bit i (fp ! j) AND 1) [0..<8]"
    by (auto simp: fp_bit_def)
  finally show "fp_of_bits (map (fp_bit fp) [0..<256]) ! j = fp ! j"
    using j by (simp add: fp_of_bits_def byte_of_bits_byte)
qed

section \<open>The whole pass\<close>

definition buffer_marks :: "wlr_buffer \<Rightarrow> u8 list \<Rightarrow> (nat \<times> nat) list" where
  "buffer_marks buf fp =
     wm_marks (seed_rng fp) 0
       (blue_bytes (nat (blue_offset (buf_format buf))) (buf_stride buf) (nat (buf_width buf))
          [0..<nat (buf_height buf)])"

definition wm_supported :: "wlr_buffer \<Rightarrow> bool" where
  "wm_supported buf \<longleftrightarrow> buf_access buf \<and> 0 \<le> blue_offset (buf_format buf)"

lemma blue_offset_less: "blue_offset f < 4"
  by (cases f) simp_all

lemma blue_bytes_in_buffer:
  assumes "buffer_fits buf" and "wm_supported buf"
  shows "\<forall>i \<in> set (blue_bytes (nat (blue_offset (buf_format buf))) (buf_stride buf)
           (nat (buf_width buf)) [0..<nat (buf_height buf)]). i < length (buf_data buf)"
  using assms pixel_index_bound [of _ "nat (buf_width buf)" _ "nat (buf_height buf)"]
    blue_offset_less [of "buf_format buf"]
  by (auto simp: mem_blue_bytes buffer_fits_def wm_supported_def)

lemma buffer_marks_ok:
  assumes "buffer_fits buf" and "wm_supported buf"
  shows "distinct (map fst (buffer_marks buf fp))"
    and "\<forall>m \<in> set (buffer_marks buf fp). fst m < length (buf_data buf)"
proof -
  have "distinct (blue_bytes (nat (blue_offset (buf_format buf))) (buf_stride buf)
      (nat (buf_width buf)) [0..<nat (buf_height buf)])"
    using assms(1) by (intro distinct_blue_bytes) (simp_all add: buffer_fits_def)
  then show "distinct (map fst (buffer_marks buf fp))"
    unfolding buffer_marks_def by (rule distinct_wm_marks)
  have "fst ` set (buffer_marks buf fp) \<subseteq>
      set (blue_bytes (nat (blue_offset (buf_format buf))) (buf_stride buf)
        (nat (buf_width buf)) [0..<nat (buf_height buf)])"
    unfolding buffer_marks_def by (rule set_wm_marks)
  with blue_bytes_in_buffer [OF assms]
  show "\<forall>m \<in> set (buffer_marks buf fp). fst m < length (buf_data buf)" by blast
qed

lemma apply_supported:
  assumes "buffer_fits buf" and "wm_supported buf" and "wm_wf st" and "has_identity st"
  shows "dlp_watermark_apply (Some buf) (Some st) =
    Some (True,
      Some (buf\<lparr>buf_data := write_marks (fingerprint st) (buf_data buf)
                             (buffer_marks buf (fingerprint st))\<rparr>),
      [BeginDataPtrAccess, EndDataPtrAccess])"
  using assms wm_rows_done [OF _ _ blue_bytes_in_buffer [OF assms(1,2)], of "fingerprint st" 0]
  by (simp add: dlp_watermark_apply_def wm_supported_def wm_wf_def wm_done_def buffer_marks_def Let_def
      split: prod.split)

section \<open>Properties\<close>

lemma set_identity_fingerprint:
  assumes "length fp = 32"
  shows "foldl (identity_round s) fp [0..<4] =
    concat (map (\<lambda>i. le_bytes64 (fnv1a_64 (identity_buf i s))) [0..<4])"
proof -
  have "[0..<4] = [0, 1, 2, 3::nat]" by (simp add: upt_rec)
  then show ?thesis using assms by (simp add: identity_round_def memcpy_at_def)
qed

lemma identity_buf_take: "identity_buf i s = of_nat i # take 255 s"
  by (simp add: identity_buf_def Let_def)

text \<open>Setting an identity overwrites all 32 bytes of the fingerprint with the four
  FNV-1a hashes of the identity under the prefixes 0 to 3, whatever was there before, depends on
  the first 255 bytes of the identity only, marks the state as having an identity, and keeps the
  enabled flag.\<close>

lemma set_identity_spec:
  assumes "wm_wf st"
  shows "\<exists>st'. dlp_watermark_set_identity (Some st) (Some s) = Some st' \<and> wm_wf st' \<and>
    has_identity st' \<and> wm_enabled st' = wm_enabled st \<and>
    fingerprint st' =
      concat (map (\<lambda>i. le_bytes64 (fnv1a_64 (of_nat i # bytes_of (take 255 s)))) [0..<4])"
  using assms set_identity_fingerprint [of "fingerprint st" "bytes_of s"]
  by (simp add: dlp_watermark_set_identity_def wm_wf_def identity_buf_take bytes_of_def take_map
      length_concat sum_list_triv o_def)

text \<open>The generator never reaches the all-zero state, from which it would produce zeros
  (and so mark every pixel) for ever: its step is injective, zero is a fixed point, and the seed is
  never zero, for any fingerprint and after any number of pixels.\<close>

lemma generator_never_zero:
  "\<not> rng_zero (((snd \<circ> xorshift128_next) ^^ n) (seed_rng fp))"
proof (induction n)
  case 0
  show ?case by (simp add: seed_rng_nonzero)
next
  case (Suc n)
  then show ?case using next_nonzero by simp
qed

text \<open>C11. On a supported buffer that is as large as its size and stride say, the watermark is
  applied without an access outside the buffer or the fingerprint, access to the buffer is begun
  and ended, and a reader that knows the fingerprint's pixel choice reads back the bits of the
  fingerprint, in order and starting again after 256.\<close>

theorem watermark_read_back:
  assumes "buffer_fits buf" and "wm_supported buf" and "wm_wf st" and "has_identity st"
  shows "\<exists>buf'. dlp_watermark_apply (Some buf) (Some st) =
      Some (True, Some buf', [BeginDataPtrAccess, EndDataPtrAccess]) \<and>
    read_marks (buf_data buf') (buffer_marks buf (fingerprint st)) =
      map (\<lambda>j. fp_bit (fingerprint st) (j mod 256))
        [0..<length (buffer_marks buf (fingerprint st))]"
proof -
  let ?ms = "buffer_marks buf (fingerprint st)"
  have "map snd ?ms = map (\<lambda>j. j mod 256) [0..<length ?ms]"
    unfolding buffer_marks_def by (subst wm_marks_bits) simp_all
  then have "map (fp_bit (fingerprint st) \<circ> snd) ?ms =
      map (fp_bit (fingerprint st)) (map (\<lambda>j. j mod 256) [0..<length ?ms])"
    by (simp flip: map_map)
  with apply_supported [OF assms] show ?thesis
    by (simp add: read_write_marks [OF buffer_marks_ok [OF assms(1,2)]])
qed

definition example_buffer :: wlr_buffer where
  "example_buffer =
     \<lparr>buf_width = 2, buf_height = 2, buf_access = True, buf_format = DRM_FORMAT_ABGR8888,
      buf_stride = 12, buf_data = replicate 24 7\<rparr>"

definition example_wm :: dlp_watermark_state where
  "example_wm = \<lparr>wm_enabled = True, fingerprint = replicate 32 0xA5, has_identity = True\<rparr>"

lemma example_wm_ok:
  "buffer_fits example_buffer" "wm_supported example_buffer" "wm_wf example_wm"
  "has_identity example_wm"
  by (simp_all add: example_buffer_def example_wm_def buffer_fits_def wm_supported_def wm_wf_def)

theorem watermark_read_back_witness:
  "\<exists>buf'. dlp_watermark_apply (Some example_buffer) (Some example_wm) =
      Some (True, Some buf', [BeginDataPtrAccess, EndDataPtrAccess]) \<and>
    read_marks (buf_data buf') (buffer_marks example_buffer (fingerprint example_wm)) =
      map (\<lambda>j. fp_bit (fingerprint example_wm) (j mod 256))
        [0..<length (buffer_marks example_buffer (fingerprint example_wm))]"
  using example_wm_ok by (rule watermark_read_back)

text \<open>With 256 marks or more, the whole fingerprint is read back.\<close>

lemma watermark_recovers_fingerprint:
  assumes "buffer_fits buf" and "wm_supported buf" and "wm_wf st" and "has_identity st"
    and "dlp_watermark_apply (Some buf) (Some st) = Some (True, Some buf', calls)"
    and "256 \<le> length (buffer_marks buf (fingerprint st))"
  shows "fp_of_bits (take 256 (read_marks (buf_data buf')
      (buffer_marks buf (fingerprint st)))) = fingerprint st"
proof -
  let ?ms = "buffer_marks buf (fingerprint st)"
  have "map snd ?ms = map (\<lambda>j. j mod 256) [0..<length ?ms]"
    unfolding buffer_marks_def by (subst wm_marks_bits) simp_all
  then have "map (fp_bit (fingerprint st) \<circ> snd) ?ms =
      map (fp_bit (fingerprint st)) (map (\<lambda>j. j mod 256) [0..<length ?ms])"
    by (simp flip: map_map)
  then have "take 256 (map (fp_bit (fingerprint st) \<circ> snd) ?ms) =
      map (\<lambda>j. fp_bit (fingerprint st) (j mod 256)) [0..<256]"
    using assms(6) by (simp add: take_map min_def)
  also have "\<dots> = map (fp_bit (fingerprint st)) [0..<256]" by simp
  finally have "take 256 (map (fp_bit (fingerprint st) \<circ> snd) ?ms) =
      map (fp_bit (fingerprint st)) [0..<256]" .
  moreover have "buf_data buf' = write_marks (fingerprint st) (buf_data buf) ?ms"
    using assms(5) apply_supported [OF assms(1-4)] by auto
  ultimately show ?thesis
    using assms(3)
    by (simp add: read_write_marks [OF buffer_marks_ok [OF assms(1,2)]] fp_of_bits_all wm_wf_def)
qed

text \<open>C24. The watermark is invisible: it keeps the size of the pixel data, never touches more
  than the lowest bit of a byte, and touches no byte other than the blue bytes of the pixels of
  the picture; applying it a second time changes nothing.\<close>

theorem watermark_frame:
  assumes "buffer_fits buf" and "wm_supported buf" and "wm_wf st" and "has_identity st"
  shows "\<exists>px. dlp_watermark_apply (Some buf) (Some st) =
      Some (True, Some (buf\<lparr>buf_data := px\<rparr>), [BeginDataPtrAccess, EndDataPtrAccess]) \<and>
    dlp_watermark_apply (Some (buf\<lparr>buf_data := px\<rparr>)) (Some st) =
      Some (True, Some (buf\<lparr>buf_data := px\<rparr>), [BeginDataPtrAccess, EndDataPtrAccess]) \<and>
    length px = length (buf_data buf) \<and>
    (\<forall>i. px ! i AND 0xFE = buf_data buf ! i AND 0xFE) \<and>
    (\<forall>i. px ! i = buf_data buf ! i \<or>
      (\<exists>x y. x < nat (buf_width buf) \<and> y < nat (buf_height buf) \<and>
        i = y * buf_stride buf + x * 4 + nat (blue_offset (buf_format buf))))"
proof -
  let ?fp = "fingerprint st"
  let ?ms = "buffer_marks buf ?fp"
  let ?px = "write_marks ?fp (buf_data buf) ?ms"
  let ?buf = "buf\<lparr>buf_data := ?px\<rparr>"
  note ok = buffer_marks_ok [OF assms(1,2), of ?fp]
  have "buffer_marks ?buf ?fp = ?ms" by (simp add: buffer_marks_def)
  moreover have "buffer_fits ?buf" "wm_supported ?buf"
    using assms by (simp_all add: buffer_fits_def wm_supported_def)
  ultimately have "dlp_watermark_apply (Some ?buf) (Some st) =
      Some (True, Some ?buf, [BeginDataPtrAccess, EndDataPtrAccess])"
    using apply_supported [of ?buf st] assms(3,4) write_marks_idem [OF ok] by simp
  moreover have "fst ` set ?ms \<subseteq>
      set (blue_bytes (nat (blue_offset (buf_format buf))) (buf_stride buf)
        (nat (buf_width buf)) [0..<nat (buf_height buf)])"
    unfolding buffer_marks_def by (rule set_wm_marks)
  then have "?px ! i = buf_data buf ! i \<or>
      (\<exists>x y. x < nat (buf_width buf) \<and> y < nat (buf_height buf) \<and>
        i = y * buf_stride buf + x * 4 + nat (blue_offset (buf_format buf)))" for i
    using write_marks_other [of i ?ms ?fp "buf_data buf"] mem_blue_bytes [of i]
    by (metis (no_types, lifting) atLeastLessThan_iff set_upt subsetD)
  ultimately show ?thesis
    using apply_supported [OF assms] write_marks_high [OF ok]
    by (intro exI [of _ ?px]) simp
qed

theorem watermark_frame_witness:
  "\<exists>px. dlp_watermark_apply (Some example_buffer) (Some example_wm) =
      Some (True, Some (example_buffer\<lparr>buf_data := px\<rparr>), [BeginDataPtrAccess, EndDataPtrAccess]) \<and>
    dlp_watermark_apply (Some (example_buffer\<lparr>buf_data := px\<rparr>)) (Some example_wm) =
      Some (True, Some (example_buffer\<lparr>buf_data := px\<rparr>), [BeginDataPtrAccess, EndDataPtrAccess]) \<and>
    length px = length (buf_data example_buffer) \<and>
    (\<forall>i. px ! i AND 0xFE = buf_data example_buffer ! i AND 0xFE) \<and>
    (\<forall>i. px ! i = buf_data example_buffer ! i \<or>
      (\<exists>x y. x < nat (buf_width example_buffer) \<and> y < nat (buf_height example_buffer) \<and>
        i = y * buf_stride example_buffer + x * 4 + nat (blue_offset (buf_format example_buffer))))"
  using example_wm_ok by (rule watermark_frame)

text \<open>The result is true exactly when there is a buffer and a state with an identity, the
  buffer can be accessed and its format is supported; when it is false the buffer is unchanged.
  An access is ended exactly when it was begun successfully.\<close>

lemma watermark_outcome:
  assumes "dlp_watermark_apply buffer state = Some (ok, buffer', calls)"
  shows "(ok \<longleftrightarrow> (\<exists>buf st. buffer = Some buf \<and> state = Some st \<and> has_identity st \<and> wm_supported buf)) \<and>
    (ok \<or> buffer' = buffer) \<and>
    (EndDataPtrAccess \<in> set calls \<longleftrightarrow>
       (BeginDataPtrAccess \<in> set calls \<and> (\<exists>buf. buffer = Some buf \<and> buf_access buf)))"
  using assms
  by (auto simp: dlp_watermark_apply_def wm_supported_def Let_def bind_eq_Some_conv
      split: option.splits if_splits)

end
