(* ===== verification/Growable.thy ===== *)
theory Growable
  imports Prelude
begin

text \<open>
  The growable arrays of the library. Three components keep one, each in three variables (a block
  that \<^verbatim>\<open>realloc\<close> grows, a count and a capacity): the list of active compositors, the
  D-Bus proxies of a compositor, and the argument vector of bubblewrap. The record
  \<open>vec\<close> holds the three variables; the operations below are the C statements on them.
  The locale \<open>growable\<close> is the contract the first two share, and what follows for a sequence
  of additions is proved in it once; the argument vector grows by the same statements, but an
  addition to it can fail half-way.
\<close>

section \<open>The three variables\<close>

text \<open>
  A slot that was never written is \<^term>\<open>None\<close>. The \<^verbatim>\<open>NULL\<close> block is the empty list.
\<close>

record 'a vec =
  slots :: "'a option list"
  used :: nat
  cap :: nat

definition empty_vec :: "'a vec" where
  "empty_vec = \<lparr>slots = [], used = 0, cap = 0\<rparr>"

text \<open>
  \<^verbatim>\<open>realloc\<close> to \<open>n\<close> elements: fails, leaving the old block, or gives a block that starts
  with the old elements and whose other slots are not initialised.
\<close>

definition vec_realloc :: "bool \<Rightarrow> nat \<Rightarrow> 'a vec \<Rightarrow> 'a vec option" where
  "vec_realloc ok n v =
     (if ok then Some (v\<lparr>slots := take n (slots v) @ replicate (n - length (slots v)) None,
                         cap := n\<rparr>)
      else None)"

text \<open>\<^verbatim>\<open>a[count++] = x\<close>; outside the block this is undefined behaviour.\<close>

definition vec_append :: "'a \<Rightarrow> 'a vec \<Rightarrow> 'a vec option" where
  "vec_append x v =
     map_option (\<lambda>sl. v\<lparr>slots := sl, used := used v + 1\<rparr>) (store_at (slots v) (used v) (Some x))"

definition vec_wf :: "'a vec \<Rightarrow> bool" where
  "vec_wf v \<longleftrightarrow> length (slots v) = cap v \<and> used v \<le> cap v \<and> None \<notin> set (take (used v) (slots v))"

definition vec_elems :: "'a vec \<Rightarrow> 'a list" where
  "vec_elems v = map the (take (used v) (slots v))"

lemma vec_wf_empty [simp]: "vec_wf empty_vec"
  by (simp add: vec_wf_def empty_vec_def)

lemma vec_elems_empty [simp]: "vec_elems empty_vec = []"
  by (simp add: vec_elems_def empty_vec_def)

lemma length_vec_elems [simp]: "vec_wf v \<Longrightarrow> length (vec_elems v) = used v"
  by (simp add: vec_elems_def vec_wf_def)

lemma vec_wf_nth: "vec_wf v \<Longrightarrow> i < used v \<Longrightarrow> slots v ! i = Some (vec_elems v ! i)"
proof -
  assume wf: "vec_wf v" and i: "i < used v"
  then have "take (used v) (slots v) ! i \<in> set (take (used v) (slots v))"
    by (intro nth_mem) (simp add: vec_wf_def)
  with i have "slots v ! i \<in> set (take (used v) (slots v))" by simp
  with wf have "slots v ! i \<noteq> None" unfolding vec_wf_def by metis
  with wf i show ?thesis by (simp add: vec_elems_def vec_wf_def)
qed

lemma vec_realloc_Some:
  assumes "vec_wf v" and "vec_realloc ok n v = Some w" and "used v \<le> n"
  shows "vec_wf w" "vec_elems w = vec_elems v" "used w = used v" "cap w = n"
  using assms by (auto simp: vec_wf_def vec_elems_def vec_realloc_def min_def split: if_splits
      dest: in_set_takeD)

lemma vec_append_room:
  assumes "vec_wf v" and "used v < cap v"
  shows "\<exists>w. vec_append x v = Some w \<and> vec_wf w \<and> vec_elems w = vec_elems v @ [x] \<and>
    used w = used v + 1 \<and> cap w = cap v"
  using assms
  by (auto simp: vec_append_def vec_wf_def vec_elems_def take_Suc_conv_app_nth)

section \<open>Growing by doubling\<close>

text \<open>
  The pattern of \<^verbatim>\<open>compositor_list_add\<close> and of the proxy table: when the block is full it
  grows to twice its capacity, or to four elements the first time. The first component of the
  result says whether the element was stored.
\<close>

definition vec_add :: "bool \<Rightarrow> 'a \<Rightarrow> 'a vec \<Rightarrow> (bool \<times> 'a vec) option" where
  "vec_add alloc_ok x v =
     (if used v \<ge> cap v
      then (case vec_realloc alloc_ok (if cap v \<noteq> 0 then cap v * 2 else 4) v of
              None \<Rightarrow> Some (False, v)
            | Some w \<Rightarrow> map_option (\<lambda>u. (True, u)) (vec_append x w))
      else map_option (\<lambda>u. (True, u)) (vec_append x v))"

lemma vec_add_ok:
  assumes "vec_wf v" and "alloc_ok \<or> used v < cap v"
  shows "\<exists>w. vec_add alloc_ok x v = Some (True, w) \<and> vec_wf w \<and> vec_elems w = vec_elems v @ [x]"
proof (cases "used v < cap v")
  case True
  with vec_append_room [OF assms(1) True, of x] show ?thesis by (auto simp: vec_add_def)
next
  case False
  let ?n = "if cap v \<noteq> 0 then cap v * 2 else 4"
  obtain w where w: "vec_realloc alloc_ok ?n v = Some w"
    using assms False by (simp add: vec_realloc_def)
  have n: "used v < ?n" using assms(1) False by (simp add: vec_wf_def)
  then have le: "used v \<le> ?n" by simp
  note r = vec_realloc_Some [OF assms(1) w le]
  have "used w < cap w" using n by (simp only: r)
  from vec_append_room [OF r(1) this, of x] w r(2) False show ?thesis
    by (auto simp: vec_add_def)
qed

lemma vec_add_fail:
  "\<not> alloc_ok \<Longrightarrow> \<not> used v < cap v \<Longrightarrow> vec_add alloc_ok x v = Some (False, v)"
  by (simp add: vec_add_def vec_realloc_def)

section \<open>The contract\<close>

text \<open>
  What a client may rely on: an addition that is told it stored the element has appended it, one
  that is told it did not has changed nothing, and it stores it whenever memory is available.
\<close>

locale growable =
  fixes push :: "bool \<Rightarrow> 'e \<Rightarrow> 'v \<Rightarrow> (bool \<times> 'v) option"
    and elems :: "'v \<Rightarrow> 'e list"
    and inv :: "'v \<Rightarrow> bool"
  assumes push_total: "inv v \<Longrightarrow> \<exists>stored w. push ok x v = Some (stored, w)"
    and push_inv: "inv v \<Longrightarrow> push ok x v = Some (stored, w) \<Longrightarrow> inv w"
    and push_stored: "inv v \<Longrightarrow> push ok x v = Some (True, w) \<Longrightarrow> elems w = elems v @ [x]"
    and push_refused: "inv v \<Longrightarrow> push ok x v = Some (False, w) \<Longrightarrow> w = v \<and> \<not> ok"
begin

text \<open>One addition after the other, each with the outcome of its allocation.\<close>

fun pushes :: "(bool \<times> 'e) list \<Rightarrow> 'v \<Rightarrow> 'v option" where
  "pushes [] v = Some v"
| "pushes ((ok, x) # xs) v = Option.bind (push ok x v) (\<lambda>(_, w). pushes xs w)"

lemma push_elems:
  assumes "inv v" and "push ok x v = Some (stored, w)"
  shows "elems w = (if stored then elems v @ [x] else elems v)"
proof (cases stored)
  case True
  with push_stored [OF assms(1)] assms(2) show ?thesis by simp
next
  case False
  with push_refused [OF assms(1), of ok x w] assms(2) show ?thesis by simp
qed

lemma push_ok: "inv v \<Longrightarrow> \<exists>w. push True x v = Some (True, w)"
  using push_total [of v True x] push_refused [of v True x] by (metis (full_types))

lemma pushes_defined: "inv v \<Longrightarrow> \<exists>w. pushes xs v = Some w \<and> inv w"
proof (induction xs arbitrary: v)
  case (Cons p xs)
  obtain ok x where p: "p = (ok, x)" by fastforce
  obtain stored w where "push ok x v = Some (stored, w)"
    using push_total [OF Cons.prems] by blast
  with p Cons.IH [of w] push_inv [OF Cons.prems] show ?case by auto
qed simp

lemma pushes_elems:
  assumes "inv v" and "pushes xs v = Some w"
  shows "\<exists>ys. subseq ys (map snd xs) \<and> elems w = elems v @ ys"
  using assms
proof (induction xs arbitrary: v)
  case (Cons p xs)
  obtain ok x where p: "p = (ok, x)" by fastforce
  obtain stored u where u: "push ok x v = Some (stored, u)"
    using push_total [OF Cons.prems(1)] by blast
  have "inv u" using push_inv [OF Cons.prems(1) u] .
  moreover have "pushes xs u = Some w" using Cons.prems(2) p u by simp
  ultimately obtain ys where ys: "subseq ys (map snd xs)" "elems w = elems u @ ys"
    using Cons.IH by blast
  show ?case
  proof (cases stored)
    case True
    with ys push_elems [OF Cons.prems(1) u] p show ?thesis
      by (intro exI [of _ "x # ys"]) simp
  next
    case False
    with ys push_elems [OF Cons.prems(1) u] p show ?thesis
      by (intro exI [of _ ys]) auto
  qed
qed simp

lemma pushes_all_ok:
  "inv v \<Longrightarrow> \<exists>w. pushes (map (Pair True) xs) v = Some w \<and> inv w \<and> elems w = elems v @ xs"
proof (induction xs arbitrary: v)
  case (Cons x xs)
  obtain u where u: "push True x v = Some (True, u)"
    using push_ok [OF Cons.prems] by blast
  have "inv u" "elems u = elems v @ [x]"
    using push_inv [OF Cons.prems u] push_stored [OF Cons.prems u] by simp_all
  with Cons.IH [of u] u show ?case by auto
qed simp

end

interpretation doubling: growable vec_add vec_elems vec_wf
proof
  fix v :: "'a vec" and ok x
  assume wf: "vec_wf v"
  show "\<exists>stored w. vec_add ok x v = Some (stored, w)"
    using vec_add_ok [OF wf, of ok x] vec_add_fail [of ok v x] by blast
  fix stored w assume r: "vec_add ok x v = Some (stored, w)"
  show "vec_wf w"
    using wf r vec_add_ok [OF wf, of ok x] vec_add_fail [of ok v x] by fastforce
next
  fix v :: "'a vec" and ok x w
  assume wf: "vec_wf v"
  show "vec_add ok x v = Some (True, w) \<Longrightarrow> vec_elems w = vec_elems v @ [x]"
    using vec_add_ok [OF wf, of ok x] vec_add_fail [of ok v x] by fastforce
  show "vec_add ok x v = Some (False, w) \<Longrightarrow> w = v \<and> \<not> ok"
    using vec_add_ok [OF wf, of ok x] vec_add_fail [of ok v x] by fastforce
qed

end
