(* ===== verification/Compositor.thy ===== *)
theory Compositor
  imports Api_Types Watermark Growable
begin

text \<open>
  The data of \<^verbatim>\<open>src/compositor_internal.h\<close>: the compositor and the structs it links
  (toplevels, Xwayland surfaces, popups, client wrappers, D-Bus proxies), the listeners embedded in
  them, and the vocabulary in which the handlers of the other theories are stated: the calls they
  make into wlroots, libwayland and xkbcommon, and the answers they read from there.

  The libraries are not part of the program. A handler is therefore a function from the answers
  they give (the record \<open>wlr_view\<close>) and the compositor to the new compositor and the list of
  calls made, in order. Log output is left out.
\<close>

section \<open>The structs\<close>

text \<open>\<^verbatim>\<open>struct dlp_dbus_proxy\<close>\<close>

record dlp_dbus_proxy =
  proxy_pid :: int
  pipe_write_fd :: int
  socket_path :: string
  dir_path :: string

text \<open>
  \<^verbatim>\<open>struct coder_dlp_toplevel\<close>: its own address (the identity under which its listeners and
  the scene tree refer to it), the xdg toplevel and its scene tree. The type tag and the pointer
  back to the compositor are the same for all.
\<close>

record coder_dlp_toplevel =
  tl_addr :: addr
  tl_xdg_toplevel :: addr
  tl_scene_tree :: addr

text \<open>
  \<^verbatim>\<open>struct coder_dlp_xwayland_surface\<close>; its scene tree may be \<^verbatim>\<open>NULL\<close>.
\<close>

record coder_dlp_xwayland_surface =
  xs_addr :: addr
  xs_xwayland_surface :: addr
  xs_scene_tree :: ptr

text \<open>\<^verbatim>\<open>struct coder_dlp_popup\<close> of \<^verbatim>\<open>src/shell.c\<close>.\<close>

record coder_dlp_popup =
  pp_addr :: addr
  pp_xdg_popup :: addr

text \<open>
  What \<^verbatim>\<open>node.data\<close> of a scene tree points to: the first member of both structs is
  the tag \<^verbatim>\<open>enum dlp_surface_type\<close>, here the constructor.
\<close>

datatype surface_owner = DLP_SURFACE_XDG addr | DLP_SURFACE_XWAYLAND addr

text \<open>A callback of the public API: the function and its user data.\<close>

type_synonym callback = "addr \<times> ptr"

text \<open>
  \<^verbatim>\<open>struct coder_dlp_compositor\<close>. The three proxy variables are one \<^typ>\<open>'a vec\<close>. After the
  fields of the struct come the objects the handlers create and reach only through listeners
  (popups, client wrappers) and the two kinds of \<^verbatim>\<open>data\<close> pointers they store into wlroots
  objects: \<^verbatim>\<open>node.data\<close> of a scene tree and \<^verbatim>\<open>data\<close> of an xdg surface.
\<close>

record coder_dlp_compositor =
  policy :: coder_dlp_policy
  surface_cb :: ptr
  surface_cb_data :: ptr
  log_cb :: ptr
  log_cb_data :: ptr
  wl_display :: ptr
  wl_event_loop :: ptr
  backend :: ptr
  renderer :: ptr
  allocator :: ptr
  output_layout :: ptr
  scene :: ptr
  comp_output :: ptr
  toplevels :: "coder_dlp_toplevel list"
  xwayland :: ptr
  xwayland_surfaces :: "coder_dlp_xwayland_surface list"
  keyboard :: ptr
  cursor :: ptr
  cursor_mgr :: ptr
  touch :: ptr
  seat :: ptr
  security_context_mgr :: ptr
  client_count :: int
  socket :: "string option"
  output_title :: "string option"
  watermark :: dlp_watermark_state
  is_x11_backend :: bool
  reap_timer :: ptr
  dbus_proxies :: "dlp_dbus_proxy vec"
  popups :: "coder_dlp_popup list"
  client_wrappers :: "addr list"
  node_data :: "addr \<rightharpoonup> surface_owner"
  xdg_surface_data :: "addr \<rightharpoonup> addr"

text \<open>\<^verbatim>\<open>calloc(1, sizeof(*comp))\<close>\<close>

definition zero_policy :: coder_dlp_policy where
  "zero_policy =
     \<lparr>clipboard_block_outgoing = False, clipboard_block_incoming = False,
      screenshot_block = False, file_sandbox = False, network_sandbox = False,
      watermark_enabled = False\<rparr>"

definition zero_compositor :: coder_dlp_compositor where
  "zero_compositor =
     \<lparr>policy = zero_policy, surface_cb = None, surface_cb_data = None, log_cb = None,
      log_cb_data = None, wl_display = None, wl_event_loop = None, backend = None,
      renderer = None, allocator = None, output_layout = None, scene = None, comp_output = None,
      toplevels = [], xwayland = None, xwayland_surfaces = [], keyboard = None, cursor = None,
      cursor_mgr = None, touch = None, seat = None, security_context_mgr = None,
      client_count = 0, socket = None, output_title = None, watermark = zero_watermark_state,
      is_x11_backend = False, reap_timer = None, dbus_proxies = empty_vec, popups = [],
      client_wrappers = [], node_data = Map.empty, xdg_surface_data = Map.empty\<rparr>"

section \<open>Listeners and signals\<close>

text \<open>The \<^verbatim>\<open>struct wl_listener\<close> members, by the struct they are embedded in.\<close>

datatype comp_slot =
  New_output | New_input | New_xdg_toplevel | New_xdg_popup
| Request_set_selection | Request_set_primary_selection | Security_context_commit
| Client_created | Output_frame | Output_request_state | Output_destroy
| Keyboard_key | Keyboard_modifiers
| Touch_down | Touch_up | Touch_motion | Touch_cancel | Touch_frame
| Cursor_motion | Cursor_motion_absolute | Cursor_button | Cursor_axis | Cursor_frame
| Request_set_cursor | Xwayland_new_surface | Xwayland_ready

datatype toplevel_slot =
  Tl_map | Tl_unmap | Tl_commit | Tl_destroy | Tl_request_move | Tl_request_resize
| Tl_request_maximize | Tl_request_fullscreen

datatype popup_slot = Pp_commit | Pp_destroy

datatype xsurf_slot =
  Xs_associate | Xs_dissociate | Xs_map | Xs_unmap | Xs_destroy | Xs_request_configure
| Xs_request_move | Xs_request_resize | Xs_request_maximize | Xs_request_fullscreen
| Xs_request_activate | Xs_set_override_redirect | Xs_set_title | Xs_set_class

datatype listener =
  CompL comp_slot | ToplevelL addr toplevel_slot | PopupL addr popup_slot
| XSurfL addr xsurf_slot | ClientL addr

text \<open>A signal is an event of an object; the event is named as the C member is.\<close>

datatype emitter =
  Display | Backend | Seat | Cursor | Xdg_shell | Security_mgr | Xwayland
| Output addr | Keyboard addr | Touch addr | Surface addr | Xdg_toplevel addr | Xdg_popup addr
| Xwl_surface addr | Client addr

datatype signal = Signal emitter string

section \<open>Calls\<close>

datatype tree_parent = Scene_root | Tree addr

text \<open>
  The calls of the handlers, named after the functions called. The arguments that are the
  compositor's own singletons (its seat, scene, cursor) are left out.
\<close>

datatype wl_call =
  Wl_signal_add signal listener
| Wl_display_add_client_created_listener listener
| Wl_client_add_destroy_listener addr listener
| Wl_list_remove listener
| Wl_list_init listener
| Wl_display_flush_clients
| Wl_event_loop_dispatch int
| Wl_event_source_timer_update addr int
| Wl_event_source_remove addr
| Wl_display_destroy_clients
| Wl_display_destroy

text \<open>Memory that is freed, and the callback of \<^verbatim>\<open>coder_dlp_on_new_surface\<close>.\<close>

datatype own_call =
  Free_compositor
| Free_toplevel addr
| Free_popup addr
| Free_xsurf addr
| Free_client_wrapper addr
| Free_output_title
| Surface_callback addr addr ptr

datatype scene_call =
  Wlr_scene_xdg_surface_create tree_parent addr
| Wlr_scene_tree_create
| Wlr_scene_subsurface_tree_create ptr
| Wlr_scene_node_destroy addr
| Wlr_scene_node_destroy_root
| Wlr_scene_node_raise_to_top addr
| Wlr_scene_node_set_enabled addr bool
| Wlr_scene_node_set_position addr int int
| Wlr_scene_output_create addr
| Wlr_scene_output_layout_add_output
| Wlr_scene_output_build_state
| Wlr_scene_output_commit
| Wlr_scene_output_send_frame_done

datatype output_call =
  Wlr_output_init_render addr
| Wlr_output_state_init
| Wlr_output_state_set_enabled bool
| Wlr_output_state_set_mode addr
| Wlr_output_commit_state addr
| Wlr_output_state_finish
| Wlr_output_layout_add_auto addr
| Wlr_wl_output_set_title addr string
| Wlr_x11_output_set_title addr string
| Dlp_watermark_apply wlr_buffer

datatype xdg_call =
  Wlr_xdg_toplevel_set_activated addr bool
| Wlr_xdg_toplevel_set_size addr int int
| Wlr_xdg_toplevel_set_maximized addr bool
| Wlr_xdg_surface_schedule_configure addr

datatype xwl_call =
  Setenv string string
| Unsetenv string
| Wlr_xwayland_create
| Wlr_xwayland_set_seat
| Wlr_xwayland_destroy addr
| Wlr_xwayland_surface_activate addr bool
| Wlr_xwayland_surface_offer_focus addr
| Wlr_xwayland_surface_configure addr int int int int
| Wlr_xwayland_surface_set_maximized addr bool bool
| Wlr_xwayland_surface_set_fullscreen addr bool

datatype seat_call =
  Wlr_seat_set_selection ptr u32
| Wlr_seat_set_primary_selection ptr u32
| Wlr_seat_set_keyboard addr
| Wlr_seat_set_capabilities u32
| Wlr_seat_keyboard_notify_enter ptr addr
| Wlr_seat_keyboard_notify_key u32 u32 u32
| Wlr_seat_keyboard_notify_modifiers addr
| Wlr_seat_pointer_notify_enter addr double double
| Wlr_seat_pointer_notify_motion u32 double double
| Wlr_seat_pointer_notify_button u32 u32 u32
| Wlr_seat_pointer_notify_axis u32 nat double int nat nat
| Wlr_seat_pointer_notify_frame
| Wlr_seat_pointer_clear_focus
| Wlr_seat_touch_notify_down addr u32 int double double
| Wlr_seat_touch_notify_up u32 int
| Wlr_seat_touch_notify_motion u32 int double double
| Wlr_seat_touch_notify_cancel addr
| Wlr_seat_touch_notify_frame

datatype input_call =
  Xkb_context_new
| Xkb_keymap_new_from_names
| Xkb_keymap_unref
| Xkb_context_unref
| Wlr_keyboard_set_keymap addr
| Wlr_keyboard_set_repeat_info addr int int
| Wlr_cursor_attach_input_device addr
| Wlr_cursor_detach_input_device addr
| Wlr_cursor_move addr double double
| Wlr_cursor_warp_absolute addr double double
| Wlr_cursor_set_xcursor string
| Wlr_cursor_set_surface ptr int int
| Wlr_cursor_attach_output_layout
| Wlr_cursor_destroy addr
| Wlr_xcursor_manager_destroy addr

text \<open>Set up: \<open>Create_global\<close> is the creation of a protocol global whose result is not kept.\<close>

datatype setup_call =
  Wlr_log_init nat
| Wlr_renderer_init_wl_display
| Create_global string
| Wlr_backend_start
| Wlr_backend_destroy addr

datatype call =
  Wl wl_call | Own own_call | Scene scene_call | Out output_call | Xdg xdg_call | Xwl xwl_call
| Sea seat_call | Inp input_call | Setup setup_call

section \<open>Answers\<close>

datatype scene_node_type = WLR_SCENE_NODE_TREE | WLR_SCENE_NODE_RECT | WLR_SCENE_NODE_BUFFER

datatype icccm_input_model =
  WLR_ICCCM_INPUT_MODEL_NONE | WLR_ICCCM_INPUT_MODEL_PASSIVE | WLR_ICCCM_INPUT_MODEL_LOCAL
| WLR_ICCCM_INPUT_MODEL_GLOBAL

text \<open>
  What the handlers read of the library objects: fields such as
  \<^verbatim>\<open>seat->keyboard_state.focused_surface\<close> and results of functions that only answer, such
  as \<^verbatim>\<open>wlr_scene_node_at\<close>. A node is hit with its surface-local coordinates.
\<close>

record wlr_view =
  xdg_toplevel_base :: "addr \<Rightarrow> addr"
  xdg_popup_base :: "addr \<Rightarrow> addr"
  xdg_popup_parent :: "addr \<Rightarrow> addr"
  xdg_surface_surface :: "addr \<Rightarrow> addr"
  initial_commit :: "addr \<Rightarrow> bool"
  initialized :: "addr \<Rightarrow> bool"
  xdg_surface_try_from :: "addr \<Rightarrow> ptr"
  xdg_toplevel_try_from :: "addr \<Rightarrow> ptr"
  xwayland_surface_try_from :: "addr \<Rightarrow> ptr"
  focused_surface :: ptr
  seat_keyboard :: ptr
  seat_capabilities :: u32
  pointer_focused_client :: ptr
  touch_points :: "ptr list"
  output_width :: "addr \<Rightarrow> int"
  output_height :: "addr \<Rightarrow> int"
  cursor_x :: double
  cursor_y :: double
  times :: "double \<Rightarrow> int \<Rightarrow> double"
  scene_node_at :: "double \<Rightarrow> double \<Rightarrow> (addr \<times> double \<times> double) option"
  node_type :: "addr \<Rightarrow> scene_node_type"
  node_surface :: "addr \<Rightarrow> ptr"
  node_parent :: "addr \<Rightarrow> ptr"
  keyboard_modifiers :: "addr \<Rightarrow> u32"
  xwl_surface :: "addr \<Rightarrow> ptr"
  xwl_override_redirect :: "addr \<Rightarrow> bool"
  xwl_x :: "addr \<Rightarrow> int"
  xwl_y :: "addr \<Rightarrow> int"
  xwl_wants_focus :: "addr \<Rightarrow> bool"
  xwl_input_model :: "addr \<Rightarrow> icccm_input_model"
  xwl_display_name :: "string option"
  backend_is_wl :: bool
  backend_is_x11 :: bool

text \<open>The features of wlroots the library is compiled with (\<^verbatim>\<open>wlr/config.h\<close>).\<close>

record build_config =
  WLR_HAS_XWAYLAND :: bool
  WLR_HAS_X11_BACKEND :: bool

section \<open>The smallest operations of the public API\<close>

text \<open>
  \<^verbatim>\<open>coder_dlp_set_policy\<close> of \<^verbatim>\<open>src/dlp_policy.c\<close>
\<close>

definition coder_dlp_set_policy ::
    "coder_dlp_compositor option \<Rightarrow> coder_dlp_policy option \<Rightarrow> coder_dlp_compositor option" where
  "coder_dlp_set_policy cc pol =
     (case (cc, pol) of (Some c, Some p) \<Rightarrow> Some (c\<lparr>policy := p\<rparr>) | _ \<Rightarrow> cc)"

definition coder_dlp_get_client_count :: "coder_dlp_compositor option \<Rightarrow> int" where
  "coder_dlp_get_client_count cc = (case cc of Some c \<Rightarrow> client_count c | None \<Rightarrow> 0)"

definition coder_dlp_on_new_surface ::
    "coder_dlp_compositor option \<Rightarrow> ptr \<Rightarrow> ptr \<Rightarrow> coder_dlp_compositor option" where
  "coder_dlp_on_new_surface cc cb data =
     map_option (\<lambda>c. c\<lparr>surface_cb := cb, surface_cb_data := data\<rparr>) cc"

definition coder_dlp_set_log_callback ::
    "coder_dlp_compositor option \<Rightarrow> ptr \<Rightarrow> ptr \<Rightarrow> coder_dlp_compositor option" where
  "coder_dlp_set_log_callback cc cb user_data =
     map_option (\<lambda>c. c\<lparr>log_cb := cb, log_cb_data := user_data\<rparr>) cc"

definition coder_dlp_set_watermark_identity ::
    "coder_dlp_compositor option \<Rightarrow> string option \<Rightarrow> coder_dlp_compositor option" where
  "coder_dlp_set_watermark_identity cc identity =
     (case (cc, identity) of
        (Some c, Some _) \<Rightarrow>
          map_option (\<lambda>w. c\<lparr>watermark := w\<rparr>)
            (dlp_watermark_set_identity (Some (watermark c)) identity)
      | _ \<Rightarrow> cc)"

text \<open>
  \<^verbatim>\<open>coder_dlp_is_available\<close>: over the environment of the process.
\<close>

definition coder_dlp_is_available :: "build_config \<Rightarrow> (string \<rightharpoonup> string) \<Rightarrow> bool" where
  "coder_dlp_is_available cfg getenv =
     (if getenv ''WAYLAND_DISPLAY'' \<noteq> None then True
      else if WLR_HAS_X11_BACKEND cfg \<and> getenv ''DISPLAY'' \<noteq> None then True
      else False)"

text \<open>
  \<^verbatim>\<open>coder_dlp_get_xwayland_display\<close>: of \<^verbatim>\<open>src/xwayland.c\<close> when Xwayland is compiled
  in, else of \<^verbatim>\<open>src/compositor.c\<close>. The display name is a field of the Xwayland server.
\<close>

definition coder_dlp_get_xwayland_display ::
    "build_config \<Rightarrow> string option \<Rightarrow> coder_dlp_compositor option \<Rightarrow> string option" where
  "coder_dlp_get_xwayland_display cfg display_name cc =
     (if WLR_HAS_XWAYLAND cfg
      then (case cc of None \<Rightarrow> None
            | Some c \<Rightarrow> (case xwayland c of None \<Rightarrow> None | Some _ \<Rightarrow> display_name))
      else None)"

end
