(* ===== verification/Registry.thy ===== *)
theory Registry
  imports Compositor "HOL-Library.Multiset"
begin

text \<open>
  The process-wide list of active compositors of \<^verbatim>\<open>src/compositor.c\<close> and the log function
  that walks it. Compositors are known by their address; the heap maps the address of a live
  compositor to its struct and a freed address to nothing, so that the log function can be seen to
  follow live pointers only.
\<close>

type_synonym heap = "addr \<rightharpoonup> coder_dlp_compositor"

section \<open>The list\<close>

text \<open>\<^verbatim>\<open>s_active_compositors\<close> starts as \<open>{0}\<close>, that is \<^const>\<open>empty_vec\<close>.\<close>

definition compositor_list_add :: "bool \<Rightarrow> addr \<Rightarrow> addr vec \<Rightarrow> (bool \<times> addr vec) option" where
  "compositor_list_add alloc_ok c reg =
     (if used reg \<ge> cap reg
      then (case vec_realloc alloc_ok (if cap reg \<noteq> 0 then cap reg * 2 else 4) reg of
              None \<Rightarrow> Some (False, reg)
            | Some reg' \<Rightarrow> map_option (Pair True) (vec_append c reg'))
      else map_option (Pair True) (vec_append c reg))"

text \<open>The loop: the first entry equal to the compositor is replaced by the last one.\<close>

fun remove_loop :: "addr \<Rightarrow> nat list \<Rightarrow> addr vec \<Rightarrow> addr vec" where
  "remove_loop c [] reg = reg"
| "remove_loop c (i # is) reg =
     (if slots reg ! i = Some c
      then reg\<lparr>slots := (slots reg)[i := slots reg ! (used reg - 1)], used := used reg - 1\<rparr>
      else remove_loop c is reg)"

definition compositor_list_remove :: "addr \<Rightarrow> addr vec \<Rightarrow> addr vec" where
  "compositor_list_remove c reg = remove_loop c [0..<used reg] reg"

section \<open>The log function\<close>

datatype wlr_log_importance = WLR_SILENT | WLR_ERROR | WLR_INFO | WLR_DEBUG

datatype log_dest = To_callback addr ptr string | To_stderr string

definition level_name :: "wlr_log_importance \<Rightarrow> string" where
  "level_name importance =
     (if importance = WLR_ERROR then ''ERROR''
      else if importance = WLR_INFO then ''INFO'' else ''DEBUG'')"

text \<open>
  \<^verbatim>\<open>custom_wlr_log\<close> for a formatted message: where it goes. A freed compositor in the list
  is a use after free, \<^term>\<open>None\<close>.
\<close>

fun deliver :: "heap \<Rightarrow> string \<Rightarrow> string \<Rightarrow> addr list \<Rightarrow> log_dest option" where
  "deliver h full line [] = Some (To_stderr line)"
| "deliver h full line (c # cs) =
     (case h c of
        None \<Rightarrow> None
      | Some cc \<Rightarrow>
          (case log_cb cc of
             Some cb \<Rightarrow> Some (To_callback cb (log_cb_data cc) full)
           | None \<Rightarrow> deliver h full line cs))"

definition custom_wlr_log ::
    "heap \<Rightarrow> addr vec \<Rightarrow> wlr_log_importance \<Rightarrow> string \<Rightarrow> log_dest option" where
  "custom_wlr_log h reg importance text =
     (let buf = snprintf 1024 text;
          level = level_name importance;
          full = snprintf 1100 (''[wlr '' @ level @ ''] '' @ buf)
      in deliver h full (''[wlr '' @ level @ ''] '' @ buf @ ''\<newline>'') (vec_elems reg))"

section \<open>Lemmas\<close>

lemma compositor_list_add_vec_add: "compositor_list_add = vec_add"
  by (simp add: fun_eq_iff compositor_list_add_def vec_add_def)

interpretation registry: growable compositor_list_add vec_elems vec_wf
  unfolding compositor_list_add_vec_add by unfold_locales

lemma remove_loop_spec:
  assumes "vec_wf reg" and "\<forall>j < i. vec_elems reg ! j \<noteq> c" and "i \<le> used reg"
  shows "remove_loop c [i..<used reg] reg =
    (case List.find (\<lambda>k. vec_elems reg ! k = c) [i..<used reg] of
       None \<Rightarrow> reg
     | Some k \<Rightarrow> reg\<lparr>slots := (slots reg)[k := slots reg ! (used reg - 1)],
                    used := used reg - 1\<rparr>)"
  using assms(2,3)
proof (induction "used reg - i" arbitrary: i)
  case 0
  then show ?case by simp
next
  case (Suc n)
  then have i: "i < used reg" by simp
  have "[i..<used reg] = i # [Suc i..<used reg]" using i by (rule upt_conv_Cons)
  moreover have "slots reg ! i = Some (vec_elems reg ! i)" using assms(1) i by (rule vec_wf_nth)
  ultimately show ?case
    using Suc.hyps(1) [of "Suc i"] Suc.hyps(2) Suc.prems i less_Suc_eq by auto
qed

lemma find_index_split:
  assumes "c \<in> set xs"
  shows "\<exists>k < length xs. xs ! k = c \<and> List.find (\<lambda>k. xs ! k = c) [0..<length xs] = Some k"
proof -
  have "List.find (\<lambda>k. xs ! k = c) [0..<length xs] \<noteq> None"
    using assms by (auto simp: find_None_iff in_set_conv_nth)
  then obtain k where f: "List.find (\<lambda>k. xs ! k = c) [0..<length xs] = Some k" by blast
  then have "k < length xs \<and> xs ! k = c" by (auto simp: find_Some_iff)
  with f show ?thesis by blast
qed

lemma remove_present:
  assumes "vec_wf reg" and "c \<in> set (vec_elems reg)"
  shows "\<exists>k < used reg. vec_elems reg ! k = c \<and> vec_wf (compositor_list_remove c reg) \<and>
    vec_elems (compositor_list_remove c reg) =
      butlast ((vec_elems reg)[k := last (vec_elems reg)])"
proof -
  let ?n = "used reg"
  obtain k where k: "k < ?n" "vec_elems reg ! k = c"
    and find: "List.find (\<lambda>k. vec_elems reg ! k = c) [0..<?n] = Some k"
    using find_index_split [OF assms(2)] assms(1) by auto
  let ?sl = "(slots reg)[k := slots reg ! (?n - 1)]"
  have len: "length (slots reg) = cap reg" "?n \<le> cap reg" using assms(1) by (auto simp: vec_wf_def)
  have r: "compositor_list_remove c reg = reg\<lparr>slots := ?sl, used := ?n - 1\<rparr>"
    using remove_loop_spec [of reg 0 c] assms(1) find by (simp add: compositor_list_remove_def)
  have ne: "vec_elems reg \<noteq> []" using assms(2) by auto
  have nth: "take (?n - 1) ?sl = map Some (butlast ((vec_elems reg)[k := last (vec_elems reg)]))"
  proof (rule nth_equalityI)
    fix i assume "i < length (take (?n - 1) ?sl)"
    then have i: "i < ?n - 1" using len by simp
    then show "take (?n - 1) ?sl ! i =
        map Some (butlast ((vec_elems reg)[k := last (vec_elems reg)])) ! i"
      using assms(1) k len ne by (auto simp: nth_butlast vec_wf_nth nth_list_update last_conv_nth)
  qed (use assms(1) len in simp)
  then have "vec_elems (compositor_list_remove c reg) =
      butlast ((vec_elems reg)[k := last (vec_elems reg)])"
    by (simp add: r vec_elems_def [of "reg\<lparr>slots := _, used := _\<rparr>"] o_def)
  moreover have "vec_wf (compositor_list_remove c reg)"
    using nth len k by (auto simp: r vec_wf_def)
  ultimately show ?thesis using k by blast
qed

lemma remove_absent:
  assumes "vec_wf reg" and "c \<notin> set (vec_elems reg)"
  shows "compositor_list_remove c reg = reg"
proof -
  have "List.find (\<lambda>k. vec_elems reg ! k = c) [0..<used reg] = None"
    using assms by (auto simp: find_None_iff in_set_conv_nth)
  then show ?thesis
    using remove_loop_spec [of reg 0 c] assms(1) by (simp add: compositor_list_remove_def)
qed

lemma mset_swap_last:
  assumes "k < length xs"
  shows "mset (butlast (xs[k := last xs])) = mset xs - {#xs ! k#}"
proof -
  have ne: "xs \<noteq> []" using assms by auto
  have "last (xs[k := last xs]) = last xs"
    using assms ne by (simp add: last_conv_nth nth_list_update)
  moreover have "mset (butlast ys) = mset ys - {#last ys#}" if "ys \<noteq> []" for ys :: "'a list"
    by (subst (2) append_butlast_last_id [OF that, symmetric], subst mset_append) simp
  ultimately show ?thesis
    using assms ne by (simp add: mset_update)
qed

lemma remove_mset:
  assumes "vec_wf reg"
  shows "vec_wf (compositor_list_remove c reg) \<and>
    mset (vec_elems (compositor_list_remove c reg)) = mset (vec_elems reg) - {#c#}"
proof (cases "c \<in> set (vec_elems reg)")
  case True
  with remove_present [OF assms True] assms show ?thesis by (auto simp: mset_swap_last)
next
  case False
  with remove_absent [OF assms False] assms show ?thesis by (simp add: diff_single_trivial)
qed

text \<open>Removing a compositor takes exactly one entry for it out of the list and keeps every
  other entry (the last entry moves into the hole); if there is no entry for it, the list is
  unchanged. The list stays well-formed, and a compositor that was listed once is gone.\<close>

lemma compositor_list_remove_spec:
  assumes "vec_wf reg"
  shows "vec_wf (compositor_list_remove c reg) \<and>
    mset (vec_elems (compositor_list_remove c reg)) = mset (vec_elems reg) - {#c#} \<and>
    cap (compositor_list_remove c reg) = cap reg"
proof -
  have "cap (remove_loop c is reg) = cap reg" for "is"
    by (induction "is") simp_all
  with remove_mset [OF assms, of c] show ?thesis by (simp add: compositor_list_remove_def)
qed

text \<open>A log message goes to the first listed compositor that has a callback, in one piece:
  the level prefix is never cut off, only the message text is cut to 1023 characters; without any
  callback it goes to the standard error. Every listed pointer up to that compositor is read, so
  the list must hold live compositors only.\<close>

lemma custom_wlr_log_first_callback:
  assumes "vec_wf reg"
    and "vec_elems reg = cs @ c # ds"
    and "list_all (\<lambda>d. \<exists>cc. h d = Some cc \<and> log_cb cc = None) cs"
    and "h c = Some cc" and "log_cb cc = Some cb"
  shows "custom_wlr_log h reg importance text =
    Some (To_callback cb (log_cb_data cc)
      (''[wlr '' @ level_name importance @ ''] '' @ take 1023 text))"
proof -
  have "length (level_name importance) \<le> 5" by (simp add: level_name_def)
  then have full: "snprintf 1100 (''[wlr '' @ level_name importance @ ''] '' @ snprintf 1024 text) =
      ''[wlr '' @ level_name importance @ ''] '' @ take 1023 text"
    by (intro trans [OF snprintf_short]) (simp_all add: snprintf_def)
  have "deliver h full line (cs @ c # ds) = Some (To_callback cb (log_cb_data cc) full)" for full line
    using assms(3-5) by (induction cs) auto
  with assms(2) full show ?thesis by (simp add: custom_wlr_log_def Let_def)
qed

lemma custom_wlr_log_no_callback:
  assumes "list_all (\<lambda>d. \<exists>cc. h d = Some cc \<and> log_cb cc = None) (vec_elems reg)"
  shows "\<exists>line. custom_wlr_log h reg importance text = Some (To_stderr line)"
proof -
  have "deliver h full line cs = Some (To_stderr line)"
    if "list_all (\<lambda>d. \<exists>cc. h d = Some cc \<and> log_cb cc = None) cs" for full line cs
    using that by (induction cs) auto
  with assms show ?thesis by (simp add: custom_wlr_log_def Let_def)
qed

end
