(* ===== verification/Process.thy ===== *)
theory Process
  imports Compositor
begin

text \<open>
  The part of the operating system that \<^verbatim>\<open>src/sandbox_launcher.c\<close> drives: child
  processes, file descriptors, and the files and directories it makes under \<^verbatim>\<open>/tmp\<close>. The
  calls whose misuse is a bug are partial: closing a descriptor that is not open (it may since be
  someone else's), signalling a process that is not a child any more, and waiting without a limit
  for a child nobody told to exit are \<^term>\<open>None\<close>.
\<close>

text \<open>What a child process becomes: the program it executes, or the status it exits with.\<close>

datatype child_image = Exec "string list" | Exit int

record child =
  image :: child_image
  sigterm :: bool

record os =
  children :: "int \<rightharpoonup> child"
  open_fds :: "int set"
  files :: "string set"
  dirs :: "string set"

definition sys_open :: "int \<Rightarrow> os \<Rightarrow> os" where
  "sys_open fd s = s\<lparr>open_fds := insert fd (open_fds s)\<rparr>"

definition sys_close :: "int \<Rightarrow> os \<Rightarrow> os option" where
  "sys_close fd s = (if fd \<in> open_fds s then Some (s\<lparr>open_fds := open_fds s - {fd}\<rparr>) else None)"

definition sys_fork :: "int \<Rightarrow> child_image \<Rightarrow> os \<Rightarrow> os" where
  "sys_fork pid img s = s\<lparr>children := (children s)(pid \<mapsto> \<lparr>image = img, sigterm = False\<rparr>)\<rparr>"

text \<open>\<^verbatim>\<open>kill(pid, SIGTERM)\<close>; a child that exited and was not waited for is still there.\<close>

definition sys_kill :: "int \<Rightarrow> os \<Rightarrow> os option" where
  "sys_kill pid s =
     (case children s pid of
        None \<Rightarrow> None
      | Some ch \<Rightarrow> Some (s\<lparr>children := (children s)(pid \<mapsto> ch\<lparr>sigterm := True\<rparr>)\<rparr>))"

text \<open>\<^verbatim>\<open>waitpid(pid, NULL, 0)\<close>: returns at once if there is no such child.\<close>

definition sys_waitpid :: "int \<Rightarrow> os \<Rightarrow> os option" where
  "sys_waitpid pid s =
     (case children s pid of
        None \<Rightarrow> Some s
      | Some ch \<Rightarrow> if sigterm ch then Some (s\<lparr>children := (children s)(pid := None)\<rparr>) else None)"

text \<open>\<^verbatim>\<open>waitpid(pid, &status, WNOHANG)\<close>, where \<open>exited\<close> says which children have exited.\<close>

definition sys_waitpid_nohang :: "(int \<Rightarrow> bool) \<Rightarrow> int \<Rightarrow> os \<Rightarrow> int \<times> os" where
  "sys_waitpid_nohang exited pid s =
     (case children s pid of
        None \<Rightarrow> (-1, s)
      | Some ch \<Rightarrow> if exited pid then (pid, s\<lparr>children := (children s)(pid := None)\<rparr>) else (0, s))"

definition sys_mkdir :: "string \<Rightarrow> os \<Rightarrow> os" where
  "sys_mkdir d s = s\<lparr>dirs := insert d (dirs s)\<rparr>"

definition sys_unlink :: "string \<Rightarrow> os \<Rightarrow> os" where
  "sys_unlink p s = s\<lparr>files := files s - {p}\<rparr>"

text \<open>A directory is removed only when it holds no file.\<close>

definition in_dir :: "string \<Rightarrow> string \<Rightarrow> bool" where
  "in_dir d f \<longleftrightarrow> prefix (d @ ''/'') f \<and> CHR ''/'' \<notin> set (drop (length d + 1) f)"

definition sys_rmdir :: "string \<Rightarrow> os \<Rightarrow> os" where
  "sys_rmdir d s = (if \<exists>f \<in> files s. in_dir d f then s else s\<lparr>dirs := dirs s - {d}\<rparr>)"

lemma in_dir_unique: "in_dir d (d' @ ''/bus'') \<longleftrightarrow> d' = d"
proof
  assume d: "in_dir d (d' @ ''/bus'')"
  then obtain r where r: "d' @ ''/bus'' = d @ CHR ''/'' # r"
    by (auto simp: in_dir_def prefix_def)
  with d have n: "CHR ''/'' \<notin> set r" unfolding in_dir_def r by simp
  have "d' @ CHR ''/'' # ''bus'' = d @ CHR ''/'' # r" using r by simp
  then obtain us where "(d' = d @ us \<and> us @ CHR ''/'' # ''bus'' = CHR ''/'' # r) \<or>
      (d' @ us = d \<and> CHR ''/'' # ''bus'' = us @ CHR ''/'' # r)"
    unfolding append_eq_append_conv2 by blast
  with n show "d' = d" by (cases us) (auto simp: Cons_eq_append_conv)
qed (simp add: in_dir_def)

section \<open>Resources\<close>

text \<open>What a process holds of the system, as one set.\<close>

datatype resource = Child int | Fd int | File string | Dir string

definition resources :: "os \<Rightarrow> resource set" where
  "resources s = Child ` dom (children s) \<union> Fd ` open_fds s \<union> File ` files s \<union> Dir ` dirs s"

lemma in_resources [simp]:
  "Child p \<in> resources s \<longleftrightarrow> p \<in> dom (children s)" "Fd fd \<in> resources s \<longleftrightarrow> fd \<in> open_fds s"
  "File f \<in> resources s \<longleftrightarrow> f \<in> files s" "Dir d \<in> resources s \<longleftrightarrow> d \<in> dirs s"
  by (auto simp: resources_def)

lemma resources_eqI:
  assumes "\<And>r. r \<in> resources s \<longleftrightarrow> r \<in> R"
  shows "resources s = R"
  using assms by blast

text \<open>The effect of the calls on the resources.\<close>

lemma resources_open: "resources (sys_open fd s) = insert (Fd fd) (resources s)"
  by (auto simp: resources_def sys_open_def)

lemma resources_close: "sys_close fd s = Some t \<Longrightarrow> resources t = resources s - {Fd fd}"
  by (auto simp: resources_def sys_close_def split: if_splits)

lemma files_close: "sys_close fd s = Some t \<Longrightarrow> files t = files s"
  by (auto simp: sys_close_def split: if_splits)

lemma resources_fork: "resources (sys_fork pid img s) = insert (Child pid) (resources s)"
  by (auto simp: resources_def sys_fork_def)

lemma resources_mkdir: "resources (sys_mkdir d s) = insert (Dir d) (resources s)"
  by (auto simp: resources_def sys_mkdir_def)

lemma resources_unlink: "resources (sys_unlink p s) = resources s - {File p}"
  by (auto simp: resources_def sys_unlink_def)

lemma resources_rmdir:
  "(\<And>f. File f \<in> resources s \<Longrightarrow> \<not> in_dir d f) \<Longrightarrow> resources (sys_rmdir d s) = resources s - {Dir d}"
  by (auto simp: resources_def sys_rmdir_def)

lemma resources_nohang:
  "sys_waitpid_nohang exited pid s = (ret, t) \<Longrightarrow> 0 < pid \<Longrightarrow>
     resources t = (if ret > 0 then resources s - {Child pid} else resources s)"
  by (auto simp: resources_def sys_waitpid_nohang_def split: option.splits if_splits)

lemma resources_kill_wait:
  assumes "Child pid \<in> resources s"
  obtains t u where "sys_kill pid s = Some t" "sys_waitpid pid t = Some u"
    "resources u = resources s - {Child pid}" "open_fds u = open_fds s" "files u = files s" "dirs u = dirs s"
    "children u = (children s)(pid := None)"
proof -
  from assms obtain ch where "children s pid = Some ch" by auto
  then show thesis
    by (intro that [of "s\<lparr>children := (children s)(pid \<mapsto> ch\<lparr>sigterm := True\<rparr>)\<rparr>"
          "s\<lparr>children := (children s)(pid := None)\<rparr>"])
      (auto simp: sys_kill_def sys_waitpid_def resources_def)
qed

end
