(* ===== verification/Bwrap.thy ===== *)
theory Bwrap
  imports Compositor
begin

text \<open>
  The argument vector of the sandbox: \<^verbatim>\<open>dlp_build_bwrap_args\<close> and
  \<^verbatim>\<open>dlp_free_bwrap_args\<close> of \<^verbatim>\<open>src/sandbox_launcher.c\<close>. The words it pushes are given
  section by section in the order of the code; the \<^verbatim>\<open>PUSH\<close> macro with its two allocations
  and the \<^verbatim>\<open>oom\<close> exit are modelled on the growable array. What the vector means is in \<open>Bwrap_Spec\<close>.
\<close>

definition PATH_MAX :: nat where
  "PATH_MAX = 4096"

section \<open>The words\<close>

text \<open>
  The sandbox configuration may be \<^verbatim>\<open>NULL\<close>; a test \<^verbatim>\<open>sandbox && sandbox->f\<close> is
  \<open>sb_flag f\<close>.
\<close>

definition sb_flag ::
    "(coder_dlp_sandbox_config \<Rightarrow> bool) \<Rightarrow> coder_dlp_sandbox_config option \<Rightarrow> bool" where
  "sb_flag f sandbox = (case sandbox of None \<Rightarrow> False | Some sb \<Rightarrow> f sb)"

text \<open>The root, \<^verbatim>\<open>/dev\<close>, \<^verbatim>\<open>/proc\<close>, \<^verbatim>\<open>/tmp\<close> and the home directory.\<close>

definition filesystem_words ::
    "(string \<rightharpoonup> string) \<Rightarrow> coder_dlp_sandbox_config option \<Rightarrow> string list" where
  "filesystem_words getenv sandbox =
     (if sb_flag isolate_filesystem sandbox then
        [''--ro-bind'', ''/'', ''/'', ''--dev'', ''/dev'', ''--dev-bind'', ''/dev/dri'', ''/dev/dri'',
         ''--bind'', ''/dev/shm'', ''/dev/shm'', ''--proc'', ''/proc'', ''--tmpfs'', ''/tmp''] @
        (case getenv ''HOME'' of
           None \<Rightarrow> []
         | Some home \<Rightarrow>
             if sb_flag bind_home_rw sandbox then [''--bind'', home, home]
             else [''--tmpfs'', home])
      else
        [''--bind'', ''/'', ''/'', ''--dev'', ''/dev'', ''--dev-bind'', ''/dev/dri'', ''/dev/dri'',
         ''--bind'', ''/dev/shm'', ''/dev/shm'', ''--proc'', ''/proc'', ''--tmpfs'', ''/tmp''])"

text \<open>\<^verbatim>\<open>XDG_RUNTIME_DIR\<close> and the socket and lock file of the compositor in it.\<close>

definition runtime_words :: "string option \<Rightarrow> string option \<Rightarrow> string list" where
  "runtime_words xdg_runtime sock =
     (case xdg_runtime of
        None \<Rightarrow> []
      | Some xdg \<Rightarrow>
          [''--tmpfs'', xdg] @
          (case sock of
             None \<Rightarrow> []
           | Some s \<Rightarrow>
               (let sock_path = snprintf PATH_MAX (xdg @ ''/'' @ s);
                    lock_path = snprintf PATH_MAX (xdg @ ''/'' @ s @ ''.lock'')
                in [''--bind'', sock_path, sock_path, ''--ro-bind'', lock_path, lock_path])))"

definition workspace_words :: "coder_dlp_sandbox_config option \<Rightarrow> string list" where
  "workspace_words sandbox =
     (case sandbox of
        None \<Rightarrow> []
      | Some sb \<Rightarrow>
          (case (isolate_filesystem sb, workspace_path sb) of
             (True, Some p) \<Rightarrow> [''--bind'', p, p]
           | _ \<Rightarrow> []))"

text \<open>
  The loop over the extra paths skips \<^verbatim>\<open>NULL\<close> entries; reading past the array is undefined
  behaviour.
\<close>

fun extra_bind_loop :: "string option list \<Rightarrow> nat list \<Rightarrow> string list option" where
  "extra_bind_loop paths [] = Some []"
| "extra_bind_loop paths (i # is) = do {
     p \<leftarrow> load_at paths i;
     ws \<leftarrow> extra_bind_loop paths is;
     Some ((case p of None \<Rightarrow> [] | Some s \<Rightarrow> [''--bind'', s, s]) @ ws)
   }"

definition extra_bind_words :: "coder_dlp_sandbox_config option \<Rightarrow> string list option" where
  "extra_bind_words sandbox =
     (case sandbox of
        None \<Rightarrow> Some []
      | Some sb \<Rightarrow>
          (case extra_bind_paths sb of
             None \<Rightarrow> Some []
           | Some paths \<Rightarrow> extra_bind_loop paths [0..<nat (extra_bind_count sb)]))"

definition namespace_words :: "coder_dlp_sandbox_config option \<Rightarrow> string list" where
  "namespace_words sandbox =
     (if sb_flag isolate_pid sandbox then [''--unshare-pid''] else []) @
     (if sb_flag isolate_ipc sandbox then [''--unshare-ipc''] else []) @
     (if sb_flag (\<lambda>sb. network_namespace sb \<noteq> None) sandbox then [''--unshare-net''] else [])"

definition environment_words :: "string option \<Rightarrow> string option \<Rightarrow> string list" where
  "environment_words xdg_runtime sock =
     [''--setenv'', ''WAYLAND_DISPLAY'', (case sock of Some s \<Rightarrow> s | None \<Rightarrow> ''wayland-0'')] @
     (case xdg_runtime of None \<Rightarrow> [] | Some xdg \<Rightarrow> [''--setenv'', ''XDG_RUNTIME_DIR'', xdg])"

text \<open>
  The session bus: a non-empty socket is the filtering proxy, the empty string means no bus, and
  \<^verbatim>\<open>NULL\<close> the real bus if its socket exists (\<^verbatim>\<open>access(dbus_path, F_OK)\<close>).
\<close>

definition dbus_words ::
    "(string \<Rightarrow> bool) \<Rightarrow> string option \<Rightarrow> string option \<Rightarrow> string list" where
  "dbus_words exists_file xdg_runtime dbus_proxy_socket =
     (case xdg_runtime of
        None \<Rightarrow> []
      | Some xdg \<Rightarrow>
          (let dbus_path = snprintf PATH_MAX (xdg @ ''/bus'');
               dbus_addr = snprintf (PATH_MAX + 32) (''unix:path='' @ dbus_path)
           in case dbus_proxy_socket of
                Some (c # cs) \<Rightarrow>
                  [''--bind'', c # cs, dbus_path,
                   ''--setenv'', ''DBUS_SESSION_BUS_ADDRESS'', dbus_addr]
              | Some [] \<Rightarrow> [''--unsetenv'', ''DBUS_SESSION_BUS_ADDRESS'']
              | None \<Rightarrow>
                  if exists_file dbus_path
                  then [''--bind'', dbus_path, dbus_path,
                        ''--setenv'', ''DBUS_SESSION_BUS_ADDRESS'', dbus_addr]
                  else []))"

text \<open>X11: through Xwayland if it runs, else not at all.\<close>

definition x11_socket :: "string \<Rightarrow> string" where
  "x11_socket xwl_display =
     (let display_num = (case xwl_display of c # cs \<Rightarrow> if c = CHR '':'' then cs else xwl_display
                         | [] \<Rightarrow> xwl_display)
      in snprintf PATH_MAX (''/tmp/.X11-unix/X'' @ display_num))"

definition display_words :: "string option \<Rightarrow> string list" where
  "display_words xwl_display =
     (case xwl_display of
        Some d \<Rightarrow>
          [''--setenv'', ''DISPLAY'', d, ''--bind'', x11_socket d, x11_socket d,
           ''--setenv'', ''ELECTRON_OZONE_PLATFORM_HINT'', ''wayland'',
           ''--setenv'', ''MOZ_ENABLE_WAYLAND'', ''1'']
      | None \<Rightarrow>
          [''--unsetenv'', ''DISPLAY'',
           ''--setenv'', ''GDK_BACKEND'', ''wayland'',
           ''--setenv'', ''QT_QPA_PLATFORM'', ''wayland'',
           ''--setenv'', ''SDL_VIDEODRIVER'', ''wayland''])"

definition final_words :: "string \<Rightarrow> string list" where
  "final_words command =
     [''--setenv'', ''ELECTRON_NO_SANDBOX'', ''1'', ''--die-with-parent'', ''--new-session'',
      ''--'', ''/bin/sh'', ''-c'', command]"

text \<open>
  What the words depend on outside the arguments: the environment, the file system, the build and
  the display name of the Xwayland server.
\<close>

record launch_host =
  host_getenv :: "string \<rightharpoonup> string"
  host_exists :: "string \<Rightarrow> bool"
  host_config :: build_config
  host_display_name :: "string option"

definition bwrap_words ::
    "launch_host \<Rightarrow> coder_dlp_compositor \<Rightarrow> string \<Rightarrow> coder_dlp_sandbox_config option
       \<Rightarrow> string option \<Rightarrow> string list option" where
  "bwrap_words host cc command sandbox dbus_proxy_socket = do {
     let xdg_runtime = host_getenv host ''XDG_RUNTIME_DIR'';
     extra \<leftarrow> extra_bind_words sandbox;
     Some ([''bwrap''] @ filesystem_words (host_getenv host) sandbox @
           runtime_words xdg_runtime (socket cc) @ workspace_words sandbox @ extra @
           namespace_words sandbox @ environment_words xdg_runtime (socket cc) @
           dbus_words (host_exists host) xdg_runtime dbus_proxy_socket @
           display_words (coder_dlp_get_xwayland_display (host_config host)
             (host_display_name host) (Some cc)) @
           final_words command)
   }"

section \<open>PUSH and the memory of the vector\<close>

text \<open>
  The vector under construction: the array, the number of allocation requests made so far (the
  \<open>n\<close>-th request succeeds if \<open>mem n\<close>) and the number of live blocks this call owns.
\<close>

record argv_builder =
  argv :: "string vec"
  requests :: nat
  live :: int

text \<open>\<^verbatim>\<open>argv[argc++] = strdup(s)\<close>; the flag is the test that follows.\<close>

definition push_strdup ::
    "(nat \<Rightarrow> bool) \<Rightarrow> string \<Rightarrow> argv_builder \<Rightarrow> (bool \<times> argv_builder) option" where
  "push_strdup mem s b =
     (let ok = mem (requests b); v = argv b in
      map_option (\<lambda>sl. (ok, b\<lparr>argv := v\<lparr>slots := sl, used := used v + 1\<rparr>,
                               requests := requests b + 1,
                               live := live b + (if ok then 1 else 0)\<rparr>))
        (store_at (slots v) (used v) (if ok then Some s else None)))"

definition push :: "(nat \<Rightarrow> bool) \<Rightarrow> string \<Rightarrow> argv_builder \<Rightarrow> (bool \<times> argv_builder) option" where
  "push mem s b =
     (let v = argv b in
      if used v \<ge> cap v - 1
      then (case vec_realloc (mem (requests b)) (cap v * 2) v of
              None \<Rightarrow> Some (False, b\<lparr>requests := requests b + 1\<rparr>)
            | Some w \<Rightarrow> push_strdup mem s (b\<lparr>argv := w, requests := requests b + 1\<rparr>))
      else push_strdup mem s b)"

fun push_words ::
    "(nat \<Rightarrow> bool) \<Rightarrow> string list \<Rightarrow> argv_builder \<Rightarrow> (bool \<times> argv_builder) option" where
  "push_words mem [] b = Some (True, b)"
| "push_words mem (s # ss) b = do {
     (ok, b) \<leftarrow> push mem s b;
     if ok then push_words mem ss b else Some (False, b)
   }"

text \<open>
  The strings of a vector up to its length that are not \<^verbatim>\<open>NULL\<close>, each of which
  \<^verbatim>\<open>free\<close> releases; freeing \<^verbatim>\<open>NULL\<close> does nothing. The block of the vector is freed last.
\<close>

definition free_strings :: "argv_builder \<Rightarrow> nat" where
  "free_strings b = length (filter (\<lambda>x. x \<noteq> None) (take (used (argv b)) (slots (argv b))))"

definition oom :: "argv_builder \<Rightarrow> argv_builder" where
  "oom b = b\<lparr>argv := empty_vec, live := live b - int (free_strings b) - 1\<rparr>"

text \<open>
  \<^verbatim>\<open>dlp_build_bwrap_args\<close>: the vector or \<^verbatim>\<open>NULL\<close>, and the number of live blocks it
  leaves. \<^term>\<open>None\<close> is undefined behaviour.
\<close>

definition dlp_build_bwrap_args ::
    "(nat \<Rightarrow> bool) \<Rightarrow> launch_host \<Rightarrow> coder_dlp_compositor option \<Rightarrow> string option
       \<Rightarrow> coder_dlp_sandbox_config option \<Rightarrow> string option
       \<Rightarrow> (argv_builder option \<times> int) option" where
  "dlp_build_bwrap_args mem host cc command sandbox dbus_proxy_socket =
     (case (cc, command) of
        (Some c, Some cmd) \<Rightarrow>
          if \<not> mem 0 then Some (None, 0)
          else do {
            words \<leftarrow> bwrap_words host c cmd sandbox dbus_proxy_socket;
            (ok, b) \<leftarrow> push_words mem words
              \<lparr>argv = \<lparr>slots = replicate 64 None, used = 0, cap = 64\<rparr>, requests = 1, live = 1\<rparr>;
            if ok
            then do {
              sl \<leftarrow> store_at (slots (argv b)) (used (argv b)) None;
              Some (Some (b\<lparr>argv := (argv b)\<lparr>slots := sl\<rparr>\<rparr>), live b)
            }
            else Some (None, live (oom b))
          }
      | _ \<Rightarrow> Some (None, 0))"

text \<open>
  The vector as the program that is executed sees it: the strings up to the first
  \<^verbatim>\<open>NULL\<close>; without one in the block it would be read past its end.
\<close>

definition c_argv :: "argv_builder \<Rightarrow> string list option" where
  "c_argv b =
     (if None \<in> set (slots (argv b))
      then Some (map the (takeWhile (\<lambda>x. x \<noteq> None) (slots (argv b)))) else None)"

text \<open>\<^verbatim>\<open>dlp_free_bwrap_args\<close>: the live blocks left.\<close>

definition dlp_free_bwrap_args :: "argv_builder option \<Rightarrow> int \<Rightarrow> int" where
  "dlp_free_bwrap_args b n =
     (case b of
        None \<Rightarrow> n
      | Some b \<Rightarrow> n - int (length (takeWhile (\<lambda>x. x \<noteq> None) (slots (argv b)))) - 1)"

section \<open>The builder is correct\<close>

text \<open>
  The invariant between two pushes: the block is as large as the capacity, there is room for the
  final \<^verbatim>\<open>NULL\<close>, every slot pushed so far holds a string, and the call owns those strings
  and the block.
\<close>

definition builder_inv :: "argv_builder \<Rightarrow> bool" where
  "builder_inv b \<longleftrightarrow>
     vec_wf (argv b) \<and> used (argv b) < cap (argv b) \<and> 2 \<le> cap (argv b) \<and>
     live b = int (used (argv b)) + 1"

lemma filter_not_None: "None \<notin> set xs \<Longrightarrow> filter (\<lambda>x. x \<noteq> None) xs = xs"
  by (rule filter_True) metis

lemma free_strings_inv: "builder_inv b \<Longrightarrow> free_strings b = used (argv b)"
  unfolding builder_inv_def vec_wf_def free_strings_def by (subst filter_not_None) auto

lemma oom_live: "builder_inv b \<Longrightarrow> live (oom (b\<lparr>requests := n\<rparr>)) = 0"
  using free_strings_inv [of b] by (simp add: oom_def builder_inv_def free_strings_def)

lemma push_strdup_ok:
  assumes "vec_wf (argv b)" and "used (argv b) + 1 < cap (argv b)" and "live b = int (used (argv b)) + 1"
    and "mem (requests b)"
  shows "\<exists>b'. push_strdup mem s b = Some (True, b') \<and> builder_inv b' \<and>
    vec_elems (argv b') = vec_elems (argv b) @ [s]"
proof -
  have "used (argv b) < cap (argv b)" using assms(2) by simp
  from vec_append_room [OF assms(1) this, of s] assms show ?thesis
    by (auto simp: push_strdup_def vec_append_def Let_def builder_inv_def)
qed

lemma push_strdup_fail:
  assumes "vec_wf (argv b)" and "used (argv b) + 1 < cap (argv b)" and "live b = int (used (argv b)) + 1"
    and "\<not> mem (requests b)"
  shows "\<exists>b'. push_strdup mem s b = Some (False, b') \<and> live (oom b') = 0"
proof -
  have "take (Suc (used (argv b))) ((slots (argv b))[used (argv b) := None]) =
      take (used (argv b)) (slots (argv b)) @ [None]"
    using assms(1,2) by (simp add: vec_wf_def take_Suc_conv_app_nth)
  moreover have "filter (\<lambda>x. x \<noteq> None) (take (used (argv b)) (slots (argv b))) =
      take (used (argv b)) (slots (argv b))"
    using assms(1) by (intro filter_not_None) (simp add: vec_wf_def)
  ultimately show ?thesis
    using assms by (auto simp: push_strdup_def Let_def oom_def free_strings_def vec_wf_def)
qed

lemma push_step:
  assumes "builder_inv b"
  shows "\<exists>ok b'. push mem s b = Some (ok, b') \<and>
    (if ok then builder_inv b' \<and> vec_elems (argv b') = vec_elems (argv b) @ [s]
     else live (oom b') = 0 \<and> (\<exists>n. \<not> mem n))"
proof -
  have inv: "vec_wf (argv b)" "used (argv b) < cap (argv b)" "2 \<le> cap (argv b)"
    "live b = int (used (argv b)) + 1"
    using assms by (auto simp: builder_inv_def)
  have dup: "\<exists>ok b'. push_strdup mem s c = Some (ok, b') \<and>
    (if ok then builder_inv b' \<and> vec_elems (argv b') = vec_elems (argv c) @ [s]
     else live (oom b') = 0 \<and> (\<exists>n. \<not> mem n))"
    if "vec_wf (argv c)" "used (argv c) + 1 < cap (argv c)" "live c = int (used (argv c)) + 1" for c
    using push_strdup_ok [OF that, of mem s] push_strdup_fail [OF that, of mem s]
    by (cases "mem (requests c)") fastforce+
  show ?thesis
  proof (cases "used (argv b) \<ge> cap (argv b) - 1")
    case False
    then have "used (argv b) + 1 < cap (argv b)" by simp
    from dup [OF inv(1) this inv(4)] False show ?thesis by (simp add: push_def Let_def)
  next
    case True
    show ?thesis
    proof (cases "vec_realloc (mem (requests b)) (cap (argv b) * 2) (argv b)")
      case None
      then have "\<not> mem (requests b)" by (simp add: vec_realloc_def split: if_splits)
      with None True show ?thesis
        using oom_live [OF assms] by (auto simp: push_def Let_def)
    next
      case (Some w)
      have le: "used (argv b) \<le> cap (argv b) * 2" using inv(2) by simp
      note r = vec_realloc_Some [OF inv(1) Some le]
      let ?c = "b\<lparr>argv := w, requests := requests b + 1\<rparr>"
      have "vec_wf (argv ?c)" "used (argv ?c) + 1 < cap (argv ?c)"
        "live ?c = int (used (argv ?c)) + 1"
        using r inv by simp_all
      from dup [OF this] obtain ok b' where "push_strdup mem s ?c = Some (ok, b')"
        and "if ok then builder_inv b' \<and> vec_elems (argv b') = vec_elems (argv b) @ [s]
          else live (oom b') = 0 \<and> (\<exists>n. \<not> mem n)"
        using r(2) by auto
      then show ?thesis using Some True by (intro exI [of _ ok] exI [of _ b']) (simp add: push_def Let_def)
    qed
  qed
qed

lemma push_words_spec:
  assumes "builder_inv b"
  shows "\<exists>ok b'. push_words mem ws b = Some (ok, b') \<and>
    (if ok then builder_inv b' \<and> vec_elems (argv b') = vec_elems (argv b) @ ws
     else live (oom b') = 0 \<and> (\<exists>n. \<not> mem n))"
  using assms
proof (induction ws arbitrary: b)
  case (Cons s ws)
  obtain ok c where c: "push mem s b = Some (ok, c)"
    and step: "if ok then builder_inv c \<and> vec_elems (argv c) = vec_elems (argv b) @ [s]
     else live (oom c) = 0 \<and> (\<exists>n. \<not> mem n)"
    using push_step [OF Cons.prems] by blast
  show ?case
  proof (cases ok)
    case True
    with step have "builder_inv c" "vec_elems (argv c) = vec_elems (argv b) @ [s]" by simp_all
    with Cons.IH [of c] obtain ok' d where "push_words mem ws c = Some (ok', d)"
      and "if ok' then builder_inv d \<and> vec_elems (argv d) = vec_elems (argv b) @ s # ws
        else live (oom d) = 0 \<and> (\<exists>n. \<not> mem n)"
      by auto
    with c True show ?thesis by (intro exI [of _ ok'] exI [of _ d]) simp
  next
    case False
    with step c show ?thesis by (intro exI [of _ False] exI [of _ c]) simp
  qed
next
  case Nil
  then show ?case by (intro exI [of _ True] exI [of _ b]) simp
qed

lemma takeWhile_terminated:
  assumes "length sl = c" and "n < c" and "None \<notin> set (take n sl)"
  shows "takeWhile (\<lambda>x. x \<noteq> None) (sl[n := None]) = take n sl"
proof -
  have "sl[n := None] = take n sl @ None # drop (Suc n) sl"
    using assms(1,2) by (simp add: upd_conv_take_nth_drop)
  moreover have "\<forall>x \<in> set (take n sl). x \<noteq> None" using assms(3) by metis
  ultimately show ?thesis by (simp add: takeWhile_tail)
qed

text \<open>
  What building the vector gives for the words \<open>ws\<close>, whatever allocation fails: the vector of
  exactly these words, or \<^verbatim>\<open>NULL\<close>; and who owns what afterwards.
\<close>

definition built :: "(nat \<Rightarrow> bool) \<Rightarrow> string list \<Rightarrow> argv_builder option \<Rightarrow> int \<Rightarrow> bool" where
  "built mem ws r n \<longleftrightarrow>
     (case r of
        Some b \<Rightarrow> c_argv b = Some ws \<and> n = int (length ws) + 1 \<and> dlp_free_bwrap_args r n = 0
      | None \<Rightarrow> n = 0 \<and> (\<exists>k. \<not> mem k))"

lemma build_bwrap_args_result:
  assumes "bwrap_words host c cmd sandbox proxy = Some ws"
  shows "\<exists>r n. dlp_build_bwrap_args mem host (Some c) (Some cmd) sandbox proxy = Some (r, n) \<and>
    built mem ws r n"
proof (cases "mem 0")
  case False
  then show ?thesis by (auto simp: built_def dlp_build_bwrap_args_def)
next
  case True
  let ?b = "\<lparr>argv = \<lparr>slots = replicate 64 None, used = 0, cap = 64\<rparr>, requests = 1, live = 1\<rparr>"
  have "builder_inv ?b" by (simp add: builder_inv_def vec_wf_def)
  from push_words_spec [OF this, of mem ws] obtain ok b
    where b: "push_words mem ws ?b = Some (ok, b)"
      and spec: "if ok then builder_inv b \<and> vec_elems (argv b) = ws
        else live (oom b) = 0 \<and> (\<exists>n. \<not> mem n)"
    by (auto simp: vec_elems_def [of "\<lparr>slots = _, used = 0, cap = _\<rparr>"])
  show ?thesis
  proof (cases ok)
    case False
    with b spec True assms show ?thesis by (auto simp: built_def dlp_build_bwrap_args_def)
  next
    case ok: True
    with spec have inv: "vec_wf (argv b)" "used (argv b) < cap (argv b)"
      and live: "live b = int (used (argv b)) + 1" and ws: "vec_elems (argv b) = ws"
      by (auto simp: builder_inv_def)
    let ?sl = "(slots (argv b))[used (argv b) := None]"
    have len: "length (slots (argv b)) = cap (argv b)" and n: "None \<notin> set (take (used (argv b)) (slots (argv b)))"
      using inv by (auto simp: vec_wf_def)
    have tw: "takeWhile (\<lambda>x. x \<noteq> None) ?sl = take (used (argv b)) (slots (argv b))"
      using len inv(2) n by (rule takeWhile_terminated)
    have "None \<in> set ?sl" using inv(2) len by (simp add: set_update_memI)
    moreover have "used (argv b) = length ws" using ws inv(1) by (metis length_vec_elems)
    ultimately show ?thesis
      using b ok True assms live inv(2) len tw ws
      by (auto simp: built_def dlp_build_bwrap_args_def c_argv_def vec_elems_def dlp_free_bwrap_args_def)
  qed
qed

end
