(* ===== verification/Dbus_Proxy.thy ===== *)
theory Dbus_Proxy
  imports Process Bwrap
begin

text \<open>
  The D-Bus filter of \<^verbatim>\<open>src/sandbox_launcher.c\<close>: the search for the proxy program, the
  argument vector it is executed with, starting it (\<^verbatim>\<open>dlp_start_dbus_proxy\<close>), and reaping
  and cleaning up the proxies of a compositor.
\<close>

section \<open>Looking for a program\<close>

text \<open>\<^verbatim>\<open>strtok\<close> with one delimiter gives the non-empty pieces.\<close>

fun split_on :: "char \<Rightarrow> string \<Rightarrow> string list" where
  "split_on d [] = [[]]"
| "split_on d (c # cs) =
     (if c = d then [] # split_on d cs
      else (case split_on d cs of [] \<Rightarrow> [[c]] | w # ws \<Rightarrow> (c # w) # ws))"

definition strtok_all :: "char \<Rightarrow> string \<Rightarrow> string list" where
  "strtok_all d s = filter (\<lambda>w. w \<noteq> []) (split_on d s)"

text \<open>
  \<^verbatim>\<open>find_in_path\<close>: \<open>executable p\<close> is \<^verbatim>\<open>access(p, X_OK) == 0\<close>, \<open>dup_ok\<close>
  whether the copy of \<^verbatim>\<open>PATH\<close> could be made.
\<close>

fun find_tokens :: "(string \<Rightarrow> bool) \<Rightarrow> string \<Rightarrow> string list \<Rightarrow> bool" where
  "find_tokens executable name [] = False"
| "find_tokens executable name (tok # toks) =
     (if executable (snprintf PATH_MAX (tok @ ''/'' @ name)) then True
      else find_tokens executable name toks)"

definition find_in_path ::
    "(string \<rightharpoonup> string) \<Rightarrow> bool \<Rightarrow> (string \<Rightarrow> bool) \<Rightarrow> string \<Rightarrow> bool" where
  "find_in_path getenv dup_ok executable name =
     (case getenv ''PATH'' of
        None \<Rightarrow> False
      | Some path \<Rightarrow> if \<not> dup_ok then False
          else find_tokens executable name (strtok_all (CHR '':'') path))"

section \<open>The proxy's argument vector\<close>

text \<open>\<^verbatim>\<open>%d\<close>\<close>

fun dec_nat :: "nat \<Rightarrow> string" where
  "dec_nat n = (if n < 10 then [char_of (48 + n)] else dec_nat (n div 10) @ [char_of (48 + n mod 10)])"

definition dec_int :: "int \<Rightarrow> string" where
  "dec_int i = (if i < 0 then CHR ''-'' # dec_nat (nat (- i)) else dec_nat (nat i))"

declare dec_nat.simps [simp del]

definition default_rules :: "string list" where
  "default_rules =
     [''--call=org.freedesktop.portal.Desktop='' @
        ''org.freedesktop.portal.Settings.*@/org/freedesktop/portal/desktop'',
      ''--call=org.freedesktop.portal.Desktop='' @
        ''org.freedesktop.portal.Inhibit.*@/org/freedesktop/portal/desktop'',
      ''--talk=org.a11y.Bus'',
      ''--see=org.freedesktop.Notifications'',
      ''--call=org.freedesktop.Notifications='' @
        ''org.freedesktop.Notifications.Notify@/org/freedesktop/Notifications'',
      ''--call=org.freedesktop.Notifications='' @
        ''org.freedesktop.Notifications.GetCapabilities@/org/freedesktop/Notifications'',
      ''--call=org.freedesktop.Notifications='' @
        ''org.freedesktop.Notifications.GetServerInformation@/org/freedesktop/Notifications'']"

text \<open>The loop over the configured names, from index \<open>i\<close> with \<open>ac\<close> words in the vector.\<close>

function talk_loop :: "string option list \<Rightarrow> int \<Rightarrow> nat \<Rightarrow> nat \<Rightarrow> string list option" where
  "talk_loop names talk_count i ac =
     (if int i < talk_count \<and> i < 16 \<and> ac < 60
      then do {
        name \<leftarrow> load_at names i;
        (case name of
           None \<Rightarrow> talk_loop names talk_count (i + 1) ac
         | Some s \<Rightarrow> do {
             ws \<leftarrow> talk_loop names talk_count (i + 1) (ac + 1);
             Some (snprintf 256 (''--talk='' @ s) # ws)
           })
      }
      else Some [])"
  by pat_completeness auto
termination
  by (relation "measure (\<lambda>(_, _, i, _). 16 - i)") auto

declare talk_loop.simps [simp del]

text \<open>
  The child of \<^verbatim>\<open>dlp_start_dbus_proxy\<close>: it executes the proxy, or exits with 125 if the
  vector of 128 pointers has no room for the final \<^verbatim>\<open>NULL\<close>. \<^term>\<open>None\<close> is undefined
  behaviour.
\<close>

definition proxy_image ::
    "string \<Rightarrow> string \<Rightarrow> int \<Rightarrow> coder_dlp_sandbox_config option \<Rightarrow> child_image option" where
  "proxy_image dbus_addr sock read_fd sandbox = do {
     let base = [''xdg-dbus-proxy'', dbus_addr, sock, ''--filter'',
                 snprintf 32 (''--fd='' @ dec_int read_fd)] @ default_rules;
     talks \<leftarrow> (case sandbox of
                None \<Rightarrow> Some []
              | Some sb \<Rightarrow>
                  (case dbus_talk_names sb of
                     None \<Rightarrow> Some []
                   | Some names \<Rightarrow> talk_loop names (dbus_talk_count sb) 0 (length base)));
     Some (if length (base @ talks) \<ge> 127 then Exit 125 else Exec (base @ talks))
   }"

section \<open>Starting the proxy\<close>

text \<open>
  The outcomes of the system calls of one start: the suffix \<^verbatim>\<open>mkdtemp\<close> chose, the two ends
  of the pipe, what \<^verbatim>\<open>fork\<close> returned in the parent, the inotify descriptor (negative if
  there is none), and whether the \<open>n\<close>-th look at the socket path finds the socket. The look
  number 1 of the inotify branch only decides whether to wait in \<^verbatim>\<open>poll\<close> before number 2.
\<close>

record start_env =
  se_getenv :: "string \<rightharpoonup> string"
  se_dup_ok :: bool
  se_executable :: "string \<Rightarrow> bool"
  se_mkdtemp :: "string option"
  se_pipe :: "(int \<times> int) option"
  se_fork :: int
  se_inotify :: int
  se_socket :: "nat \<Rightarrow> bool"

text \<open>\<^verbatim>\<open>mkdtemp\<close> replaces the six X of its template.\<close>

definition proxy_dir :: "string \<Rightarrow> string" where
  "proxy_dir sfx = ''/tmp/coder-dlp-dbus-'' @ sfx"

fun socket_poll :: "(nat \<Rightarrow> bool) \<Rightarrow> nat \<Rightarrow> nat \<Rightarrow> bool" where
  "socket_poll look k 0 = False"
| "socket_poll look k (Suc n) = (if look k then True else socket_poll look (k + 1) n)"

definition wait_for_socket :: "start_env \<Rightarrow> os \<Rightarrow> (bool \<times> os) option" where
  "wait_for_socket e s =
     (if se_socket e 0 then Some (True, s)
      else if se_inotify e \<ge> 0
      then do {
        s \<leftarrow> sys_close (se_inotify e) (sys_open (se_inotify e) s);
        Some (se_socket e 2, s)
      }
      else Some (socket_poll (se_socket e) 1 200, s))"

text \<open>
  The proxy makes its socket at some time after the fork; from then on it is a file of the system.
  That it may come too late for the parent is the \<open>look\<close> that never finds it.
\<close>

definition proxy_makes_socket :: "string \<Rightarrow> os \<Rightarrow> os" where
  "proxy_makes_socket p s = s\<lparr>files := insert p (files s)\<rparr>"

definition no_proxy :: dlp_dbus_proxy where
  "no_proxy = \<lparr>proxy_pid = -1, pipe_write_fd = -1, socket_path = [], dir_path = []\<rparr>"

definition dlp_start_dbus_proxy ::
    "start_env \<Rightarrow> coder_dlp_sandbox_config option \<Rightarrow> dlp_dbus_proxy \<Rightarrow> os
       \<Rightarrow> (int \<times> dlp_dbus_proxy \<times> os) option" where
  "dlp_start_dbus_proxy e sandbox proxy s =
     (case se_getenv e ''DBUS_SESSION_BUS_ADDRESS'' of
        None \<Rightarrow> Some (-1, proxy, s)
      | Some dbus_addr \<Rightarrow>
          if \<not> find_in_path (se_getenv e) (se_dup_ok e) (se_executable e) ''xdg-dbus-proxy''
          then Some (-1, proxy, s)
          else (case se_mkdtemp e of
             None \<Rightarrow> Some (-1, proxy\<lparr>dir_path := snprintf 256 ''/tmp/coder-dlp-dbus-XXXXXX''\<rparr>, s)
           | Some sfx \<Rightarrow>
               let dir = proxy_dir sfx;
                   sock = snprintf 256 (dir @ ''/bus'');
                   proxy = proxy\<lparr>dir_path := dir, socket_path := sock\<rparr>;
                   s = sys_mkdir dir s
               in (case se_pipe e of
                 None \<Rightarrow> Some (-1, proxy, s)
               | Some (rd, wr) \<Rightarrow>
                   let s = sys_open wr (sys_open rd s); pid = se_fork e
                   in if pid < 0
                      then do {
                        s \<leftarrow> sys_close rd s;
                        s \<leftarrow> sys_close wr s;
                        Some (-1, proxy, s)
                      }
                      else do {
                        img \<leftarrow> proxy_image dbus_addr sock rd sandbox;
                        s \<leftarrow> sys_close rd (proxy_makes_socket sock (sys_fork pid img s));
                        let proxy = proxy\<lparr>proxy_pid := pid, pipe_write_fd := wr\<rparr>;
                        (socket_ready, s) \<leftarrow> wait_for_socket e s;
                        if \<not> socket_ready
                        then do {
                          s \<leftarrow> sys_kill pid s;
                          s \<leftarrow> sys_waitpid pid s;
                          s \<leftarrow> sys_close wr s;
                          Some (-1, proxy\<lparr>proxy_pid := 0, pipe_write_fd := -1\<rparr>,
                                sys_rmdir dir (sys_unlink sock s))
                        }
                        else Some (0, proxy, s)
                      })))"

section \<open>Reaping and cleaning up\<close>

text \<open>One round of the loop of \<^verbatim>\<open>dlp_reap_dbus_proxies\<close>.\<close>

definition reap_entry :: "(int \<Rightarrow> bool) \<Rightarrow> dlp_dbus_proxy \<Rightarrow> os \<Rightarrow> (dlp_dbus_proxy \<times> os) option" where
  "reap_entry exited p s =
     (if proxy_pid p \<le> 0 then Some (p, s)
      else let (ret, s) = sys_waitpid_nohang exited (proxy_pid p) s
      in if ret > 0
         then do {
           (p, s) \<leftarrow> (if pipe_write_fd p \<ge> 0
                     then map_option (\<lambda>s. (p\<lparr>pipe_write_fd := -1\<rparr>, s)) (sys_close (pipe_write_fd p) s)
                     else Some (p, s));
           let s = (if socket_path p \<noteq> [] then sys_unlink (socket_path p) s else s);
           let s = (if dir_path p \<noteq> [] then sys_rmdir (dir_path p) s else s);
           Some (p\<lparr>proxy_pid := 0\<rparr>, s)
         }
         else Some (p, s))"

text \<open>One round of the loop of \<^verbatim>\<open>dlp_cleanup_dbus_proxies\<close>.\<close>

definition cleanup_entry ::
    "(int \<Rightarrow> bool) \<Rightarrow> dlp_dbus_proxy \<Rightarrow> os \<Rightarrow> (dlp_dbus_proxy \<times> os) option" where
  "cleanup_entry exited p s =
     (if proxy_pid p = 0 then Some (p, s)
      else do {
        (p, s) \<leftarrow> (if pipe_write_fd p \<ge> 0
                  then map_option (\<lambda>s. (p\<lparr>pipe_write_fd := -1\<rparr>, s)) (sys_close (pipe_write_fd p) s)
                  else Some (p, s));
        s \<leftarrow> (if proxy_pid p > 0
              then let (ret, s) = sys_waitpid_nohang exited (proxy_pid p) s
                   in if ret = 0
                      then do { s \<leftarrow> sys_kill (proxy_pid p) s; sys_waitpid (proxy_pid p) s }
                      else Some s
              else Some s);
        let s = (if socket_path p \<noteq> [] then sys_unlink (socket_path p) s else s);
        let s = (if dir_path p \<noteq> [] then sys_rmdir (dir_path p) s else s);
        Some (p, s)
      })"

text \<open>
  A loop over the table, rewriting its entries in place; a \<^verbatim>\<open>NULL\<close> slot or an index outside
  the block is undefined behaviour.
\<close>

fun table_loop ::
    "(dlp_dbus_proxy \<Rightarrow> os \<Rightarrow> (dlp_dbus_proxy \<times> os) option) \<Rightarrow> nat list \<Rightarrow> dlp_dbus_proxy vec \<Rightarrow> os
       \<Rightarrow> (dlp_dbus_proxy vec \<times> os) option" where
  "table_loop body [] v s = Some (v, s)"
| "table_loop body (i # is) v s = do {
     entry \<leftarrow> load_at (slots v) i;
     p \<leftarrow> entry;
     (p, s) \<leftarrow> body p s;
     sl \<leftarrow> store_at (slots v) i (Some p);
     table_loop body is (v\<lparr>slots := sl\<rparr>) s
   }"

definition dlp_reap_dbus_proxies ::
    "(int \<Rightarrow> bool) \<Rightarrow> coder_dlp_compositor option \<Rightarrow> os \<Rightarrow> (coder_dlp_compositor option \<times> os) option" where
  "dlp_reap_dbus_proxies exited cc s =
     (case cc of
        None \<Rightarrow> Some (None, s)
      | Some c \<Rightarrow>
          if cap (dbus_proxies c) = 0 then Some (Some c, s)
          else do {
            (v, s) \<leftarrow> table_loop (reap_entry exited) [0..<used (dbus_proxies c)] (dbus_proxies c) s;
            Some (Some (c\<lparr>dbus_proxies := v\<rparr>), s)
          })"

definition dlp_cleanup_dbus_proxies ::
    "(int \<Rightarrow> bool) \<Rightarrow> coder_dlp_compositor option \<Rightarrow> os \<Rightarrow> (coder_dlp_compositor option \<times> os) option" where
  "dlp_cleanup_dbus_proxies exited cc s =
     (case cc of
        None \<Rightarrow> Some (None, s)
      | Some c \<Rightarrow> do {
          (v, s) \<leftarrow> table_loop (cleanup_entry exited) [0..<used (dbus_proxies c)] (dbus_proxies c) s;
          Some (Some (c\<lparr>dbus_proxies := empty_vec\<rparr>), s)
        })"

section \<open>The search is correct\<close>

lemma split_on_neq [simp]: "split_on d s \<noteq> []"
  by (induction s) (auto split: list.split)

text \<open>The pieces are the maximal parts between delimiters.\<close>

definition is_piece :: "char \<Rightarrow> string \<Rightarrow> string \<Rightarrow> bool" where
  "is_piece d w s \<longleftrightarrow>
     d \<notin> set w \<and> (\<exists>pre post. s = pre @ w @ post \<and> (pre = [] \<or> last pre = d) \<and> (post = [] \<or> hd post = d))"

lemma split_on_append: "d \<notin> set w \<Longrightarrow> split_on d (w @ s) = (w @ hd (split_on d s)) # tl (split_on d s)"
  by (induction w) (auto split: list.split)

lemma split_on_delim: "split_on d (p @ d # s) = split_on d p @ split_on d s"
proof (induction p)
  case (Cons c p)
  then show ?case by (cases "split_on d p") auto
qed simp

lemma is_piece_if: "is_piece d w s \<Longrightarrow> w \<in> set (split_on d s)"
proof -
  assume "is_piece d w s"
  then obtain pre post where w: "d \<notin> set w" and s: "s = pre @ w @ post"
    and pre: "pre = [] \<or> last pre = d" and post: "post = [] \<or> hd post = d"
    unfolding is_piece_def by blast
  have 1: "w \<in> set (split_on d (w @ post))"
  proof (cases post)
    case Nil
    with split_on_append [OF w, of "[]"] show ?thesis by simp
  next
    case (Cons a t)
    with post split_on_append [OF w, of "[]"] show ?thesis by (simp add: split_on_delim)
  qed
  show ?thesis
  proof (cases "pre = []")
    case False
    with pre have "pre = butlast pre @ [d]" by (metis append_butlast_last_id)
    then have "s = butlast pre @ d # w @ post" using s by (metis append.assoc append_Cons append_Nil)
    then show ?thesis using 1 by (simp add: split_on_delim)
  qed (use 1 s in simp)
qed

lemma is_piece_only: "w \<in> set (split_on d s) \<Longrightarrow> is_piece d w s"
proof (induction "length s" arbitrary: s rule: less_induct)
  case less
  show ?case
  proof (cases "d \<in> set s")
    case False
    with split_on_append [OF False, of "[]"] less.prems have "w = s" by simp
    with False show ?thesis
      unfolding is_piece_def by (intro conjI exI [of _ "[]"]) simp_all
  next
    case True
    then obtain p t where s: "s = p @ d # t" and p: "d \<notin> set p" by (meson split_list_first)
    with split_on_append [OF p, of "[]"] less.prems
    consider "w = p" | "w \<in> set (split_on d t)" by (auto simp: split_on_delim)
    then show ?thesis
    proof cases
      case 1
      with s p show ?thesis
        unfolding is_piece_def by (intro conjI exI [of _ "[]"] exI [of _ "d # t"]) auto
    next
      case 2
      with less.hyps [of t] s obtain pre post where "d \<notin> set w" "t = pre @ w @ post"
        "pre = [] \<or> last pre = d" "post = [] \<or> hd post = d"
        by (auto simp: is_piece_def)
      with s show ?thesis
        unfolding is_piece_def by (intro conjI exI [of _ "p @ d # pre"] exI [of _ post]) auto
    qed
  qed
qed

lemma find_tokens_iff:
  "find_tokens executable name toks \<longleftrightarrow>
     (\<exists>tok \<in> set toks. executable (snprintf PATH_MAX (tok @ ''/'' @ name)))"
  by (induction toks) auto

text \<open>The search for a program says yes exactly if PATH is set, it could be copied, and some
  non-empty piece of it between colons, joined with the name, is executable; empty pieces, which
  for a shell mean the current directory, are skipped.\<close>

lemma find_in_path_spec:
  "find_in_path getenv dup_ok executable name \<longleftrightarrow>
     dup_ok \<and> (\<exists>path tok. getenv ''PATH'' = Some path \<and> tok \<noteq> [] \<and> is_piece (CHR '':'') tok path \<and>
       executable (snprintf PATH_MAX (tok @ ''/'' @ name)))"
proof -
  have "w \<in> set (strtok_all (CHR '':'') path) \<longleftrightarrow> w \<noteq> [] \<and> is_piece (CHR '':'') w path" for w path
    using is_piece_if is_piece_only by (auto simp: strtok_all_def)
  then show ?thesis
    by (auto simp: find_in_path_def find_tokens_iff split: option.split)
qed

section \<open>The argument vector is correct\<close>

text \<open>The names the vector may use: those of the first sixteen entries that are not NULL.\<close>

definition talk_names :: "coder_dlp_sandbox_config option \<Rightarrow> string list" where
  "talk_names sandbox =
     (case sandbox of
        None \<Rightarrow> []
      | Some sb \<Rightarrow>
          (case dbus_talk_names sb of
             None \<Rightarrow> []
           | Some names \<Rightarrow>
               map the (filter (\<lambda>n. n \<noteq> None) (take (min 16 (nat (dbus_talk_count sb))) names))))"

definition talk_in_range :: "coder_dlp_sandbox_config option \<Rightarrow> bool" where
  "talk_in_range sandbox \<longleftrightarrow>
     (case sandbox of
        None \<Rightarrow> True
      | Some sb \<Rightarrow>
          (case dbus_talk_names sb of
             None \<Rightarrow> True
           | Some names \<Rightarrow> dbus_talk_count sb \<le> int (length names)))"

lemma talk_loop_spec:
  assumes "talk_count \<le> int (length names)" and "ac + (16 - i) \<le> 60"
  shows "talk_loop names talk_count i ac =
    Some (map (\<lambda>s. snprintf 256 (''--talk='' @ s))
      (map the (filter (\<lambda>n. n \<noteq> None) (drop i (take (min 16 (nat talk_count)) names)))))"
  using assms
proof (induction "16 - i" arbitrary: i ac)
  case 0
  then show ?case by (subst talk_loop.simps) simp
next
  case (Suc k)
  show ?case
  proof (cases "int i < talk_count")
    case False
    then show ?thesis by (subst talk_loop.simps) simp
  next
    case True
    have i: "i < 16" "ac < 60" using Suc.hyps(2) Suc.prems(2) by simp_all
    have il: "i < length (take (min 16 (nat talk_count)) names)" using True i Suc.prems(1) by simp
    then have d: "drop i (take (min 16 (nat talk_count)) names) =
        names ! i # drop (Suc i) (take (min 16 (nat talk_count)) names)"
      by (simp add: Cons_nth_drop_Suc [symmetric])
    have "load_at names i = Some (names ! i)" using il by simp
    moreover have "talk_loop names talk_count (i + 1) a =
      Some (map (\<lambda>s. snprintf 256 (''--talk='' @ s))
        (map the (filter (\<lambda>n. n \<noteq> None) (drop (Suc i) (take (min 16 (nat talk_count)) names)))))"
      if "a \<le> ac + 1" for a
      using Suc.hyps(1) [of "i + 1" a] Suc.hyps(2) Suc.prems that by simp
    ultimately show ?thesis
      using True i d by (subst talk_loop.simps) (simp split: option.split)
  qed
qed

definition proxy_argv ::
    "string \<Rightarrow> string \<Rightarrow> int \<Rightarrow> coder_dlp_sandbox_config option \<Rightarrow> string list" where
  "proxy_argv dbus_addr sock fd sandbox =
     [''xdg-dbus-proxy'', dbus_addr, sock, ''--filter'', snprintf 32 (''--fd='' @ dec_int fd)] @
     default_rules @ map (\<lambda>s. snprintf 256 (''--talk='' @ s)) (talk_names sandbox)"

lemma proxy_image_exec:
  assumes "talk_in_range sandbox"
  shows "proxy_image dbus_addr sock fd sandbox = Some (Exec (proxy_argv dbus_addr sock fd sandbox)) \<and>
    length (proxy_argv dbus_addr sock fd sandbox) \<le> 28"
proof -
  let ?base = "[''xdg-dbus-proxy'', dbus_addr, sock, ''--filter'',
    snprintf 32 (''--fd='' @ dec_int fd)] @ default_rules"
  have base: "length ?base = 12" by (simp add: default_rules_def)
  have talks: "(case sandbox of
                None \<Rightarrow> Some []
              | Some sb \<Rightarrow>
                  (case dbus_talk_names sb of
                     None \<Rightarrow> Some []
                   | Some names \<Rightarrow> talk_loop names (dbus_talk_count sb) 0 (length ?base))) =
      Some (map (\<lambda>s. snprintf 256 (''--talk='' @ s)) (talk_names sandbox))"
    unfolding base using assms
    by (auto simp: talk_in_range_def talk_names_def talk_loop_spec split: option.splits)
  have "length (filter P (take (min 16 n) xs)) \<le> 16" for P n and xs :: "string option list"
    by (rule order_trans [OF length_filter_le]) simp
  then have n: "length (talk_names sandbox) \<le> 16"
    by (auto simp: talk_names_def split: option.split)
  let ?av = "?base @ map (\<lambda>s. snprintf 256 (''--talk='' @ s)) (talk_names sandbox)"
  have len: "length ?av \<le> 28" using n base unfolding length_append length_map by simp
  have "proxy_image dbus_addr sock fd sandbox = Some (Exec ?av)"
    using len talks unfolding proxy_image_def Let_def by simp
  with len show ?thesis by (simp only: proxy_argv_def append.assoc)
qed

text \<open>The proxy is always executed with filtering on, with the bus address and the socket as
  its first operands, with the seven default rules, and with one rule for each of the first sixteen
  configured names, cut at 255 characters; nothing else is in the vector, which never comes near
  the end of its array.\<close>

lemma proxy_image_spec:
  assumes "talk_in_range sandbox"
  shows "\<exists>av. proxy_image dbus_addr sock fd sandbox = Some (Exec av) \<and> length av \<le> 28 \<and>
    av = [''xdg-dbus-proxy'', dbus_addr, sock, ''--filter'', snprintf 32 (''--fd='' @ dec_int fd)] @
         default_rules @ map (\<lambda>s. snprintf 256 (''--talk='' @ s)) (talk_names sandbox)"
  using proxy_image_exec [OF assms, of dbus_addr sock fd] unfolding proxy_argv_def by blast

section \<open>Starting is all or nothing\<close>

text \<open>
  What the system guarantees of its answers: new names, descriptors and process numbers are not in
  use.
\<close>

definition start_fresh :: "start_env \<Rightarrow> os \<Rightarrow> bool" where
  "start_fresh e s \<longleftrightarrow>
     (case se_mkdtemp e of
        None \<Rightarrow> True
      | Some sfx \<Rightarrow> length sfx = 6 \<and> proxy_dir sfx \<notin> dirs s \<and> (\<forall>f \<in> files s. \<not> in_dir (proxy_dir sfx) f)) \<and>
     (case se_pipe e of
        None \<Rightarrow> True
      | Some (rd, wr) \<Rightarrow> rd \<noteq> wr \<and> 0 \<le> wr \<and> rd \<notin> open_fds s \<and> wr \<notin> open_fds s \<and> se_inotify e \<noteq> wr) \<and>
     se_inotify e \<notin> open_fds s \<and> se_fork e \<noteq> 0 \<and> (0 < se_fork e \<longrightarrow> se_fork e \<notin> dom (children s))"

text \<open>The directory a start leaves behind: \<^verbatim>\<open>mkdtemp\<close> succeeded, then the pipe or the fork failed.\<close>

definition start_leak :: "start_env \<Rightarrow> string set" where
  "start_leak e =
     (if se_getenv e ''DBUS_SESSION_BUS_ADDRESS'' \<noteq> None \<and>
         find_in_path (se_getenv e) (se_dup_ok e) (se_executable e) ''xdg-dbus-proxy'' \<and>
         (se_pipe e = None \<or> se_fork e < 0)
      then (case se_mkdtemp e of None \<Rightarrow> {} | Some sfx \<Rightarrow> {proxy_dir sfx}) else {})"

text \<open>The system with a proxy added.\<close>

definition grant :: "dlp_dbus_proxy \<Rightarrow> child_image \<Rightarrow> os \<Rightarrow> os" where
  "grant p img s = s\<lparr>children := (children s)(proxy_pid p \<mapsto> \<lparr>image = img, sigterm = False\<rparr>),
     open_fds := insert (pipe_write_fd p) (open_fds s), files := insert (socket_path p) (files s),
     dirs := insert (dir_path p) (dirs s)\<rparr>"

definition proxy_wf :: "dlp_dbus_proxy \<Rightarrow> bool" where
  "proxy_wf p \<longleftrightarrow> 0 < proxy_pid p \<and> 0 \<le> pipe_write_fd p \<and> dir_path p \<noteq> [] \<and>
     socket_path p = dir_path p @ ''/bus''"

definition owned :: "dlp_dbus_proxy \<Rightarrow> resource set" where
  "owned p = {Child (proxy_pid p), Fd (pipe_write_fd p), File (socket_path p), Dir (dir_path p)}"

lemma resources_grant: "resources (grant p img s) = owned p \<union> resources s"
  by (auto simp: resources_def grant_def owned_def)

lemma socket_in_dir: "in_dir d (d @ ''/bus'')"
  by (simp add: in_dir_unique)

text \<open>The five undoing statements take a granted proxy back exactly.\<close>

lemma wait_for_socket_same:
  "se_inotify e \<notin> open_fds s \<Longrightarrow> \<exists>r. wait_for_socket e s = Some (r, s)"
  by (auto simp: wait_for_socket_def sys_close_def sys_open_def)

text \<open>The outcome of a start, as a relation between its result and the system before it.\<close>

definition started ::
    "start_env \<Rightarrow> coder_dlp_sandbox_config option \<Rightarrow> os \<Rightarrow> int \<times> dlp_dbus_proxy \<times> os \<Rightarrow> bool" where
  "started e sandbox s r \<longleftrightarrow>
     (case r of (ret, p, s') \<Rightarrow>
        (ret = 0 \<and> proxy_wf p \<and> proxy_pid p = se_fork e \<and> owned p \<inter> resources s = {} \<and> start_leak e = {} \<and>
           (\<exists>sfx. se_mkdtemp e = Some sfx \<and> dir_path p = proxy_dir sfx) \<and>
           (\<forall>f \<in> files s. \<not> in_dir (dir_path p) f) \<and>
           (\<exists>dbus_addr fd. se_getenv e ''DBUS_SESSION_BUS_ADDRESS'' = Some dbus_addr \<and>
              s' = grant p (Exec (proxy_argv dbus_addr (socket_path p) fd sandbox)) s)) \<or>
        (ret = -1 \<and> proxy_pid p \<le> 0 \<and> s' = s\<lparr>dirs := dirs s \<union> start_leak e\<rparr>))"

lemma start_dbus_proxy_started:
  assumes fresh: "start_fresh e s" and range: "talk_in_range sandbox"
  shows "\<exists>r. dlp_start_dbus_proxy e sandbox no_proxy s = Some r \<and> started e sandbox s r"
proof (cases "se_getenv e ''DBUS_SESSION_BUS_ADDRESS'' \<noteq> None \<and>
         find_in_path (se_getenv e) (se_dup_ok e) (se_executable e) ''xdg-dbus-proxy'' \<and>
         se_mkdtemp e \<noteq> None")
  case False
  then show ?thesis
    by (auto simp: dlp_start_dbus_proxy_def started_def start_leak_def no_proxy_def split: option.split)
next
  case True
  then obtain addr sfx where addr: "se_getenv e ''DBUS_SESSION_BUS_ADDRESS'' = Some addr"
    and found: "find_in_path (se_getenv e) (se_dup_ok e) (se_executable e) ''xdg-dbus-proxy''"
    and sfx: "se_mkdtemp e = Some sfx" by blast
  have sock: "snprintf 256 (proxy_dir sfx @ ''/bus'') = proxy_dir sfx @ ''/bus''"
    using fresh sfx by (simp add: start_fresh_def proxy_dir_def)
  have dir: "proxy_dir sfx \<notin> dirs s" "\<And>f. f \<in> files s \<Longrightarrow> \<not> in_dir (proxy_dir sfx) f"
    using fresh sfx by (auto simp: start_fresh_def)
  with socket_in_dir have new: "proxy_dir sfx @ ''/bus'' \<notin> files s" by blast
  show ?thesis
  proof (cases "se_pipe e = None \<or> se_fork e < 0")
    case True
    have "insert wr (insert rd fds) - {rd} - {wr} = fds" if "rd \<notin> fds" "wr \<notin> fds" for rd wr :: int and fds
      using that by auto
    with True show ?thesis
      using fresh addr found sfx
      by (auto simp: dlp_start_dbus_proxy_def started_def start_leak_def no_proxy_def
          start_fresh_def sys_open_def sys_close_def sys_mkdir_def Let_def split: option.splits)
  next
    case False
    then obtain rd wr where pipe: "se_pipe e = Some (rd, wr)" and pid: "0 < se_fork e"
      using fresh by (cases "se_fork e = 0") (auto simp: start_fresh_def)
    have fds: "rd \<noteq> wr" "0 \<le> wr" "rd \<notin> open_fds s" "wr \<notin> open_fds s" "se_inotify e \<notin> insert wr (open_fds s)"
      and fork: "se_fork e \<notin> dom (children s)"
      using fresh pipe pid by (auto simp: start_fresh_def)
    let ?p = "\<lparr>proxy_pid = se_fork e, pipe_write_fd = wr, socket_path = proxy_dir sfx @ ''/bus'',
      dir_path = proxy_dir sfx\<rparr>"
    let ?img = "Exec (proxy_argv addr (proxy_dir sfx @ ''/bus'') rd sandbox)"
    let ?s = "grant ?p ?img s"
    obtain ready where w: "wait_for_socket e ?s = Some (ready, ?s)"
      using wait_for_socket_same [of e ?s] fds by (auto simp: grant_def)
    have mid: "sys_close rd (proxy_makes_socket (proxy_dir sfx @ ''/bus'') (sys_fork (se_fork e) ?img
        (sys_open wr (sys_open rd (sys_mkdir (proxy_dir sfx) s))))) = Some ?s"
    proof -
      have "insert wr (insert rd (open_fds s)) - {rd} = insert wr (open_fds s)" using fds by auto
      then show ?thesis
        by (simp add: sys_close_def proxy_makes_socket_def sys_fork_def sys_open_def sys_mkdir_def
            grant_def)
    qed
    have step: "dlp_start_dbus_proxy e sandbox no_proxy s =
      (if \<not> ready
       then do {
         s \<leftarrow> sys_kill (se_fork e) ?s;
         s \<leftarrow> sys_waitpid (se_fork e) s;
         s \<leftarrow> sys_close wr s;
         Some (-1, ?p\<lparr>proxy_pid := 0, pipe_write_fd := -1\<rparr>,
               sys_rmdir (proxy_dir sfx) (sys_unlink (proxy_dir sfx @ ''/bus'') s))
       }
       else Some (0, ?p, ?s))"
      using addr found sfx pipe pid w mid sock proxy_image_exec [OF range]
      by (simp add: dlp_start_dbus_proxy_def Let_def no_proxy_def)
    have leak: "start_leak e = {}" using False by (auto simp: start_leak_def)
    show ?thesis
    proof (cases ready)
      case True
      have "started e sandbox s (0, ?p, ?s)"
        using pid fds fork dir new addr leak sfx
        by (auto simp: started_def proxy_wf_def owned_def proxy_dir_def)
      with True step show ?thesis by simp
    next
      case False
      have "sys_rmdir (proxy_dir sfx) (sys_unlink (proxy_dir sfx @ ''/bus'') (?s\<lparr>children := children s,
          open_fds := open_fds s\<rparr>)) = s"
        using dir new by (auto simp: sys_rmdir_def sys_unlink_def grant_def)
      then have "dlp_start_dbus_proxy e sandbox no_proxy s =
          Some (-1, ?p\<lparr>proxy_pid := 0, pipe_write_fd := -1\<rparr>, s)"
        using False step fds fork
        by (auto simp: sys_kill_def sys_waitpid_def sys_close_def grant_def fun_upd_idem domIff)
      with leak show ?thesis by (simp add: started_def)
    qed
  qed
qed

end
