(* ===== verification/Bwrap_Spec.thy ===== *)
theory Bwrap_Spec
  imports Bwrap
begin

text \<open>
  What the argument vector of \<^verbatim>\<open>dlp_build_bwrap_args\<close> means. The option grammar of
  bubblewrap's manual page reads it back into a list of operations, the abstract specification of
  the sandbox; the meaning of the operations for the environment and the file tree of the launched
  application gives the isolation properties.
\<close>

section \<open>Reading the vector back\<close>

text \<open>
  The options of bubblewrap the launcher uses, as operations, and the grammar of its command line
  for them: each option takes the operands its manual page gives, \<^verbatim>\<open>--\<close> ends the options,
  the rest is the command.
\<close>

datatype bwrap_op =
  Op_ro_bind string string | Op_bind string string | Op_dev_bind string string
| Op_dev string | Op_proc string | Op_tmpfs string
| Op_unshare_pid | Op_unshare_ipc | Op_unshare_net
| Op_setenv string string | Op_unsetenv string | Op_die_with_parent | Op_new_session

fun render :: "bwrap_op \<Rightarrow> string list" where
  "render (Op_ro_bind s d) = [''--ro-bind'', s, d]"
| "render (Op_bind s d) = [''--bind'', s, d]"
| "render (Op_dev_bind s d) = [''--dev-bind'', s, d]"
| "render (Op_dev d) = [''--dev'', d]"
| "render (Op_proc d) = [''--proc'', d]"
| "render (Op_tmpfs d) = [''--tmpfs'', d]"
| "render Op_unshare_pid = [''--unshare-pid'']"
| "render Op_unshare_ipc = [''--unshare-ipc'']"
| "render Op_unshare_net = [''--unshare-net'']"
| "render (Op_setenv k v) = [''--setenv'', k, v]"
| "render (Op_unsetenv k) = [''--unsetenv'', k]"
| "render Op_die_with_parent = [''--die-with-parent'']"
| "render Op_new_session = [''--new-session'']"

definition renders :: "bwrap_op list \<Rightarrow> string list" where
  "renders ops = concat (map render ops)"

text \<open>The number of operands of an option, and the operation it makes of them.\<close>

fun option_arity :: "string \<Rightarrow> nat option" where
  "option_arity w =
     (if w \<in> {''--ro-bind'', ''--bind'', ''--dev-bind'', ''--setenv''} then Some 2
      else if w \<in> {''--dev'', ''--proc'', ''--tmpfs'', ''--unsetenv''} then Some 1
      else if w \<in> {''--unshare-pid'', ''--unshare-ipc'', ''--unshare-net'', ''--die-with-parent'',
                  ''--new-session''} then Some 0
      else None)"

definition option_op :: "string \<Rightarrow> string list \<Rightarrow> bwrap_op" where
  "option_op w args =
     (if w = ''--ro-bind'' then Op_ro_bind (args ! 0) (args ! 1)
      else if w = ''--bind'' then Op_bind (args ! 0) (args ! 1)
      else if w = ''--dev-bind'' then Op_dev_bind (args ! 0) (args ! 1)
      else if w = ''--setenv'' then Op_setenv (args ! 0) (args ! 1)
      else if w = ''--dev'' then Op_dev (args ! 0)
      else if w = ''--proc'' then Op_proc (args ! 0)
      else if w = ''--tmpfs'' then Op_tmpfs (args ! 0)
      else if w = ''--unsetenv'' then Op_unsetenv (args ! 0)
      else if w = ''--unshare-pid'' then Op_unshare_pid
      else if w = ''--unshare-ipc'' then Op_unshare_ipc
      else if w = ''--unshare-net'' then Op_unshare_net
      else if w = ''--die-with-parent'' then Op_die_with_parent
      else Op_new_session)"

function parse_bwrap :: "string list \<Rightarrow> (bwrap_op list \<times> string list) option" where
  "parse_bwrap [] = None"
| "parse_bwrap (w # ws) =
     (if w = ''--'' then Some ([], ws)
      else case option_arity w of
             None \<Rightarrow> None
           | Some n \<Rightarrow>
               if length ws < n then None
               else map_option (\<lambda>(ops, cmd). (option_op w (take n ws) # ops, cmd))
                      (parse_bwrap (drop n ws)))"
  by pat_completeness auto
termination
  by (relation "measure length") auto

declare parse_bwrap.simps [simp del] option_arity.simps [simp del]

lemma parse_render:
  "parse_bwrap (render op @ ws) =
     map_option (\<lambda>(ops, cmd). (op # ops, cmd)) (parse_bwrap ws)"
  by (cases op) (simp_all add: parse_bwrap.simps option_arity.simps option_op_def)

lemma renders_simps [simp]:
  "renders [] = []" "renders (op # ops) = render op @ renders ops"
  "renders (ops @ ops') = renders ops @ renders ops'"
  by (simp_all add: renders_def)

lemma parse_renders: "parse_bwrap (renders ops @ ''--'' # cmd) = Some (ops, cmd)"
  by (induction ops) (simp_all add: parse_render, simp add: parse_bwrap.simps)

section \<open>The operations of a sandbox\<close>

text \<open>
  The abstract content of the words: the mounts and settings the launcher asks for, as operations.
\<close>

definition filesystem_ops ::
    "string option \<Rightarrow> coder_dlp_sandbox_config option \<Rightarrow> bwrap_op list" where
  "filesystem_ops home sandbox =
     (if sb_flag isolate_filesystem sandbox then [Op_ro_bind ''/'' ''/''] else [Op_bind ''/'' ''/'']) @
     [Op_dev ''/dev'', Op_dev_bind ''/dev/dri'' ''/dev/dri'', Op_bind ''/dev/shm'' ''/dev/shm'',
      Op_proc ''/proc'', Op_tmpfs ''/tmp''] @
     (if sb_flag isolate_filesystem sandbox
      then (case home of None \<Rightarrow> []
            | Some h \<Rightarrow> if sb_flag bind_home_rw sandbox then [Op_bind h h] else [Op_tmpfs h])
      else [])"

definition runtime_ops :: "string option \<Rightarrow> string option \<Rightarrow> bwrap_op list" where
  "runtime_ops xdg_runtime sock =
     (case xdg_runtime of
        None \<Rightarrow> []
      | Some xdg \<Rightarrow>
          Op_tmpfs xdg #
          (case sock of
             None \<Rightarrow> []
           | Some s \<Rightarrow>
               (let p = snprintf PATH_MAX (xdg @ ''/'' @ s);
                    l = snprintf PATH_MAX (xdg @ ''/'' @ s @ ''.lock'')
                in [Op_bind p p, Op_ro_bind l l])))"

text \<open>The paths the configuration asks to bind: the workspace and the extra paths.\<close>

definition workspace_paths :: "coder_dlp_sandbox_config option \<Rightarrow> string list" where
  "workspace_paths sandbox =
     (case sandbox of
        Some sb \<Rightarrow> if isolate_filesystem sb then (case workspace_path sb of Some p \<Rightarrow> [p] | None \<Rightarrow> []) else []
      | None \<Rightarrow> [])"

definition extra_paths :: "coder_dlp_sandbox_config option \<Rightarrow> string list" where
  "extra_paths sandbox =
     (case sandbox of
        Some sb \<Rightarrow>
          (case extra_bind_paths sb of
             Some ps \<Rightarrow> map the (filter (\<lambda>p. p \<noteq> None) (take (nat (extra_bind_count sb)) ps))
           | None \<Rightarrow> [])
      | None \<Rightarrow> [])"

definition extra_in_range :: "coder_dlp_sandbox_config option \<Rightarrow> bool" where
  "extra_in_range sandbox \<longleftrightarrow>
     (case sandbox of
        Some sb \<Rightarrow>
          (case extra_bind_paths sb of
             Some ps \<Rightarrow> extra_bind_count sb \<le> int (length ps)
           | None \<Rightarrow> True)
      | None \<Rightarrow> True)"

definition namespace_ops :: "coder_dlp_sandbox_config option \<Rightarrow> bwrap_op list" where
  "namespace_ops sandbox =
     (if sb_flag isolate_pid sandbox then [Op_unshare_pid] else []) @
     (if sb_flag isolate_ipc sandbox then [Op_unshare_ipc] else []) @
     (if sb_flag (\<lambda>sb. network_namespace sb \<noteq> None) sandbox then [Op_unshare_net] else [])"

definition environment_ops :: "string option \<Rightarrow> string option \<Rightarrow> bwrap_op list" where
  "environment_ops xdg_runtime sock =
     Op_setenv ''WAYLAND_DISPLAY'' (case sock of Some s \<Rightarrow> s | None \<Rightarrow> ''wayland-0'') #
     (case xdg_runtime of None \<Rightarrow> [] | Some xdg \<Rightarrow> [Op_setenv ''XDG_RUNTIME_DIR'' xdg])"

definition bus_path :: "string \<Rightarrow> string" where
  "bus_path xdg = snprintf PATH_MAX (xdg @ ''/bus'')"

definition bus_addr :: "string \<Rightarrow> string" where
  "bus_addr xdg = snprintf (PATH_MAX + 32) (''unix:path='' @ bus_path xdg)"

definition dbus_ops ::
    "(string \<Rightarrow> bool) \<Rightarrow> string option \<Rightarrow> string option \<Rightarrow> bwrap_op list" where
  "dbus_ops exists_file xdg_runtime proxy =
     (case xdg_runtime of
        None \<Rightarrow> []
      | Some xdg \<Rightarrow>
          (case proxy of
             None \<Rightarrow> if exists_file (bus_path xdg)
               then [Op_bind (bus_path xdg) (bus_path xdg),
                     Op_setenv ''DBUS_SESSION_BUS_ADDRESS'' (bus_addr xdg)] else []
           | Some p \<Rightarrow> if p = [] then [Op_unsetenv ''DBUS_SESSION_BUS_ADDRESS'']
               else [Op_bind p (bus_path xdg),
                     Op_setenv ''DBUS_SESSION_BUS_ADDRESS'' (bus_addr xdg)]))"

definition display_ops :: "string option \<Rightarrow> bwrap_op list" where
  "display_ops xwl_display =
     (case xwl_display of
        Some d \<Rightarrow> [Op_setenv ''DISPLAY'' d, Op_bind (x11_socket d) (x11_socket d),
                    Op_setenv ''ELECTRON_OZONE_PLATFORM_HINT'' ''wayland'',
                    Op_setenv ''MOZ_ENABLE_WAYLAND'' ''1'']
      | None \<Rightarrow> [Op_unsetenv ''DISPLAY'', Op_setenv ''GDK_BACKEND'' ''wayland'',
                  Op_setenv ''QT_QPA_PLATFORM'' ''wayland'',
                  Op_setenv ''SDL_VIDEODRIVER'' ''wayland''])"

definition final_ops :: "bwrap_op list" where
  "final_ops = [Op_setenv ''ELECTRON_NO_SANDBOX'' ''1'', Op_die_with_parent, Op_new_session]"

definition bind_self :: "string list \<Rightarrow> bwrap_op list" where
  "bind_self ps = map (\<lambda>p. Op_bind p p) ps"

definition host_display :: "launch_host \<Rightarrow> coder_dlp_compositor \<Rightarrow> string option" where
  "host_display host c =
     coder_dlp_get_xwayland_display (host_config host) (host_display_name host) (Some c)"

definition sandbox_ops ::
    "launch_host \<Rightarrow> coder_dlp_compositor \<Rightarrow> coder_dlp_sandbox_config option
       \<Rightarrow> string option \<Rightarrow> bwrap_op list" where
  "sandbox_ops host c sandbox proxy =
     (let xdg = host_getenv host ''XDG_RUNTIME_DIR'' in
      filesystem_ops (host_getenv host ''HOME'') sandbox @ runtime_ops xdg (socket c) @
      bind_self (workspace_paths sandbox) @ bind_self (extra_paths sandbox) @
      namespace_ops sandbox @ environment_ops xdg (socket c) @
      dbus_ops (host_exists host) xdg proxy @ display_ops (host_display host c) @ final_ops)"

lemma extra_bind_loop_words:
  "n \<le> length ps \<Longrightarrow> extra_bind_loop ps [i..<n] =
     Some (renders (bind_self (map the (filter (\<lambda>p. p \<noteq> None) (drop i (take n ps))))))"
proof (induction "n - i" arbitrary: i)
  case 0
  then show ?case by (simp add: bind_self_def)
next
  case (Suc k)
  then have i: "i < n" by simp
  have "[i..<n] = i # [Suc i..<n]" using i by (rule upt_conv_Cons)
  moreover have "drop i (take n ps) = ps ! i # drop (Suc i) (take n ps)"
    using i Suc.prems by (metis Cons_nth_drop_Suc length_take min.absorb2 nth_take)
  moreover have "extra_bind_loop ps [Suc i..<n] =
     Some (renders (bind_self (map the (filter (\<lambda>p. p \<noteq> None) (drop (Suc i) (take n ps))))))"
    using Suc by (intro Suc.hyps(1)) simp_all
  ultimately show ?case
    using i Suc.prems by (simp add: bind_self_def split: option.split)
qed

lemma extra_bind_words_ops:
  "extra_in_range sandbox \<Longrightarrow>
     extra_bind_words sandbox = Some (renders (bind_self (extra_paths sandbox)))"
  using extra_bind_loop_words [of _ _ 0]
  by (auto simp: extra_in_range_def extra_bind_words_def extra_paths_def bind_self_def
      split: option.splits)

lemma filesystem_words_ops:
  "filesystem_words getenv sandbox = renders (filesystem_ops (getenv ''HOME'') sandbox)"
  by (simp add: filesystem_words_def filesystem_ops_def split: option.split)

lemma runtime_words_ops: "runtime_words xdg sock = renders (runtime_ops xdg sock)"
  by (simp add: runtime_words_def runtime_ops_def Let_def split: option.split)

lemma workspace_words_ops: "workspace_words sandbox = renders (bind_self (workspace_paths sandbox))"
  by (simp add: workspace_words_def workspace_paths_def bind_self_def split: option.split)

lemma namespace_words_ops: "namespace_words sandbox = renders (namespace_ops sandbox)"
  by (simp add: namespace_words_def namespace_ops_def)

lemma environment_words_ops: "environment_words xdg sock = renders (environment_ops xdg sock)"
  by (simp add: environment_words_def environment_ops_def split: option.split)

lemma dbus_words_ops: "dbus_words ex xdg proxy = renders (dbus_ops ex xdg proxy)"
  by (simp add: dbus_words_def dbus_ops_def Let_def bus_addr_def bus_path_def
      split: option.split list.split)

lemma display_words_ops: "display_words d = renders (display_ops d)"
  by (simp add: display_words_def display_ops_def split: option.split)

lemma final_words_ops: "final_words cmd = renders final_ops @ [''--'', ''/bin/sh'', ''-c'', cmd]"
  by (simp add: final_words_def final_ops_def)

lemmas words_ops = filesystem_words_ops runtime_words_ops workspace_words_ops
  namespace_words_ops environment_words_ops dbus_words_ops display_words_ops final_words_ops

lemma bwrap_words_ops:
  assumes "extra_in_range sandbox"
  shows "bwrap_words host c cmd sandbox proxy =
    Some (''bwrap'' # renders (sandbox_ops host c sandbox proxy) @ [''--'', ''/bin/sh'', ''-c'', cmd])"
  using extra_bind_words_ops [OF assms]
  by (simp add: bwrap_words_def words_ops sandbox_ops_def host_display_def Let_def)

section \<open>What the sandboxed program sees\<close>

text \<open>
  The environment: bubblewrap applies its options in the order given to the environment it
  inherits.
\<close>

fun op_env :: "bwrap_op \<Rightarrow> (string \<rightharpoonup> string) \<Rightarrow> (string \<rightharpoonup> string)" where
  "op_env (Op_setenv k v) env = env(k \<mapsto> v)"
| "op_env (Op_unsetenv k) env = env(k := None)"
| "op_env _ env = env"

definition ops_env :: "bwrap_op list \<Rightarrow> (string \<rightharpoonup> string) \<Rightarrow> (string \<rightharpoonup> string)" where
  "ops_env ops env = fold op_env ops env"

text \<open>
  The file tree: an option mounts something at its destination, which hides what was there and
  below. A mount is a directory or file of the host, writable or not, or a fresh one.
\<close>

datatype mount = Host string bool | Fresh

fun op_mount :: "bwrap_op \<Rightarrow> (string \<times> mount) option" where
  "op_mount (Op_ro_bind s d) = Some (d, Host s False)"
| "op_mount (Op_bind s d) = Some (d, Host s True)"
| "op_mount (Op_dev_bind s d) = Some (d, Host s True)"
| "op_mount (Op_dev d) = Some (d, Fresh)"
| "op_mount (Op_proc d) = Some (d, Fresh)"
| "op_mount (Op_tmpfs d) = Some (d, Fresh)"
| "op_mount _ = None"

text \<open>\<open>covers d p\<close>: the path \<open>p\<close> is \<open>d\<close> or below it.\<close>

definition covers :: "string \<Rightarrow> string \<Rightarrow> bool" where
  "covers d p \<longleftrightarrow> d = ''/'' \<or> p = d \<or> prefix (d @ ''/'') p"

definition step_mount :: "string \<Rightarrow> bwrap_op \<Rightarrow> mount option \<Rightarrow> mount option" where
  "step_mount p op m =
     (case op_mount op of
        None \<Rightarrow> m
      | Some (d, m') \<Rightarrow> if covers d p then Some m' else m)"

text \<open>The mount a path lies in when all options have been applied.\<close>

definition mount_at :: "bwrap_op list \<Rightarrow> string \<Rightarrow> mount option" where
  "mount_at ops p = fold (step_mount p) ops None"

lemma ops_env_simps [simp]:
  "ops_env [] env = env" "ops_env (op # ops) env = ops_env ops (op_env op env)"
  "ops_env (ops @ ops') env = ops_env ops' (ops_env ops env)"
  by (simp_all add: ops_env_def)

text \<open>An option sets only its own variable, and binds nothing else.\<close>

fun op_var :: "bwrap_op \<Rightarrow> string option" where
  "op_var (Op_setenv k v) = Some k"
| "op_var (Op_unsetenv k) = Some k"
| "op_var _ = None"

lemma ops_env_other: "Some k \<notin> op_var ` set ops \<Longrightarrow> ops_env ops env k = env k"
proof (induction ops arbitrary: env)
  case (Cons op ops)
  then show ?case by (cases op) auto
qed simp

lemma fold_mount_skip:
  "(\<And>op d m. op \<in> set ops \<Longrightarrow> op_mount op = Some (d, m) \<Longrightarrow> \<not> covers d p) \<Longrightarrow>
     fold (step_mount p) ops m0 = m0"
  by (induction ops arbitrary: m0) (auto simp: step_mount_def split: option.split)

lemma mount_at_last:
  assumes "\<And>o' d' m'. o' \<in> set post \<Longrightarrow> op_mount o' = Some (d', m') \<Longrightarrow> \<not> covers d' p"
    and "op_mount op = Some (d, m)" and "covers d p"
  shows "mount_at (pre @ op # post) p = Some m"
  using fold_mount_skip [OF assms(1)] assms(2,3) by (simp add: mount_at_def step_mount_def)

lemma fold_mount_from:
  "fold (step_mount p) ops m0 = Some m \<Longrightarrow>
     m0 = Some m \<or> (\<exists>op \<in> set ops. \<exists>d. op_mount op = Some (d, m) \<and> covers d p)"
proof (induction ops arbitrary: m0)
  case (Cons op ops)
  from Cons.IH [of "step_mount p op m0"] Cons.prems show ?case
    by (auto simp: step_mount_def split: option.splits if_splits)
qed simp

lemma mount_at_from:
  "mount_at ops p = Some m \<Longrightarrow> \<exists>op \<in> set ops. \<exists>d. op_mount op = Some (d, m) \<and> covers d p"
  using fold_mount_from [of p ops None m] by (simp add: mount_at_def)

text \<open>The variables and mounts of the sections.\<close>

lemma ops_env_none:
  assumes "\<And>op. op \<in> set ops \<Longrightarrow> op_var op = None"
  shows "ops_env ops env = env"
  by (rule ext, rule ops_env_other) (use assms in force)

lemma no_vars_env [simp]:
  "ops_env (filesystem_ops home sandbox) env = env"
  "ops_env (runtime_ops xdg sock) env = env"
  "ops_env (namespace_ops sandbox) env = env"
  by (simp_all add: filesystem_ops_def runtime_ops_def namespace_ops_def Let_def
      split: option.split)

lemma bind_self_env [simp]: "ops_env (bind_self ps) env = env"
  by (rule ops_env_none) (auto simp: bind_self_def)

lemma sandbox_env:
  "ops_env (sandbox_ops host c sandbox proxy) env =
     ops_env final_ops (ops_env (display_ops (host_display host c))
       (ops_env (dbus_ops (host_exists host) (host_getenv host ''XDG_RUNTIME_DIR'') proxy)
         (ops_env (environment_ops (host_getenv host ''XDG_RUNTIME_DIR'') (socket c)) env)))"
  by (simp add: sandbox_ops_def Let_def)

text \<open>The vector that is built gives these operations.\<close>

definition runs_with :: "argv_builder \<Rightarrow> bwrap_op list \<Rightarrow> string \<Rightarrow> bool" where
  "runs_with b ops cmd \<longleftrightarrow>
     (\<exists>ws. c_argv b = Some (''bwrap'' # ws) \<and> parse_bwrap ws = Some (ops, [''/bin/sh'', ''-c'', cmd]))"

lemma built_runs:
  assumes "extra_in_range sandbox"
    and "dlp_build_bwrap_args mem host (Some c) (Some cmd) sandbox proxy = Some (Some b, n)"
  shows "runs_with b (sandbox_ops host c sandbox proxy) cmd"
  using build_bwrap_args_result [OF bwrap_words_ops [OF assms(1), of host c cmd proxy], of mem] assms(2)
  by (auto simp: built_def runs_with_def parse_renders)

section \<open>Properties\<close>

text \<open>C17. Whatever allocation fails, building the vector stays inside its block. It returns the
  vector, terminated by NULL inside the block, and then freeing the vector leaves no live block of
  it; or it returns NULL, only after a failed allocation, and nothing is leaked.\<close>

theorem build_bwrap_args_memory:
  assumes "extra_in_range sandbox"
  shows "\<exists>r n. dlp_build_bwrap_args mem host (Some c) (Some cmd) sandbox proxy = Some (r, n) \<and>
    (case r of
       Some b \<Rightarrow> (\<exists>ws. c_argv b = Some ws \<and> n = int (length ws) + 1) \<and> dlp_free_bwrap_args r n = 0
     | None \<Rightarrow> n = 0 \<and> (\<exists>k. \<not> mem k))"
proof -
  from build_bwrap_args_result [OF bwrap_words_ops [OF assms, of host c cmd proxy], of mem]
  obtain r n where "dlp_build_bwrap_args mem host (Some c) (Some cmd) sandbox proxy = Some (r, n)"
    and "built mem (''bwrap'' # renders (sandbox_ops host c sandbox proxy) @
      [''--'', ''/bin/sh'', ''-c'', cmd]) r n"
    by blast
  then show ?thesis
    by (intro exI [of _ r] exI [of _ n]) (auto simp: built_def split: option.splits)
qed

text \<open>C9. The vector means what the launcher intends: read by the option grammar of bubblewrap it
  is the list of operations of the sandbox, and the program started in it is the shell with the
  command as one argument. No path, socket name or command, whatever it contains, becomes an option
  or ends the options.\<close>

theorem build_bwrap_args_refines:
  assumes "extra_in_range sandbox"
    and "dlp_build_bwrap_args mem host (Some c) (Some cmd) sandbox proxy = Some (Some b, n)"
  shows "\<exists>ws. c_argv b = Some (''bwrap'' # ws) \<and>
    parse_bwrap ws = Some (sandbox_ops host c sandbox proxy, [''/bin/sh'', ''-c'', cmd])"
  using built_runs [OF assms] by (simp add: runs_with_def)

text \<open>In the environment of a launched application the Wayland display is the nested
  compositor's socket, DISPLAY is the display of the nested Xwayland server if it runs and unset
  otherwise, whatever the host's values are, and every variable other than the ten the launcher
  names is inherited.\<close>

lemma sandbox_environment:
  assumes "extra_in_range sandbox"
    and "dlp_build_bwrap_args mem host (Some c) (Some cmd) sandbox proxy = Some (Some b, n)"
  shows "\<exists>ops. runs_with b ops cmd \<and>
    (let env' = ops_env ops env in
       env' ''WAYLAND_DISPLAY'' = Some (case socket c of Some s \<Rightarrow> s | None \<Rightarrow> ''wayland-0'') \<and>
       env' ''DISPLAY'' = host_display host c \<and>
       (\<forall>k. k \<notin> {''WAYLAND_DISPLAY'', ''XDG_RUNTIME_DIR'', ''DBUS_SESSION_BUS_ADDRESS'', ''DISPLAY'',
              ''ELECTRON_OZONE_PLATFORM_HINT'', ''MOZ_ENABLE_WAYLAND'', ''GDK_BACKEND'',
              ''QT_QPA_PLATFORM'', ''SDL_VIDEODRIVER'', ''ELECTRON_NO_SANDBOX''} \<longrightarrow> env' k = env k))"
proof (intro exI conjI)
  show "runs_with b (sandbox_ops host c sandbox proxy) cmd" using assms by (rule built_runs)
  show "let env' = ops_env (sandbox_ops host c sandbox proxy) env in
       env' ''WAYLAND_DISPLAY'' = Some (case socket c of Some s \<Rightarrow> s | None \<Rightarrow> ''wayland-0'') \<and>
       env' ''DISPLAY'' = host_display host c \<and>
       (\<forall>k. k \<notin> {''WAYLAND_DISPLAY'', ''XDG_RUNTIME_DIR'', ''DBUS_SESSION_BUS_ADDRESS'', ''DISPLAY'',
              ''ELECTRON_OZONE_PLATFORM_HINT'', ''MOZ_ENABLE_WAYLAND'', ''GDK_BACKEND'',
              ''QT_QPA_PLATFORM'', ''SDL_VIDEODRIVER'', ''ELECTRON_NO_SANDBOX''} \<longrightarrow> env' k = env k)"
    by (simp add: sandbox_env final_ops_def display_ops_def dbus_ops_def environment_ops_def
        split: option.split)
qed

text \<open>The mounts of the options after the bus of a sandbox.\<close>

definition late_paths :: "launch_host \<Rightarrow> coder_dlp_compositor \<Rightarrow> string list" where
  "late_paths host c = (case host_display host c of None \<Rightarrow> [] | Some d \<Rightarrow> [x11_socket d])"

text \<open>The paths bound between the fresh runtime directory and the bus.\<close>

definition early_paths ::
    "coder_dlp_compositor \<Rightarrow> coder_dlp_sandbox_config option \<Rightarrow> string \<Rightarrow> string list" where
  "early_paths c sandbox xdg =
     (case socket c of
        None \<Rightarrow> []
      | Some s \<Rightarrow> [snprintf PATH_MAX (xdg @ ''/'' @ s), snprintf PATH_MAX (xdg @ ''/'' @ s @ ''.lock'')]) @
     workspace_paths sandbox @ extra_paths sandbox"

definition hides_bus :: "string list \<Rightarrow> string \<Rightarrow> bool" where
  "hides_bus ps xdg \<longleftrightarrow> (\<exists>p \<in> set ps. covers p (bus_path xdg))"

lemma late_skip:
  assumes "\<not> hides_bus (late_paths host c) xdg"
  shows "fold (step_mount (bus_path xdg)) (display_ops (host_display host c) @ final_ops) m = m"
  by (rule fold_mount_skip)
    (use assms in \<open>auto simp: hides_bus_def late_paths_def display_ops_def final_ops_def
        split: option.splits\<close>)

lemma environment_skip: "fold (step_mount p) (environment_ops xdg sock) m = m"
  by (rule fold_mount_skip) (auto simp: environment_ops_def split: option.splits)

lemma namespace_skip: "fold (step_mount p) (namespace_ops sandbox) m = m"
  by (rule fold_mount_skip) (auto simp: namespace_ops_def split: if_splits)

lemma early_skip:
  assumes "\<not> hides_bus (early_paths c sandbox xdg) xdg"
  shows "fold (step_mount (bus_path xdg))
      (bind_self (workspace_paths sandbox) @ bind_self (extra_paths sandbox)) m = m"
    and "fold (step_mount (bus_path xdg)) (runtime_ops (Some xdg) (socket c)) m =
      step_mount (bus_path xdg) (Op_tmpfs xdg) m"
proof -
  show "fold (step_mount (bus_path xdg))
      (bind_self (workspace_paths sandbox) @ bind_self (extra_paths sandbox)) m = m"
    by (rule fold_mount_skip)
      (use assms in \<open>auto simp: hides_bus_def early_paths_def bind_self_def\<close>)
  have "fold (step_mount (bus_path xdg)) (tl (runtime_ops (Some xdg) (socket c))) m' = m'" for m'
    by (rule fold_mount_skip)
      (use assms in \<open>auto simp: hides_bus_def early_paths_def runtime_ops_def Let_def
        split: option.splits\<close>)
  then show "fold (step_mount (bus_path xdg)) (runtime_ops (Some xdg) (socket c)) m =
      step_mount (bus_path xdg) (Op_tmpfs xdg) m"
    by (simp add: runtime_ops_def)
qed

lemma covers_bus: "length xdg < PATH_MAX - 4 \<Longrightarrow> covers xdg (bus_path xdg)"
  by (simp add: covers_def bus_path_def PATH_MAX_def)

text \<open>C8. With a D-Bus filter requested and XDG_RUNTIME_DIR set, the application never reaches the
  host's session bus by its standard path: if the proxy started, the path is the proxy's socket and
  the bus address names that path; if it did not, the path lies in a fresh directory and the bus
  address is unset. The binds of the configuration may hide the path only in the second case.\<close>

theorem dbus_filtered:
  assumes "extra_in_range sandbox"
    and "dlp_build_bwrap_args mem host (Some c) (Some cmd) sandbox (Some sock) = Some (Some b, n)"
    and "host_getenv host ''XDG_RUNTIME_DIR'' = Some xdg" and "length xdg < PATH_MAX - 4"
    and "\<not> hides_bus (late_paths host c) xdg"
    and "sock = [] \<Longrightarrow> \<not> hides_bus (early_paths c sandbox xdg) xdg"
  shows "\<exists>ops. runs_with b ops cmd \<and>
    (if sock = [] then mount_at ops (xdg @ ''/bus'') = Some Fresh \<and>
       ops_env ops env ''DBUS_SESSION_BUS_ADDRESS'' = None
     else mount_at ops (xdg @ ''/bus'') = Some (Host sock True) \<and>
       ops_env ops env ''DBUS_SESSION_BUS_ADDRESS'' = Some (''unix:path='' @ xdg @ ''/bus''))"
proof (intro exI conjI)
  let ?ops = "sandbox_ops host c sandbox (Some sock)"
  show "runs_with b ?ops cmd" using assms(1,2) by (rule built_runs)
  have path: "bus_path xdg = xdg @ ''/bus''" and addr: "bus_addr xdg = ''unix:path='' @ xdg @ ''/bus''"
    using assms(4) by (simp_all add: bus_path_def bus_addr_def PATH_MAX_def)
  have "ops_env ?ops env ''DBUS_SESSION_BUS_ADDRESS'' =
      (if sock = [] then None else Some (''unix:path='' @ xdg @ ''/bus''))"
    using assms(3) addr by (simp add: sandbox_env final_ops_def display_ops_def dbus_ops_def
        environment_ops_def split: option.split)
  moreover have "mount_at ?ops (bus_path xdg) = Some (if sock = [] then Fresh else Host sock True)"
    using assms(3,5,6) early_skip [of c sandbox xdg] late_skip [OF assms(5)] covers_bus [OF assms(4)]
    by (auto simp: mount_at_def sandbox_ops_def Let_def dbus_ops_def step_mount_def covers_def
        environment_skip namespace_skip)
  ultimately show "if sock = [] then mount_at ?ops (xdg @ ''/bus'') = Some Fresh \<and>
       ops_env ?ops env ''DBUS_SESSION_BUS_ADDRESS'' = None
     else mount_at ?ops (xdg @ ''/bus'') = Some (Host sock True) \<and>
       ops_env ?ops env ''DBUS_SESSION_BUS_ADDRESS'' = Some (''unix:path='' @ xdg @ ''/bus'')"
    by (cases "sock = []") (simp_all add: path)
qed

text \<open>Without XDG_RUNTIME_DIR the D-Bus filter has no effect: whether the proxy started,
  failed, or was not asked for, the operations are the same, and the application inherits the host's
  bus address.\<close>

lemma dbus_filter_needs_runtime_dir:
  assumes "extra_in_range sandbox"
    and "dlp_build_bwrap_args mem host (Some c) (Some cmd) sandbox proxy = Some (Some b, n)"
    and "host_getenv host ''XDG_RUNTIME_DIR'' = None"
  shows "\<exists>ops. runs_with b ops cmd \<and> ops = sandbox_ops host c sandbox None \<and>
    ops_env ops env ''DBUS_SESSION_BUS_ADDRESS'' = env ''DBUS_SESSION_BUS_ADDRESS''"
proof (intro exI conjI)
  let ?ops = "sandbox_ops host c sandbox None"
  have "sandbox_ops host c sandbox proxy = ?ops"
    using assms(3) by (simp add: sandbox_ops_def dbus_ops_def)
  with built_runs [OF assms(1,2)] show "runs_with b ?ops cmd" by simp
  show "?ops = ?ops" ..
  show "ops_env ?ops env ''DBUS_SESSION_BUS_ADDRESS'' = env ''DBUS_SESSION_BUS_ADDRESS''"
    using assms(3) by (simp add: sandbox_env final_ops_def display_ops_def dbus_ops_def
        environment_ops_def split: option.split)
qed

text \<open>The places of a file-isolated sandbox where the host's files can be written.\<close>

definition writable_paths ::
    "launch_host \<Rightarrow> coder_dlp_compositor \<Rightarrow> coder_dlp_sandbox_config \<Rightarrow> string list" where
  "writable_paths host c sb =
     [''/dev/dri'', ''/dev/shm''] @
     (case host_getenv host ''HOME'' of
        None \<Rightarrow> [] | Some h \<Rightarrow> (if bind_home_rw sb then [h] else [])) @
     (case host_getenv host ''XDG_RUNTIME_DIR'' of
        None \<Rightarrow> []
      | Some xdg \<Rightarrow>
          bus_path xdg # (case socket c of None \<Rightarrow> [] | Some s \<Rightarrow> [snprintf PATH_MAX (xdg @ ''/'' @ s)])) @
     workspace_paths (Some sb) @ extra_paths (Some sb) @ late_paths host c"

text \<open>Which sections mount writable host files, and where.\<close>

definition grants :: "string list \<Rightarrow> bwrap_op \<Rightarrow> bool" where
  "grants ps op \<longleftrightarrow>
     (case op_mount op of Some (d, Host p True) \<Rightarrow> d \<in> set ps | _ \<Rightarrow> True)"

lemma grants_simps [simp]:
  "grants ps (Op_ro_bind s d)" "grants ps (Op_bind s d) \<longleftrightarrow> d \<in> set ps"
  "grants ps (Op_dev_bind s d) \<longleftrightarrow> d \<in> set ps" "grants ps (Op_dev d)" "grants ps (Op_proc d)"
  "grants ps (Op_tmpfs d)" "grants ps Op_unshare_pid" "grants ps Op_unshare_ipc"
  "grants ps Op_unshare_net" "grants ps (Op_setenv k v)" "grants ps (Op_unsetenv k)"
  "grants ps Op_die_with_parent" "grants ps Op_new_session"
  by (simp_all add: grants_def)

lemma sections_grant:
  "isolate_filesystem sb \<Longrightarrow>
     list_all (grants (writable_paths host c sb)) (filesystem_ops (host_getenv host ''HOME'') (Some sb))"
  "list_all (grants (writable_paths host c sb))
     (runtime_ops (host_getenv host ''XDG_RUNTIME_DIR'') (socket c))"
  "list_all (grants (writable_paths host c sb))
     (dbus_ops (host_exists host) (host_getenv host ''XDG_RUNTIME_DIR'') proxy)"
  "list_all (grants (writable_paths host c sb)) (display_ops (host_display host c))"
  subgoal by (cases "host_getenv host ''HOME''") (simp_all add: filesystem_ops_def writable_paths_def sb_flag_def)
  subgoal by (cases "host_getenv host ''XDG_RUNTIME_DIR''"; cases "socket c")
    (simp_all add: runtime_ops_def writable_paths_def Let_def)
  subgoal by (cases "host_getenv host ''XDG_RUNTIME_DIR''"; cases proxy)
    (simp_all add: dbus_ops_def writable_paths_def Let_def)
  subgoal by (cases "host_display host c")
    (simp_all add: display_ops_def writable_paths_def late_paths_def)
  done

lemma bind_self_grant: "set qs \<subseteq> set ps \<Longrightarrow> list_all (grants ps) (bind_self qs)"
  by (induction qs) (simp_all add: bind_self_def)

lemma plain_sections_grant:
  "list_all (grants ps) (namespace_ops sandbox)" "list_all (grants ps) (environment_ops x k)"
  "list_all (grants ps) final_ops"
  by (simp_all add: namespace_ops_def environment_ops_def final_ops_def split: option.split)

lemma writable_from:
  assumes "isolate_filesystem sb"
  shows "list_all (grants (writable_paths host c sb)) (sandbox_ops host c (Some sb) proxy)"
proof -
  have "set (workspace_paths (Some sb)) \<subseteq> set (writable_paths host c sb)"
    "set (extra_paths (Some sb)) \<subseteq> set (writable_paths host c sb)"
    by (auto simp: writable_paths_def)
  then show ?thesis
    using sections_grant(1) [OF assms]
    by (simp add: sandbox_ops_def Let_def sections_grant(2-4) bind_self_grant plain_sections_grant)
qed

text \<open>C12. With file isolation on, every path of the sandbox that is not at or below one of the
  granted places (the graphics devices, shared memory, the home directory if so configured, the
  compositor's socket, the bus, the X11 socket, the workspace and the extra paths) is read-only or
  not the host's.\<close>

theorem isolated_files_read_only:
  assumes "isolate_filesystem sb" and "extra_in_range (Some sb)"
    and "dlp_build_bwrap_args mem host (Some c) (Some cmd) (Some sb) proxy = Some (Some b, n)"
    and "\<And>d. d \<in> set (writable_paths host c sb) \<Longrightarrow> \<not> covers d p"
  shows "\<exists>ops. runs_with b ops cmd \<and> (\<forall>src. mount_at ops p \<noteq> Some (Host src True))"
proof (intro exI conjI allI notI)
  show "runs_with b (sandbox_ops host c (Some sb) proxy) cmd" using assms(2,3) by (rule built_runs)
  fix src assume "mount_at (sandbox_ops host c (Some sb) proxy) p = Some (Host src True)"
  then obtain op d where "op \<in> set (sandbox_ops host c (Some sb) proxy)"
    and "op_mount op = Some (d, Host src True)" and "covers d p"
    using mount_at_from by blast
  with writable_from [OF assms(1), of host c proxy] assms(4) show False
    by (fastforce simp: list_all_iff grants_def)
qed

text \<open>The flags come from two sections only.\<close>

definition is_flag :: "bwrap_op \<Rightarrow> bool" where
  "is_flag op \<longleftrightarrow> op_mount op = None \<and> op_var op = None"

lemma no_flags:
  "list_all (\<lambda>op. \<not> is_flag op) (filesystem_ops home sandbox)"
  "list_all (\<lambda>op. \<not> is_flag op) (runtime_ops xdg k)"
  "list_all (\<lambda>op. \<not> is_flag op) (environment_ops xdg k)"
  "list_all (\<lambda>op. \<not> is_flag op) (dbus_ops ex xdg proxy)"
  "list_all (\<lambda>op. \<not> is_flag op) (display_ops d)"
  by (simp_all add: filesystem_ops_def runtime_ops_def dbus_ops_def display_ops_def is_flag_def
      environment_ops_def Let_def split: option.split)

lemma bind_self_no_flags: "list_all (\<lambda>op. \<not> is_flag op) (bind_self ps)"
  by (induction ps) (simp_all add: bind_self_def is_flag_def)

lemma sandbox_flags:
  assumes "is_flag op"
  shows "op \<in> set (sandbox_ops host c sandbox proxy) \<longleftrightarrow>
    op \<in> set (namespace_ops sandbox) \<or> op \<in> set final_ops"
  using assms no_flags bind_self_no_flags
  by (auto simp: sandbox_ops_def Let_def list_all_iff)

lemma flags [simp]:
  "is_flag Op_unshare_pid" "is_flag Op_unshare_ipc" "is_flag Op_unshare_net"
  "is_flag Op_die_with_parent" "is_flag Op_new_session"
  by (simp_all add: is_flag_def)

text \<open>The namespaces of the sandbox: the PID and IPC namespaces are unshared exactly if the
  configuration asks for it, the network namespace exactly if it names one (the name is not used),
  and the sandbox always dies with its parent and starts a session of its own.\<close>

lemma sandbox_namespaces:
  assumes "extra_in_range sandbox"
    and "dlp_build_bwrap_args mem host (Some c) (Some cmd) sandbox proxy = Some (Some b, n)"
  shows "\<exists>ops. runs_with b ops cmd \<and>
    (Op_unshare_pid \<in> set ops \<longleftrightarrow> (\<exists>sb. sandbox = Some sb \<and> isolate_pid sb)) \<and>
    (Op_unshare_ipc \<in> set ops \<longleftrightarrow> (\<exists>sb. sandbox = Some sb \<and> isolate_ipc sb)) \<and>
    (Op_unshare_net \<in> set ops \<longleftrightarrow> (\<exists>sb. sandbox = Some sb \<and> network_namespace sb \<noteq> None)) \<and>
    Op_die_with_parent \<in> set ops \<and> Op_new_session \<in> set ops"
proof (intro exI conjI)
  show "runs_with b (sandbox_ops host c sandbox proxy) cmd" using assms by (rule built_runs)
qed (auto simp: sandbox_flags namespace_ops_def final_ops_def sb_flag_def split: option.splits)

section \<open>Instances\<close>

text \<open>A desktop session and a strict sandbox with a workspace and one extra path.\<close>

definition demo_host :: launch_host where
  "demo_host =
     \<lparr>host_getenv = [''HOME'' \<mapsto> ''/home/u'', ''XDG_RUNTIME_DIR'' \<mapsto> ''/run/user/1000''],
      host_exists = (\<lambda>_. True),
      host_config = \<lparr>WLR_HAS_XWAYLAND = True, WLR_HAS_X11_BACKEND = True\<rparr>,
      host_display_name = Some '':1''\<rparr>"

definition demo_compositor :: coder_dlp_compositor where
  "demo_compositor = zero_compositor\<lparr>socket := Some ''wayland-1'', xwayland := Some 7\<rparr>"

definition demo_sandbox :: coder_dlp_sandbox_config where
  "demo_sandbox = zero_sandbox_config\<lparr>isolate_filesystem := True, isolate_pid := True,
     workspace_path := Some ''/work'', extra_bind_paths := Some [None, Some ''/opt/x''],
     extra_bind_count := 2, filter_dbus := True\<rparr>"

lemma build_ok:
  assumes "extra_in_range sandbox"
  obtains b n where
    "dlp_build_bwrap_args (\<lambda>_. True) host (Some c) (Some cmd) sandbox proxy = Some (Some b, n)"
  using build_bwrap_args_result [OF bwrap_words_ops [OF assms, of host c cmd proxy], of "\<lambda>_. True"]
  by (auto simp: built_def split: option.splits)

lemma demo_range [simp]: "extra_in_range (Some demo_sandbox)"
  by (simp add: extra_in_range_def demo_sandbox_def)

lemma demo_display [simp]: "host_display demo_host demo_compositor = Some '':1''"
  by (simp add: host_display_def coder_dlp_get_xwayland_display_def demo_host_def demo_compositor_def)

lemma demo_runtime [simp]: "host_getenv demo_host ''XDG_RUNTIME_DIR'' = Some ''/run/user/1000''"
  by (simp add: demo_host_def)

lemma demo_late [simp]: "late_paths demo_host demo_compositor = [''/tmp/.X11-unix/X1'']"
  by (simp add: late_paths_def x11_socket_def PATH_MAX_def)

lemma demo_extra [simp]: "extra_paths (Some demo_sandbox) = [''/opt/x'']"
  "workspace_paths (Some demo_sandbox) = [''/work'']"
  by (simp_all add: extra_paths_def workspace_paths_def demo_sandbox_def)

lemma demo_bus [simp]: "bus_path ''/run/user/1000'' = ''/run/user/1000/bus''"
  by (simp add: bus_path_def PATH_MAX_def)

lemma demo_writable: "writable_paths demo_host demo_compositor demo_sandbox =
    [''/dev/dri'', ''/dev/shm'', ''/run/user/1000/bus'', ''/run/user/1000/wayland-1'', ''/work'',
     ''/opt/x'', ''/tmp/.X11-unix/X1'']"
  by (simp add: writable_paths_def demo_host_def demo_compositor_def late_paths_def [symmetric]
      demo_sandbox_def [symmetric] del: demo_late)
     (simp add: demo_late [unfolded demo_host_def demo_compositor_def] demo_sandbox_def PATH_MAX_def
      zero_sandbox_config_def)

theorem build_bwrap_args_memory_witness:
  "extra_in_range (Some demo_sandbox) \<and>
   (\<exists>r n. dlp_build_bwrap_args (\<lambda>n. n < 20) demo_host (Some demo_compositor) (Some ''ls'')
      (Some demo_sandbox) None = Some (r, n) \<and>
    (case r of
       Some b \<Rightarrow> (\<exists>ws. c_argv b = Some ws \<and> n = int (length ws) + 1) \<and> dlp_free_bwrap_args r n = 0
     | None \<Rightarrow> n = 0 \<and> (\<exists>k. \<not> k < (20::nat))))"
  using build_bwrap_args_memory [of "Some demo_sandbox" "\<lambda>n. n < 20" demo_host demo_compositor "''ls''"
      None] by simp

theorem build_bwrap_args_refines_witness:
  "\<exists>b n ws. dlp_build_bwrap_args (\<lambda>_. True) demo_host (Some demo_compositor) (Some ''--bind / /; rm'')
      (Some demo_sandbox) None = Some (Some b, n) \<and> c_argv b = Some (''bwrap'' # ws) \<and>
    parse_bwrap ws = Some (sandbox_ops demo_host demo_compositor (Some demo_sandbox) None,
      [''/bin/sh'', ''-c'', ''--bind / /; rm''])"
proof -
  obtain b n where b: "dlp_build_bwrap_args (\<lambda>_. True) demo_host (Some demo_compositor)
      (Some ''--bind / /; rm'') (Some demo_sandbox) None = Some (Some b, n)"
    using build_ok [OF demo_range] .
  with build_bwrap_args_refines [OF demo_range b] show ?thesis by blast
qed

theorem dbus_filtered_witness:
  "\<exists>b n ops. dlp_build_bwrap_args (\<lambda>_. True) demo_host (Some demo_compositor) (Some ''ls'')
      (Some demo_sandbox) (Some ''/tmp/p/bus'') = Some (Some b, n) \<and> runs_with b ops ''ls'' \<and>
    mount_at ops ''/run/user/1000/bus'' = Some (Host ''/tmp/p/bus'' True)"
proof -
  obtain b n where b: "dlp_build_bwrap_args (\<lambda>_. True) demo_host (Some demo_compositor)
      (Some ''ls'') (Some demo_sandbox) (Some ''/tmp/p/bus'') = Some (Some b, n)"
    using build_ok [OF demo_range] .
  have "length ''/run/user/1000'' < PATH_MAX - 4"
    "\<not> hides_bus (late_paths demo_host demo_compositor) ''/run/user/1000''"
    by (simp_all add: PATH_MAX_def hides_bus_def covers_def)
  from dbus_filtered [OF demo_range b demo_runtime this, of Map.empty] b show ?thesis by auto
qed

theorem isolated_files_read_only_witness:
  "\<exists>b n ops. dlp_build_bwrap_args (\<lambda>_. True) demo_host (Some demo_compositor) (Some ''ls'')
      (Some demo_sandbox) None = Some (Some b, n) \<and> runs_with b ops ''ls'' \<and>
    (\<forall>src. mount_at ops ''/etc/passwd'' \<noteq> Some (Host src True))"
proof -
  obtain b n where b: "dlp_build_bwrap_args (\<lambda>_. True) demo_host (Some demo_compositor)
      (Some ''ls'') (Some demo_sandbox) None = Some (Some b, n)"
    using build_ok [OF demo_range] .
  have "isolate_filesystem demo_sandbox" by (simp add: demo_sandbox_def)
  moreover have "d \<in> set (writable_paths demo_host demo_compositor demo_sandbox) \<Longrightarrow>
      \<not> covers d ''/etc/passwd''" for d
    by (auto simp: demo_writable covers_def)
  ultimately show ?thesis
    using isolated_files_read_only [OF _ demo_range b, of "''/etc/passwd''"] b by blast
qed

end
