(* ===== verification/Launch.thy ===== *)
theory Launch
  imports Dbus_Proxy Bwrap_Spec
begin

text \<open>
  \<^verbatim>\<open>coder_dlp_launch_app\<close> of \<^verbatim>\<open>src/sandbox_launcher.c\<close>: start the filter if it is asked
  for, build the argument vector, fork, and remember the proxy in the compositor.
\<close>

text \<open>
  The answers of the system during one launch: those of the proxy's start, of the memory requests
  for the vector, of the second \<^verbatim>\<open>fork\<close>, and whether the proxy table can grow.
\<close>

record launch_env =
  le_start :: start_env
  le_host :: launch_host
  le_mem :: "nat \<Rightarrow> bool"
  le_fork :: int
  le_realloc :: bool

text \<open>The five statements that undo a started proxy, written out three times in the source.\<close>

definition undo_proxy :: "dlp_dbus_proxy \<Rightarrow> os \<Rightarrow> os option" where
  "undo_proxy p s = do {
     s \<leftarrow> sys_close (pipe_write_fd p) s;
     s \<leftarrow> sys_kill (proxy_pid p) s;
     s \<leftarrow> sys_waitpid (proxy_pid p) s;
     let s = sys_unlink (socket_path p) s;
     Some (if dir_path p \<noteq> [] then sys_rmdir (dir_path p) s else s)
   }"

definition undo_started :: "dlp_dbus_proxy \<Rightarrow> os \<Rightarrow> os option" where
  "undo_started p s = (if proxy_pid p > 0 then undo_proxy p s else Some s)"

text \<open>The end of the function: the proxy table takes the proxy over.\<close>

definition track_proxy ::
    "bool \<Rightarrow> dlp_dbus_proxy \<Rightarrow> coder_dlp_compositor \<Rightarrow> os \<Rightarrow> (coder_dlp_compositor \<times> os) option" where
  "track_proxy realloc_ok p c s =
     (if proxy_pid p > 0
      then do {
        (stored, v) \<leftarrow> vec_add realloc_ok p (dbus_proxies c);
        if stored then Some (c\<lparr>dbus_proxies := v\<rparr>, s)
        else do { s \<leftarrow> undo_proxy p s; Some (c, s) }
      }
      else Some (c, s))"

text \<open>
  The result: the return value, the compositor, the system, and the number of memory blocks of the
  vector that are still allocated.
\<close>

definition coder_dlp_launch_app ::
    "launch_env \<Rightarrow> coder_dlp_compositor option \<Rightarrow> string option \<Rightarrow> coder_dlp_sandbox_config option
       \<Rightarrow> os \<Rightarrow> (int \<times> coder_dlp_compositor option \<times> os \<times> int) option" where
  "coder_dlp_launch_app e cc command sandbox s =
     (case (cc, command) of
        (Some c, Some cmd) \<Rightarrow> do {
          (proxy, proxy_socket, s) \<leftarrow>
            (if sb_flag filter_dbus sandbox
             then do {
               (ret, proxy, s) \<leftarrow> dlp_start_dbus_proxy (le_start e) sandbox no_proxy s;
               Some (proxy, Some (if ret = 0 then socket_path proxy else []), s)
             }
             else Some (no_proxy, None, s));
          (av, blocks) \<leftarrow> dlp_build_bwrap_args (le_mem e) (le_host e) cc command sandbox proxy_socket;
          (case av of
             None \<Rightarrow> do { s \<leftarrow> undo_started proxy s; Some (-1, cc, s, blocks) }
           | Some b \<Rightarrow>
               if le_fork e < 0
               then do { s \<leftarrow> undo_started proxy s; Some (-1, cc, s, dlp_free_bwrap_args av blocks) }
               else do {
                 ws \<leftarrow> c_argv b;
                 let s = sys_fork (le_fork e) (Exec ws) s;
                 let blocks = dlp_free_bwrap_args av blocks;
                 (c, s) \<leftarrow> track_proxy (le_realloc e) proxy c s;
                 Some (le_fork e, Some c, s, blocks)
               })
        }
      | _ \<Rightarrow> Some (-1, cc, s, 0))"

section \<open>Who owns what\<close>

text \<open>
  The proxies with an index in \<open>I\<close> of the family \<open>e\<close> own, each alone, their process, pipe,
  socket and directory; the rest of the system is \<open>base\<close>.
\<close>

definition holds :: "resource set \<Rightarrow> (nat \<Rightarrow> dlp_dbus_proxy) \<Rightarrow> nat set \<Rightarrow> os \<Rightarrow> bool" where
  "holds base e I s \<longleftrightarrow>
     (\<forall>i \<in> I. proxy_wf (e i) \<and> owned (e i) \<inter> base = {} \<and>
        (\<forall>f \<in> files s. in_dir (dir_path (e i)) f \<longrightarrow> f = socket_path (e i))) \<and>
     (\<forall>i \<in> I. \<forall>j \<in> I. i \<noteq> j \<longrightarrow> owned (e i) \<inter> owned (e j) = {}) \<and>
     resources s = base \<union> (\<Union>i \<in> I. owned (e i))"

lemma holds_owned: "holds base e I s \<Longrightarrow> i \<in> I \<Longrightarrow> owned (e i) \<subseteq> resources s"
  by (auto simp: holds_def)

lemma holds_remove:
  assumes "holds base e I s" and "i \<in> I" and "resources t = resources s - owned (e i)"
    and "\<And>j. j \<in> I - {i} \<Longrightarrow> e' j = e j"
  shows "holds base e' (I - {i}) t"
proof -
  have sub: "f \<in> files s" if "f \<in> files t" for f
    using that assms(3) in_resources(3) [of f t] in_resources(3) [of f s] by blast
  have "owned (e j) \<inter> owned (e i) = {}" if "j \<in> I - {i}" for j
    using assms(1,2) that by (simp add: holds_def)
  then have "(\<Union>j \<in> I - {i}. owned (e j)) \<inter> owned (e i) = {}" by blast
  moreover have "owned (e i) \<inter> base = {}"
    using assms(1,2) by (simp add: holds_def)
  ultimately have "resources t = base \<union> (\<Union>j \<in> I - {i}. owned (e j))"
    using assms(1-3) by (auto simp: holds_def)
  with sub show ?thesis
    using assms(1,4) by (simp add: holds_def)
qed

lemma holds_cong:
  assumes "holds base e I s" and "resources t = resources s" and "\<And>j. j \<in> I \<Longrightarrow> e' j = e j"
  shows "holds base e' I t"
proof -
  have "files t = files s"
    using assms(2) in_resources(3) [of _ t] in_resources(3) [of _ s] by blast
  then show ?thesis using assms by (simp add: holds_def)
qed

lemma holds_add:
  assumes h: "holds base e I s" and p: "proxy_wf p" "owned p \<inter> resources s = {}"
    and "resources t = owned p \<union> resources s" and "n \<notin> I"
    and new: "\<And>f. f \<in> files s \<Longrightarrow> \<not> in_dir (dir_path p) f"
    and e': "e' n = p" "\<And>j. j \<in> I \<Longrightarrow> e' j = e j"
  shows "holds base e' (insert n I) t"
proof -
  have files: "f \<in> files t \<longleftrightarrow> f = socket_path p \<or> f \<in> files s" for f
    using assms(4) in_resources(3) [of f t] in_resources(3) [of f s] by (auto simp: owned_def)
  have old: "owned (e i) \<inter> owned p = {}" if "i \<in> I" for i
    using holds_owned [OF h that] p(2) by blast
  have "\<not> in_dir (dir_path (e i)) (socket_path p)" if "i \<in> I" for i
  proof
    assume "in_dir (dir_path (e i)) (socket_path p)"
    then have "dir_path p = dir_path (e i)" using p(1) by (simp add: proxy_wf_def in_dir_unique)
    with old [OF that] show False by (auto simp: owned_def)
  qed
  then have "\<forall>i \<in> I. \<forall>f \<in> files t. in_dir (dir_path (e i)) f \<longrightarrow> f = socket_path (e i)"
    using h files by (auto simp: holds_def)
  moreover have "\<forall>f \<in> files t. in_dir (dir_path p) f \<longrightarrow> f = socket_path p" using new files by blast
  moreover have "owned p \<inter> base = {}" using h p(2) by (auto simp: holds_def)
  moreover have "resources t = base \<union> (\<Union>i \<in> insert n I. owned (e' i))"
    using h assms(4) e' by (auto simp: holds_def)
  ultimately show ?thesis
    using h p e' old assms(5) by (auto simp: holds_def)
qed

lemma holds_base:
  assumes "holds base e I s" and "R \<inter> resources s = {}" and "resources t = R \<union> resources s"
    and "\<And>f. File f \<notin> R"
  shows "holds (R \<union> base) e I t"
proof -
  have "files t = files s"
    using assms(3,4) in_resources(3) [of _ t] in_resources(3) [of _ s] by blast
  moreover have "owned (e i) \<inter> R = {}" if "i \<in> I" for i
    using holds_owned [OF assms(1) that] assms(2) by blast
  ultimately show ?thesis using assms(1,3) by (auto simp: holds_def)
qed

text \<open>Releasing one proxy, on the three ways the code does it.\<close>

definition alone :: "dlp_dbus_proxy \<Rightarrow> os \<Rightarrow> bool" where
  "alone p s \<longleftrightarrow> proxy_wf p \<and> owned p \<subseteq> resources s \<and>
     (\<forall>f \<in> files s. in_dir (dir_path p) f \<longrightarrow> f = socket_path p)"

lemma holds_alone: "holds base e I s \<Longrightarrow> i \<in> I \<Longrightarrow> alone (e i) s"
  using holds_owned by (auto simp: holds_def alone_def)

lemma alone_paths: "alone p s \<Longrightarrow> socket_path p \<noteq> [] \<and> dir_path p \<noteq> []"
  by (auto simp: alone_def proxy_wf_def)

lemma files_gone:
  assumes "alone p s" and "files t = files s" and "R = resources t"
  shows "resources (sys_rmdir (dir_path p) (sys_unlink (socket_path p) t)) =
    R - {File (socket_path p), Dir (dir_path p)}"
proof -
  have "resources (sys_rmdir (dir_path p) (sys_unlink (socket_path p) t)) =
      resources (sys_unlink (socket_path p) t) - {Dir (dir_path p)}"
    by (rule resources_rmdir) (use assms in \<open>auto simp: resources_unlink alone_def\<close>)
  then show ?thesis using assms(3) by (auto simp: resources_unlink)
qed

lemma close_pipe:
  assumes "alone p s"
  obtains t where "sys_close (pipe_write_fd p) s = Some t"
    "resources t = resources s - {Fd (pipe_write_fd p)}" "files t = files s" "children t = children s"
proof -
  from assms have "pipe_write_fd p \<in> open_fds s" by (auto simp: alone_def owned_def)
  then show thesis
    by (intro that [of "s\<lparr>open_fds := open_fds s - {pipe_write_fd p}\<rparr>"])
      (auto simp: sys_close_def resources_def)
qed

lemma nohang_exited:
  assumes "Child pid \<in> resources s" and "0 < pid"
  obtains ret t where "sys_waitpid_nohang exited pid s = (ret, t)" "files t = files s"
    "open_fds t = open_fds s"
    "exited pid \<and> ret = pid \<and> resources t = resources s - {Child pid} \<or>
     \<not> exited pid \<and> ret = 0 \<and> t = s"
proof -
  from assms(1) obtain ch where ch: "children s pid = Some ch" by auto
  show thesis
  proof (cases "exited pid")
    case True
    show ?thesis
    proof (rule that)
      show "sys_waitpid_nohang exited pid s = (pid, s\<lparr>children := (children s)(pid := None)\<rparr>)"
        using ch True by (simp add: sys_waitpid_nohang_def)
    qed (use True in \<open>auto simp: resources_def\<close>)
  next
    case False
    show ?thesis
      by (rule that [of 0 s]) (use ch False in \<open>simp_all add: sys_waitpid_nohang_def\<close>)
  qed
qed

lemma reap_entry_alone:
  assumes "alone p s"
  shows "if exited (proxy_pid p)
    then (\<exists>q t. reap_entry exited p s = Some (q, t) \<and> proxy_pid q = 0 \<and> resources t = resources s - owned p)
    else reap_entry exited p s = Some (p, s)"
proof -
  have pid: "0 < proxy_pid p" "0 \<le> pipe_write_fd p" "Child (proxy_pid p) \<in> resources s"
    using assms by (auto simp: alone_def proxy_wf_def owned_def)
  obtain ret t where w: "sys_waitpid_nohang exited (proxy_pid p) s = (ret, t)" "files t = files s"
    "open_fds t = open_fds s"
    and cases: "exited (proxy_pid p) \<and> ret = proxy_pid p \<and> resources t = resources s - {Child (proxy_pid p)} \<or>
      \<not> exited (proxy_pid p) \<and> ret = 0 \<and> t = s"
    using nohang_exited [OF pid(3,1)] .
  from cases show ?thesis
  proof
    assume r: "exited (proxy_pid p) \<and> ret = proxy_pid p \<and> resources t = resources s - {Child (proxy_pid p)}"
    have "pipe_write_fd p \<in> open_fds t" using assms w(3) by (auto simp: alone_def owned_def)
    then obtain u where u: "sys_close (pipe_write_fd p) t = Some u" by (simp add: sys_close_def)
    have "files u = files s" using files_close [OF u] w(2) by simp
    from files_gone [OF assms this refl] resources_close [OF u] r
    have "resources (sys_rmdir (dir_path p) (sys_unlink (socket_path p) u)) = resources s - owned p"
      by (auto simp: owned_def)
    with w(1) r u pid alone_paths [OF assms] show ?thesis by (simp add: reap_entry_def)
  qed (use w pid in \<open>simp add: reap_entry_def\<close>)
qed

lemma cleanup_entry_alone:
  assumes "alone p s"
  shows "\<exists>q t. cleanup_entry exited p s = Some (q, t) \<and> resources t = resources s - owned p"
proof -
  have pid: "0 < proxy_pid p" "0 \<le> pipe_write_fd p" "Child (proxy_pid p) \<in> resources s"
    using assms by (auto simp: alone_def proxy_wf_def owned_def)
  obtain t where t: "sys_close (pipe_write_fd p) s = Some t"
    "resources t = resources s - {Fd (pipe_write_fd p)}" "files t = files s"
    using close_pipe [OF assms] .
  then have ch: "Child (proxy_pid p) \<in> resources t" using pid(3) by simp
  obtain ret u where w: "sys_waitpid_nohang exited (proxy_pid p) t = (ret, u)" "files u = files t"
    and "exited (proxy_pid p) \<and> ret = proxy_pid p \<and> resources u = resources t - {Child (proxy_pid p)} \<or>
      \<not> exited (proxy_pid p) \<and> ret = 0 \<and> u = t"
    using nohang_exited [OF ch pid(1)] .
  then have cases: "ret = proxy_pid p \<and> resources u = resources t - {Child (proxy_pid p)} \<or> ret = 0 \<and> u = t"
    by blast
  have fin: "\<exists>v. (if ret = 0 then do { s \<leftarrow> sys_kill (proxy_pid p) u; sys_waitpid (proxy_pid p) s }
        else Some u) = Some v \<and> files v = files s \<and> resources v = resources t - {Child (proxy_pid p)}"
  proof (cases "ret = 0")
    case True
    with cases pid(1) have "u = t" by auto
    with ch obtain x v where "sys_kill (proxy_pid p) u = Some x" "sys_waitpid (proxy_pid p) x = Some v"
      "resources v = resources t - {Child (proxy_pid p)}" "files v = files t"
      using resources_kill_wait by metis
    with True t(3) show ?thesis by simp
  qed (use cases w t(3) in auto)
  then obtain v where v: "(if ret = 0 then do { s \<leftarrow> sys_kill (proxy_pid p) u; sys_waitpid (proxy_pid p) s }
        else Some u) = Some v" "files v = files s" "resources v = resources t - {Child (proxy_pid p)}"
    by blast
  from files_gone [OF assms v(2) refl] v(3) t(2)
  have "resources (sys_rmdir (dir_path p) (sys_unlink (socket_path p) v)) = resources s - owned p"
    by (auto simp: owned_def)
  moreover have "cleanup_entry exited p s = Some (p\<lparr>pipe_write_fd := -1\<rparr>,
      sys_rmdir (dir_path p) (sys_unlink (socket_path p) v))"
    using t(1) w(1) v(1) pid(1,2) alone_paths [OF assms] unfolding cleanup_entry_def Let_def
    by (cases "ret = 0"; cases "sys_kill (proxy_pid p) u") simp_all
  ultimately show ?thesis by blast
qed


lemma undo_proxy_alone:
  assumes "alone p s"
  shows "\<exists>t. undo_proxy p s = Some t \<and> resources t = resources s - owned p \<and>
    children t = (children s)(proxy_pid p := None)"
proof -
  obtain t where t: "sys_close (pipe_write_fd p) s = Some t"
    "resources t = resources s - {Fd (pipe_write_fd p)}" "files t = files s" "children t = children s"
    using close_pipe [OF assms] .
  then have "Child (proxy_pid p) \<in> resources t" using assms by (simp add: alone_def owned_def)
  then obtain x v where v: "sys_kill (proxy_pid p) t = Some x" "sys_waitpid (proxy_pid p) x = Some v"
    "resources v = resources t - {Child (proxy_pid p)}" "files v = files t"
    "children v = (children t)(proxy_pid p := None)"
    by (rule resources_kill_wait)
  from files_gone [OF assms _ refl, of v] v(3,4) t(2,3)
  have "resources (sys_rmdir (dir_path p) (sys_unlink (socket_path p) v)) = resources s - owned p"
    by (auto simp: owned_def)
  moreover have "children (sys_rmdir (dir_path p) (sys_unlink (socket_path p) v)) = children v"
    by (simp add: sys_rmdir_def sys_unlink_def)
  ultimately show ?thesis
    using t(1,4) v(1,2,5) alone_paths [OF assms] by (simp add: undo_proxy_def)
qed

section \<open>The table\<close>

definition entry :: "dlp_dbus_proxy vec \<Rightarrow> nat \<Rightarrow> dlp_dbus_proxy" where
  "entry v i = vec_elems v ! i"

definition live_at :: "dlp_dbus_proxy vec \<Rightarrow> nat set" where
  "live_at v = {i. i < used v \<and> proxy_pid (entry v i) \<noteq> 0}"

text \<open>The accounts of a compositor: its table's live entries own their proxies.\<close>

definition accounts :: "resource set \<Rightarrow> dlp_dbus_proxy vec \<Rightarrow> os \<Rightarrow> bool" where
  "accounts base v s \<longleftrightarrow> vec_wf v \<and> holds base (entry v) (live_at v) s"

definition set_entry :: "dlp_dbus_proxy vec \<Rightarrow> nat \<Rightarrow> dlp_dbus_proxy \<Rightarrow> dlp_dbus_proxy vec" where
  "set_entry v i p = v\<lparr>slots := (slots v)[i := Some p]\<rparr>"

lemma set_entry_wf:
  assumes "vec_wf v" and "i < used v"
  shows "vec_wf (set_entry v i p)" "used (set_entry v i p) = used v" "cap (set_entry v i p) = cap v"
    "entry (set_entry v i p) = (entry v)(i := p)"
proof -
  have len: "length (slots v) = cap v" "used v \<le> cap v" and n: "None \<notin> set (take (used v) (slots v))"
    using assms(1) by (auto simp: vec_wf_def)
  have take: "take (used v) ((slots v)[i := Some p]) = (take (used v) (slots v))[i := Some p]"
    using assms(2) by (simp add: take_update_swap)
  have "set ((take (used v) (slots v))[i := Some p]) \<subseteq> insert (Some p) (set (take (used v) (slots v)))"
    by (rule set_update_subset_insert)
  with n show "vec_wf (set_entry v i p)" using len take by (auto simp: vec_wf_def set_entry_def)
  show "used (set_entry v i p) = used v" "cap (set_entry v i p) = cap v"
    by (simp_all add: set_entry_def)
  show "entry (set_entry v i p) = (entry v)(i := p)"
  proof
    fix j
    show "entry (set_entry v i p) j = ((entry v)(i := p)) j"
    proof (cases "j < used v")
      case True
      then show ?thesis
        using assms len take by (simp add: entry_def vec_elems_def set_entry_def nth_list_update)
    next
      case False
      with assms(2) take have "j \<noteq> i" by auto
      have "vec_elems (set_entry v i p) = (vec_elems v)[i := p]"
        using take by (simp add: vec_elems_def set_entry_def map_update)
      with \<open>j \<noteq> i\<close> show ?thesis by (simp add: entry_def nth_list_update_neq)
    qed
  qed
qed

lemma load_entry: "vec_wf v \<Longrightarrow> i < used v \<Longrightarrow> load_at (slots v) i = Some (Some (entry v i))"
  using vec_wf_nth [of v i] by (simp add: entry_def vec_wf_def)

text \<open>A loop over the table keeps what each of its rounds keeps.\<close>

lemma table_loop_inv:
  assumes "P i v s" and "i \<le> used v" and "vec_wf v"
    and step: "\<And>j w t. P j w t \<Longrightarrow> vec_wf w \<Longrightarrow> used w = used v \<Longrightarrow> j < used w \<Longrightarrow>
      \<exists>p u. body (entry w j) t = Some (p, u) \<and> P (Suc j) (set_entry w j p) u"
  shows "\<exists>w t. table_loop body [i..<used v] v s = Some (w, t) \<and> vec_wf w \<and> used w = used v \<and> P (used v) w t"
proof -
  have "\<exists>w' t'. table_loop body [i..<n] w t = Some (w', t') \<and> vec_wf w' \<and> used w' = n \<and> P n w' t'"
    if "P i w t" "i \<le> n" "vec_wf w" "used w = n" "n = used v" for i n w t
    using that
  proof (induction "n - i" arbitrary: i w t)
    case (Suc k)
    then have i: "i < used w" "i < n" by simp_all
    obtain p u where p: "body (entry w i) t = Some (p, u)" "P (Suc i) (set_entry w i p) u"
      using step [of i w t] Suc.prems i by auto
    note wf = set_entry_wf [OF Suc.prems(3) i(1), of p]
    have "i < length (slots w)" using Suc.prems(3) i by (simp add: vec_wf_def)
    then have "table_loop body [i..<n] w t = table_loop body [Suc i..<n] (set_entry w i p) u"
      using load_entry [OF Suc.prems(3) i(1)] p(1) i by (simp add: upt_conv_Cons set_entry_def)
    with Suc.hyps(1) [of "Suc i" "set_entry w i p" u] Suc.hyps(2) Suc.prems p(2) wf show ?case by simp
  next
    case 0
    then show ?case by simp
  qed
  with assms(1-3) show ?thesis by blast
qed

section \<open>Reaping, cleaning up and launching keep the accounts\<close>

lemma live_at_set_entry:
  assumes "vec_wf v" and "i < used v"
  shows "live_at (set_entry v i p) = (if proxy_pid p = 0 then live_at v - {i} else insert i (live_at v))"
  using set_entry_wf [OF assms, of p] assms(2) by (auto simp: live_at_def)

text \<open>
  What is left after a reap: the live entries whose process has not exited, unchanged.
\<close>

definition reaped_upto ::
    "(int \<Rightarrow> bool) \<Rightarrow> dlp_dbus_proxy vec \<Rightarrow> nat \<Rightarrow> dlp_dbus_proxy vec \<Rightarrow> bool" where
  "reaped_upto exited v n w \<longleftrightarrow>
     live_at w = {i \<in> live_at v. n \<le> i \<or> \<not> exited (proxy_pid (entry v i))} \<and>
     (\<forall>i. i \<in> live_at w \<longrightarrow> entry w i = entry v i)"

lemma reap_table:
  assumes acc: "accounts base v s"
  shows "\<exists>w t. table_loop (reap_entry exited) [0..<used v] v s = Some (w, t) \<and> vec_wf w \<and>
      used w = used v \<and> accounts base w t \<and> reaped_upto exited v (used v) w"
proof (rule table_loop_inv [where P = "\<lambda>n w t. accounts base w t \<and> reaped_upto exited v n w"])
  fix j w t
  assume P: "accounts base w t \<and> reaped_upto exited v j w" and wf: "vec_wf w" and j: "j < used w"
  then have h: "holds base (entry w) (live_at w) t" by (simp add: accounts_def)
  note se = set_entry_wf [OF wf j] live_at_set_entry [OF wf j]
  have same: "accounts base (set_entry w j (entry w j)) t \<and>
      reaped_upto exited v (Suc j) (set_entry w j (entry w j))"
    if "j \<in> live_at w \<Longrightarrow> \<not> exited (proxy_pid (entry w j))"
  proof -
    have live: "live_at (set_entry w j (entry w j)) = live_at w"
      using se(5) [of "entry w j"] j by (auto simp: live_at_def)
    have "reaped_upto exited v (Suc j) (set_entry w j (entry w j))"
      unfolding reaped_upto_def live se(4)
    proof
      show "live_at w = {i \<in> live_at v. Suc j \<le> i \<or> \<not> exited (proxy_pid (entry v i))}"
        using P that by (auto simp: reaped_upto_def le_eq_less_or_eq Suc_le_eq)
    qed (use P in \<open>auto simp: reaped_upto_def\<close>)
    with h live se(1,4) [of "entry w j"] show ?thesis by (simp add: accounts_def)
  qed
  show "\<exists>p u. reap_entry exited (entry w j) t = Some (p, u) \<and> accounts base (set_entry w j p) u \<and>
      reaped_upto exited v (Suc j) (set_entry w j p)"
  proof (cases "j \<in> live_at w \<and> exited (proxy_pid (entry w j))")
    case False
    have "reap_entry exited (entry w j) t = Some (entry w j, t)"
    proof (cases "j \<in> live_at w")
      case True
      with False reap_entry_alone [OF holds_alone [OF h True], of exited] show ?thesis by simp
    qed (use j in \<open>simp add: live_at_def reap_entry_def\<close>)
    with same False show ?thesis by blast
  next
    case True
    then have jl: "j \<in> live_at w" by blast
    obtain q u where q: "reap_entry exited (entry w j) t = Some (q, u)" "proxy_pid q = 0"
      "resources u = resources t - owned (entry w j)"
      using reap_entry_alone [OF holds_alone [OF h jl], of exited] True by auto
    have live: "live_at (set_entry w j q) = live_at w - {j}" using se(5) [of q] q(2) by simp
    have "holds base (entry (set_entry w j q)) (live_at w - {j}) u"
      by (rule holds_remove [OF h jl q(3)]) (simp add: se(4))
    moreover have "reaped_upto exited v (Suc j) (set_entry w j q)"
      unfolding reaped_upto_def live se(4)
    proof
      have "entry w j = entry v j" using P jl by (simp add: reaped_upto_def)
      then show "live_at w - {j} = {i \<in> live_at v. Suc j \<le> i \<or> \<not> exited (proxy_pid (entry v i))}"
        using P True by (auto simp: reaped_upto_def le_eq_less_or_eq Suc_le_eq)
    qed (use P in \<open>auto simp: reaped_upto_def\<close>)
    ultimately show ?thesis using q(1) se(1) live by (auto simp: accounts_def)
  qed
qed (use acc in \<open>simp_all add: accounts_def reaped_upto_def\<close>)

lemma reap_accounts:
  assumes "accounts base (dbus_proxies c) s"
  shows "\<exists>v t. dlp_reap_dbus_proxies exited (Some c) s = Some (Some (c\<lparr>dbus_proxies := v\<rparr>), t) \<and>
    accounts base v t \<and> reaped_upto exited (dbus_proxies c) (used (dbus_proxies c)) v"
proof -
  let ?v = "dbus_proxies c"
  obtain w t where w: "table_loop (reap_entry exited) [0..<used ?v] ?v s = Some (w, t)"
    "accounts base w t" "reaped_upto exited ?v (used ?v) w" using reap_table [OF assms] by blast
  show ?thesis
  proof (cases "cap ?v = 0")
    case True
    then have "used ?v = 0" using assms by (auto simp: accounts_def vec_wf_def)
    with w(3) have "reaped_upto exited ?v (used ?v) ?v" by (simp add: reaped_upto_def live_at_def)
    with True assms show ?thesis
      by (intro exI [of _ ?v] exI [of _ s]) (simp add: dlp_reap_dbus_proxies_def)
  next
    case False
    with w show ?thesis
      by (intro exI [of _ w] exI [of _ t]) (simp add: dlp_reap_dbus_proxies_def)
  qed
qed

lemma cleanup_accounts:
  assumes "accounts base (dbus_proxies c) s"
  shows "\<exists>t. dlp_cleanup_dbus_proxies exited (Some c) s = Some (Some (c\<lparr>dbus_proxies := empty_vec\<rparr>), t) \<and>
    resources t = base"
proof -
  let ?v = "dbus_proxies c"
  let ?P = "\<lambda>j w t. holds base (entry w) (live_at w \<inter> {j..}) t"
  have "\<exists>w t. table_loop (cleanup_entry exited) [0..<used ?v] ?v s = Some (w, t) \<and> vec_wf w \<and>
      used w = used ?v \<and> ?P (used ?v) w t"
  proof (rule table_loop_inv [where P = ?P])
    fix j w t
    assume h: "?P j w t" and wf: "vec_wf w" and j: "j < used w"
    note se = set_entry_wf [OF wf j] live_at_set_entry [OF wf j]
    have idx: "live_at (set_entry w j p) \<inter> {Suc j..} = (live_at w \<inter> {j..}) - {j}" for p
      using se(5) [of p] by auto
    show "\<exists>p u. cleanup_entry exited (entry w j) t = Some (p, u) \<and> ?P (Suc j) (set_entry w j p) u"
    proof (cases "j \<in> live_at w")
      case False
      with j have "proxy_pid (entry w j) = 0" by (simp add: live_at_def)
      moreover have "?P (Suc j) (set_entry w j (entry w j)) t"
        using h idx [of "entry w j"] False se(4) [of "entry w j"] by simp
      ultimately show ?thesis by (simp add: cleanup_entry_def)
    next
      case True
      then have j': "j \<in> live_at w \<inter> {j..}" by simp
      obtain q u where q: "cleanup_entry exited (entry w j) t = Some (q, u)"
        "resources u = resources t - owned (entry w j)"
        using cleanup_entry_alone [OF holds_alone [OF h j'], of exited] by blast
      have "holds base (entry (set_entry w j q)) (live_at w \<inter> {j..} - {j}) u"
        by (rule holds_remove [OF h j' q(2)]) (simp add: se(4))
      with q(1) idx show ?thesis by simp
    qed
  qed (use assms in \<open>simp_all add: accounts_def\<close>)
  moreover have "live_at w \<inter> {used w..} = {}" for w by (auto simp: live_at_def)
  ultimately obtain w t where "table_loop (cleanup_entry exited) [0..<used ?v] ?v s = Some (w, t)"
    and "holds base (entry w) {} t" by metis
  then show ?thesis by (simp add: dlp_cleanup_dbus_proxies_def holds_def)
qed

text \<open>A stored proxy is one more live entry.\<close>

lemma accounts_push:
  assumes acc: "accounts base v s" and push: "vec_add ok p v = Some (True, w)"
    and p: "proxy_wf p" "owned p \<inter> resources s = {}"
    and t: "resources t = owned p \<union> resources s"
    and new: "\<And>f. f \<in> files s \<Longrightarrow> \<not> in_dir (dir_path p) f"
  shows "accounts base w t"
proof -
  have wf: "vec_wf v" using acc by (simp add: accounts_def)
  have w: "vec_wf w" "vec_elems w = vec_elems v @ [p]"
    using doubling.push_inv [OF wf push] doubling.push_stored [OF wf push] by simp_all
  then have used: "used w = Suc (used v)" using wf by (metis length_append_singleton length_vec_elems)
  have entry: "entry w j = (if j < used v then entry v j else p)" if "j \<le> used v" for j
    using that w(2) wf by (simp add: entry_def nth_append)
  have "live_at w = insert (used v) (live_at v)"
    using used entry p(1) by (auto simp: live_at_def proxy_wf_def less_Suc_eq)
  moreover have "holds base (entry w) (insert (used v) (live_at v)) t"
  proof (rule holds_add [OF _ p t _ new])
    show "holds base (entry v) (live_at v) s" using acc by (simp add: accounts_def)
    show "entry w j = entry v j" if "j \<in> live_at v" for j using that entry by (simp add: live_at_def)
  qed (use entry in \<open>auto simp: live_at_def\<close>)
  ultimately show ?thesis using w(1) by (simp add: accounts_def)
qed

lemma accounts_cong: "accounts base v s \<Longrightarrow> resources t = resources s \<Longrightarrow> accounts base v t"
  unfolding accounts_def using holds_cong [of base "entry v" "live_at v" s t "entry v"] by simp

lemma accounts_base:
  assumes "accounts base v s" and "R \<inter> resources s = {}" and "resources t = R \<union> resources s"
    and "\<And>f. File f \<notin> R"
  shows "accounts (R \<union> base) v t"
  using assms holds_base [of base "entry v" "live_at v" s R t] by (simp add: accounts_def)

end
