(* ===== verification/Launch_Spec.thy ===== *)
theory Launch_Spec
  imports Launch
begin

text \<open>
  The contract of \<^verbatim>\<open>coder_dlp_launch_app\<close> and of the proxy table over any sequence of
  launches, reaps and cleanups: who owns which process, descriptor, socket and directory, what is
  released when, and what program the new child runs.
\<close>

text \<open>
  What the system guarantees of the answers of a launch, and what a launch may leave behind.
\<close>

definition launch_fresh :: "launch_env \<Rightarrow> os \<Rightarrow> bool" where
  "launch_fresh e s \<longleftrightarrow>
     start_fresh (le_start e) s \<and> le_fork e \<noteq> 0 \<and>
     (0 < le_fork e \<longrightarrow> le_fork e \<notin> dom (children s) \<and> le_fork e \<noteq> se_fork (le_start e))"

definition launch_leak :: "launch_env \<Rightarrow> coder_dlp_sandbox_config option \<Rightarrow> resource set" where
  "launch_leak e sandbox = (if sb_flag filter_dbus sandbox then Dir ` start_leak (le_start e) else {})"

definition in_range :: "coder_dlp_sandbox_config option \<Rightarrow> bool" where
  "in_range sandbox \<longleftrightarrow> extra_in_range sandbox \<and> talk_in_range sandbox"

text \<open>The system between the start of the filter and the end of the launch.\<close>

definition pending :: "resource set \<Rightarrow> dlp_dbus_proxy vec \<Rightarrow> dlp_dbus_proxy \<Rightarrow> os \<Rightarrow> bool" where
  "pending base v p s \<longleftrightarrow>
     (if 0 < proxy_pid p
      then alone p s \<and> (\<exists>s0. accounts base v s0 \<and> owned p \<inter> resources s0 = {} \<and>
         resources s = owned p \<union> resources s0 \<and> (\<forall>f \<in> files s0. \<not> in_dir (dir_path p) f))
      else accounts base v s)"

lemma pending_undo:
  assumes "pending base v p s"
  shows "\<exists>t. undo_started p s = Some t \<and> accounts base v t \<and>
    (\<forall>pid. pid \<noteq> proxy_pid p \<longrightarrow> children t pid = children s pid)"
proof (cases "0 < proxy_pid p")
  case True
  with assms obtain s0 where p: "alone p s" and s0: "accounts base v s0" "owned p \<inter> resources s0 = {}"
    "resources s = owned p \<union> resources s0" by (auto simp: pending_def)
  obtain t where t: "undo_proxy p s = Some t" "resources t = resources s - owned p"
    "children t = (children s)(proxy_pid p := None)"
    using undo_proxy_alone [OF p] by blast
  have "resources t = resources s0" using t(2) s0(2,3) by auto
  with accounts_cong [OF s0(1)] t True show ?thesis by (simp add: undo_started_def)
qed (use assms in \<open>auto simp: pending_def undo_started_def\<close>)

lemma pending_track:
  assumes pend: "pending base (dbus_proxies c) p s"
  shows "\<exists>c' t. track_proxy ok p c s = Some (c', t) \<and> accounts base (dbus_proxies c') t \<and>
    (\<forall>pid. pid \<noteq> proxy_pid p \<longrightarrow> children t pid = children s pid)"
proof (cases "0 < proxy_pid p")
  case True
  with pend obtain s0 where p: "alone p s" and s0: "accounts base (dbus_proxies c) s0"
    "owned p \<inter> resources s0 = {}" "resources s = owned p \<union> resources s0"
    "\<And>f. f \<in> files s0 \<Longrightarrow> \<not> in_dir (dir_path p) f" by (auto simp: pending_def)
  have wf: "vec_wf (dbus_proxies c)" "proxy_wf p"
    using s0(1) p by (simp_all add: accounts_def alone_def)
  obtain stored v where v: "vec_add ok p (dbus_proxies c) = Some (stored, v)"
    using doubling.push_total [OF wf(1)] by blast
  show ?thesis
  proof (cases stored)
    case stored: True
    with accounts_push [OF s0(1) _ wf(2) s0(2,3,4)] v True show ?thesis
      by (auto simp: track_proxy_def)
  next
    case False
    with pending_undo [OF pend] True v show ?thesis
      by (auto simp: track_proxy_def undo_started_def)
  qed
qed (use pend in \<open>auto simp: pending_def track_proxy_def\<close>)

text \<open>A new child beside the proxy.\<close>

lemma pending_fork:
  assumes pend: "pending base v p s" and pid: "pid \<notin> dom (children s)"
  shows "pending (insert (Child pid) base) v p (sys_fork pid img s)"
proof (cases "0 < proxy_pid p")
  case True
  with pend obtain s0 where p: "alone p s" and s0: "accounts base v s0"
    "owned p \<inter> resources s0 = {}" "resources s = owned p \<union> resources s0"
    "\<And>f. f \<in> files s0 \<Longrightarrow> \<not> in_dir (dir_path p) f" by (auto simp: pending_def)
  have out: "Child pid \<notin> owned p \<union> resources s0" using pid s0(3) by (metis in_resources(1))
  let ?s0 = "sys_fork pid img s0"
  have "accounts ({Child pid} \<union> base) v ?s0"
    by (rule accounts_base [OF s0(1)]) (use out in \<open>auto simp: resources_fork\<close>)
  moreover have "files ?s0 = files s0" "files (sys_fork pid img s) = files s"
    by (simp_all add: sys_fork_def)
  moreover have "alone p (sys_fork pid img s)"
    using p \<open>files (sys_fork pid img s) = files s\<close> by (auto simp: alone_def resources_fork)
  ultimately show ?thesis
    using True out s0 unfolding pending_def
    by (simp add: resources_fork) (intro exI [of _ ?s0], auto simp: resources_fork)
next
  case False
  have "accounts ({Child pid} \<union> base) v (sys_fork pid img s)"
    by (rule accounts_base) (use False pend pid in \<open>auto simp: pending_def resources_fork\<close>)
  with False show ?thesis by (simp add: pending_def)
qed

text \<open>The first part of a launch.\<close>

definition launch_filter ::
    "launch_env \<Rightarrow> coder_dlp_sandbox_config option \<Rightarrow> os
       \<Rightarrow> (dlp_dbus_proxy \<times> string option \<times> os) option" where
  "launch_filter e sandbox s =
     (if sb_flag filter_dbus sandbox
      then do {
        (ret, proxy, s) \<leftarrow> dlp_start_dbus_proxy (le_start e) sandbox no_proxy s;
        Some (proxy, Some (if ret = 0 then socket_path proxy else []), s)
      }
      else Some (no_proxy, None, s))"

text \<open>The bus the application gets: the real one, none, or the proxy of this launch.\<close>

definition bus_of :: "launch_env \<Rightarrow> coder_dlp_sandbox_config option \<Rightarrow> string option \<Rightarrow> bool" where
  "bus_of e sandbox bus \<longleftrightarrow>
     (case bus of
        None \<Rightarrow> \<not> sb_flag filter_dbus sandbox
      | Some p \<Rightarrow> sb_flag filter_dbus sandbox \<and>
          (p = [] \<or> (\<exists>sfx. se_mkdtemp (le_start e) = Some sfx \<and> p = proxy_dir sfx @ ''/bus'')))"

lemma launch_filter_pending:
  assumes acc: "accounts base v s" and fresh: "start_fresh (le_start e) s" and range: "talk_in_range sandbox"
  shows "\<exists>p bus t. launch_filter e sandbox s = Some (p, bus, t) \<and>
    pending (launch_leak e sandbox \<union> base) v p t \<and> bus_of e sandbox bus \<and>
    (proxy_pid p \<le> 0 \<or> proxy_pid p = se_fork (le_start e)) \<and>
    (\<forall>pid. pid \<noteq> se_fork (le_start e) \<longrightarrow> children t pid = children s pid)"
proof (cases "sb_flag filter_dbus sandbox")
  case False
  with acc show ?thesis
    by (simp add: launch_filter_def launch_leak_def pending_def bus_of_def no_proxy_def)
next
  case True
  from start_dbus_proxy_started [OF fresh range] obtain ret p t where
    r: "dlp_start_dbus_proxy (le_start e) sandbox no_proxy s = Some (ret, p, t)"
    and st: "started (le_start e) sandbox s (ret, p, t)" by (metis prod_cases3)
  show ?thesis
  proof (cases "ret = 0")
    case ret: True
    with st obtain img where p: "proxy_wf p" "owned p \<inter> resources s = {}" "start_leak (le_start e) = {}"
      "\<exists>sfx. se_mkdtemp (le_start e) = Some sfx \<and> dir_path p = proxy_dir sfx"
      "\<And>f. f \<in> files s \<Longrightarrow> \<not> in_dir (dir_path p) f" and t: "t = grant p img s"
      by (auto simp: started_def)
    have "alone p t"
      using p(1,5) t resources_grant [of p img s] by (auto simp: alone_def grant_def)
    then have "pending (launch_leak e sandbox \<union> base) v p t"
      using acc p t True resources_grant [of p img s]
      by (auto simp: pending_def launch_leak_def proxy_wf_def)
    moreover have "proxy_pid p = se_fork (le_start e)"
      using st ret by (simp add: started_def)
    ultimately show ?thesis
      using r True ret p t by (auto simp: launch_filter_def bus_of_def proxy_wf_def grant_def)
  next
    case ret: False
    with st have p: "proxy_pid p \<le> 0" and t: "t = s\<lparr>dirs := dirs s \<union> start_leak (le_start e)\<rparr>"
      by (auto simp: started_def)
    have "Dir ` start_leak (le_start e) \<inter> resources s = {}"
      using fresh by (auto simp: start_leak_def start_fresh_def split: option.splits if_splits)
    then have "accounts (Dir ` start_leak (le_start e) \<union> base) v t"
      by (intro accounts_base [OF acc]) (auto simp: t resources_def)
    with r True ret p t show ?thesis
      by (simp add: launch_filter_def pending_def launch_leak_def bus_of_def)
  qed
qed

text \<open>The child of a launch: bubblewrap with the operations of the sandbox, and the command.\<close>

definition runs_sandboxed ::
    "child \<Rightarrow> launch_env \<Rightarrow> coder_dlp_compositor \<Rightarrow> string \<Rightarrow> coder_dlp_sandbox_config option \<Rightarrow> bool" where
  "runs_sandboxed ch e c cmd sandbox \<longleftrightarrow>
     (\<exists>ws bus. image ch = Exec (''bwrap'' # ws) \<and> bus_of e sandbox bus \<and>
        parse_bwrap ws = Some (sandbox_ops (le_host e) c sandbox bus, [''/bin/sh'', ''-c'', cmd]))"

lemma launch_app_cases:
  assumes acc: "accounts base (dbus_proxies c) s" and fresh: "launch_fresh e s" and range: "in_range sandbox"
  shows "\<exists>ret c' t. coder_dlp_launch_app e (Some c) (Some cmd) sandbox s = Some (ret, Some c', t, 0) \<and>
    (if ret = -1 then c' = c \<and> accounts (launch_leak e sandbox \<union> base) (dbus_proxies c') t
     else ret = le_fork e \<and> 0 < ret \<and>
       accounts (insert (Child ret) (launch_leak e sandbox \<union> base)) (dbus_proxies c') t \<and>
       (\<exists>ch. children t ret = Some ch \<and> runs_sandboxed ch e c cmd sandbox))"
proof -
  have range: "extra_in_range sandbox" "talk_in_range sandbox"
    and start: "start_fresh (le_start e) s" and fork: "le_fork e \<noteq> 0"
      "0 < le_fork e \<Longrightarrow> le_fork e \<notin> dom (children s)" "0 < le_fork e \<Longrightarrow> le_fork e \<noteq> se_fork (le_start e)"
    using range fresh by (auto simp: in_range_def launch_fresh_def)
  obtain p bus u where f: "launch_filter e sandbox s = Some (p, bus, u)"
    and pend: "pending (launch_leak e sandbox \<union> base) (dbus_proxies c) p u" and bus: "bus_of e sandbox bus"
    and pid: "proxy_pid p \<le> 0 \<or> proxy_pid p = se_fork (le_start e)"
    and ch: "\<And>pid. pid \<noteq> se_fork (le_start e) \<Longrightarrow> children u pid = children s pid"
    using launch_filter_pending [OF acc start range(2)] by blast
  let ?ws = "renders (sandbox_ops (le_host e) c sandbox bus) @ [''--'', ''/bin/sh'', ''-c'', cmd]"
  obtain r n where b: "dlp_build_bwrap_args (le_mem e) (le_host e) (Some c) (Some cmd) sandbox bus = Some (r, n)"
    and built: "built (le_mem e) (''bwrap'' # ?ws) r n"
    using build_bwrap_args_result [OF bwrap_words_ops [OF range(1), of "le_host e" c cmd bus], of "le_mem e"]
    by blast
  obtain t where undo: "undo_started p u = Some t" "accounts (launch_leak e sandbox \<union> base) (dbus_proxies c) t"
    using pending_undo [OF pend] by blast
  note launch = coder_dlp_launch_app_def launch_filter_def [symmetric]
  show ?thesis
  proof (cases r)
    case None
    with built have "n = 0" by (simp add: built_def)
    with None f b undo show ?thesis by (simp add: launch)
  next
    case (Some v)
    with built have v: "c_argv v = Some (''bwrap'' # ?ws)" "dlp_free_bwrap_args r n = 0"
      by (auto simp: built_def)
    show ?thesis
    proof (cases "le_fork e < 0")
      case True
      with Some f b undo v show ?thesis by (simp add: launch)
    next
      case False
      then have app: "0 < le_fork e" using fork(1) by simp
      then have new: "le_fork e \<notin> dom (children u)" "le_fork e \<noteq> proxy_pid p"
        using fork(2,3) ch pid by auto
      let ?u = "sys_fork (le_fork e) (Exec (''bwrap'' # ?ws)) u"
      obtain c' x where x: "track_proxy (le_realloc e) p c ?u = Some (c', x)"
        "accounts (insert (Child (le_fork e)) (launch_leak e sandbox \<union> base)) (dbus_proxies c') x"
        "\<And>pid. pid \<noteq> proxy_pid p \<Longrightarrow> children x pid = children ?u pid"
        using pending_track [OF pending_fork [OF pend new(1)]] by blast
      have "children x (le_fork e) = Some \<lparr>image = Exec (''bwrap'' # ?ws), sigterm = False\<rparr>"
        using x(3) [OF new(2)] by (simp add: sys_fork_def)
      moreover have "runs_sandboxed \<lparr>image = Exec (''bwrap'' # ?ws), sigterm = False\<rparr> e c cmd sandbox"
        using bus by (auto simp: runs_sandboxed_def parse_renders)
      ultimately show ?thesis
        using Some f b v x(1,2) False app by (simp add: launch)
    qed
  qed
qed

section \<open>Any sequence of launches, reaps and cleanups\<close>

datatype proxy_op =
  Launch launch_env string "coder_dlp_sandbox_config option"
| Reap "int \<Rightarrow> bool"
| Cleanup "int \<Rightarrow> bool"

fun proxy_step :: "proxy_op \<Rightarrow> coder_dlp_compositor \<times> os \<Rightarrow> (coder_dlp_compositor \<times> os) option" where
  "proxy_step (Launch e cmd sandbox) (c, s) = do {
     (ret, c', t, blocks) \<leftarrow> coder_dlp_launch_app e (Some c) (Some cmd) sandbox s;
     map_option (\<lambda>c. (c, t)) c'
   }"
| "proxy_step (Reap exited) (c, s) = do {
     (c', t) \<leftarrow> dlp_reap_dbus_proxies exited (Some c) s;
     map_option (\<lambda>c. (c, t)) c'
   }"
| "proxy_step (Cleanup exited) (c, s) = do {
     (c', t) \<leftarrow> dlp_cleanup_dbus_proxies exited (Some c) s;
     map_option (\<lambda>c. (c, t)) c'
   }"

text \<open>What the system guarantees at each step, and what belongs to the rest of the system after it.\<close>

fun step_ok :: "proxy_op \<Rightarrow> os \<Rightarrow> bool" where
  "step_ok (Launch e cmd sandbox) s \<longleftrightarrow> launch_fresh e s \<and> in_range sandbox"
| "step_ok _ s \<longleftrightarrow> True"

fun step_leak :: "proxy_op \<Rightarrow> resource set" where
  "step_leak (Launch e cmd sandbox) =
     launch_leak e sandbox \<union> (if 0 < le_fork e then {Child (le_fork e)} else {})"
| "step_leak _ = {}"

fun run_steps :: "proxy_op list \<Rightarrow> coder_dlp_compositor \<times> os \<Rightarrow> (coder_dlp_compositor \<times> os) option" where
  "run_steps [] cs = Some cs"
| "run_steps (a # as) cs = Option.bind (proxy_step a cs) (run_steps as)"

fun steps_ok :: "proxy_op list \<Rightarrow> coder_dlp_compositor \<times> os \<Rightarrow> bool" where
  "steps_ok [] cs \<longleftrightarrow> True"
| "steps_ok (a # as) cs \<longleftrightarrow> step_ok a (snd cs) \<and>
     (case proxy_step a cs of None \<Rightarrow> True | Some cs \<Rightarrow> steps_ok as cs)"

text \<open>
  The applications are children the library never waits for, and the directories of failed starts
  stay; both are bounded by what the steps so far could leave.
\<close>

definition accounts_upto :: "resource set \<Rightarrow> resource set \<Rightarrow> dlp_dbus_proxy vec \<Rightarrow> os \<Rightarrow> bool" where
  "accounts_upto base extra v s \<longleftrightarrow> (\<exists>R \<subseteq> extra. accounts (R \<union> base) v s)"

lemma accounts_upto_mono: "accounts_upto base A v s \<Longrightarrow> A \<subseteq> B \<Longrightarrow> accounts_upto base B v s"
  by (auto simp: accounts_upto_def)

lemma accounts_upto_extend:
  assumes "R \<subseteq> A" and "accounts (R' \<union> (R \<union> base)) v t" and "R' \<subseteq> B"
  shows "accounts_upto base (B \<union> A) v t"
  using assms unfolding accounts_upto_def
  by (intro exI [of _ "R' \<union> R"]) (auto simp: Un_assoc)

lemma proxy_step_accounts:
  assumes "accounts_upto base A (dbus_proxies c) s" and "step_ok a s"
  shows "\<exists>c' t. proxy_step a (c, s) = Some (c', t) \<and>
    accounts_upto base (step_leak a \<union> A) (dbus_proxies c') t"
proof -
  obtain R where R: "R \<subseteq> A" "accounts (R \<union> base) (dbus_proxies c) s"
    using assms(1) by (auto simp: accounts_upto_def)
  show ?thesis
  proof (cases a)
    case (Launch e cmd sandbox)
    with assms(2) have ok: "launch_fresh e s" "in_range sandbox" by simp_all
    obtain ret c' t where l: "coder_dlp_launch_app e (Some c) (Some cmd) sandbox s = Some (ret, Some c', t, 0)"
      and res: "if ret = -1 then c' = c \<and> accounts (launch_leak e sandbox \<union> (R \<union> base)) (dbus_proxies c') t
       else ret = le_fork e \<and> 0 < ret \<and>
         accounts (insert (Child ret) (launch_leak e sandbox \<union> (R \<union> base))) (dbus_proxies c') t \<and>
         (\<exists>ch. children t ret = Some ch \<and> runs_sandboxed ch e c cmd sandbox)"
      using launch_app_cases [OF R(2) ok, of cmd] by blast
    let ?R' = "if ret = -1 then launch_leak e sandbox else insert (Child ret) (launch_leak e sandbox)"
    have "accounts (?R' \<union> (R \<union> base)) (dbus_proxies c') t" "?R' \<subseteq> step_leak a"
      using res Launch by (auto split: if_splits)
    then have "accounts_upto base (step_leak a \<union> A) (dbus_proxies c') t"
      by (rule accounts_upto_extend [OF R(1)])
    with l Launch show ?thesis by simp
  next
    case (Reap exited)
    obtain v t where "dlp_reap_dbus_proxies exited (Some c) s = Some (Some (c\<lparr>dbus_proxies := v\<rparr>), t)"
      "accounts (R \<union> base) v t" using reap_accounts [OF R(2)] by blast
    with R(1) Reap show ?thesis by (auto simp: accounts_upto_def)
  next
    case (Cleanup exited)
    from cleanup_accounts [OF R(2), of exited] obtain t where
      "dlp_cleanup_dbus_proxies exited (Some c) s = Some (Some (c\<lparr>dbus_proxies := empty_vec\<rparr>), t)"
      "resources t = R \<union> base" by blast
    moreover from this(2) have "accounts (R \<union> base) empty_vec t"
      by (simp add: accounts_def holds_def live_at_def empty_vec_def [THEN arg_cong [where f = used]])
    ultimately show ?thesis using R(1) Cleanup by (auto simp: accounts_upto_def)
  qed
qed

lemma run_steps_accounts:
  assumes "accounts_upto base A (dbus_proxies c) s" and "steps_ok as (c, s)"
  shows "\<exists>c' t. run_steps as (c, s) = Some (c', t) \<and>
    accounts_upto base ((\<Union>a \<in> set as. step_leak a) \<union> A) (dbus_proxies c') t"
  using assms
proof (induction as arbitrary: c s A)
  case (Cons a as)
  obtain c' t where a: "proxy_step a (c, s) = Some (c', t)"
    "accounts_upto base (step_leak a \<union> A) (dbus_proxies c') t"
    using proxy_step_accounts [OF Cons.prems(1), of a] Cons.prems(2) by auto
  from Cons.IH [OF a(2)] Cons.prems(2) a(1) show ?case by (auto simp: ac_simps)
qed simp

section \<open>Properties\<close>

text \<open>C23. Starting the filter is all or nothing. It returns 0 with a running proxy that owns a new
  process, the write end of a new pipe, a new directory and the socket in it, and is executed with
  the filtering arguments; or it returns -1 and the system is as before, except that the directory
  made by mkdtemp stays when the pipe or the fork then fails. No descriptor is closed twice, no
  process is signalled that is not a child, and the wait for the socket never blocks for ever.\<close>

theorem start_dbus_proxy_spec:
  assumes "start_fresh e s" and "talk_in_range sandbox"
  shows "\<exists>ret p s'. dlp_start_dbus_proxy e sandbox no_proxy s = Some (ret, p, s') \<and>
    (ret = 0 \<and> proxy_wf p \<and> proxy_pid p = se_fork e \<and> owned p \<inter> resources s = {} \<and>
       resources s' = owned p \<union> resources s \<and>
       (\<exists>dbus_addr fd ch. se_getenv e ''DBUS_SESSION_BUS_ADDRESS'' = Some dbus_addr \<and>
          children s' (proxy_pid p) = Some ch \<and>
          image ch = Exec (proxy_argv dbus_addr (socket_path p) fd sandbox)) \<or>
     ret = -1 \<and> proxy_pid p \<le> 0 \<and> resources s' = Dir ` start_leak e \<union> resources s)"
proof -
  obtain ret p s' where r: "dlp_start_dbus_proxy e sandbox no_proxy s = Some (ret, p, s')"
    and st: "started e sandbox s (ret, p, s')"
    using start_dbus_proxy_started [OF assms] by (metis prod_cases3)
  have "resources (s\<lparr>dirs := dirs s \<union> start_leak e\<rparr>) = Dir ` start_leak e \<union> resources s"
    by (auto simp: resources_def)
  moreover have "children (grant p img s) (proxy_pid p) = Some \<lparr>image = img, sigterm = False\<rparr>" for img
    by (simp add: grant_def)
  ultimately show ?thesis
    using r st by (auto simp: started_def resources_grant)
qed


text \<open>Reaping releases exactly the proxies whose process has exited (the pipe, the socket file
  and the directory), marks their entries, and leaves the entries and resources of the others
  alone.\<close>

lemma reap_dbus_proxies_spec:
  assumes "accounts base (dbus_proxies c) s"
  shows "\<exists>v t. dlp_reap_dbus_proxies exited (Some c) s = Some (Some (c\<lparr>dbus_proxies := v\<rparr>), t) \<and>
    live_at v = {i \<in> live_at (dbus_proxies c). \<not> exited (proxy_pid (entry (dbus_proxies c) i))} \<and>
    (\<forall>i. i \<in> live_at v \<longrightarrow> entry v i = entry (dbus_proxies c) i) \<and>
    resources t = base \<union> (\<Union>i \<in> live_at v. owned (entry v i))"
proof -
  obtain v t where "dlp_reap_dbus_proxies exited (Some c) s = Some (Some (c\<lparr>dbus_proxies := v\<rparr>), t)"
    and "accounts base v t" and "reaped_upto exited (dbus_proxies c) (used (dbus_proxies c)) v"
    using reap_accounts [OF assms] by blast
  then show ?thesis
    by (intro exI [of _ v] exI [of _ t]) (auto simp: reaped_upto_def accounts_def holds_def live_at_def)
qed

text \<open>C10. Whatever sequence of launches, reaps and cleanups a compositor goes through and whatever
  fails in it, no step misuses the system (no descriptor closed twice, no signal to a process that
  is not a child, no endless wait, no access outside the table), and a final cleanup gives back
  every proxy, pipe and socket: what is left beside the system before is at most the launched
  applications and the directories of starts whose pipe or fork failed.\<close>

theorem proxies_released:
  assumes "accounts base (dbus_proxies c) s" and "steps_ok as (c, s)"
  shows "\<exists>c' t c'' u. run_steps as (c, s) = Some (c', t) \<and>
    dlp_cleanup_dbus_proxies exited (Some c') t = Some (Some c'', u) \<and>
    dbus_proxies c'' = empty_vec \<and>
    base \<subseteq> resources u \<and> resources u \<subseteq> base \<union> (\<Union>a \<in> set as. step_leak a)"
proof -
  have "accounts_upto base {} (dbus_proxies c) s" using assms(1) by (simp add: accounts_upto_def)
  from run_steps_accounts [OF this assms(2)] obtain c' t where
    run: "run_steps as (c, s) = Some (c', t)" and
    acc: "accounts_upto base (\<Union>a \<in> set as. step_leak a) (dbus_proxies c') t" by auto
  then obtain R where R: "R \<subseteq> (\<Union>a \<in> set as. step_leak a)" "accounts (R \<union> base) (dbus_proxies c') t"
    by (auto simp: accounts_upto_def)
  obtain u where "dlp_cleanup_dbus_proxies exited (Some c') t =
      Some (Some (c'\<lparr>dbus_proxies := empty_vec\<rparr>), u)" "resources u = R \<union> base"
    using cleanup_accounts [OF R(2)] by blast
  with run R(1) show ?thesis by auto
qed

section \<open>Instances\<close>

definition demo_os :: os where
  "demo_os = \<lparr>children = Map.empty, open_fds = {0, 1, 2}, files = {}, dirs = {}\<rparr>"

definition demo_start :: start_env where
  "demo_start =
     \<lparr>se_getenv = [''DBUS_SESSION_BUS_ADDRESS'' \<mapsto> ''unix:path=/run/bus'', ''PATH'' \<mapsto> ''/bin::/usr/bin''],
      se_dup_ok = True, se_executable = (\<lambda>p. p = ''/usr/bin/xdg-dbus-proxy''),
      se_mkdtemp = Some ''abcdef'', se_pipe = Some (5, 6), se_fork = 100, se_inotify = 7,
      se_socket = (\<lambda>n. 2 \<le> n)\<rparr>"

definition demo_launch :: launch_env where
  "demo_launch = \<lparr>le_start = demo_start, le_host = demo_host, le_mem = (\<lambda>_. True), le_fork = 101,
     le_realloc = True\<rparr>"

lemma demo_fresh [simp]: "start_fresh demo_start demo_os"
  by (simp add: start_fresh_def demo_start_def demo_os_def)

lemma demo_pipe_fresh [simp]: "start_fresh (demo_start\<lparr>se_pipe := None\<rparr>) demo_os"
  by (simp add: start_fresh_def demo_start_def demo_os_def)

lemma demo_launch_fresh [simp]: "launch_fresh demo_launch demo_os"
  by (simp add: launch_fresh_def demo_launch_def) (simp add: demo_start_def demo_os_def)

lemma demo_in_range [simp]: "in_range (Some demo_sandbox)" "talk_in_range (Some demo_sandbox)"
  by (simp_all add: in_range_def talk_in_range_def) (simp_all add: demo_sandbox_def zero_sandbox_config_def)

lemma demo_accounts [simp]: "accounts (resources demo_os) (dbus_proxies demo_compositor) demo_os"
  by (simp add: accounts_def demo_compositor_def zero_compositor_def holds_def live_at_def)
     (simp add: empty_vec_def)

lemma demo_found: "find_in_path (se_getenv demo_start) True (se_executable demo_start) ''xdg-dbus-proxy''"
  by (simp add: find_in_path_def demo_start_def strtok_all_def PATH_MAX_def)

theorem proxy_image_spec_witness:
  "\<exists>av. proxy_image ''unix:path=/run/bus'' ''/tmp/d/bus'' 5
      (Some (demo_sandbox\<lparr>dbus_talk_names := Some [None, Some ''org.x''], dbus_talk_count := 2\<rparr>)) =
      Some (Exec av) \<and> length av \<le> 28 \<and> ''--filter'' \<in> set av \<and> last av = ''--talk=org.x''"
proof -
  let ?sb = "Some (demo_sandbox\<lparr>dbus_talk_names := Some [None, Some ''org.x''], dbus_talk_count := 2\<rparr>)"
  have "talk_in_range ?sb" by (simp add: talk_in_range_def)
  moreover have "talk_names ?sb = [''org.x'']" by (simp add: talk_names_def)
  ultimately show ?thesis
    using proxy_image_spec [of ?sb "''unix:path=/run/bus''" "''/tmp/d/bus''" 5] by auto
qed

theorem start_dbus_proxy_spec_witness:
  "\<exists>p s'. dlp_start_dbus_proxy (demo_start\<lparr>se_pipe := None\<rparr>) (Some demo_sandbox) no_proxy demo_os =
      Some (-1, p, s') \<and> proxy_pid p \<le> 0 \<and>
    resources s' = insert (Dir ''/tmp/coder-dlp-dbus-abcdef'') (resources demo_os)"
proof -
  let ?e = "demo_start\<lparr>se_pipe := None\<rparr>"
  have getenv: "se_getenv ?e = se_getenv demo_start" "se_executable ?e = se_executable demo_start"
    "se_dup_ok ?e" by (simp_all add: demo_start_def)
  have leak: "start_leak ?e = {''/tmp/coder-dlp-dbus-abcdef''}"
    using demo_found unfolding start_leak_def getenv
    by (simp add: getenv) (simp add: demo_start_def proxy_dir_def)
  obtain ret p s' where r: "dlp_start_dbus_proxy ?e (Some demo_sandbox) no_proxy demo_os = Some (ret, p, s')"
    and c: "ret = 0 \<and> proxy_wf p \<and> proxy_pid p = se_fork ?e \<and> owned p \<inter> resources demo_os = {} \<and>
       resources s' = owned p \<union> resources demo_os \<and>
       (\<exists>dbus_addr fd ch. se_getenv ?e ''DBUS_SESSION_BUS_ADDRESS'' = Some dbus_addr \<and>
          children s' (proxy_pid p) = Some ch \<and>
          image ch = Exec (proxy_argv dbus_addr (socket_path p) fd (Some demo_sandbox))) \<or>
     ret = -1 \<and> proxy_pid p \<le> 0 \<and> resources s' = Dir ` start_leak ?e \<union> resources demo_os"
    using start_dbus_proxy_spec [OF demo_pipe_fresh demo_in_range(2)] by - (elim exE conjE, rule that)
  have "ret \<noteq> 0"
    using r by (auto simp: dlp_start_dbus_proxy_def Let_def split: option.splits if_splits)
  with r c leak show ?thesis by auto
qed


theorem proxies_released_witness:
  "\<exists>c' t c'' u. run_steps [Launch demo_launch ''ls'' (Some demo_sandbox), Reap (\<lambda>_. False)]
      (demo_compositor, demo_os) = Some (c', t) \<and>
    dlp_cleanup_dbus_proxies (\<lambda>_. True) (Some c') t = Some (Some c'', u) \<and>
    dbus_proxies c'' = empty_vec \<and> open_fds u = {0, 1, 2}"
proof -
  let ?as = "[Launch demo_launch ''ls'' (Some demo_sandbox), Reap (\<lambda>_. False)]"
  have "steps_ok ?as (demo_compositor, demo_os)" by (simp split: option.split)
  from proxies_released [OF demo_accounts this, of "\<lambda>_. True"] obtain c' t c'' u where
    run: "run_steps ?as (demo_compositor, demo_os) = Some (c', t)"
      "dlp_cleanup_dbus_proxies (\<lambda>_. True) (Some c') t = Some (Some c'', u)"
      "dbus_proxies c'' = empty_vec"
    and sub: "resources demo_os \<subseteq> resources u"
      "resources u \<subseteq> resources demo_os \<union> (\<Union>a \<in> set ?as. step_leak a)" by blast
  have "Fd fd \<notin> (\<Union>a \<in> set ?as. step_leak a)" for fd by (auto simp: launch_leak_def)
  with sub have "Fd fd \<in> resources u \<longleftrightarrow> Fd fd \<in> resources demo_os" for fd by blast
  then have "fd \<in> open_fds u \<longleftrightarrow> fd \<in> open_fds demo_os" for fd by simp
  then have "open_fds u = {0, 1, 2}" by (auto simp: demo_os_def)
  with run show ?thesis by blast
qed

end
