(* ===== verification/Listeners.thy ===== *)
theory Listeners
  imports Compositor
begin

text \<open>
  The life of a \<^verbatim>\<open>struct wl_listener\<close>. Every handler of the library is called through
  one, and adding, removing and freeing them in the right order is what keeps the compositor from
  following dangling pointers. The theory gives the automaton of the link of one listener, runs it
  along a list of calls, and collects the lemmas by which the handlers of the other theories are
  checked against it.
\<close>

text \<open>What a handler gives: the compositor after it and the calls it makes, in order.\<close>

type_synonym outcome = "coder_dlp_compositor \<times> call list"

section \<open>The automaton\<close>

text \<open>
  The link is all zero after \<^verbatim>\<open>calloc\<close> and after \<^verbatim>\<open>wl_list_remove\<close>, points to
  itself after \<^verbatim>\<open>wl_list_init\<close>, or is in the list of a signal. The memory of a struct that is
  not allocated counts as zero.
\<close>

datatype link_state = Zeroed | Self | Linked

type_synonym links = "listener \<Rightarrow> link_state"

definition comp_slots :: "comp_slot list" where
  "comp_slots =
     [New_output, New_input, New_xdg_toplevel, New_xdg_popup,
      Request_set_selection, Request_set_primary_selection, Security_context_commit,
      Client_created, Output_frame, Output_request_state, Output_destroy,
      Keyboard_key, Keyboard_modifiers,
      Touch_down, Touch_up, Touch_motion, Touch_cancel, Touch_frame,
      Cursor_motion, Cursor_motion_absolute, Cursor_button, Cursor_axis, Cursor_frame,
      Request_set_cursor, Xwayland_new_surface, Xwayland_ready]"

definition toplevel_slots :: "toplevel_slot list" where
  "toplevel_slots =
     [Tl_map, Tl_unmap, Tl_commit, Tl_destroy, Tl_request_move, Tl_request_resize,
      Tl_request_maximize, Tl_request_fullscreen]"

definition popup_slots :: "popup_slot list" where
  "popup_slots = [Pp_commit, Pp_destroy]"

definition xsurf_slots :: "xsurf_slot list" where
  "xsurf_slots =
     [Xs_map, Xs_unmap, Xs_associate, Xs_dissociate, Xs_destroy, Xs_request_configure,
      Xs_request_move, Xs_request_resize, Xs_request_maximize, Xs_request_fullscreen,
      Xs_request_activate, Xs_set_override_redirect, Xs_set_title, Xs_set_class]"

lemma all_slots:
  "set comp_slots = UNIV" "set toplevel_slots = UNIV" "set popup_slots = UNIV" "set xsurf_slots = UNIV"
proof -
  show "set comp_slots = UNIV"
  proof (rule UNIV_eq_I [symmetric])
    fix s show "s \<in> set comp_slots" by (cases s) (simp_all add: comp_slots_def)
  qed
  show "set toplevel_slots = UNIV"
  proof (rule UNIV_eq_I [symmetric])
    fix s show "s \<in> set toplevel_slots" by (cases s) (simp_all add: toplevel_slots_def)
  qed
  show "set popup_slots = UNIV"
  proof (rule UNIV_eq_I [symmetric])
    fix s show "s \<in> set popup_slots" by (cases s) (simp_all add: popup_slots_def)
  qed
  show "set xsurf_slots = UNIV"
  proof (rule UNIV_eq_I [symmetric])
    fix s show "s \<in> set xsurf_slots" by (cases s) (simp_all add: xsurf_slots_def)
  qed
qed

text \<open>
  Adding a listener that is already in a list corrupts that list, and so does initialising it;
  removing one whose link is zero follows a null pointer. Freeing the struct of a listener that is
  still in a list leaves a dangling pointer in it.
\<close>

definition link_add :: "listener \<Rightarrow> links \<Rightarrow> links option" where
  "link_add l L = (if L l = Linked then None else Some (L(l := Linked)))"

definition link_remove :: "listener \<Rightarrow> links \<Rightarrow> links option" where
  "link_remove l L = (if L l = Zeroed then None else Some (L(l := Zeroed)))"

definition link_init :: "listener \<Rightarrow> links \<Rightarrow> links option" where
  "link_init l L = (if L l = Linked then None else Some (L(l := Self)))"

definition link_free :: "listener list \<Rightarrow> links \<Rightarrow> links option" where
  "link_free ls L =
     (if Linked \<in> L ` set ls then None else Some (\<lambda>l. if l \<in> set ls then Zeroed else L l))"

text \<open>
  The destruction of a library object requires that no listener of the compositor is left on its
  signals; the comment in \<^verbatim>\<open>coder_dlp_destroy\<close> says so: \<open>wlroots asserts that listener lists
  are empty during destroy\<close>. The display owns the globals (shell, seat, security
  context manager), the backend the outputs and input devices. The listener for new clients is on
  the display itself, which libwayland frees without such a check.
\<close>

definition display_slots :: "comp_slot list" where
  "display_slots =
     [New_xdg_toplevel, New_xdg_popup, Request_set_selection, Request_set_primary_selection,
      Security_context_commit, Request_set_cursor]"

definition backend_slots :: "comp_slot list" where
  "backend_slots =
     [New_output, New_input, Output_frame, Output_request_state, Output_destroy, Keyboard_key,
      Keyboard_modifiers, Touch_down, Touch_up, Touch_motion, Touch_cancel, Touch_frame]"

definition cursor_slots :: "comp_slot list" where
  "cursor_slots = [Cursor_motion, Cursor_motion_absolute, Cursor_button, Cursor_axis, Cursor_frame]"

definition link_clear :: "comp_slot list \<Rightarrow> links \<Rightarrow> links option" where
  "link_clear ss L = (if Linked \<in> (\<lambda>s. L (CompL s)) ` set ss then None else Some L)"

fun link_wl :: "wl_call \<Rightarrow> links \<Rightarrow> links option" where
  "link_wl (Wl_signal_add sg l) L = link_add l L"
| "link_wl (Wl_display_add_client_created_listener l) L = link_add l L"
| "link_wl (Wl_client_add_destroy_listener cl l) L = link_add l L"
| "link_wl (Wl_list_remove l) L = link_remove l L"
| "link_wl (Wl_list_init l) L = link_init l L"
| "link_wl Wl_display_destroy L = link_clear (display_slots @ backend_slots) L"
| "link_wl _ L = Some L"

fun link_own :: "own_call \<Rightarrow> links \<Rightarrow> links option" where
  "link_own Free_compositor L =
     link_free (map CompL (filter (\<lambda>s. s \<noteq> Client_created) comp_slots)) L"
| "link_own (Free_toplevel a) L = link_free (map (ToplevelL a) toplevel_slots) L"
| "link_own (Free_popup a) L = link_free (map (PopupL a) popup_slots) L"
| "link_own (Free_xsurf a) L = link_free (map (XSurfL a) xsurf_slots) L"
| "link_own (Free_client_wrapper a) L = link_free [ClientL a] L"
| "link_own _ L = Some L"

fun link_call :: "call \<Rightarrow> links \<Rightarrow> links option" where
  "link_call (Wl w) L = link_wl w L"
| "link_call (Own f) L = link_own f L"
| "link_call (Setup (Wlr_backend_destroy b)) L = link_clear backend_slots L"
| "link_call (Inp (Wlr_cursor_destroy cu)) L = link_clear cursor_slots L"
| "link_call (Xwl (Wlr_xwayland_destroy x)) L = link_clear [Xwayland_new_surface, Xwayland_ready] L"
| "link_call _ L = Some L"

fun link_run :: "call list \<Rightarrow> links \<Rightarrow> links option" where
  "link_run [] L = Some L"
| "link_run (c # cs) L = Option.bind (link_call c L) (link_run cs)"

section \<open>Running it\<close>

lemma link_run_append: "link_run (cs @ ds) L = Option.bind (link_run cs L) (link_run ds)"
  by (induction cs arbitrary: L) (auto split: bind_split)

text \<open>Calls that touch no listener.\<close>

definition quiet :: "call \<Rightarrow> bool" where
  "quiet c \<longleftrightarrow> (\<forall>L. link_call c L = Some L)"

lemma quiet_simps [simp]:
  "quiet (Scene a)" "quiet (Out b)" "quiet (Xdg d)" "quiet (Sea e)"
  "quiet (Wl Wl_display_flush_clients)" "quiet (Wl (Wl_event_loop_dispatch i))"
  "quiet (Wl (Wl_event_source_timer_update s i))" "quiet (Wl (Wl_event_source_remove s))"
  "quiet (Wl Wl_display_destroy_clients)"
  "quiet (Own Free_output_title)" "quiet (Own (Surface_callback f s p))"
  by (simp_all add: quiet_def)

lemma quiet_input:
  "(\<And>cu. i \<noteq> Wlr_cursor_destroy cu) \<Longrightarrow> quiet (Inp i)"
  by (cases i) (auto simp: quiet_def)

lemma quiet_xwl: "(\<And>x. i \<noteq> Wlr_xwayland_destroy x) \<Longrightarrow> quiet (Xwl i)"
  by (cases i) (auto simp: quiet_def)

lemma quiet_setup: "(\<And>b. i \<noteq> Wlr_backend_destroy b) \<Longrightarrow> quiet (Setup i)"
  by (cases i) (auto simp: quiet_def)

lemma link_run_quiet: "list_all quiet cs \<Longrightarrow> link_run cs L = Some L"
  by (induction cs) (auto simp: quiet_def)

text \<open>Adding, removing and initialising a group of listeners.\<close>

definition adds :: "(signal \<times> listener) list \<Rightarrow> call list" where
  "adds ps = map (\<lambda>(sg, l). Wl (Wl_signal_add sg l)) ps"

definition removes :: "listener list \<Rightarrow> call list" where
  "removes ls = map (\<lambda>l. Wl (Wl_list_remove l)) ls"

definition set_links :: "listener list \<Rightarrow> link_state \<Rightarrow> links \<Rightarrow> links" where
  "set_links ls st L = (\<lambda>l. if l \<in> set ls then st else L l)"

lemma link_run_adds:
  "distinct (map snd ps) \<Longrightarrow> (\<forall>l \<in> set (map snd ps). L l \<noteq> Linked) \<Longrightarrow>
     link_run (adds ps) L = Some (set_links (map snd ps) Linked L)"
proof (induction ps arbitrary: L)
  case (Cons p ps)
  have "link_run (adds ps) (L(snd p := Linked)) = Some (set_links (map snd ps) Linked (L(snd p := Linked)))"
    using Cons.prems by (intro Cons.IH) (auto simp: image_iff)
  moreover have "set_links (map snd ps) Linked (L(snd p := Linked)) = set_links (map snd (p # ps)) Linked L"
    by (auto simp: set_links_def)
  ultimately show ?case
    using Cons.prems(2) by (cases p) (simp add: adds_def link_add_def)
qed (simp add: adds_def set_links_def)

lemma link_run_removes:
  "distinct ls \<Longrightarrow> (\<forall>l \<in> set ls. L l \<noteq> Zeroed) \<Longrightarrow>
     link_run (removes ls) L = Some (set_links ls Zeroed L)"
proof (induction ls arbitrary: L)
  case (Cons l ls)
  have "link_run (removes ls) (L(l := Zeroed)) = Some (set_links ls Zeroed (L(l := Zeroed)))"
    using Cons.prems by (intro Cons.IH) auto
  moreover have "set_links ls Zeroed (L(l := Zeroed)) = set_links (l # ls) Zeroed L"
    by (auto simp: set_links_def)
  ultimately show ?case using Cons.prems(2) by (simp add: removes_def link_remove_def)
qed (simp add: removes_def set_links_def)

lemma link_free_clear:
  "(\<forall>l \<in> set ls. L l \<noteq> Linked) \<Longrightarrow> link_free ls L = Some (set_links ls Zeroed L)"
  by (force simp: link_free_def set_links_def)

lemma link_clear_ok: "(\<forall>s \<in> set ss. L (CompL s) \<noteq> Linked) \<Longrightarrow> link_clear ss L = Some L"
  by (force simp: link_clear_def)

lemma link_init_ok: "L l \<noteq> Linked \<Longrightarrow> link_init l L = Some (L(l := Self))"
  by (simp add: link_init_def)

lemma set_links_nil [simp]: "set_links [] st L = L"
  by (simp add: set_links_def)

end
