(* ===== verification/Shell.thy ===== *)
theory Shell
  imports Listeners
begin

text \<open>
  The xdg-shell windows: \<^verbatim>\<open>src/shell.c\<close>. Each handler gets the struct its listener is embedded
  in (\<^verbatim>\<open>wl_container_of\<close>). \<^term>\<open>None\<close> is undefined behaviour.
\<close>

section \<open>Toplevels\<close>

definition toplevel_surface :: "wlr_view \<Rightarrow> addr \<Rightarrow> addr" where
  "toplevel_surface v x = xdg_surface_surface v (xdg_toplevel_base v x)"

definition handle_toplevel_map :: "wlr_view \<Rightarrow> coder_dlp_toplevel \<Rightarrow> coder_dlp_compositor \<Rightarrow> outcome" where
  "handle_toplevel_map v t c =
     (c,
      [Scene (Wlr_scene_node_raise_to_top (tl_scene_tree t))] @
      (case focused_surface v of
         None \<Rightarrow> []
       | Some prev_surface \<Rightarrow>
           (case xdg_toplevel_try_from v prev_surface of
              None \<Rightarrow> []
            | Some prev_toplevel \<Rightarrow> [Xdg (Wlr_xdg_toplevel_set_activated prev_toplevel False)])) @
      [Xdg (Wlr_xdg_toplevel_set_activated (tl_xdg_toplevel t) True)] @
      (case seat_keyboard v of
         None \<Rightarrow> []
       | Some kb \<Rightarrow>
           [Sea (Wlr_seat_keyboard_notify_enter (Some (toplevel_surface v (tl_xdg_toplevel t))) kb)]))"

definition handle_toplevel_unmap :: "wlr_view \<Rightarrow> coder_dlp_toplevel \<Rightarrow> coder_dlp_compositor \<Rightarrow> outcome" where
  "handle_toplevel_unmap v t c = (c, [])"

definition handle_toplevel_commit ::
    "wlr_view \<Rightarrow> coder_dlp_toplevel \<Rightarrow> coder_dlp_compositor \<Rightarrow> outcome" where
  "handle_toplevel_commit v t c =
     (c,
      if initial_commit v (xdg_toplevel_base v (tl_xdg_toplevel t))
      then (case comp_output c of
              Some out \<Rightarrow>
                [Xdg (Wlr_xdg_toplevel_set_size (tl_xdg_toplevel t) (output_width v out) (output_height v out)),
                 Xdg (Wlr_xdg_toplevel_set_maximized (tl_xdg_toplevel t) True)]
            | None \<Rightarrow> [Xdg (Wlr_xdg_toplevel_set_size (tl_xdg_toplevel t) 0 0)])
      else [])"

definition handle_toplevel_destroy :: "coder_dlp_toplevel \<Rightarrow> coder_dlp_compositor \<Rightarrow> outcome" where
  "handle_toplevel_destroy t c =
     (c\<lparr>toplevels := filter (\<lambda>x. tl_addr x \<noteq> tl_addr t) (toplevels c)\<rparr>,
      removes (map (ToplevelL (tl_addr t)) toplevel_slots) @ [Own (Free_toplevel (tl_addr t))])"

definition handle_toplevel_request_move :: "coder_dlp_toplevel \<Rightarrow> coder_dlp_compositor \<Rightarrow> outcome" where
  "handle_toplevel_request_move t c = (c, [])"

definition handle_toplevel_request_resize :: "coder_dlp_toplevel \<Rightarrow> coder_dlp_compositor \<Rightarrow> outcome" where
  "handle_toplevel_request_resize t c = (c, [])"

definition handle_toplevel_request_maximize ::
    "wlr_view \<Rightarrow> coder_dlp_toplevel \<Rightarrow> coder_dlp_compositor \<Rightarrow> outcome" where
  "handle_toplevel_request_maximize v t c =
     (c, if initialized v (xdg_toplevel_base v (tl_xdg_toplevel t))
         then [Xdg (Wlr_xdg_surface_schedule_configure (xdg_toplevel_base v (tl_xdg_toplevel t)))] else [])"

definition handle_toplevel_request_fullscreen ::
    "wlr_view \<Rightarrow> coder_dlp_toplevel \<Rightarrow> coder_dlp_compositor \<Rightarrow> outcome" where
  "handle_toplevel_request_fullscreen v t c =
     (c, if initialized v (xdg_toplevel_base v (tl_xdg_toplevel t))
         then [Xdg (Wlr_xdg_surface_schedule_configure (xdg_toplevel_base v (tl_xdg_toplevel t)))] else [])"

text \<open>The listeners of a new toplevel, with the signals they go to.\<close>

definition toplevel_listeners :: "wlr_view \<Rightarrow> addr \<Rightarrow> addr \<Rightarrow> (signal \<times> listener) list" where
  "toplevel_listeners v a x =
     [(Signal (Surface (toplevel_surface v x)) ''map'', ToplevelL a Tl_map),
      (Signal (Surface (toplevel_surface v x)) ''unmap'', ToplevelL a Tl_unmap),
      (Signal (Surface (toplevel_surface v x)) ''commit'', ToplevelL a Tl_commit),
      (Signal (Xdg_toplevel x) ''destroy'', ToplevelL a Tl_destroy),
      (Signal (Xdg_toplevel x) ''request_move'', ToplevelL a Tl_request_move),
      (Signal (Xdg_toplevel x) ''request_resize'', ToplevelL a Tl_request_resize),
      (Signal (Xdg_toplevel x) ''request_maximize'', ToplevelL a Tl_request_maximize),
      (Signal (Xdg_toplevel x) ''request_fullscreen'', ToplevelL a Tl_request_fullscreen)]"

text \<open>
  \<open>alloc\<close> is the struct \<^verbatim>\<open>calloc\<close> gives, \<open>tree\<close> the scene tree wlroots creates.
\<close>

definition dlp_compositor_handle_new_xdg_toplevel ::
    "wlr_view \<Rightarrow> ptr \<Rightarrow> ptr \<Rightarrow> addr \<Rightarrow> coder_dlp_compositor \<Rightarrow> outcome option" where
  "dlp_compositor_handle_new_xdg_toplevel v alloc tree xdg_toplevel c =
     (case alloc of
        None \<Rightarrow> Some (c, [])
      | Some a \<Rightarrow> do {
          let base = xdg_toplevel_base v xdg_toplevel;
          scene_tree \<leftarrow> tree;
          let t = \<lparr>tl_addr = a, tl_xdg_toplevel = xdg_toplevel, tl_scene_tree = scene_tree\<rparr>;
          Some
            (c\<lparr>toplevels := t # toplevels c,
               node_data := (node_data c)(scene_tree \<mapsto> DLP_SURFACE_XDG a),
               xdg_surface_data := (xdg_surface_data c)(base \<mapsto> scene_tree)\<rparr>,
             [Scene (Wlr_scene_xdg_surface_create Scene_root base)] @
             adds (toplevel_listeners v a xdg_toplevel) @
             (case surface_cb c of
                None \<Rightarrow> []
              | Some cb \<Rightarrow> [Own (Surface_callback cb (xdg_surface_surface v base) (surface_cb_data c))]))
        })"

section \<open>Popups\<close>

definition handle_popup_commit :: "wlr_view \<Rightarrow> coder_dlp_popup \<Rightarrow> coder_dlp_compositor \<Rightarrow> outcome" where
  "handle_popup_commit v pp c =
     (c, if initial_commit v (xdg_popup_base v (pp_xdg_popup pp))
         then [Xdg (Wlr_xdg_surface_schedule_configure (xdg_popup_base v (pp_xdg_popup pp)))] else [])"

definition handle_popup_destroy :: "coder_dlp_popup \<Rightarrow> coder_dlp_compositor \<Rightarrow> outcome" where
  "handle_popup_destroy pp c =
     (c\<lparr>popups := filter (\<lambda>x. pp_addr x \<noteq> pp_addr pp) (popups c)\<rparr>,
      removes (map (PopupL (pp_addr pp)) popup_slots) @ [Own (Free_popup (pp_addr pp))])"

definition popup_listeners :: "wlr_view \<Rightarrow> addr \<Rightarrow> addr \<Rightarrow> (signal \<times> listener) list" where
  "popup_listeners v a x =
     [(Signal (Surface (xdg_surface_surface v (xdg_popup_base v x))) ''commit'', PopupL a Pp_commit),
      (Signal (Xdg_popup x) ''destroy'', PopupL a Pp_destroy)]"

definition dlp_compositor_handle_new_xdg_popup ::
    "wlr_view \<Rightarrow> ptr \<Rightarrow> ptr \<Rightarrow> addr \<Rightarrow> coder_dlp_compositor \<Rightarrow> outcome" where
  "dlp_compositor_handle_new_xdg_popup v alloc tree xdg_popup c =
     (case xdg_surface_try_from v (xdg_popup_parent v xdg_popup) of
        None \<Rightarrow> (c, [])
      | Some parent \<Rightarrow>
          (case xdg_surface_data c parent of
             None \<Rightarrow> (c, [])
           | Some parent_tree \<Rightarrow>
               let base = xdg_popup_base v xdg_popup;
                   create = [Scene (Wlr_scene_xdg_surface_create (Tree parent_tree) base)]
               in (case alloc of
                     None \<Rightarrow> (c, create)
                   | Some a \<Rightarrow>
                       (c\<lparr>popups := \<lparr>pp_addr = a, pp_xdg_popup = xdg_popup\<rparr> # popups c,
                          xdg_surface_data := (xdg_surface_data c)(base := tree)\<rparr>,
                        create @ adds (popup_listeners v a xdg_popup)))))"

end
