(* ===== verification/Output.thy ===== *)
theory Output
  imports Listeners
begin

text \<open>
  The output and the event loop entry points: \<^verbatim>\<open>src/output.c\<close>, and the title of the output
  window of \<^verbatim>\<open>src/compositor.c\<close>.
\<close>

section \<open>The title\<close>

definition title_calls :: "build_config \<Rightarrow> wlr_view \<Rightarrow> addr \<Rightarrow> string \<Rightarrow> call list" where
  "title_calls cfg v out title =
     (if backend_is_wl v then [Out (Wlr_wl_output_set_title out title)]
      else if WLR_HAS_X11_BACKEND cfg \<and> backend_is_x11 v then [Out (Wlr_x11_output_set_title out title)]
      else [])"

text \<open>\<open>dup_ok\<close>: whether \<^verbatim>\<open>strdup\<close> succeeds.\<close>

definition coder_dlp_set_output_title ::
    "build_config \<Rightarrow> wlr_view \<Rightarrow> bool \<Rightarrow> coder_dlp_compositor option \<Rightarrow> string option
       \<Rightarrow> coder_dlp_compositor option \<times> call list" where
  "coder_dlp_set_output_title cfg v dup_ok cc title =
     (case (cc, title) of
        (Some c, Some t) \<Rightarrow>
          (Some (c\<lparr>output_title := if dup_ok then Some t else None\<rparr>),
           [Own Free_output_title] @
           (case comp_output c of None \<Rightarrow> [] | Some out \<Rightarrow> title_calls cfg v out t))
      | _ \<Rightarrow> (cc, []))"

section \<open>Frames\<close>

text \<open>
  The answers of the scene for one frame: whether the output is in the scene, whether its state
  could be built, and the buffer of the state, if it has one.
\<close>

record frame_env =
  fe_scene_output :: bool
  fe_build_ok :: bool
  fe_buffer :: "wlr_buffer option"

text \<open>
  The buffer of the state that is committed comes beside the calls. On the fast path the scene
  builds and commits a state of its own. \<^term>\<open>None\<close> is undefined behaviour in the watermark.
\<close>

definition handle_output_frame ::
    "frame_env \<Rightarrow> coder_dlp_compositor \<Rightarrow> (coder_dlp_compositor \<times> call list \<times> wlr_buffer option) option" where
  "handle_output_frame e c =
     (if \<not> fe_scene_output e then Some (c, [], None)
      else case comp_output c of
        None \<Rightarrow> None
      | Some out \<Rightarrow>
          if watermark_enabled (policy c) \<and> has_identity (watermark c)
          then (if fe_build_ok e
                then do {
                  (applied, buf) \<leftarrow>
                    (case fe_buffer e of
                       None \<Rightarrow> Some ([], None)
                     | Some b \<Rightarrow> do {
                         (ok, b', bc) \<leftarrow> dlp_watermark_apply (Some b) (Some (watermark c));
                         Some ([Out (Dlp_watermark_apply b)], b')
                       });
                  Some (c, [Out Wlr_output_state_init, Scene Wlr_scene_output_build_state] @ applied @
                           [Out (Wlr_output_commit_state out), Out Wlr_output_state_finish,
                            Scene Wlr_scene_output_send_frame_done], buf)
                }
                else Some (c, [Out Wlr_output_state_init, Scene Wlr_scene_output_build_state,
                               Out Wlr_output_state_finish, Scene Wlr_scene_output_send_frame_done], None))
          else Some (c, [Scene Wlr_scene_output_commit, Scene Wlr_scene_output_send_frame_done], None))"

definition handle_output_request_state :: "addr \<Rightarrow> coder_dlp_compositor \<Rightarrow> outcome" where
  "handle_output_request_state event_output c = (c, [Out (Wlr_output_commit_state event_output)])"

section \<open>The output comes and goes\<close>

definition output_slots :: "comp_slot list" where
  "output_slots = [Output_frame, Output_request_state, Output_destroy]"

definition handle_output_destroy :: "coder_dlp_compositor \<Rightarrow> outcome" where
  "handle_output_destroy c = (c\<lparr>comp_output := None\<rparr>, removes (map CompL output_slots))"

definition output_listeners :: "addr \<Rightarrow> (signal \<times> listener) list" where
  "output_listeners out =
     [(Signal (Output out) ''frame'', CompL Output_frame),
      (Signal (Output out) ''request_state'', CompL Output_request_state),
      (Signal (Output out) ''destroy'', CompL Output_destroy)]"

text \<open>\<open>mode\<close> is the preferred mode of the output.\<close>

definition dlp_compositor_handle_new_output ::
    "build_config \<Rightarrow> wlr_view \<Rightarrow> ptr \<Rightarrow> addr \<Rightarrow> coder_dlp_compositor \<Rightarrow> outcome" where
  "dlp_compositor_handle_new_output cfg v mode out c =
     (c\<lparr>comp_output := Some out\<rparr>,
      (case output_title c of None \<Rightarrow> [] | Some t \<Rightarrow> title_calls cfg v out t) @
      [Out (Wlr_output_init_render out), Out Wlr_output_state_init,
       Out (Wlr_output_state_set_enabled True)] @
      (case mode of None \<Rightarrow> [] | Some m \<Rightarrow> [Out (Wlr_output_state_set_mode m)]) @
      [Out (Wlr_output_commit_state out), Out Wlr_output_state_finish,
       Out (Wlr_output_layout_add_auto out), Scene (Wlr_scene_output_create out),
       Scene Wlr_scene_output_layout_add_output, Inp (Wlr_cursor_set_xcursor ''default'')] @
      adds (output_listeners out))"

section \<open>The event loop\<close>

text \<open>\<open>fd\<close> is the descriptor of the event loop.\<close>

definition coder_dlp_get_fd :: "int \<Rightarrow> coder_dlp_compositor option \<Rightarrow> int" where
  "coder_dlp_get_fd fd cc =
     (case cc of
        None \<Rightarrow> -1
      | Some c \<Rightarrow> if wl_event_loop c = None then -1 else fd)"

definition coder_dlp_dispatch :: "coder_dlp_compositor option \<Rightarrow> call list" where
  "coder_dlp_dispatch cc =
     (case cc of
        None \<Rightarrow> []
      | Some c \<Rightarrow> if wl_display c = None then []
          else [Wl Wl_display_flush_clients, Wl (Wl_event_loop_dispatch 0)])"

section \<open>Properties\<close>

text \<open>C30. With the watermark policy on and an identity set, no frame leaves through the fast path:
  the frame is committed only as a built state, its buffer goes through the watermark before the
  commit, and the buffer committed is the one the watermark made of it. (If the watermark refuses
  the buffer, its format or its access, that is the unmarked buffer.)\<close>

theorem frame_goes_through_watermark:
  assumes "watermark_enabled (policy c)" and "has_identity (watermark c)" and "fe_scene_output e"
    and "comp_output c = Some out" and "handle_output_frame e c = Some (c', calls, buf)"
  shows "c' = c \<and> Scene Wlr_scene_output_commit \<notin> set calls \<and>
    (Out (Wlr_output_commit_state out) \<in> set calls \<longleftrightarrow> fe_build_ok e) \<and>
    (fe_build_ok e \<longrightarrow>
       (case fe_buffer e of
          None \<Rightarrow> buf = None
        | Some b \<Rightarrow>
            (\<exists>pre post. calls = pre @ Out (Dlp_watermark_apply b) # Out (Wlr_output_commit_state out) # post) \<and>
            (\<exists>ok bc. dlp_watermark_apply (Some b) (Some (watermark c)) = Some (ok, buf, bc) \<and>
               (ok \<longleftrightarrow> wm_supported b) \<and> (\<not> ok \<longrightarrow> buf = Some b))))"
proof (cases "fe_build_ok e")
  case False
  with assms show ?thesis by (auto simp: handle_output_frame_def)
next
  case True
  show ?thesis
  proof (cases "fe_buffer e")
    case None
    with assms True show ?thesis by (auto simp: handle_output_frame_def)
  next
    case (Some b)
    have "dlp_watermark_apply (Some b) (Some (watermark c)) \<noteq> None"
    proof
      assume "dlp_watermark_apply (Some b) (Some (watermark c)) = None"
      with assms True Some show False by (simp add: handle_output_frame_def)
    qed
    then obtain ok b' bc where
      a': "dlp_watermark_apply (Some b) (Some (watermark c)) = Some (ok, b', bc)" by fast
    have "b' = buf" using assms True Some a' by (simp add: handle_output_frame_def)
    with a' have a: "dlp_watermark_apply (Some b) (Some (watermark c)) = Some (ok, buf, bc)" by simp
    have calls: "calls = [Out Wlr_output_state_init, Scene Wlr_scene_output_build_state] @
        Out (Dlp_watermark_apply b) # Out (Wlr_output_commit_state out) #
        [Out Wlr_output_state_finish, Scene Wlr_scene_output_send_frame_done]" and "c' = c"
      using assms True Some a' by (simp_all add: handle_output_frame_def)
    have "ok \<longleftrightarrow> wm_supported b" "\<not> ok \<longrightarrow> buf = Some b"
      using a assms(2) by (auto simp: dlp_watermark_apply_def wm_supported_def Let_def bind_eq_Some_conv
          split: if_splits)
    moreover have "\<exists>pre post. calls = pre @ Out (Dlp_watermark_apply b) # Out (Wlr_output_commit_state out) # post"
      using calls by blast
    moreover have "Scene Wlr_scene_output_commit \<notin> set calls" "Out (Wlr_output_commit_state out) \<in> set calls"
      using calls by simp_all
    ultimately show ?thesis
      using a \<open>c' = c\<close> True Some by (simp del: append_Cons append_Nil)
  qed
qed

definition example_frame :: frame_env where
  "example_frame = \<lparr>fe_scene_output = True, fe_build_ok = True,
     fe_buffer = Some (example_buffer\<lparr>buf_format := Other_format 1\<rparr>)\<rparr>"

definition example_watermarking :: coder_dlp_compositor where
  "example_watermarking = zero_compositor\<lparr>policy := zero_policy\<lparr>watermark_enabled := True\<rparr>,
     watermark := example_wm, comp_output := Some 9\<rparr>"

theorem frame_goes_through_watermark_witness:
  "\<exists>calls buf. handle_output_frame example_frame example_watermarking =
      Some (example_watermarking, calls, buf) \<and> Scene Wlr_scene_output_commit \<notin> set calls \<and>
    buf = Some (example_buffer\<lparr>buf_format := Other_format 1\<rparr>)"
proof -
  let ?b = "example_buffer\<lparr>buf_format := Other_format 1\<rparr>"
  have w: "dlp_watermark_apply (Some ?b) (Some example_wm) =
      Some (False, Some ?b, [BeginDataPtrAccess, EndDataPtrAccess])"
    by (simp add: dlp_watermark_apply_def example_buffer_def example_wm_def)
  then obtain calls where h: "handle_output_frame example_frame example_watermarking =
      Some (example_watermarking, calls, Some ?b)"
    by (simp add: handle_output_frame_def example_frame_def example_watermarking_def)
      (simp add: example_wm_def)
  have "watermark_enabled (policy example_watermarking)" "has_identity (watermark example_watermarking)"
    "fe_scene_output example_frame" "comp_output example_watermarking = Some 9"
    by (simp_all add: example_watermarking_def example_frame_def example_wm_def)
  from frame_goes_through_watermark [OF this h] h show ?thesis by blast
qed

end
