(* ===== verification/Clipboard.thy ===== *)
theory Clipboard
  imports Listeners
begin

text \<open>
  The mediation of selections (\<^verbatim>\<open>src/clipboard.c\<close>) and the security context protocol
  (\<^verbatim>\<open>src/security_context.c\<close>).
\<close>

section \<open>Selections\<close>

text \<open>
  The event holds the source and the serial. The two branches of the policy test are the same: the
  block under it is empty.
\<close>

definition handle_request_set_selection ::
    "ptr \<Rightarrow> u32 \<Rightarrow> coder_dlp_compositor \<Rightarrow> outcome" where
  "handle_request_set_selection source serial c =
     (let local_only = (if clipboard_block_outgoing (policy c) then [] else [])
      in (c, local_only @ [Sea (Wlr_seat_set_selection source serial)]))"

definition handle_request_set_primary_selection ::
    "ptr \<Rightarrow> u32 \<Rightarrow> coder_dlp_compositor \<Rightarrow> outcome" where
  "handle_request_set_primary_selection source serial c =
     (let local_only = (if clipboard_block_outgoing (policy c) then [] else [])
      in (c, local_only @ [Sea (Wlr_seat_set_primary_selection source serial)]))"

definition clipboard_listeners :: "(signal \<times> listener) list" where
  "clipboard_listeners =
     [(Signal Seat ''request_set_selection'', CompL Request_set_selection),
      (Signal Seat ''request_set_primary_selection'', CompL Request_set_primary_selection)]"

definition dlp_clipboard_init :: "coder_dlp_compositor option \<Rightarrow> call list" where
  "dlp_clipboard_init cc =
     (case cc of
        None \<Rightarrow> []
      | Some c \<Rightarrow> if seat c = None then [] else adds clipboard_listeners)"

section \<open>Security contexts\<close>

definition handle_security_context_commit :: "coder_dlp_compositor \<Rightarrow> outcome" where
  "handle_security_context_commit c = (c, [])"

text \<open>\<open>mgr\<close> is the manager wlroots creates, or \<^verbatim>\<open>NULL\<close>.\<close>

definition dlp_security_context_init :: "ptr \<Rightarrow> coder_dlp_compositor \<Rightarrow> outcome" where
  "dlp_security_context_init mgr c =
     (c\<lparr>security_context_mgr := mgr\<rparr>,
      [Setup (Create_global ''security_context_manager_v1'')] @
      (case mgr of
         None \<Rightarrow> []
       | Some _ \<Rightarrow> adds [(Signal Security_mgr ''commit'', CompL Security_context_commit)]))"

section \<open>Properties\<close>

text \<open>The policy has no influence on selections: under every policy both requests set the
  selection of the seat and change nothing else, so copy and paste between the windows of the
  compositor always works, and no policy flag stops it.\<close>

lemma selection_ignores_policy:
  "handle_request_set_selection source serial (c\<lparr>policy := p\<rparr>) =
     (c\<lparr>policy := p\<rparr>, [Sea (Wlr_seat_set_selection source serial)]) \<and>
   handle_request_set_primary_selection source serial (c\<lparr>policy := p\<rparr>) =
     (c\<lparr>policy := p\<rparr>, [Sea (Wlr_seat_set_primary_selection source serial)])"
  by (simp add: handle_request_set_selection_def handle_request_set_primary_selection_def)

end
