(* ===== verification/Input.thy ===== *)
theory Input
  imports Listeners
begin

text \<open>
  Keyboard, pointer and touch: \<^verbatim>\<open>src/input.c\<close>. Where a handler reads library state again after
  calls that may have changed it, it gets a second view.
\<close>

section \<open>Keyboard\<close>

text \<open>The values of \<^verbatim>\<open>WLR_MODIFIER_LOGO\<close> and of the seat capabilities in the headers.\<close>

definition WLR_MODIFIER_LOGO :: u32 where
  "WLR_MODIFIER_LOGO = 64"

definition WL_SEAT_CAPABILITY_POINTER :: u32 where
  "WL_SEAT_CAPABILITY_POINTER = 1"

definition WL_SEAT_CAPABILITY_KEYBOARD :: u32 where
  "WL_SEAT_CAPABILITY_KEYBOARD = 2"

definition WL_SEAT_CAPABILITY_TOUCH :: u32 where
  "WL_SEAT_CAPABILITY_TOUCH = 4"

text \<open>\<^verbatim>\<open>WL_POINTER_BUTTON_STATE_PRESSED\<close>\<close>

definition BUTTON_PRESSED :: u32 where
  "BUTTON_PRESSED = 1"

definition handle_keyboard_key ::
    "build_config \<Rightarrow> wlr_view \<Rightarrow> u32 \<Rightarrow> u32 \<Rightarrow> u32 \<Rightarrow> coder_dlp_compositor \<Rightarrow> outcome option" where
  "handle_keyboard_key cfg v time_msec keycode key_state c = do {
     kb \<leftarrow> keyboard c;
     Some (c,
       if WLR_HAS_X11_BACKEND cfg \<and> is_x11_backend c \<and> keyboard_modifiers v kb AND WLR_MODIFIER_LOGO \<noteq> 0
       then []
       else [Sea (Wlr_seat_set_keyboard kb)] @
            (case focused_surface v of
               None \<Rightarrow> []
             | Some _ \<Rightarrow> [Sea (Wlr_seat_keyboard_notify_key time_msec keycode key_state)]))
   }"

definition handle_keyboard_modifiers :: "coder_dlp_compositor \<Rightarrow> outcome option" where
  "handle_keyboard_modifiers c = do {
     kb \<leftarrow> keyboard c;
     Some (c, [Sea (Wlr_seat_set_keyboard kb), Sea (Wlr_seat_keyboard_notify_modifiers kb)])
   }"

definition keyboard_slots :: "comp_slot list" where
  "keyboard_slots = [Keyboard_key, Keyboard_modifiers]"

definition keyboard_listeners :: "addr \<Rightarrow> (signal \<times> listener) list" where
  "keyboard_listeners kb =
     [(Signal (Keyboard kb) ''key'', CompL Keyboard_key),
      (Signal (Keyboard kb) ''modifiers'', CompL Keyboard_modifiers)]"

text \<open>An input device and the keyboard or touch object wlroots gives for it.\<close>

datatype input_device_type =
  WLR_INPUT_DEVICE_KEYBOARD | WLR_INPUT_DEVICE_POINTER | WLR_INPUT_DEVICE_TOUCH
| Other_input_device int

record input_device =
  dev_type :: input_device_type
  dev_addr :: addr
  dev_object :: addr

definition setup_keyboard ::
    "bool \<Rightarrow> bool \<Rightarrow> input_device \<Rightarrow> coder_dlp_compositor \<Rightarrow> outcome" where
  "setup_keyboard ctx_ok keymap_ok device c =
     (let kb = dev_object device in
      if \<not> ctx_ok then (c, [Inp Xkb_context_new])
      else if \<not> keymap_ok
      then (c, [Inp Xkb_context_new, Inp Xkb_keymap_new_from_names, Inp Xkb_context_unref])
      else (c\<lparr>keyboard := Some kb\<rparr>,
            [Inp Xkb_context_new, Inp Xkb_keymap_new_from_names, Inp (Wlr_keyboard_set_keymap kb),
             Inp Xkb_keymap_unref, Inp Xkb_context_unref, Inp (Wlr_keyboard_set_repeat_info kb 25 600)] @
            adds (keyboard_listeners kb) @ [Sea (Wlr_seat_set_keyboard kb)]))"

section \<open>Pointer\<close>

text \<open>The surface under a point, if the topmost node there is a buffer of a surface.\<close>

definition surface_at :: "wlr_view \<Rightarrow> double \<Rightarrow> double \<Rightarrow> (addr \<times> double \<times> double) option" where
  "surface_at v x y =
     (case scene_node_at v x y of
        None \<Rightarrow> None
      | Some (node, sx, sy) \<Rightarrow>
          if node_type v node = WLR_SCENE_NODE_BUFFER
          then map_option (\<lambda>s. (s, sx, sy)) (node_surface v node) else None)"

definition process_cursor_motion :: "wlr_view \<Rightarrow> u32 \<Rightarrow> call list" where
  "process_cursor_motion v time =
     (case surface_at v (cursor_x v) (cursor_y v) of
        Some (s, sx, sy) \<Rightarrow>
          [Sea (Wlr_seat_pointer_notify_enter s sx sy), Sea (Wlr_seat_pointer_notify_motion time sx sy)]
      | None \<Rightarrow> [Inp (Wlr_cursor_set_xcursor ''default''), Sea Wlr_seat_pointer_clear_focus])"

text \<open>The view is the one after the cursor has moved.\<close>

definition dlp_handle_cursor_motion ::
    "wlr_view \<Rightarrow> addr \<Rightarrow> double \<Rightarrow> double \<Rightarrow> u32 \<Rightarrow> coder_dlp_compositor \<Rightarrow> outcome" where
  "dlp_handle_cursor_motion v device delta_x delta_y time_msec c =
     (c, [Inp (Wlr_cursor_move device delta_x delta_y)] @ process_cursor_motion v time_msec)"

definition dlp_handle_cursor_motion_absolute ::
    "wlr_view \<Rightarrow> addr \<Rightarrow> double \<Rightarrow> double \<Rightarrow> u32 \<Rightarrow> coder_dlp_compositor \<Rightarrow> outcome" where
  "dlp_handle_cursor_motion_absolute v device x y time_msec c =
     (c, [Inp (Wlr_cursor_warp_absolute device x y)] @ process_cursor_motion v time_msec)"

section \<open>Focus\<close>

text \<open>
  The walk from a node up to the first tree with a data pointer. It follows the parent pointers of
  the scene graph; \<^term>\<open>None\<close> is not returning.
\<close>

partial_function (option) owner_walk :: "(addr \<Rightarrow> ptr) \<Rightarrow> (addr \<rightharpoonup> 'd) \<Rightarrow> ptr \<Rightarrow> ptr option" where
  "owner_walk parent data tree =
     (case tree of
        None \<Rightarrow> Some None
      | Some t \<Rightarrow> if data t = None then owner_walk parent data (parent t) else Some (Some t))"

definition find_toplevel :: "addr \<Rightarrow> coder_dlp_compositor \<Rightarrow> coder_dlp_toplevel option" where
  "find_toplevel a c = find (\<lambda>t. tl_addr t = a) (toplevels c)"

definition find_xsurf :: "addr \<Rightarrow> coder_dlp_compositor \<Rightarrow> coder_dlp_xwayland_surface option" where
  "find_xsurf a c = find (\<lambda>x. xs_addr x = a) (xwayland_surfaces c)"

definition deactivate_focused :: "build_config \<Rightarrow> wlr_view \<Rightarrow> call list" where
  "deactivate_focused cfg v =
     (case focused_surface v of
        None \<Rightarrow> []
      | Some prev_surface \<Rightarrow>
          (case xdg_toplevel_try_from v prev_surface of
             Some prev \<Rightarrow> [Xdg (Wlr_xdg_toplevel_set_activated prev False)]
           | None \<Rightarrow>
               if WLR_HAS_XWAYLAND cfg
               then (case xwayland_surface_try_from v prev_surface of
                       Some prev_xsurface \<Rightarrow> [Xwl (Wlr_xwayland_surface_activate prev_xsurface False)]
                     | None \<Rightarrow> [])
               else []))"

definition notify_enter :: "wlr_view \<Rightarrow> addr \<Rightarrow> call list" where
  "notify_enter v s =
     (case seat_keyboard v of
        None \<Rightarrow> []
      | Some kb \<Rightarrow> [Sea (Wlr_seat_keyboard_notify_enter (Some s) kb)])"

text \<open>
  The struct a data pointer leads to must be alive; an Xwayland surface without a scene tree is a
  null pointer.
\<close>

definition activate_owner ::
    "build_config \<Rightarrow> wlr_view \<Rightarrow> surface_owner \<Rightarrow> coder_dlp_compositor \<Rightarrow> call list option" where
  "activate_owner cfg v owner c =
     (case owner of
        DLP_SURFACE_XDG a \<Rightarrow> do {
          t \<leftarrow> find_toplevel a c;
          Some ([Scene (Wlr_scene_node_raise_to_top (tl_scene_tree t)),
                 Xdg (Wlr_xdg_toplevel_set_activated (tl_xdg_toplevel t) True)] @
                notify_enter v (xdg_surface_surface v (xdg_toplevel_base v (tl_xdg_toplevel t))))
        }
      | DLP_SURFACE_XWAYLAND a \<Rightarrow>
          if WLR_HAS_XWAYLAND cfg
          then do {
            x \<leftarrow> find_xsurf a c;
            tree \<leftarrow> xs_scene_tree x;
            Some ([Scene (Wlr_scene_node_raise_to_top tree),
                   Xwl (Wlr_xwayland_surface_activate (xs_xwayland_surface x) True)] @
                  (case xwl_surface v (xs_xwayland_surface x) of None \<Rightarrow> [] | Some s \<Rightarrow> notify_enter v s))
          }
          else Some [])"

text \<open>
  Focus by a press of a button or a touch: the two places of the source have the same code.
\<close>

definition touch_focus_at ::
    "build_config \<Rightarrow> wlr_view \<Rightarrow> double \<Rightarrow> double \<Rightarrow> coder_dlp_compositor \<Rightarrow> call list option" where
  "touch_focus_at cfg v lx ly c =
     (case scene_node_at v lx ly of
        None \<Rightarrow> Some []
      | Some (node, _) \<Rightarrow> do {
          tree \<leftarrow> owner_walk (node_parent v) (node_data c) (node_parent v node);
          (case tree of
             None \<Rightarrow> Some []
           | Some t \<Rightarrow> do {
               owner \<leftarrow> node_data c t;
               acts \<leftarrow> activate_owner cfg v owner c;
               Some (deactivate_focused cfg v @ acts)
             })
        })"

definition dlp_handle_cursor_button ::
    "build_config \<Rightarrow> wlr_view \<Rightarrow> u32 \<Rightarrow> u32 \<Rightarrow> u32 \<Rightarrow> coder_dlp_compositor \<Rightarrow> outcome option" where
  "dlp_handle_cursor_button cfg v time_msec button btn_state c = do {
     focus \<leftarrow> (if btn_state = BUTTON_PRESSED then touch_focus_at cfg v (cursor_x v) (cursor_y v) c else Some []);
     Some (c, [Sea (Wlr_seat_pointer_notify_button time_msec button btn_state)] @ focus)
   }"

definition dlp_handle_cursor_axis ::
    "u32 \<Rightarrow> nat \<Rightarrow> double \<Rightarrow> int \<Rightarrow> nat \<Rightarrow> nat \<Rightarrow> coder_dlp_compositor \<Rightarrow> outcome" where
  "dlp_handle_cursor_axis time_msec orientation delta delta_discrete source relative_direction c =
     (c, [Sea (Wlr_seat_pointer_notify_axis time_msec orientation delta delta_discrete source
                relative_direction)])"

definition dlp_handle_cursor_frame :: "coder_dlp_compositor \<Rightarrow> outcome" where
  "dlp_handle_cursor_frame c = (c, [Sea Wlr_seat_pointer_notify_frame])"

definition dlp_handle_request_set_cursor ::
    "wlr_view \<Rightarrow> ptr \<Rightarrow> ptr \<Rightarrow> int \<Rightarrow> int \<Rightarrow> coder_dlp_compositor \<Rightarrow> outcome" where
  "dlp_handle_request_set_cursor v seat_client surface hotspot_x hotspot_y c =
     (c, if pointer_focused_client v = seat_client
         then [Inp (Wlr_cursor_set_surface surface hotspot_x hotspot_y)] else [])"

definition setup_pointer :: "input_device \<Rightarrow> coder_dlp_compositor \<Rightarrow> outcome" where
  "setup_pointer device c = (c, [Inp (Wlr_cursor_attach_input_device (dev_addr device))])"

section \<open>Touch\<close>

definition touch_coords_to_layout ::
    "wlr_view \<Rightarrow> double \<Rightarrow> double \<Rightarrow> coder_dlp_compositor \<Rightarrow> double \<times> double" where
  "touch_coords_to_layout v touch_x touch_y c =
     (case comp_output c of
        Some out \<Rightarrow> (times v touch_x (output_width v out), times v touch_y (output_height v out))
      | None \<Rightarrow> (touch_x, touch_y))"

text \<open>The second view is the one after the focus has changed.\<close>

definition dlp_handle_touch_down ::
    "build_config \<Rightarrow> wlr_view \<Rightarrow> wlr_view \<Rightarrow> u32 \<Rightarrow> int \<Rightarrow> double \<Rightarrow> double \<Rightarrow> coder_dlp_compositor
       \<Rightarrow> outcome option" where
  "dlp_handle_touch_down cfg v v' time_msec touch_id x y c =
     (let (lx, ly) = touch_coords_to_layout v x y c in do {
        focus \<leftarrow> touch_focus_at cfg v lx ly c;
        Some (c, focus @
          (case surface_at v' lx ly of
             Some (s, sx, sy) \<Rightarrow> [Sea (Wlr_seat_touch_notify_down s time_msec touch_id sx sy)]
           | None \<Rightarrow> []))
      })"

definition dlp_handle_touch_up :: "u32 \<Rightarrow> int \<Rightarrow> coder_dlp_compositor \<Rightarrow> outcome" where
  "dlp_handle_touch_up time_msec touch_id c = (c, [Sea (Wlr_seat_touch_notify_up time_msec touch_id)])"

definition dlp_handle_touch_motion ::
    "wlr_view \<Rightarrow> u32 \<Rightarrow> int \<Rightarrow> double \<Rightarrow> double \<Rightarrow> coder_dlp_compositor \<Rightarrow> outcome" where
  "dlp_handle_touch_motion v time_msec touch_id x y c =
     (let (lx, ly) = touch_coords_to_layout v x y c
      in (c, (case surface_at v lx ly of
                Some (s, sx, sy) \<Rightarrow> [Sea (Wlr_seat_touch_notify_motion time_msec touch_id sx sy)]
              | None \<Rightarrow> [])))"

text \<open>One notification per touch point that has a client.\<close>

fun cancel_points :: "ptr list \<Rightarrow> call list" where
  "cancel_points [] = []"
| "cancel_points (p # ps) =
     (case p of None \<Rightarrow> cancel_points ps
      | Some client \<Rightarrow> Sea (Wlr_seat_touch_notify_cancel client) # cancel_points ps)"

definition dlp_handle_touch_cancel :: "wlr_view \<Rightarrow> coder_dlp_compositor \<Rightarrow> outcome" where
  "dlp_handle_touch_cancel v c = (c, cancel_points (touch_points v))"

definition dlp_handle_touch_frame :: "coder_dlp_compositor \<Rightarrow> outcome" where
  "dlp_handle_touch_frame c = (c, [Sea Wlr_seat_touch_notify_frame])"

definition touch_slots :: "comp_slot list" where
  "touch_slots = [Touch_down, Touch_up, Touch_motion, Touch_cancel, Touch_frame]"

definition touch_listeners :: "addr \<Rightarrow> (signal \<times> listener) list" where
  "touch_listeners tc =
     [(Signal (Touch tc) ''down'', CompL Touch_down), (Signal (Touch tc) ''up'', CompL Touch_up),
      (Signal (Touch tc) ''motion'', CompL Touch_motion),
      (Signal (Touch tc) ''cancel'', CompL Touch_cancel),
      (Signal (Touch tc) ''frame'', CompL Touch_frame)]"

definition setup_touch :: "input_device \<Rightarrow> coder_dlp_compositor \<Rightarrow> outcome" where
  "setup_touch device c =
     (c\<lparr>touch := Some (dev_object device)\<rparr>,
      [Inp (Wlr_cursor_attach_input_device (dev_addr device))] @ adds (touch_listeners (dev_object device)))"

section \<open>New devices\<close>

definition add_capability :: "input_device_type \<Rightarrow> u32 \<Rightarrow> u32" where
  "add_capability ty caps =
     (let caps = (if ty = WLR_INPUT_DEVICE_KEYBOARD then caps OR WL_SEAT_CAPABILITY_KEYBOARD else caps);
          caps = (if ty = WLR_INPUT_DEVICE_POINTER then caps OR WL_SEAT_CAPABILITY_POINTER else caps)
      in if ty = WLR_INPUT_DEVICE_TOUCH then caps OR WL_SEAT_CAPABILITY_TOUCH else caps)"

definition dlp_compositor_handle_new_input ::
    "wlr_view \<Rightarrow> bool \<Rightarrow> bool \<Rightarrow> input_device \<Rightarrow> coder_dlp_compositor \<Rightarrow> outcome" where
  "dlp_compositor_handle_new_input v ctx_ok keymap_ok device c =
     (let (c', calls) =
        (case dev_type device of
           WLR_INPUT_DEVICE_KEYBOARD \<Rightarrow> setup_keyboard ctx_ok keymap_ok device c
         | WLR_INPUT_DEVICE_POINTER \<Rightarrow> setup_pointer device c
         | WLR_INPUT_DEVICE_TOUCH \<Rightarrow> setup_touch device c
         | Other_input_device _ \<Rightarrow> (c, []))
      in (c', calls @
          [Sea (Wlr_seat_set_capabilities (add_capability (dev_type device) (seat_capabilities v)))]))"

section \<open>The walk to the owner ends\<close>

definition parent_of :: "(addr \<Rightarrow> ptr) \<Rightarrow> ptr \<Rightarrow> ptr" where
  "parent_of parent p = (case p of None \<Rightarrow> None | Some a \<Rightarrow> parent a)"

lemma owner_walk_none [simp]: "owner_walk parent data None = Some None"
  by (subst owner_walk.simps) simp

lemma owner_walk_found: "data a \<noteq> None \<Longrightarrow> owner_walk parent data (Some a) = Some (Some a)"
  by (subst owner_walk.simps) auto

lemma owner_walk_up: "data a = None \<Longrightarrow> owner_walk parent data (Some a) = owner_walk parent data (parent a)"
  by (subst owner_walk.simps) simp

lemma owner_walk_nearest:
  assumes "\<forall>a p. parent a = Some p \<longrightarrow> depth p < depth a"
  shows "\<exists>n r. owner_walk parent data (Some a) = Some r \<and> n \<le> Suc (depth a) \<and> (parent_of parent ^^ n) (Some a) = r \<and>
           (case r of None \<Rightarrow> True | Some t \<Rightarrow> data t \<noteq> None) \<and>
           (\<forall>m<n. case (parent_of parent ^^ m) (Some a) of None \<Rightarrow> False | Some t \<Rightarrow> data t = None)"
proof (induction "depth a" arbitrary: a rule: less_induct)
  case less
  show ?case
  proof (cases "data a = None")
    case False
    then show ?thesis by (intro exI [of _ 0] exI [of _ "Some a"]) (simp add: owner_walk_found)
  next
    case True
    show ?thesis
    proof (cases "parent a")
      case None
      with True show ?thesis
        by (intro exI [of _ 1] exI [of _ None]) (simp add: owner_walk_up parent_of_def)
    next
      case (Some p)
      with assms have "depth p < depth a" by blast
      from less [OF this] obtain n r where IH:
        "owner_walk parent data (Some p) = Some r" "n \<le> Suc (depth p)" "(parent_of parent ^^ n) (Some p) = r"
        "case r of None \<Rightarrow> True | Some t \<Rightarrow> data t \<noteq> None"
        "\<forall>m<n. case (parent_of parent ^^ m) (Some p) of None \<Rightarrow> False | Some t \<Rightarrow> data t = None" by blast
      have step: "(parent_of parent ^^ Suc m) (Some a) = (parent_of parent ^^ m) (Some p)" for m
        using Some by (simp only: funpow_Suc_right o_apply parent_of_def option.case)
      have "\<forall>m<Suc n. case (parent_of parent ^^ m) (Some a) of None \<Rightarrow> False | Some t \<Rightarrow> data t = None"
        using IH(5) True step by (auto simp: less_Suc_eq_0_disj simp del: funpow.simps(2))
      with IH \<open>depth p < depth a\<close> step [of n] True Some show ?thesis
        by (intro exI [of _ "Suc n"] exI [of _ r]) (simp add: owner_walk_up del: funpow.simps)
    qed
  qed
qed

text \<open>C37. The walk from a scene node to the tree that owns it returns, in at most as many steps as the node is
  deep: with a finite scene graph (each parent lies one level nearer to the root) it gives the nearest
  ancestor with a data pointer, and null only if no ancestor has one.\<close>

theorem owner_walk_returns:
  assumes "\<forall>a p. parent a = Some p \<longrightarrow> depth p < depth a"
  shows "\<exists>n r. owner_walk parent data (Some a) = Some r \<and> n \<le> Suc (depth a) \<and> (parent_of parent ^^ n) (Some a) = r \<and>
           (case r of None \<Rightarrow> True | Some t \<Rightarrow> data t \<noteq> None) \<and>
           (\<forall>m<n. case (parent_of parent ^^ m) (Some a) of None \<Rightarrow> False | Some t \<Rightarrow> data t = None)"
  using assms by (rule owner_walk_nearest)

theorem owner_walk_returns_witness:
  "\<exists>n r. owner_walk (\<lambda>a. if a = 0 then None else Some (a - 1)) (\<lambda>a. if a = 1 then Some () else None) (Some (3 :: nat)) = Some r \<and>
     n \<le> Suc (id 3) \<and> (parent_of (\<lambda>a. if a = 0 then None else Some (a - 1)) ^^ n) (Some 3) = r \<and>
     (case r of None \<Rightarrow> True | Some t \<Rightarrow> (\<lambda>a. if a = 1 then Some () else None) t \<noteq> None) \<and>
     (\<forall>m<n. case (parent_of (\<lambda>a. if a = 0 then None else Some (a - 1)) ^^ m) (Some 3) of None \<Rightarrow> False
        | Some t \<Rightarrow> (\<lambda>a. if a = 1 then Some () else None) t = None)"
  by (rule owner_walk_returns) simp
end
