(* ===== verification/Xwayland.thy ===== *)
theory Xwayland
  imports Input
begin

text \<open>
  X11 windows: \<^verbatim>\<open>src/xwayland.c\<close>. \<^term>\<open>None\<close> is undefined behaviour, here the use of
  the scene tree of a surface that has none (its creation can fail).
\<close>

section \<open>Focus\<close>

definition focus_xwayland_surface ::
    "wlr_view \<Rightarrow> coder_dlp_xwayland_surface \<Rightarrow> call list option" where
  "focus_xwayland_surface v x =
     (case xwl_surface v (xs_xwayland_surface x) of
        None \<Rightarrow> Some []
      | Some s \<Rightarrow> do {
          tree \<leftarrow> xs_scene_tree x;
          Some ([Scene (Wlr_scene_node_raise_to_top tree)] @
            (case focused_surface v of
               None \<Rightarrow> []
             | Some prev \<Rightarrow>
                 (case xwayland_surface_try_from v prev of
                    Some prev_xsurface \<Rightarrow> [Xwl (Wlr_xwayland_surface_activate prev_xsurface False)]
                  | None \<Rightarrow>
                      (case xdg_toplevel_try_from v prev of
                         Some prev_toplevel \<Rightarrow> [Xdg (Wlr_xdg_toplevel_set_activated prev_toplevel False)]
                       | None \<Rightarrow> []))) @
            (if xwl_input_model v (xs_xwayland_surface x) = WLR_ICCCM_INPUT_MODEL_GLOBAL
             then [Xwl (Wlr_xwayland_surface_offer_focus (xs_xwayland_surface x))]
             else [Xwl (Wlr_xwayland_surface_activate (xs_xwayland_surface x) True)]) @
            (case seat_keyboard v of
               None \<Rightarrow> []
             | Some kb \<Rightarrow> [Sea (Wlr_seat_keyboard_notify_enter (Some s) kb)]))
        })"

section \<open>Surfaces\<close>

text \<open>Fill the output.\<close>

definition fill_output :: "wlr_view \<Rightarrow> addr \<Rightarrow> addr \<Rightarrow> call" where
  "fill_output v xsurface out =
     Xwl (Wlr_xwayland_surface_configure xsurface 0 0 (output_width v out) (output_height v out))"

definition handle_xwayland_surface_map ::
    "wlr_view \<Rightarrow> coder_dlp_xwayland_surface \<Rightarrow> coder_dlp_compositor \<Rightarrow> outcome option" where
  "handle_xwayland_surface_map v x c = do {
     tree \<leftarrow> xs_scene_tree x;
     let xsurface = xs_xwayland_surface x;
     rest \<leftarrow>
       (if xwl_override_redirect v xsurface
        then do {
          focus \<leftarrow> (if xwl_wants_focus v xsurface then focus_xwayland_surface v x else Some []);
          Some ([Scene (Wlr_scene_node_set_position tree (xwl_x v xsurface) (xwl_y v xsurface)),
                 Scene (Wlr_scene_node_raise_to_top tree)] @ focus)
        }
        else do {
          focus \<leftarrow> focus_xwayland_surface v x;
          Some ((case comp_output c of
                   None \<Rightarrow> []
                 | Some out \<Rightarrow> [fill_output v xsurface out,
                                 Xwl (Wlr_xwayland_surface_set_maximized xsurface True True)]) @ focus)
        });
     Some (c, [Scene (Wlr_scene_node_set_enabled tree True)] @ rest)
   }"

definition handle_xwayland_surface_unmap ::
    "coder_dlp_xwayland_surface \<Rightarrow> coder_dlp_compositor \<Rightarrow> outcome option" where
  "handle_xwayland_surface_unmap x c = do {
     tree \<leftarrow> xs_scene_tree x;
     Some (c, [Scene (Wlr_scene_node_set_enabled tree False)])
   }"

definition set_xsurf_tree :: "addr \<Rightarrow> ptr \<Rightarrow> coder_dlp_xwayland_surface list \<Rightarrow> coder_dlp_xwayland_surface list" where
  "set_xsurf_tree a tree xs = map (\<lambda>x. if xs_addr x = a then x\<lparr>xs_scene_tree := tree\<rparr> else x) xs"

definition surface_listeners :: "addr \<Rightarrow> addr \<Rightarrow> (signal \<times> listener) list" where
  "surface_listeners a s =
     [(Signal (Surface s) ''map'', XSurfL a Xs_map), (Signal (Surface s) ''unmap'', XSurfL a Xs_unmap)]"

text \<open>\<open>tree\<close> is the subsurface tree wlroots creates, or \<^verbatim>\<open>NULL\<close>.\<close>

definition handle_xwayland_surface_associate ::
    "wlr_view \<Rightarrow> ptr \<Rightarrow> coder_dlp_xwayland_surface \<Rightarrow> coder_dlp_compositor \<Rightarrow> outcome option" where
  "handle_xwayland_surface_associate v tree x c = do {
     s \<leftarrow> xwl_surface v (xs_xwayland_surface x);
     let a = xs_addr x;
     Some
       (c\<lparr>xwayland_surfaces := set_xsurf_tree a tree (xwayland_surfaces c),
          node_data := (case tree of None \<Rightarrow> node_data c
                        | Some t \<Rightarrow> (node_data c)(t \<mapsto> DLP_SURFACE_XWAYLAND a))\<rparr>,
        (case xs_scene_tree x of None \<Rightarrow> [] | Some old \<Rightarrow> [Scene (Wlr_scene_node_destroy old)]) @
        [Scene (Wlr_scene_subsurface_tree_create (Some s))] @
        (case tree of None \<Rightarrow> [] | Some t \<Rightarrow> [Scene (Wlr_scene_node_set_enabled t False)]) @
        adds (surface_listeners a s) @
        (case surface_cb c of
           None \<Rightarrow> []
         | Some cb \<Rightarrow> [Own (Surface_callback cb s (surface_cb_data c))]))
   }"

definition handle_xwayland_surface_dissociate ::
    "coder_dlp_xwayland_surface \<Rightarrow> coder_dlp_compositor \<Rightarrow> outcome" where
  "handle_xwayland_surface_dissociate x c =
     (let a = xs_addr x in
      (c, [Wl (Wl_list_remove (XSurfL a Xs_map)), Wl (Wl_list_init (XSurfL a Xs_map)),
           Wl (Wl_list_remove (XSurfL a Xs_unmap)), Wl (Wl_list_init (XSurfL a Xs_unmap))]))"

definition handle_xwayland_surface_destroy ::
    "coder_dlp_xwayland_surface \<Rightarrow> coder_dlp_compositor \<Rightarrow> outcome" where
  "handle_xwayland_surface_destroy x c =
     (c\<lparr>xwayland_surfaces := filter (\<lambda>y. xs_addr y \<noteq> xs_addr x) (xwayland_surfaces c)\<rparr>,
      removes (map (XSurfL (xs_addr x)) xsurf_slots) @ [Own (Free_xsurf (xs_addr x))])"

section \<open>Requests\<close>

definition handle_xwayland_request_configure ::
    "wlr_view \<Rightarrow> int \<Rightarrow> int \<Rightarrow> int \<Rightarrow> int \<Rightarrow> coder_dlp_xwayland_surface \<Rightarrow> coder_dlp_compositor
       \<Rightarrow> outcome option" where
  "handle_xwayland_request_configure v ex ey ewidth eheight x c =
     (let xsurface = xs_xwayland_surface x in
      if xwl_override_redirect v xsurface
      then do {
        tree \<leftarrow> xs_scene_tree x;
        Some (c, [Xwl (Wlr_xwayland_surface_configure xsurface ex ey ewidth eheight),
                  Scene (Wlr_scene_node_set_position tree ex ey)])
      }
      else Some (c,
        [case comp_output c of
           Some out \<Rightarrow> fill_output v xsurface out
         | None \<Rightarrow> Xwl (Wlr_xwayland_surface_configure xsurface ex ey ewidth eheight)]))"

definition handle_xwayland_request_move ::
    "coder_dlp_xwayland_surface \<Rightarrow> coder_dlp_compositor \<Rightarrow> outcome" where
  "handle_xwayland_request_move x c = (c, [])"

definition handle_xwayland_request_resize ::
    "coder_dlp_xwayland_surface \<Rightarrow> coder_dlp_compositor \<Rightarrow> outcome" where
  "handle_xwayland_request_resize x c = (c, [])"

definition handle_xwayland_request_maximize ::
    "wlr_view \<Rightarrow> coder_dlp_xwayland_surface \<Rightarrow> coder_dlp_compositor \<Rightarrow> outcome" where
  "handle_xwayland_request_maximize v x c =
     (c, (case comp_output c of
            None \<Rightarrow> []
          | Some out \<Rightarrow> [fill_output v (xs_xwayland_surface x) out,
                          Xwl (Wlr_xwayland_surface_set_maximized (xs_xwayland_surface x) True True)]))"

definition handle_xwayland_request_fullscreen ::
    "wlr_view \<Rightarrow> coder_dlp_xwayland_surface \<Rightarrow> coder_dlp_compositor \<Rightarrow> outcome" where
  "handle_xwayland_request_fullscreen v x c =
     (c, (case comp_output c of
            None \<Rightarrow> []
          | Some out \<Rightarrow> [fill_output v (xs_xwayland_surface x) out,
                          Xwl (Wlr_xwayland_surface_set_fullscreen (xs_xwayland_surface x) True)]))"

definition handle_xwayland_request_activate ::
    "wlr_view \<Rightarrow> coder_dlp_xwayland_surface \<Rightarrow> coder_dlp_compositor \<Rightarrow> outcome option" where
  "handle_xwayland_request_activate v x c = map_option (\<lambda>calls. (c, calls)) (focus_xwayland_surface v x)"

text \<open>The three property changes are only logged.\<close>

definition handle_xwayland_set_override_redirect ::
    "coder_dlp_xwayland_surface \<Rightarrow> coder_dlp_compositor \<Rightarrow> outcome" where
  "handle_xwayland_set_override_redirect x c = (c, [])"

definition handle_xwayland_set_title ::
    "coder_dlp_xwayland_surface \<Rightarrow> coder_dlp_compositor \<Rightarrow> outcome" where
  "handle_xwayland_set_title x c = (c, [])"

definition handle_xwayland_set_class ::
    "coder_dlp_xwayland_surface \<Rightarrow> coder_dlp_compositor \<Rightarrow> outcome" where
  "handle_xwayland_set_class x c = (c, [])"

section \<open>The server\<close>

definition xsurface_listeners :: "addr \<Rightarrow> addr \<Rightarrow> (signal \<times> listener) list" where
  "xsurface_listeners a xsurface =
     [(Signal (Xwl_surface xsurface) ''associate'', XSurfL a Xs_associate),
      (Signal (Xwl_surface xsurface) ''dissociate'', XSurfL a Xs_dissociate),
      (Signal (Xwl_surface xsurface) ''destroy'', XSurfL a Xs_destroy),
      (Signal (Xwl_surface xsurface) ''request_configure'', XSurfL a Xs_request_configure),
      (Signal (Xwl_surface xsurface) ''request_move'', XSurfL a Xs_request_move),
      (Signal (Xwl_surface xsurface) ''request_resize'', XSurfL a Xs_request_resize),
      (Signal (Xwl_surface xsurface) ''request_maximize'', XSurfL a Xs_request_maximize),
      (Signal (Xwl_surface xsurface) ''request_fullscreen'', XSurfL a Xs_request_fullscreen),
      (Signal (Xwl_surface xsurface) ''request_activate'', XSurfL a Xs_request_activate),
      (Signal (Xwl_surface xsurface) ''set_override_redirect'', XSurfL a Xs_set_override_redirect),
      (Signal (Xwl_surface xsurface) ''set_title'', XSurfL a Xs_set_title),
      (Signal (Xwl_surface xsurface) ''set_class'', XSurfL a Xs_set_class)]"

text \<open>\<open>alloc\<close> is the struct, \<open>tree\<close> the placeholder tree.\<close>

definition handle_xwayland_new_surface ::
    "ptr \<Rightarrow> ptr \<Rightarrow> addr \<Rightarrow> coder_dlp_compositor \<Rightarrow> outcome" where
  "handle_xwayland_new_surface alloc tree xsurface c =
     (case alloc of
        None \<Rightarrow> (c, [])
      | Some a \<Rightarrow>
          (c\<lparr>xwayland_surfaces :=
               \<lparr>xs_addr = a, xs_xwayland_surface = xsurface, xs_scene_tree = tree\<rparr> # xwayland_surfaces c,
             node_data := (case tree of None \<Rightarrow> node_data c
                           | Some t \<Rightarrow> (node_data c)(t \<mapsto> DLP_SURFACE_XWAYLAND a))\<rparr>,
           [Wl (Wl_list_init (XSurfL a Xs_map)), Wl (Wl_list_init (XSurfL a Xs_unmap)),
            Scene Wlr_scene_tree_create] @
           (case tree of None \<Rightarrow> [] | Some t \<Rightarrow> [Scene (Wlr_scene_node_set_enabled t False)]) @
           adds (xsurface_listeners a xsurface)))"

definition handle_xwayland_ready :: "coder_dlp_compositor \<Rightarrow> outcome" where
  "handle_xwayland_ready c = (c, [])"

definition xwayland_listeners :: "(signal \<times> listener) list" where
  "xwayland_listeners =
     [(Signal Xwayland ''new_surface'', CompL Xwayland_new_surface),
      (Signal Xwayland ''ready'', CompL Xwayland_ready)]"

text \<open>\<open>server\<close> is the Xwayland server wlroots creates, or \<^verbatim>\<open>NULL\<close>.\<close>

definition dlp_xwayland_init :: "ptr \<Rightarrow> coder_dlp_compositor \<Rightarrow> outcome" where
  "dlp_xwayland_init server c =
     (c\<lparr>xwayland_surfaces := [], xwayland := server\<rparr>,
      [Xwl (Setenv ''XWAYLAND_NO_GLAMOR'' ''1''), Xwl Wlr_xwayland_create] @
      (case server of
         None \<Rightarrow> []
       | Some _ \<Rightarrow> [Xwl Wlr_xwayland_set_seat] @ adds xwayland_listeners))"

definition xsurf_cleanup :: "coder_dlp_xwayland_surface \<Rightarrow> call list" where
  "xsurf_cleanup x =
     removes (map (XSurfL (xs_addr x)) xsurf_slots) @ [Own (Free_xsurf (xs_addr x))]"

definition dlp_xwayland_destroy :: "coder_dlp_compositor \<Rightarrow> outcome" where
  "dlp_xwayland_destroy c =
     (case xwayland c of
        None \<Rightarrow> (c, [Xwl (Unsetenv ''XWAYLAND_NO_GLAMOR'')])
      | Some server \<Rightarrow>
          (c\<lparr>xwayland := None, xwayland_surfaces := []\<rparr>,
           [Xwl (Unsetenv ''XWAYLAND_NO_GLAMOR'')] @
           removes [CompL Xwayland_new_surface, CompL Xwayland_ready] @
           concat (map xsurf_cleanup (xwayland_surfaces c)) @
           [Xwl (Wlr_xwayland_destroy server)]))"

end
