(* ===== verification/Lifecycle.thy ===== *)
theory Lifecycle
  imports Shell Output Clipboard Xwayland Registry Launch
begin

text \<open>
  The rest of \<^verbatim>\<open>src/compositor.c\<close>: the clients, the timer, creating and destroying a
  compositor.
\<close>

section \<open>Clients\<close>

definition handle_client_destroyed :: "addr \<Rightarrow> coder_dlp_compositor \<Rightarrow> outcome" where
  "handle_client_destroyed wrapper c =
     (c\<lparr>client_count := client_count c - 1,
        client_wrappers := filter (\<lambda>w. w \<noteq> wrapper) (client_wrappers c)\<rparr>,
      [Wl (Wl_list_remove (ClientL wrapper)), Own (Free_client_wrapper wrapper)])"

definition handle_client_created :: "ptr \<Rightarrow> addr \<Rightarrow> coder_dlp_compositor \<Rightarrow> outcome" where
  "handle_client_created alloc client c =
     (let c = c\<lparr>client_count := client_count c + 1\<rparr> in
      case alloc of
        None \<Rightarrow> (c, [])
      | Some wrapper \<Rightarrow>
          (c\<lparr>client_wrappers := wrapper # client_wrappers c\<rparr>,
           [Wl (Wl_client_add_destroy_listener client (ClientL wrapper))]))"

section \<open>The timer\<close>

definition reap_timer_cb ::
    "(int \<Rightarrow> bool) \<Rightarrow> coder_dlp_compositor \<Rightarrow> os \<Rightarrow> (coder_dlp_compositor \<times> call list \<times> os) option" where
  "reap_timer_cb exited c s = do {
     (cc, s) \<leftarrow> dlp_reap_dbus_proxies exited (Some c) s;
     c \<leftarrow> cc;
     Some (c, (case reap_timer c of None \<Rightarrow> []
               | Some tm \<Rightarrow> [Wl (Wl_event_source_timer_update tm 30000)]), s)
   }"

section \<open>Creating a compositor\<close>

text \<open>
  What the libraries answer while a compositor is created, in order; a pointer is \<^verbatim>\<open>NULL\<close> if
  the creation fails. While the backend starts it announces its outputs and input devices.
\<close>

datatype startup =
  Start_output wlr_view ptr addr
| Start_input wlr_view bool bool input_device

record create_env =
  ce_calloc :: ptr
  ce_realloc_ok :: bool
  ce_display :: ptr
  ce_event_loop :: ptr
  ce_backend :: ptr
  ce_backend_is_x11 :: bool
  ce_renderer :: ptr
  ce_allocator :: ptr
  ce_output_layout :: ptr
  ce_scene :: ptr
  ce_cursor :: ptr
  ce_cursor_mgr :: ptr
  ce_xdg_shell :: ptr
  ce_seat :: ptr
  ce_security_mgr :: ptr
  ce_xwayland :: ptr
  ce_start_events :: "startup list"
  ce_backend_start :: bool
  ce_timer :: ptr
  ce_socket :: "string option"

fun start_event :: "build_config \<Rightarrow> startup \<Rightarrow> coder_dlp_compositor \<Rightarrow> outcome" where
  "start_event cfg (Start_output v mode out) c = dlp_compositor_handle_new_output cfg v mode out c"
| "start_event cfg (Start_input v ctx_ok keymap_ok device) c =
     dlp_compositor_handle_new_input v ctx_ok keymap_ok device c"

fun start_events :: "build_config \<Rightarrow> startup list \<Rightarrow> coder_dlp_compositor \<Rightarrow> outcome" where
  "start_events cfg [] c = (c, [])"
| "start_events cfg (ev # evs) c =
     (let (c, calls) = start_event cfg ev c; (c, calls') = start_events cfg evs c in (c, calls @ calls'))"

definition wlr_log_level :: "coder_dlp_log_level \<Rightarrow> nat" where
  "wlr_log_level level =
     (case level of CODER_DLP_LOG_DEBUG \<Rightarrow> 3 | CODER_DLP_LOG_INFO \<Rightarrow> 2 | _ \<Rightarrow> 1)"

text \<open>The globals that are only created.\<close>

definition protocol_globals :: "call list" where
  "protocol_globals = map (\<lambda>g. Setup (Create_global g))
     [''wlr_compositor'', ''wlr_subcompositor'', ''wlr_data_device_manager'',
      ''wlr_linux_dmabuf_v1'', ''wlr_viewporter'', ''wlr_xdg_decoration_manager_v1'',
      ''wlr_fractional_scale_manager_v1'', ''wlr_presentation'', ''wlr_cursor_shape_manager_v1'',
      ''wlr_single_pixel_buffer_manager_v1'']"

definition shell_listeners :: "(signal \<times> listener) list" where
  "shell_listeners =
     [(Signal Xdg_shell ''new_toplevel'', CompL New_xdg_toplevel),
      (Signal Xdg_shell ''new_popup'', CompL New_xdg_popup)]"

definition cursor_listeners :: "(signal \<times> listener) list" where
  "cursor_listeners =
     [(Signal Cursor ''motion'', CompL Cursor_motion),
      (Signal Cursor ''motion_absolute'', CompL Cursor_motion_absolute),
      (Signal Cursor ''button'', CompL Cursor_button),
      (Signal Cursor ''axis'', CompL Cursor_axis),
      (Signal Cursor ''frame'', CompL Cursor_frame),
      (Signal Seat ''request_set_cursor'', CompL Request_set_cursor)]"

definition backend_listeners :: "(signal \<times> listener) list" where
  "backend_listeners =
     [(Signal Backend ''new_output'', CompL New_output), (Signal Backend ''new_input'', CompL New_input)]"

text \<open>
  From the Wayland globals to the listeners for new devices. Of the objects created here the code
  checks none; using a missing one is undefined behaviour.
\<close>

definition create_globals ::
    "build_config \<Rightarrow> create_env \<Rightarrow> coder_dlp_compositor \<Rightarrow> outcome option" where
  "create_globals cfg e c = do {
     layout \<leftarrow> ce_output_layout e;
     scn \<leftarrow> ce_scene e;
     cur \<leftarrow> ce_cursor e;
     shell \<leftarrow> ce_xdg_shell e;
     st \<leftarrow> ce_seat e;
     let c = c\<lparr>output_layout := Some layout, scene := Some scn, cursor := Some cur,
               cursor_mgr := ce_cursor_mgr e, seat := Some st\<rparr>;
     let clipboard = dlp_clipboard_init (Some c);
     let (c, security) = dlp_security_context_init (ce_security_mgr e) c;
     let (c, xwl) = (if WLR_HAS_XWAYLAND cfg then dlp_xwayland_init (ce_xwayland e) c else (c, []));
     Some (c,
       protocol_globals @
       [Setup (Create_global ''wlr_output_layout''), Setup (Create_global ''wlr_xdg_output_manager_v1''),
        Setup (Create_global ''wlr_scene''), Setup (Create_global ''wlr_scene_output_layout''),
        Setup (Create_global ''wlr_cursor''), Inp Wlr_cursor_attach_output_layout,
        Setup (Create_global ''wlr_xcursor_manager''), Setup (Create_global ''wlr_xdg_shell'')] @
       adds shell_listeners @
       [Setup (Create_global ''wlr_seat''), Setup (Create_global ''wlr_primary_selection_v1_device_manager'')] @
       clipboard @ security @ xwl @ adds cursor_listeners @ adds backend_listeners)
   }"

text \<open>
  The result: the address returned, the registry and the memory after the call, the compositor as
  it was when the function ended, and the calls.
\<close>

definition err_display ::
    "addr \<Rightarrow> addr vec \<Rightarrow> heap \<Rightarrow> call list \<Rightarrow> ptr \<times> addr vec \<times> heap \<times> call list" where
  "err_display a reg h calls =
     (None, compositor_list_remove a reg, h(a := None),
      calls @ [Wl Wl_display_destroy, Own Free_compositor])"

definition create_finish ::
    "build_config \<Rightarrow> create_env \<Rightarrow> addr \<Rightarrow> coder_dlp_compositor \<Rightarrow> addr vec \<Rightarrow> heap \<Rightarrow> call list
       \<Rightarrow> ptr \<times> addr vec \<times> heap \<times> call list" where
  "create_finish cfg e a c reg h calls =
     (let (c, started) = start_events cfg (ce_start_events e) c;
          calls = calls @ [Setup Wlr_backend_start] @ started
      in if \<not> ce_backend_start e then err_display a reg h calls
         else
           let c = c\<lparr>reap_timer := ce_timer e\<rparr>;
               calls = calls @ (case ce_timer e of None \<Rightarrow> []
                                | Some tm \<Rightarrow> [Wl (Wl_event_source_timer_update tm 30000)]);
               c = c\<lparr>socket := ce_socket e\<rparr>
           in if ce_socket e = None then err_display a reg h calls
              else (Some a, reg, h(a \<mapsto> c), calls))"

definition coder_dlp_create ::
    "build_config \<Rightarrow> create_env \<Rightarrow> coder_dlp_log_level \<Rightarrow> addr vec \<Rightarrow> heap
       \<Rightarrow> (ptr \<times> addr vec \<times> heap \<times> call list) option" where
  "coder_dlp_create cfg e level reg h =
     (let calls = (if used reg = 0 then [Setup (Wlr_log_init (wlr_log_level level))] else [])
      in case ce_calloc e of
           None \<Rightarrow> Some (None, reg, h, calls)
         | Some a \<Rightarrow> do {
             (_, reg) \<leftarrow> compositor_list_add (ce_realloc_ok e) a reg;
             let c = zero_compositor;
             (case ce_display e of
                None \<Rightarrow> Some (None, reg, h(a := None), calls @ [Own Free_compositor])
              | Some d \<Rightarrow>
                  let c = c\<lparr>wl_display := Some d, wl_event_loop := ce_event_loop e, client_count := 0\<rparr>;
                      calls = calls @ [Wl (Wl_display_add_client_created_listener (CompL Client_created))]
                  in (case ce_backend e of
                        None \<Rightarrow> Some (err_display a reg h calls)
                      | Some b \<Rightarrow>
                          let c = c\<lparr>backend := Some b,
                                    is_x11_backend := WLR_HAS_X11_BACKEND cfg \<and> ce_backend_is_x11 e\<rparr>
                          in (case ce_renderer e of
                                None \<Rightarrow> Some (err_display a reg h calls)
                              | Some r \<Rightarrow>
                                  let c = c\<lparr>renderer := Some r\<rparr>;
                                      calls = calls @ [Setup Wlr_renderer_init_wl_display]
                                  in (case ce_allocator e of
                                        None \<Rightarrow> Some (err_display a reg h calls)
                                      | Some al \<Rightarrow> do {
                                          (c, globals) \<leftarrow> create_globals cfg e (c\<lparr>allocator := Some al\<rparr>);
                                          Some (create_finish cfg e a c reg h (calls @ globals))
                                        }))))
           })"

section \<open>Destroying it\<close>

definition toplevel_cleanup :: "coder_dlp_toplevel \<Rightarrow> call list" where
  "toplevel_cleanup t =
     removes (map (ToplevelL (tl_addr t)) toplevel_slots) @ [Own (Free_toplevel (tl_addr t))]"

definition always_slots :: "comp_slot list" where
  "always_slots =
     [New_output, New_input, New_xdg_toplevel, New_xdg_popup, Request_set_selection,
      Request_set_primary_selection, Security_context_commit, Client_created]"

text \<open>The first part: every listener of the struct itself.\<close>

definition destroy_listeners :: "coder_dlp_compositor \<Rightarrow> call list" where
  "destroy_listeners c =
     removes (map CompL always_slots) @
     (case comp_output c of None \<Rightarrow> [] | Some _ \<Rightarrow> removes (map CompL output_slots)) @
     (case keyboard c of None \<Rightarrow> [] | Some _ \<Rightarrow> removes (map CompL keyboard_slots)) @
     (case touch c of None \<Rightarrow> [] | Some _ \<Rightarrow> removes (map CompL touch_slots)) @
     removes (map CompL (cursor_slots @ [Request_set_cursor]))"

text \<open>The last part: the library objects, in the order the comments argue for.\<close>

definition destroy_objects :: "coder_dlp_compositor \<Rightarrow> call list" where
  "destroy_objects c =
     (case (cursor c, touch c) of
        (Some _, Some tc) \<Rightarrow> [Inp (Wlr_cursor_detach_input_device tc)]
      | _ \<Rightarrow> []) @
     (case backend c of None \<Rightarrow> [] | Some b \<Rightarrow> [Setup (Wlr_backend_destroy b)]) @
     (case scene c of None \<Rightarrow> [] | Some _ \<Rightarrow> [Scene Wlr_scene_node_destroy_root]) @
     (case cursor_mgr c of None \<Rightarrow> [] | Some m \<Rightarrow> [Inp (Wlr_xcursor_manager_destroy m)]) @
     (case cursor c of None \<Rightarrow> [] | Some cu \<Rightarrow> [Inp (Wlr_cursor_destroy cu)]) @
     [Own Free_output_title] @
     (case wl_display c of None \<Rightarrow> []
      | Some _ \<Rightarrow> [Wl Wl_display_destroy_clients, Wl Wl_display_destroy]) @
     [Own Free_compositor]"

definition coder_dlp_destroy ::
    "build_config \<Rightarrow> (int \<Rightarrow> bool) \<Rightarrow> ptr \<Rightarrow> addr vec \<Rightarrow> heap \<Rightarrow> os
       \<Rightarrow> (addr vec \<times> heap \<times> os \<times> call list) option" where
  "coder_dlp_destroy cfg exited cc reg h s =
     (case cc of
        None \<Rightarrow> Some (reg, h, s, [])
      | Some a \<Rightarrow> do {
          c \<leftarrow> h a;
          let reg = compositor_list_remove a reg;
          (cc, s) \<leftarrow> dlp_cleanup_dbus_proxies exited (Some c) s;
          c' \<leftarrow> cc;
          let (c', xwl) = (if WLR_HAS_XWAYLAND cfg then dlp_xwayland_destroy c' else (c', []));
          Some (reg, h(a := None), s,
            destroy_listeners c @
            (case reap_timer c of None \<Rightarrow> [] | Some tm \<Rightarrow> [Wl (Wl_event_source_remove tm)]) @
            xwl @ concat (map toplevel_cleanup (toplevels c')) @ destroy_objects c')
        })"

end
