(* ===== verification/Link_Groups.thy ===== *)
theory Link_Groups
  imports Lifecycle
begin

text \<open>
  The structs whose listeners are added and removed together. The locale is the contract of such a
  family (one listener per slot, different structs and slots have different listeners); the three
  families of the program are its interpretations, and the handlers that create and destroy a
  struct are checked by its lemmas.
\<close>

section \<open>Groups of listeners\<close>

lemma distinct_slots:
  "distinct comp_slots" "distinct toplevel_slots" "distinct popup_slots" "distinct xsurf_slots"
  by (simp_all add: comp_slots_def toplevel_slots_def popup_slots_def xsurf_slots_def)

locale listener_group =
  fixes mk :: "addr \<Rightarrow> 'slot \<Rightarrow> listener"
    and slots_of :: "'slot list"
    and free_call :: "addr \<Rightarrow> own_call"
  assumes mk_inj: "mk a s = mk b t \<longleftrightarrow> a = b \<and> s = t"
    and all: "set slots_of = UNIV"
    and dist: "distinct slots_of"
    and free: "link_own (free_call a) L = link_free (map (mk a) slots_of) L"
begin

definition group :: "addr \<Rightarrow> listener list" where
  "group a = map (mk a) slots_of"

lemma distinct_group: "distinct (group a)"
  unfolding group_def using dist mk_inj by (simp add: distinct_map inj_on_def)

lemma in_group: "l \<in> set (group a) \<longleftrightarrow> (\<exists>s. l = mk a s)"
  using all by (auto simp: group_def)

lemma distinct_mk: "distinct ss \<Longrightarrow> distinct (map (mk a) ss)"
  using mk_inj by (simp add: distinct_map inj_on_def)

text \<open>A whole group is removed and its struct freed.\<close>

lemma remove_and_free:
  assumes "\<And>s. L (mk a s) \<noteq> Zeroed"
  shows "link_run (removes (group a) @ [Own (free_call a)]) L = Some (set_links (group a) Zeroed L)"
proof -
  have "link_run (removes (group a)) L = Some (set_links (group a) Zeroed L)"
    using assms in_group by (intro link_run_removes distinct_group) auto
  moreover have "link_own (free_call a) (set_links (group a) Zeroed L) =
      Some (set_links (group a) Zeroed (set_links (group a) Zeroed L))"
    unfolding free group_def [symmetric] by (rule link_free_clear) (simp add: set_links_def)
  moreover have "set_links (group a) Zeroed (set_links (group a) Zeroed L) = set_links (group a) Zeroed L"
    by (auto simp: set_links_def)
  ultimately show ?thesis by (simp add: link_run_append)
qed

lemma set_links_mk: "set_links (group a) st L (mk b s) = (if b = a then st else L (mk b s))"
  using mk_inj all by (auto simp: set_links_def group_def)

lemma set_links_other: "(\<And>s. l \<noteq> mk a s) \<Longrightarrow> set_links (group a) st L l = L l"
  using all by (auto simp: set_links_def group_def)

text \<open>The same for a list of structs, one after the other.\<close>

lemma remove_and_free_all:
  assumes "distinct as" and "\<And>a s. a \<in> set as \<Longrightarrow> L (mk a s) \<noteq> Zeroed"
  shows "link_run (concat (map (\<lambda>a. removes (group a) @ [Own (free_call a)]) as)) L =
    Some (set_links (concat (map group as)) Zeroed L)"
  using assms
proof (induction as arbitrary: L)
  case (Cons a as)
  have "link_run (concat (map (\<lambda>a. removes (group a) @ [Own (free_call a)]) as)) (set_links (group a) Zeroed L) =
      Some (set_links (concat (map group as)) Zeroed (set_links (group a) Zeroed L))"
    using Cons.prems by (intro Cons.IH) (auto simp: set_links_mk)
  moreover have "set_links (concat (map group as)) Zeroed (set_links (group a) Zeroed L) =
      set_links (concat (map group (a # as))) Zeroed L"
    by (auto simp: set_links_def)
  moreover have "link_run (removes (group a) @ [Own (free_call a)]) L = Some (set_links (group a) Zeroed L)"
    using Cons.prems(2) by (intro remove_and_free) simp
  moreover have "link_run (concat (map (\<lambda>a. removes (group a) @ [Own (free_call a)]) (a # as))) L =
      Option.bind (link_run (removes (group a) @ [Own (free_call a)]) L)
        (link_run (concat (map (\<lambda>a. removes (group a) @ [Own (free_call a)]) as)))"
    unfolding list.map concat.simps by (rule link_run_append)
  ultimately show ?case by (simp only: bind.bind_lunit)
qed simp

end

interpretation tlg: listener_group ToplevelL toplevel_slots Free_toplevel
  by unfold_locales (simp_all add: all_slots distinct_slots)

interpretation ppg: listener_group PopupL popup_slots Free_popup
  by unfold_locales (simp_all add: all_slots distinct_slots)

interpretation xsg: listener_group XSurfL xsurf_slots Free_xsurf
  by unfold_locales (simp_all add: all_slots distinct_slots)

text \<open>The listeners of the compositor itself.\<close>

lemma distinct_CompL: "distinct ss \<Longrightarrow> distinct (map CompL ss)"
  by (simp add: distinct_map inj_on_def)

lemma set_links_CompL: "set_links (map CompL ss) st L (CompL s) = (if s \<in> set ss then st else L (CompL s))"
  by (auto simp: set_links_def)

lemma set_links_not_CompL: "(\<And>s. l \<noteq> CompL s) \<Longrightarrow> set_links (map CompL ss) st L l = L l"
  by (auto simp: set_links_def)

lemma adds_run:
  "distinct (map snd ps) \<Longrightarrow> (\<And>l. l \<in> set (map snd ps) \<Longrightarrow> L l \<noteq> Linked) \<Longrightarrow>
     link_run (adds ps) L = Some (set_links (map snd ps) Linked L)"
  by (rule link_run_adds) auto

text \<open>Calls before and after that touch no listener.\<close>

lemma link_run_around:
  "list_all quiet cs \<Longrightarrow> link_run ds L = Some L' \<Longrightarrow> list_all quiet es \<Longrightarrow>
     link_run (cs @ ds @ es) L = Some L'"
  by (simp add: link_run_append link_run_quiet)

end
