(* ===== verification/System.thy ===== *)
theory System
  imports Link_Groups
begin

text \<open>
  The running compositor: the events that reach it, each through the listener it was announced to,
  and the invariant that ties the listeners in the lists of the libraries to the state of the
  compositor. It follows that no handler adds a listener twice, removes one that is in no list, or
  frees one that is still in a list.
\<close>

section \<open>Events\<close>

datatype event =
  New_output_ev wlr_view ptr addr
| Frame_ev frame_env
| Request_state_ev addr
| Output_destroy_ev
| New_input_ev wlr_view bool bool input_device
| Key_ev wlr_view u32 u32 u32
| Modifiers_ev
| Motion_ev wlr_view addr double double u32
| Motion_absolute_ev wlr_view addr double double u32
| Button_ev wlr_view u32 u32 u32
| Axis_ev u32 nat double int nat nat
| Cursor_frame_ev
| Set_cursor_ev wlr_view ptr ptr int int
| Touch_down_ev wlr_view wlr_view u32 int double double
| Touch_up_ev u32 int
| Touch_motion_ev wlr_view u32 int double double
| Touch_cancel_ev wlr_view
| Touch_frame_ev
| Set_selection_ev ptr u32
| Set_primary_selection_ev ptr u32
| Security_commit_ev
| Client_created_ev ptr addr
| Client_destroyed_ev addr
| New_toplevel_ev wlr_view ptr ptr addr
| Toplevel_ev addr toplevel_slot wlr_view
| New_popup_ev wlr_view ptr ptr addr
| Popup_ev addr popup_slot wlr_view
| New_xsurface_ev ptr ptr addr
| Xwayland_ready_ev
| Xsurf_ev addr xsurf_slot wlr_view ptr "int \<times> int \<times> int \<times> int"

fun listener_of :: "event \<Rightarrow> listener" where
  "listener_of (New_output_ev v m out) = CompL New_output"
| "listener_of (Frame_ev e) = CompL Output_frame"
| "listener_of (Request_state_ev out) = CompL Output_request_state"
| "listener_of Output_destroy_ev = CompL Output_destroy"
| "listener_of (New_input_ev v a b d) = CompL New_input"
| "listener_of (Key_ev v tm kc st) = CompL Keyboard_key"
| "listener_of Modifiers_ev = CompL Keyboard_modifiers"
| "listener_of (Motion_ev v d dx dy tm) = CompL Cursor_motion"
| "listener_of (Motion_absolute_ev v d x y tm) = CompL Cursor_motion_absolute"
| "listener_of (Button_ev v tm b st) = CompL Cursor_button"
| "listener_of (Axis_ev tm ori d dd src rd) = CompL Cursor_axis"
| "listener_of Cursor_frame_ev = CompL Cursor_frame"
| "listener_of (Set_cursor_ev v cl s hx hy) = CompL Request_set_cursor"
| "listener_of (Touch_down_ev v v' tm i x y) = CompL Touch_down"
| "listener_of (Touch_up_ev tm i) = CompL Touch_up"
| "listener_of (Touch_motion_ev v tm i x y) = CompL Touch_motion"
| "listener_of (Touch_cancel_ev v) = CompL Touch_cancel"
| "listener_of Touch_frame_ev = CompL Touch_frame"
| "listener_of (Set_selection_ev src ser) = CompL Request_set_selection"
| "listener_of (Set_primary_selection_ev src ser) = CompL Request_set_primary_selection"
| "listener_of Security_commit_ev = CompL Security_context_commit"
| "listener_of (Client_created_ev al cl) = CompL Client_created"
| "listener_of (Client_destroyed_ev w) = ClientL w"
| "listener_of (New_toplevel_ev v al tr x) = CompL New_xdg_toplevel"
| "listener_of (Toplevel_ev a s v) = ToplevelL a s"
| "listener_of (New_popup_ev v al tr x) = CompL New_xdg_popup"
| "listener_of (Popup_ev a s v) = PopupL a s"
| "listener_of (New_xsurface_ev al tr x) = CompL Xwayland_new_surface"
| "listener_of Xwayland_ready_ev = CompL Xwayland_ready"
| "listener_of (Xsurf_ev a s v tr g) = XSurfL a s"

text \<open>The handlers of a struct's listeners, by slot (the \<^verbatim>\<open>notify\<close> pointers).\<close>

definition toplevel_handler ::
    "toplevel_slot \<Rightarrow> wlr_view \<Rightarrow> coder_dlp_toplevel \<Rightarrow> coder_dlp_compositor \<Rightarrow> outcome" where
  "toplevel_handler s v t c =
     (case s of
        Tl_map \<Rightarrow> handle_toplevel_map v t c
      | Tl_unmap \<Rightarrow> handle_toplevel_unmap v t c
      | Tl_commit \<Rightarrow> handle_toplevel_commit v t c
      | Tl_destroy \<Rightarrow> handle_toplevel_destroy t c
      | Tl_request_move \<Rightarrow> handle_toplevel_request_move t c
      | Tl_request_resize \<Rightarrow> handle_toplevel_request_resize t c
      | Tl_request_maximize \<Rightarrow> handle_toplevel_request_maximize v t c
      | Tl_request_fullscreen \<Rightarrow> handle_toplevel_request_fullscreen v t c)"

definition popup_handler ::
    "popup_slot \<Rightarrow> wlr_view \<Rightarrow> coder_dlp_popup \<Rightarrow> coder_dlp_compositor \<Rightarrow> outcome" where
  "popup_handler s v p c =
     (case s of Pp_commit \<Rightarrow> handle_popup_commit v p c | Pp_destroy \<Rightarrow> handle_popup_destroy p c)"

definition xsurf_handler ::
    "xsurf_slot \<Rightarrow> wlr_view \<Rightarrow> ptr \<Rightarrow> int \<times> int \<times> int \<times> int \<Rightarrow> coder_dlp_xwayland_surface
       \<Rightarrow> coder_dlp_compositor \<Rightarrow> outcome option" where
  "xsurf_handler s v tree g x c =
     (case s of
        Xs_associate \<Rightarrow> handle_xwayland_surface_associate v tree x c
      | Xs_dissociate \<Rightarrow> Some (handle_xwayland_surface_dissociate x c)
      | Xs_map \<Rightarrow> handle_xwayland_surface_map v x c
      | Xs_unmap \<Rightarrow> handle_xwayland_surface_unmap x c
      | Xs_destroy \<Rightarrow> Some (handle_xwayland_surface_destroy x c)
      | Xs_request_configure \<Rightarrow>
          (case g of (ex, ey, ew, eh) \<Rightarrow> handle_xwayland_request_configure v ex ey ew eh x c)
      | Xs_request_move \<Rightarrow> Some (handle_xwayland_request_move x c)
      | Xs_request_resize \<Rightarrow> Some (handle_xwayland_request_resize x c)
      | Xs_request_maximize \<Rightarrow> Some (handle_xwayland_request_maximize v x c)
      | Xs_request_fullscreen \<Rightarrow> Some (handle_xwayland_request_fullscreen v x c)
      | Xs_request_activate \<Rightarrow> handle_xwayland_request_activate v x c
      | Xs_set_override_redirect \<Rightarrow> Some (handle_xwayland_set_override_redirect x c)
      | Xs_set_title \<Rightarrow> Some (handle_xwayland_set_title x c)
      | Xs_set_class \<Rightarrow> Some (handle_xwayland_set_class x c))"

text \<open>What an event does; the struct of its listener must be alive.\<close>

definition find_popup :: "addr \<Rightarrow> coder_dlp_compositor \<Rightarrow> coder_dlp_popup option" where
  "find_popup a c = find (\<lambda>p. pp_addr p = a) (popups c)"

fun handle_event :: "build_config \<Rightarrow> event \<Rightarrow> coder_dlp_compositor \<Rightarrow> outcome option" where
  "handle_event cfg (New_output_ev v m out) c = Some (dlp_compositor_handle_new_output cfg v m out c)"
| "handle_event cfg (Frame_ev e) c = map_option (\<lambda>(c, calls, _). (c, calls)) (handle_output_frame e c)"
| "handle_event cfg (Request_state_ev out) c = Some (handle_output_request_state out c)"
| "handle_event cfg Output_destroy_ev c = Some (handle_output_destroy c)"
| "handle_event cfg (New_input_ev v a b d) c = Some (dlp_compositor_handle_new_input v a b d c)"
| "handle_event cfg (Key_ev v tm kc st) c = handle_keyboard_key cfg v tm kc st c"
| "handle_event cfg Modifiers_ev c = handle_keyboard_modifiers c"
| "handle_event cfg (Motion_ev v d dx dy tm) c = Some (dlp_handle_cursor_motion v d dx dy tm c)"
| "handle_event cfg (Motion_absolute_ev v d x y tm) c = Some (dlp_handle_cursor_motion_absolute v d x y tm c)"
| "handle_event cfg (Button_ev v tm b st) c = dlp_handle_cursor_button cfg v tm b st c"
| "handle_event cfg (Axis_ev tm ori d dd src rd) c = Some (dlp_handle_cursor_axis tm ori d dd src rd c)"
| "handle_event cfg Cursor_frame_ev c = Some (dlp_handle_cursor_frame c)"
| "handle_event cfg (Set_cursor_ev v cl s hx hy) c = Some (dlp_handle_request_set_cursor v cl s hx hy c)"
| "handle_event cfg (Touch_down_ev v v' tm i x y) c = dlp_handle_touch_down cfg v v' tm i x y c"
| "handle_event cfg (Touch_up_ev tm i) c = Some (dlp_handle_touch_up tm i c)"
| "handle_event cfg (Touch_motion_ev v tm i x y) c = Some (dlp_handle_touch_motion v tm i x y c)"
| "handle_event cfg (Touch_cancel_ev v) c = Some (dlp_handle_touch_cancel v c)"
| "handle_event cfg Touch_frame_ev c = Some (dlp_handle_touch_frame c)"
| "handle_event cfg (Set_selection_ev src ser) c = Some (handle_request_set_selection src ser c)"
| "handle_event cfg (Set_primary_selection_ev src ser) c = Some (handle_request_set_primary_selection src ser c)"
| "handle_event cfg Security_commit_ev c = Some (handle_security_context_commit c)"
| "handle_event cfg (Client_created_ev al cl) c = Some (handle_client_created al cl c)"
| "handle_event cfg (Client_destroyed_ev w) c = Some (handle_client_destroyed w c)"
| "handle_event cfg (New_toplevel_ev v al tr x) c = dlp_compositor_handle_new_xdg_toplevel v al tr x c"
| "handle_event cfg (Toplevel_ev a s v) c = map_option (\<lambda>t. toplevel_handler s v t c) (find_toplevel a c)"
| "handle_event cfg (New_popup_ev v al tr x) c = Some (dlp_compositor_handle_new_xdg_popup v al tr x c)"
| "handle_event cfg (Popup_ev a s v) c = map_option (\<lambda>p. popup_handler s v p c) (find_popup a c)"
| "handle_event cfg (New_xsurface_ev al tr x) c = Some (handle_xwayland_new_surface al tr x c)"
| "handle_event cfg Xwayland_ready_ev c = Some (handle_xwayland_ready c)"
| "handle_event cfg (Xsurf_ev a s v tr g) c = Option.bind (find_xsurf a c) (\<lambda>x. xsurf_handler s v tr g x c)"

section \<open>The invariant\<close>

text \<open>Which of the compositor's own listeners are in a list.\<close>

definition comp_linked :: "coder_dlp_compositor \<Rightarrow> comp_slot \<Rightarrow> bool" where
  "comp_linked c s \<longleftrightarrow>
     (if s \<in> set output_slots then comp_output c \<noteq> None
      else if s \<in> set keyboard_slots then keyboard c \<noteq> None
      else if s \<in> set touch_slots then touch c \<noteq> None
      else if s = Security_context_commit then security_context_mgr c \<noteq> None
      else if s \<in> {Xwayland_new_surface, Xwayland_ready} then xwayland c \<noteq> None
      else True)"

definition linked_if :: "bool \<Rightarrow> link_state" where
  "linked_if b = (if b then Linked else Zeroed)"

definition links_ok :: "coder_dlp_compositor \<Rightarrow> links \<Rightarrow> bool" where
  "links_ok c L \<longleftrightarrow>
     (\<forall>s. L (CompL s) = linked_if (comp_linked c s)) \<and>
     (\<forall>a s. L (ToplevelL a s) = linked_if (a \<in> tl_addr ` set (toplevels c))) \<and>
     (\<forall>a s. L (PopupL a s) = linked_if (a \<in> pp_addr ` set (popups c))) \<and>
     (\<forall>a. L (ClientL a) = linked_if (a \<in> set (client_wrappers c))) \<and>
     (\<forall>a s. s \<noteq> Xs_map \<and> s \<noteq> Xs_unmap \<longrightarrow>
        L (XSurfL a s) = linked_if (a \<in> xs_addr ` set (xwayland_surfaces c))) \<and>
     (\<forall>a. L (XSurfL a Xs_map) = L (XSurfL a Xs_unmap) \<and>
        (L (XSurfL a Xs_map) = Zeroed \<longleftrightarrow> a \<notin> xs_addr ` set (xwayland_surfaces c))) \<and>
     distinct (map tl_addr (toplevels c)) \<and> distinct (map xs_addr (xwayland_surfaces c))"

text \<open>
  What the libraries guarantee of an event in a state: memory that is allocated is new, and an
  Xwayland surface is associated once. What the library itself relies on: there is one output, one
  keyboard and one touch device at a time.
\<close>

fun event_ok :: "coder_dlp_compositor \<Rightarrow> links \<Rightarrow> event \<Rightarrow> bool" where
  "event_ok c L (New_output_ev v m out) \<longleftrightarrow> comp_output c = None"
| "event_ok c L (New_input_ev v a b d) \<longleftrightarrow>
     (dev_type d = WLR_INPUT_DEVICE_KEYBOARD \<longrightarrow> keyboard c = None) \<and>
     (dev_type d = WLR_INPUT_DEVICE_TOUCH \<longrightarrow> touch c = None)"
| "event_ok c L (Client_created_ev al cl) \<longleftrightarrow> (\<forall>w. al = Some w \<longrightarrow> w \<notin> set (client_wrappers c))"
| "event_ok c L (New_toplevel_ev v al tr x) \<longleftrightarrow> (\<forall>a. al = Some a \<longrightarrow> a \<notin> tl_addr ` set (toplevels c))"
| "event_ok c L (New_popup_ev v al tr x) \<longleftrightarrow> (\<forall>a. al = Some a \<longrightarrow> a \<notin> pp_addr ` set (popups c))"
| "event_ok c L (New_xsurface_ev al tr x) \<longleftrightarrow>
     (\<forall>a. al = Some a \<longrightarrow> a \<notin> xs_addr ` set (xwayland_surfaces c))"
| "event_ok c L (Xsurf_ev a s v tr g) \<longleftrightarrow> (s = Xs_associate \<longrightarrow> L (XSurfL a Xs_map) \<noteq> Linked)"
| "event_ok c L _ \<longleftrightarrow> True"

section \<open>Handlers that touch no listener\<close>

declare quiet_input [simp] quiet_xwl [simp] quiet_setup [simp]

definition same_shape :: "coder_dlp_compositor \<Rightarrow> coder_dlp_compositor \<Rightarrow> bool" where
  "same_shape c c' \<longleftrightarrow>
     (comp_output c' = None \<longleftrightarrow> comp_output c = None) \<and> (keyboard c' = None \<longleftrightarrow> keyboard c = None) \<and>
     (touch c' = None \<longleftrightarrow> touch c = None) \<and>
     (security_context_mgr c' = None \<longleftrightarrow> security_context_mgr c = None) \<and>
     (xwayland c' = None \<longleftrightarrow> xwayland c = None) \<and>
     map tl_addr (toplevels c') = map tl_addr (toplevels c) \<and>
     map pp_addr (popups c') = map pp_addr (popups c) \<and>
     map xs_addr (xwayland_surfaces c') = map xs_addr (xwayland_surfaces c) \<and>
     client_wrappers c' = client_wrappers c"

lemma same_shape_refl [simp]: "same_shape c c"
  by (simp add: same_shape_def)

lemma map_eq_image: "map f xs = map g ys \<Longrightarrow> f ` set xs = g ` set ys"
  by (metis list.set_map)

lemma links_ok_cong:
  assumes ok: "links_ok c L" and sh: "same_shape c c'"
  shows "links_ok c' L"
proof -
  have comp: "comp_linked c' s = comp_linked c s" for s
    using sh unfolding same_shape_def comp_linked_def by (simp only: not_False_eq_True)
  have maps: "map tl_addr (toplevels c') = map tl_addr (toplevels c)"
    "map pp_addr (popups c') = map pp_addr (popups c)"
    "map xs_addr (xwayland_surfaces c') = map xs_addr (xwayland_surfaces c)"
    "client_wrappers c' = client_wrappers c"
    using sh by (simp_all add: same_shape_def)
  note images = maps(1-3) [THEN map_eq_image]
  have "links_ok c' L = links_ok c L" unfolding links_ok_def comp images maps by (rule refl)
  with ok show ?thesis by simp
qed

definition calm :: "coder_dlp_compositor \<Rightarrow> outcome \<Rightarrow> bool" where
  "calm c r \<longleftrightarrow> same_shape c (fst r) \<and> list_all quiet (snd r)"

lemma calm_safe:
  "links_ok c L \<Longrightarrow> calm c (c', calls) \<Longrightarrow> \<exists>L'. link_run calls L = Some L' \<and> links_ok c' L'"
  by (auto simp: calm_def link_run_quiet intro: links_ok_cong)

lemma calm_simp [simp]: "calm c (c, calls) \<longleftrightarrow> list_all quiet calls"
  by (simp add: calm_def)

lemma quiet_notify_enter [simp]: "list_all quiet (notify_enter v s)"
  by (simp add: notify_enter_def split: option.split)

lemma quiet_deactivate [simp]: "list_all quiet (deactivate_focused cfg v)"
  by (simp add: deactivate_focused_def split: option.split)

lemma quiet_activate: "activate_owner cfg v ow c = Some acts \<Longrightarrow> list_all quiet acts"
  by (auto simp: activate_owner_def bind_eq_Some_conv split: surface_owner.splits if_splits option.splits)

lemma quiet_focus: "touch_focus_at cfg v x y c = Some acts \<Longrightarrow> list_all quiet acts"
  by (auto simp: touch_focus_at_def bind_eq_Some_conv split: option.splits) (erule quiet_activate)

lemma quiet_xfocus: "focus_xwayland_surface v x = Some acts \<Longrightarrow> list_all quiet acts"
  by (auto simp: focus_xwayland_surface_def bind_eq_Some_conv split: option.splits)

lemma quiet_cursor_motion [simp]: "list_all quiet (process_cursor_motion v tm)"
  by (simp add: process_cursor_motion_def split: option.split prod.split)

lemma quiet_cancel [simp]: "list_all quiet (cancel_points ps)"
  by (induction ps) (simp_all split: option.split)

lemma quiet_title [simp]: "list_all quiet (title_calls cfg v out t)"
  by (simp add: title_calls_def)

text \<open>The handlers of input, frames and selections.\<close>

lemma calm_input:
  "handle_keyboard_key cfg v tm kc st c = Some r \<Longrightarrow> calm c r"
  "handle_keyboard_modifiers c = Some r \<Longrightarrow> calm c r"
  "dlp_handle_cursor_button cfg v tm b st c = Some r \<Longrightarrow> calm c r"
  "dlp_handle_touch_down cfg v v' tm i x y c = Some r \<Longrightarrow> calm c r"
  "calm c (dlp_handle_cursor_motion v d dx dy tm c)"
  "calm c (dlp_handle_cursor_motion_absolute v d ax ay tm c)"
  "calm c (dlp_handle_cursor_axis tm ori de dd src rd c)"
  "calm c (dlp_handle_cursor_frame c)"
  "calm c (dlp_handle_request_set_cursor v cl s hx hy c)"
  "calm c (dlp_handle_touch_up tm i c)"
  "calm c (dlp_handle_touch_motion v tm i tx ty c)"
  "calm c (dlp_handle_touch_cancel v c)"
  "calm c (dlp_handle_touch_frame c)"
  "calm c (handle_request_set_selection src' ser c)"
  "calm c (handle_request_set_primary_selection src' ser c)"
  "calm c (handle_security_context_commit c)"
  "calm c (handle_output_request_state out c)"
  by (auto simp: handle_keyboard_key_def handle_keyboard_modifiers_def dlp_handle_cursor_button_def
      dlp_handle_touch_down_def dlp_handle_cursor_motion_def dlp_handle_cursor_motion_absolute_def
      dlp_handle_cursor_axis_def dlp_handle_cursor_frame_def dlp_handle_request_set_cursor_def
      dlp_handle_touch_up_def dlp_handle_touch_motion_def dlp_handle_touch_cancel_def
      dlp_handle_touch_frame_def handle_request_set_selection_def
      handle_request_set_primary_selection_def handle_security_context_commit_def
      handle_output_request_state_def touch_coords_to_layout_def Let_def bind_eq_Some_conv
      dest: quiet_focus split: option.splits if_splits prod.splits)

lemma calm_frame: "handle_output_frame e c = Some (c', calls, b) \<Longrightarrow> calm c (c', calls)"
  by (auto simp: handle_output_frame_def bind_eq_Some_conv split: if_splits option.splits)

lemma calm_toplevel:
  "s \<noteq> Tl_destroy \<Longrightarrow> calm c (toplevel_handler s v t c)"
  by (cases s) (auto simp: toplevel_handler_def handle_toplevel_map_def handle_toplevel_unmap_def
      handle_toplevel_commit_def handle_toplevel_request_move_def handle_toplevel_request_resize_def
      handle_toplevel_request_maximize_def handle_toplevel_request_fullscreen_def split: option.split)

lemma calm_popup: "s \<noteq> Pp_destroy \<Longrightarrow> calm c (popup_handler s v p c)"
  by (cases s) (simp_all add: popup_handler_def handle_popup_commit_def)

lemma calm_xsurf:
  assumes "s \<notin> {Xs_associate, Xs_dissociate, Xs_destroy}" and "xsurf_handler s v tr g x c = Some r"
  shows "calm c r"
proof -
  have "handle_xwayland_surface_map v x c = Some r \<Longrightarrow> calm c r"
    by (auto simp: handle_xwayland_surface_map_def fill_output_def bind_eq_Some_conv Let_def
        dest!: quiet_xfocus split: if_splits option.splits)
  moreover have "handle_xwayland_request_configure v ex ey ew eh x c = Some r \<Longrightarrow> calm c r" for ex ey ew eh
    by (auto simp: handle_xwayland_request_configure_def fill_output_def bind_eq_Some_conv Let_def
        split: if_splits option.splits)
  moreover have "handle_xwayland_request_activate v x c = Some r \<Longrightarrow> calm c r"
    by (auto simp: handle_xwayland_request_activate_def dest: quiet_xfocus)
  ultimately show ?thesis
    using assms
    by (cases s) (auto simp: xsurf_handler_def handle_xwayland_surface_unmap_def bind_eq_Some_conv
        handle_xwayland_request_move_def handle_xwayland_request_resize_def
        handle_xwayland_request_maximize_def handle_xwayland_request_fullscreen_def fill_output_def
        handle_xwayland_set_override_redirect_def handle_xwayland_set_title_def
        handle_xwayland_set_class_def split: option.splits prod.splits)
qed

end
