(* ===== verification/System_Safety.thy ===== *)
theory System_Safety
  imports System
begin

text \<open>
  Each event keeps the invariant of the listeners: one lemma per handler that touches listeners,
  then the step relation of the running compositor, the states it reaches, and what creating and
  destroying a compositor do to the listeners.
\<close>

section \<open>Handlers that change the lists\<close>

lemma links_okD:
  assumes "links_ok c L"
  shows "L (CompL s) = linked_if (comp_linked c s)"
    "L (ToplevelL a ts) = linked_if (a \<in> tl_addr ` set (toplevels c))"
    "L (PopupL a ps) = linked_if (a \<in> pp_addr ` set (popups c))"
    "L (ClientL a) = linked_if (a \<in> set (client_wrappers c))"
    "xs \<noteq> Xs_map \<Longrightarrow> xs \<noteq> Xs_unmap \<Longrightarrow>
       L (XSurfL a xs) = linked_if (a \<in> xs_addr ` set (xwayland_surfaces c))"
    "L (XSurfL a Xs_unmap) = L (XSurfL a Xs_map)"
    "L (XSurfL a Xs_map) = Zeroed \<longleftrightarrow> a \<notin> xs_addr ` set (xwayland_surfaces c)"
    "distinct (map tl_addr (toplevels c))" "distinct (map xs_addr (xwayland_surfaces c))"
  using assms unfolding links_ok_def by (simp_all only: simp_thms) (metis+)?

lemma linked_if_simps [simp]:
  "linked_if True = Linked" "linked_if False = Zeroed" "linked_if b = Linked \<longleftrightarrow> b"
  "linked_if b = Zeroed \<longleftrightarrow> \<not> b" "linked_if b = Self \<longleftrightarrow> False"
  by (simp_all add: linked_if_def)

definition same_lists :: "coder_dlp_compositor \<Rightarrow> coder_dlp_compositor \<Rightarrow> bool" where
  "same_lists c c' \<longleftrightarrow> toplevels c' = toplevels c \<and> popups c' = popups c \<and>
     xwayland_surfaces c' = xwayland_surfaces c \<and> client_wrappers c' = client_wrappers c"

text \<open>A change of the compositor's own listeners.\<close>

lemma links_ok_comp:
  assumes ok: "links_ok c L" and "same_lists c c'"
    and "\<And>s. comp_linked c' s = (if s \<in> set ss then b else comp_linked c s)"
  shows "links_ok c' (set_links (map CompL ss) (linked_if b) L)"
proof -
  have other: "set_links (map CompL ss) (linked_if b) L (ToplevelL a ts) = L (ToplevelL a ts)"
    "set_links (map CompL ss) (linked_if b) L (PopupL a ps) = L (PopupL a ps)"
    "set_links (map CompL ss) (linked_if b) L (ClientL a) = L (ClientL a)"
    "set_links (map CompL ss) (linked_if b) L (XSurfL a xs) = L (XSurfL a xs)" for a ts ps xs
    by (simp_all add: set_links_not_CompL)
  show ?thesis
    using links_okD [OF ok] assms(2,3)
    unfolding links_ok_def other by (simp add: set_links_CompL same_lists_def)
qed

lemma add_comp:
  assumes ok: "links_ok c L" and "map snd ps = map CompL ss" and "distinct ss"
    and "\<And>s. s \<in> set ss \<Longrightarrow> \<not> comp_linked c s" and "same_lists c c'"
    and "\<And>s. comp_linked c' s = (s \<in> set ss \<or> comp_linked c s)"
    and "list_all quiet pre" and "list_all quiet post"
  shows "\<exists>L'. link_run (pre @ adds ps @ post) L = Some L' \<and> links_ok c' L'"
proof -
  have "link_run (adds ps) L = Some (set_links (map snd ps) Linked L)"
    using assms(2-4) links_okD(1) [OF ok] by (intro adds_run) (auto simp: distinct_CompL)
  with assms(7,8) have "link_run (pre @ adds ps @ post) L = Some (set_links (map CompL ss) (linked_if True) L)"
    using assms(2) by (simp add: link_run_around)
  moreover have "links_ok c' (set_links (map CompL ss) (linked_if True) L)"
    by (rule links_ok_comp [OF ok assms(5)]) (simp add: assms(6))
  ultimately show ?thesis by blast
qed

lemma remove_comp:
  assumes ok: "links_ok c L" and "distinct ss"
    and "\<And>s. s \<in> set ss \<Longrightarrow> comp_linked c s" and "same_lists c c'"
    and "\<And>s. comp_linked c' s = (s \<notin> set ss \<and> comp_linked c s)"
  shows "\<exists>L'. link_run (removes (map CompL ss)) L = Some L' \<and> links_ok c' L'"
proof -
  have "link_run (removes (map CompL ss)) L = Some (set_links (map CompL ss) Zeroed L)"
    using assms(2,3) links_okD(1) [OF ok] by (intro link_run_removes distinct_CompL) auto
  moreover have "links_ok c' (set_links (map CompL ss) (linked_if False) L)"
    by (rule links_ok_comp [OF ok assms(4)]) (simp add: assms(5))
  ultimately show ?thesis by simp
qed

lemma comp_linked_simps [simp]:
  "comp_linked c Output_frame \<longleftrightarrow> comp_output c \<noteq> None"
  "comp_linked c Output_request_state \<longleftrightarrow> comp_output c \<noteq> None"
  "comp_linked c Output_destroy \<longleftrightarrow> comp_output c \<noteq> None"
  "comp_linked c Keyboard_key \<longleftrightarrow> keyboard c \<noteq> None"
  "comp_linked c Keyboard_modifiers \<longleftrightarrow> keyboard c \<noteq> None"
  "comp_linked c Touch_down \<longleftrightarrow> touch c \<noteq> None" "comp_linked c Touch_up \<longleftrightarrow> touch c \<noteq> None"
  "comp_linked c Touch_motion \<longleftrightarrow> touch c \<noteq> None" "comp_linked c Touch_cancel \<longleftrightarrow> touch c \<noteq> None"
  "comp_linked c Touch_frame \<longleftrightarrow> touch c \<noteq> None"
  "comp_linked c Security_context_commit \<longleftrightarrow> security_context_mgr c \<noteq> None"
  "comp_linked c Xwayland_new_surface \<longleftrightarrow> xwayland c \<noteq> None"
  "comp_linked c Xwayland_ready \<longleftrightarrow> xwayland c \<noteq> None"
  by (simp_all add: comp_linked_def output_slots_def keyboard_slots_def touch_slots_def)

lemma new_output_safe:
  assumes "links_ok c L" and "comp_output c = None"
    and "dlp_compositor_handle_new_output cfg v m out c = (c', calls)"
  shows "\<exists>L'. link_run calls L = Some L' \<and> links_ok c' L'"
proof -
  let ?pre = "(case output_title c of None \<Rightarrow> [] | Some t \<Rightarrow> title_calls cfg v out t) @
      [Out (Wlr_output_init_render out), Out Wlr_output_state_init, Out (Wlr_output_state_set_enabled True)] @
      (case m of None \<Rightarrow> [] | Some m \<Rightarrow> [Out (Wlr_output_state_set_mode m)]) @
      [Out (Wlr_output_commit_state out), Out Wlr_output_state_finish,
       Out (Wlr_output_layout_add_auto out), Scene (Wlr_scene_output_create out),
       Scene Wlr_scene_output_layout_add_output, Inp (Wlr_cursor_set_xcursor ''default'')]"
  have c': "c' = c\<lparr>comp_output := Some out\<rparr>" and calls: "calls = ?pre @ adds (output_listeners out) @ []"
    using assms(3) by (auto simp: dlp_compositor_handle_new_output_def)
  show ?thesis unfolding calls c'
  proof (rule add_comp [OF assms(1), where ss = output_slots])
    show "map snd (output_listeners out) = map CompL output_slots" "distinct output_slots"
      by (simp_all add: output_listeners_def output_slots_def)
    show "\<not> comp_linked c s" if "s \<in> set output_slots" for s
      using that assms(2) by (auto simp: output_slots_def)
    show "comp_linked (c\<lparr>comp_output := Some out\<rparr>) s = (s \<in> set output_slots \<or> comp_linked c s)" for s
      by (simp add: comp_linked_def)
  qed (simp_all add: same_lists_def split: option.split)
qed

lemma output_destroy_safe:
  assumes "links_ok c L" and "comp_output c \<noteq> None"
    and "handle_output_destroy c = (c', calls)"
  shows "\<exists>L'. link_run calls L = Some L' \<and> links_ok c' L'"
proof -
  have r: "c' = c\<lparr>comp_output := None\<rparr>" "calls = removes (map CompL output_slots)"
    using assms(3) by (auto simp: handle_output_destroy_def)
  show ?thesis unfolding r
  proof (rule remove_comp [OF assms(1)])
    show "distinct output_slots" by (simp add: output_slots_def)
    show "comp_linked c s" if "s \<in> set output_slots" for s
      using that assms(2) by (auto simp: output_slots_def)
    show "comp_linked (c\<lparr>comp_output := None\<rparr>) s = (s \<notin> set output_slots \<and> comp_linked c s)" for s
      by (simp add: comp_linked_def)
  qed (simp add: same_lists_def)
qed

lemma new_input_safe:
  assumes ok: "links_ok c L" and one: "dev_type d = WLR_INPUT_DEVICE_KEYBOARD \<longrightarrow> keyboard c = None"
      "dev_type d = WLR_INPUT_DEVICE_TOUCH \<longrightarrow> touch c = None"
    and h: "dlp_compositor_handle_new_input v a b d c = (c', calls)"
  shows "\<exists>L'. link_run calls L = Some L' \<and> links_ok c' L'"
proof -
  let ?caps = "[Sea (Wlr_seat_set_capabilities (add_capability (dev_type d) (seat_capabilities v)))]"
  consider (kb) "dev_type d = WLR_INPUT_DEVICE_KEYBOARD" "a" "b"
    | (tc) "dev_type d = WLR_INPUT_DEVICE_TOUCH"
    | (no) "calm c (c', calls)"
  proof (cases "dev_type d")
    case WLR_INPUT_DEVICE_KEYBOARD
    then show ?thesis using that h
      by (cases a; cases b) (auto simp: dlp_compositor_handle_new_input_def setup_keyboard_def Let_def)
  qed (use that h in \<open>auto simp: dlp_compositor_handle_new_input_def setup_pointer_def\<close>)
  then show ?thesis
  proof cases
    case kb
    let ?kb = "dev_object d"
    have r: "c' = c\<lparr>keyboard := Some ?kb\<rparr>" "calls =
        [Inp Xkb_context_new, Inp Xkb_keymap_new_from_names, Inp (Wlr_keyboard_set_keymap ?kb),
         Inp Xkb_keymap_unref, Inp Xkb_context_unref, Inp (Wlr_keyboard_set_repeat_info ?kb 25 600)] @
        adds (keyboard_listeners ?kb) @ ([Sea (Wlr_seat_set_keyboard ?kb)] @ ?caps)"
      using h kb by (auto simp: dlp_compositor_handle_new_input_def setup_keyboard_def Let_def)
    show ?thesis unfolding r
    proof (rule add_comp [OF ok, where ss = keyboard_slots])
      show "map snd (keyboard_listeners ?kb) = map CompL keyboard_slots" "distinct keyboard_slots"
        by (simp_all add: keyboard_listeners_def keyboard_slots_def)
      show "\<not> comp_linked c s" if "s \<in> set keyboard_slots" for s
        using that one kb by (auto simp: keyboard_slots_def)
      show "comp_linked (c\<lparr>keyboard := Some ?kb\<rparr>) s = (s \<in> set keyboard_slots \<or> comp_linked c s)" for s
        by (cases s) (simp_all add: comp_linked_def output_slots_def keyboard_slots_def touch_slots_def)
    qed (simp_all add: same_lists_def)
  next
    case tc
    have r: "c' = c\<lparr>touch := Some (dev_object d)\<rparr>" "calls =
        [Inp (Wlr_cursor_attach_input_device (dev_addr d))] @ adds (touch_listeners (dev_object d)) @ ?caps"
      using h tc by (auto simp: dlp_compositor_handle_new_input_def setup_touch_def)
    show ?thesis unfolding r
    proof (rule add_comp [OF ok, where ss = touch_slots])
      show "map snd (touch_listeners (dev_object d)) = map CompL touch_slots" "distinct touch_slots"
        by (simp_all add: touch_listeners_def touch_slots_def)
      show "\<not> comp_linked c s" if "s \<in> set touch_slots" for s
        using that one tc by (auto simp: touch_slots_def)
      show "comp_linked (c\<lparr>touch := Some (dev_object d)\<rparr>) s = (s \<in> set touch_slots \<or> comp_linked c s)" for s
        by (cases s) (simp_all add: comp_linked_def output_slots_def keyboard_slots_def touch_slots_def)
    qed (simp_all add: same_lists_def)
  next
    case no
    with calm_safe [OF ok] show ?thesis .
  qed
qed

section \<open>Structs that come and go\<close>

text \<open>A group of listeners in no list goes into the lists of its signals.\<close>

lemma add_struct:
  assumes "map snd ps = ls" and "distinct ls" and "\<And>l. l \<in> set ls \<Longrightarrow> L l \<noteq> Linked"
    and "list_all quiet pre" and "list_all quiet post"
  shows "link_run (pre @ adds ps @ post) L = Some (set_links ls Linked L)"
  using assms by (intro link_run_around) (auto intro: adds_run)

lemma find_addr:
  "find (\<lambda>x. f x = a) xs = Some y \<Longrightarrow> f y = a \<and> y \<in> set xs"
  by (auto simp: find_Some_iff)

lemma image_filter_neq: "f ` set (filter (\<lambda>x. f x \<noteq> a) xs) = f ` set xs - {a}"
  by auto

lemma new_toplevel_safe:
  assumes ok: "links_ok c L" and fresh: "\<forall>a. al = Some a \<longrightarrow> a \<notin> tl_addr ` set (toplevels c)"
    and h: "dlp_compositor_handle_new_xdg_toplevel v al tr x c = Some (c', calls)"
  shows "\<exists>L'. link_run calls L = Some L' \<and> links_ok c' L'"
proof (cases al)
  case None
  with h ok show ?thesis by (auto simp: dlp_compositor_handle_new_xdg_toplevel_def)
next
  case (Some a)
  let ?cb = "case surface_cb c of None \<Rightarrow> []
    | Some cb \<Rightarrow> [Own (Surface_callback cb (xdg_surface_surface v (xdg_toplevel_base v x)) (surface_cb_data c))]"
  obtain tree where r: "c' = c\<lparr>toplevels := \<lparr>tl_addr = a, tl_xdg_toplevel = x, tl_scene_tree = tree\<rparr> # toplevels c,
         node_data := (node_data c)(tree \<mapsto> DLP_SURFACE_XDG a),
         xdg_surface_data := (xdg_surface_data c)(xdg_toplevel_base v x \<mapsto> tree)\<rparr>"
    "calls = [Scene (Wlr_scene_xdg_surface_create Scene_root (xdg_toplevel_base v x))] @
       adds (toplevel_listeners v a x) @ ?cb"
    using h Some by (cases tr) (auto simp: dlp_compositor_handle_new_xdg_toplevel_def Let_def)
  have new: "a \<notin> tl_addr ` set (toplevels c)" using fresh Some by simp
  have "link_run calls L = Some (set_links (tlg.group a) Linked L)" unfolding r
  proof (rule add_struct)
    show "map snd (toplevel_listeners v a x) = tlg.group a"
      unfolding tlg.group_def by (simp add: toplevel_listeners_def toplevel_slots_def)
    show "L l \<noteq> Linked" if "l \<in> set (tlg.group a)" for l
      using that new links_okD(2) [OF ok] by (auto simp: tlg.in_group)
  qed (simp_all add: tlg.distinct_group split: option.split)
  moreover have "links_ok c' (set_links (tlg.group a) Linked L)"
  proof -
    have other: "set_links (tlg.group a) Linked L (CompL s) = L (CompL s)"
      "set_links (tlg.group a) Linked L (PopupL b ps) = L (PopupL b ps)"
      "set_links (tlg.group a) Linked L (ClientL b) = L (ClientL b)"
      "set_links (tlg.group a) Linked L (XSurfL b xs) = L (XSurfL b xs)" for s b ps xs
      by (simp_all add: tlg.set_links_other)
    have "comp_linked c' s = comp_linked c s" for s by (simp add: r comp_linked_def)
    then show ?thesis
      using links_okD [OF ok] new unfolding links_ok_def other by (auto simp: r tlg.set_links_mk)
  qed
  ultimately show ?thesis by blast
qed

lemma toplevel_destroy_safe:
  assumes ok: "links_ok c L" and t: "find_toplevel a c = Some t"
    and h: "handle_toplevel_destroy t c = (c', calls)"
  shows "\<exists>L'. link_run calls L = Some L' \<and> links_ok c' L'"
proof -
  have a: "tl_addr t = a" "a \<in> tl_addr ` set (toplevels c)"
    using find_addr [OF t [unfolded find_toplevel_def]] by auto
  have r: "c' = c\<lparr>toplevels := filter (\<lambda>x. tl_addr x \<noteq> a) (toplevels c)\<rparr>"
    "calls = removes (tlg.group a) @ [Own (Free_toplevel a)]"
    using h a by (auto simp: handle_toplevel_destroy_def tlg.group_def)
  have "link_run calls L = Some (set_links (tlg.group a) Zeroed L)"
    unfolding r using links_okD(2) [OF ok] a(2) by (intro tlg.remove_and_free) simp
  moreover have "links_ok c' (set_links (tlg.group a) Zeroed L)"
  proof -
    have other: "set_links (tlg.group a) Zeroed L (CompL s) = L (CompL s)"
      "set_links (tlg.group a) Zeroed L (PopupL b ps) = L (PopupL b ps)"
      "set_links (tlg.group a) Zeroed L (ClientL b) = L (ClientL b)"
      "set_links (tlg.group a) Zeroed L (XSurfL b xs) = L (XSurfL b xs)" for s b ps xs
      by (simp_all add: tlg.set_links_other)
    have "comp_linked c' s = comp_linked c s" for s by (simp add: r comp_linked_def)
    moreover have "tl_addr ` set (toplevels c') = tl_addr ` set (toplevels c) - {a}"
      by (auto simp: r)
    moreover have "distinct (map tl_addr (toplevels c'))"
      using links_okD(8) [OF ok] by (simp add: r distinct_map_filter)
    moreover have "popups c' = popups c" "client_wrappers c' = client_wrappers c"
      "xwayland_surfaces c' = xwayland_surfaces c" by (simp_all add: r)
    ultimately show ?thesis
      using links_okD [OF ok] unfolding links_ok_def other by (simp add: tlg.set_links_mk)
  qed
  ultimately show ?thesis by blast
qed

lemma new_popup_safe:
  assumes ok: "links_ok c L" and fresh: "\<forall>a. al = Some a \<longrightarrow> a \<notin> pp_addr ` set (popups c)"
    and h: "dlp_compositor_handle_new_xdg_popup v al tr x c = (c', calls)"
  shows "\<exists>L'. link_run calls L = Some L' \<and> links_ok c' L'"
proof (cases "calm c (c', calls)")
  case True
  with calm_safe [OF ok] show ?thesis .
next
  case False
  with h obtain parent ptree a where al: "al = Some a" and r:
    "c' = c\<lparr>popups := \<lparr>pp_addr = a, pp_xdg_popup = x\<rparr> # popups c,
            xdg_surface_data := (xdg_surface_data c)(xdg_popup_base v x := tr)\<rparr>"
    "calls = [Scene (Wlr_scene_xdg_surface_create (Tree ptree) (xdg_popup_base v x))] @
       adds (popup_listeners v a x) @ []"
    by (auto simp: dlp_compositor_handle_new_xdg_popup_def Let_def split: option.splits)
  have new: "a \<notin> pp_addr ` set (popups c)" using fresh al by simp
  have "link_run calls L = Some (set_links (ppg.group a) Linked L)" unfolding r
  proof (rule add_struct)
    show "map snd (popup_listeners v a x) = ppg.group a"
      unfolding ppg.group_def by (simp add: popup_listeners_def popup_slots_def)
    show "L l \<noteq> Linked" if "l \<in> set (ppg.group a)" for l
      using that new links_okD(3) [OF ok] by (auto simp: ppg.in_group)
  qed (simp_all add: ppg.distinct_group)
  moreover have "links_ok c' (set_links (ppg.group a) Linked L)"
  proof -
    have other: "set_links (ppg.group a) Linked L (CompL s) = L (CompL s)"
      "set_links (ppg.group a) Linked L (ToplevelL b ts) = L (ToplevelL b ts)"
      "set_links (ppg.group a) Linked L (ClientL b) = L (ClientL b)"
      "set_links (ppg.group a) Linked L (XSurfL b xs) = L (XSurfL b xs)" for s b ts xs
      by (simp_all add: ppg.set_links_other)
    have "comp_linked c' s = comp_linked c s" for s by (simp add: r comp_linked_def)
    then show ?thesis
      using links_okD [OF ok] new unfolding links_ok_def other by (auto simp: r ppg.set_links_mk)
  qed
  ultimately show ?thesis by blast
qed

lemma popup_destroy_safe:
  assumes ok: "links_ok c L" and p: "find_popup a c = Some p"
    and h: "handle_popup_destroy p c = (c', calls)"
  shows "\<exists>L'. link_run calls L = Some L' \<and> links_ok c' L'"
proof -
  have a: "pp_addr p = a" "a \<in> pp_addr ` set (popups c)"
    using find_addr [OF p [unfolded find_popup_def]] by auto
  have r: "c' = c\<lparr>popups := filter (\<lambda>x. pp_addr x \<noteq> a) (popups c)\<rparr>"
    "calls = removes (ppg.group a) @ [Own (Free_popup a)]"
    using h a by (auto simp: handle_popup_destroy_def ppg.group_def)
  have "link_run calls L = Some (set_links (ppg.group a) Zeroed L)"
    unfolding r using links_okD(3) [OF ok] a(2) by (intro ppg.remove_and_free) simp
  moreover have "links_ok c' (set_links (ppg.group a) Zeroed L)"
  proof -
    have other: "set_links (ppg.group a) Zeroed L (CompL s) = L (CompL s)"
      "set_links (ppg.group a) Zeroed L (ToplevelL b ts) = L (ToplevelL b ts)"
      "set_links (ppg.group a) Zeroed L (ClientL b) = L (ClientL b)"
      "set_links (ppg.group a) Zeroed L (XSurfL b xs) = L (XSurfL b xs)" for s b ts xs
      by (simp_all add: ppg.set_links_other)
    have "comp_linked c' s = comp_linked c s" for s by (simp add: r comp_linked_def)
    moreover have "pp_addr ` set (popups c') = pp_addr ` set (popups c) - {a}" by (auto simp: r)
    moreover have "toplevels c' = toplevels c" "client_wrappers c' = client_wrappers c"
      "xwayland_surfaces c' = xwayland_surfaces c" by (simp_all add: r)
    ultimately show ?thesis
      using links_okD [OF ok] unfolding links_ok_def other by (simp add: ppg.set_links_mk)
  qed
  ultimately show ?thesis by blast
qed

lemma client_created_safe:
  assumes ok: "links_ok c L" and fresh: "\<forall>w. al = Some w \<longrightarrow> w \<notin> set (client_wrappers c)"
    and h: "handle_client_created al cl c = (c', calls)"
  shows "\<exists>L'. link_run calls L = Some L' \<and> links_ok c' L'"
proof (cases al)
  case None
  with h have "calm c (c', calls)" by (auto simp: handle_client_created_def calm_def same_shape_def)
  with calm_safe [OF ok] show ?thesis .
next
  case (Some w)
  with h have r: "c' = c\<lparr>client_count := client_count c + 1, client_wrappers := w # client_wrappers c\<rparr>"
    "calls = [Wl (Wl_client_add_destroy_listener cl (ClientL w))]"
    by (auto simp: handle_client_created_def Let_def)
  have new: "w \<notin> set (client_wrappers c)" using fresh Some by simp
  then have "link_run calls L = Some (L(ClientL w := Linked))"
    using links_okD(4) [OF ok, of w] by (simp add: r link_add_def)
  moreover have "comp_linked c' s = comp_linked c s" for s by (simp add: r comp_linked_def)
  then have "links_ok c' (L(ClientL w := Linked))"
    using links_okD [OF ok] new unfolding links_ok_def by (simp add: r)
  ultimately show ?thesis by blast
qed

lemma client_destroyed_safe:
  assumes ok: "links_ok c L" and "L (ClientL w) = Linked"
    and h: "handle_client_destroyed w c = (c', calls)"
  shows "\<exists>L'. link_run calls L = Some L' \<and> links_ok c' L'"
proof -
  have r: "c' = c\<lparr>client_count := client_count c - 1,
      client_wrappers := filter (\<lambda>x. x \<noteq> w) (client_wrappers c)\<rparr>"
    "calls = [Wl (Wl_list_remove (ClientL w)), Own (Free_client_wrapper w)]"
    using h by (auto simp: handle_client_destroyed_def)
  have "link_free [ClientL w] (L(ClientL w := Zeroed)) = Some (L(ClientL w := Zeroed))"
    by (auto simp: link_free_def)
  then have "link_run calls L = Some (L(ClientL w := Zeroed))"
    using assms(2) by (simp add: r link_remove_def)
  moreover have "comp_linked c' s = comp_linked c s" for s by (simp add: r comp_linked_def)
  then have "links_ok c' (L(ClientL w := Zeroed))"
    using links_okD [OF ok] unfolding links_ok_def by (simp add: r)
  ultimately show ?thesis by blast
qed

text \<open>
  An Xwayland surface: twelve listeners live as long as the struct, the two on its wlr surface are
  in a list only between association and dissociation.
\<close>

definition late_slots :: "xsurf_slot list" where
  "late_slots =
     [Xs_associate, Xs_dissociate, Xs_destroy, Xs_request_configure, Xs_request_move,
      Xs_request_resize, Xs_request_maximize, Xs_request_fullscreen, Xs_request_activate,
      Xs_set_override_redirect, Xs_set_title, Xs_set_class]"

lemma late_slots_iff: "s \<in> set late_slots \<longleftrightarrow> s \<noteq> Xs_map \<and> s \<noteq> Xs_unmap"
  by (cases s) (simp_all add: late_slots_def)

lemma distinct_late: "distinct (map (XSurfL a) late_slots)"
  by (rule xsg.distinct_mk) (simp add: late_slots_def)

lemma xsurf_other:
  "set_links (map (XSurfL a) ss) st L (CompL s) = L (CompL s)"
  "set_links (map (XSurfL a) ss) st L (ToplevelL b ts) = L (ToplevelL b ts)"
  "set_links (map (XSurfL a) ss) st L (PopupL b ps) = L (PopupL b ps)"
  "set_links (map (XSurfL a) ss) st L (ClientL b) = L (ClientL b)"
  by (auto simp: set_links_def)

lemma xsurf_mk:
  "set_links (map (XSurfL a) ss) st L (XSurfL b s) = (if b = a \<and> s \<in> set ss then st else L (XSurfL b s))"
  by (auto simp: set_links_def)

text \<open>A change of the listeners of one Xwayland surface.\<close>

lemma links_ok_xsurf:
  assumes ok: "links_ok c L"
    and same: "\<And>s. L' (CompL s) = L (CompL s)" "\<And>b s. L' (ToplevelL b s) = L (ToplevelL b s)"
      "\<And>b s. L' (PopupL b s) = L (PopupL b s)" "\<And>b. L' (ClientL b) = L (ClientL b)"
    and c': "\<And>s. comp_linked c' s = comp_linked c s" "toplevels c' = toplevels c" "popups c' = popups c"
      "client_wrappers c' = client_wrappers c" "distinct (map xs_addr (xwayland_surfaces c'))"
    and xs: "\<And>b s. s \<noteq> Xs_map \<Longrightarrow> s \<noteq> Xs_unmap \<Longrightarrow>
        L' (XSurfL b s) = linked_if (b \<in> xs_addr ` set (xwayland_surfaces c'))"
      "\<And>b. L' (XSurfL b Xs_map) = L' (XSurfL b Xs_unmap)"
      "\<And>b. L' (XSurfL b Xs_map) = Zeroed \<longleftrightarrow> b \<notin> xs_addr ` set (xwayland_surfaces c')"
  shows "links_ok c' L'"
  using links_okD [OF ok] c' xs(1,3) unfolding links_ok_def same by (simp add: xs(2))

lemma new_xsurface_safe:
  assumes ok: "links_ok c L" and fresh: "\<forall>a. al = Some a \<longrightarrow> a \<notin> xs_addr ` set (xwayland_surfaces c)"
    and h: "handle_xwayland_new_surface al tr x c = (c', calls)"
  shows "\<exists>L'. link_run calls L = Some L' \<and> links_ok c' L'"
proof (cases al)
  case None
  with h ok show ?thesis by (auto simp: handle_xwayland_new_surface_def)
next
  case (Some a)
  let ?pre = "[Scene Wlr_scene_tree_create] @
     (case tr of None \<Rightarrow> [] | Some t \<Rightarrow> [Scene (Wlr_scene_node_set_enabled t False)])"
  let ?xs = "\<lparr>xs_addr = a, xs_xwayland_surface = x, xs_scene_tree = tr\<rparr> # xwayland_surfaces c"
  have c': "comp_linked c' s = comp_linked c s" "toplevels c' = toplevels c" "popups c' = popups c"
      "client_wrappers c' = client_wrappers c" "xwayland_surfaces c' = ?xs" for s
    using h Some by (auto simp: handle_xwayland_new_surface_def comp_linked_def)
  have calls: "calls = Wl (Wl_list_init (XSurfL a Xs_map)) # Wl (Wl_list_init (XSurfL a Xs_unmap)) #
     (?pre @ adds (xsurface_listeners a x) @ [])"
    using h Some by (auto simp: handle_xwayland_new_surface_def)
  have new: "a \<notin> xs_addr ` set (xwayland_surfaces c)" using fresh Some by simp
  then have zero: "L (XSurfL a s) = Zeroed" for s
    using links_okD(5,6,7) [OF ok] by (cases "s = Xs_map \<or> s = Xs_unmap") auto
  let ?L = "L(XSurfL a Xs_map := Self, XSurfL a Xs_unmap := Self)"
  let ?M = "set_links (map (XSurfL a) late_slots) Linked ?L"
  have "link_run (?pre @ adds (xsurface_listeners a x) @ []) ?L = Some ?M"
  proof (rule add_struct)
    show "map snd (xsurface_listeners a x) = map (XSurfL a) late_slots"
      by (simp add: xsurface_listeners_def late_slots_def)
    show "?L l \<noteq> Linked" if "l \<in> set (map (XSurfL a) late_slots)" for l
      using that zero by (auto simp: late_slots_iff)
  qed (simp_all add: distinct_late split: option.split)
  then have "link_run calls L = Some ?M" using zero by (simp add: calls link_init_def)
  moreover have "links_ok c' ?M"
  proof (rule links_ok_xsurf [OF ok _ _ _ _ c'(1-4)])
    show "distinct (map xs_addr (xwayland_surfaces c'))"
      using links_okD(9) [OF ok] new by (simp add: c')
    show "?M (XSurfL b s) = linked_if (b \<in> xs_addr ` set (xwayland_surfaces c'))"
      if "s \<noteq> Xs_map" "s \<noteq> Xs_unmap" for b s
      using that links_okD(5) [OF ok that] by (auto simp: xsurf_mk late_slots_iff c')
    show "?M (XSurfL b Xs_map) = ?M (XSurfL b Xs_unmap)" for b
      using links_okD(6) [OF ok] by (simp add: xsurf_mk late_slots_iff)
    show "?M (XSurfL b Xs_map) = Zeroed \<longleftrightarrow> b \<notin> xs_addr ` set (xwayland_surfaces c')" for b
      using links_okD(7) [OF ok] by (simp add: xsurf_mk late_slots_iff c')
  qed (simp_all add: xsurf_other)
  ultimately show ?thesis by blast
qed

lemma find_xsurf_addr: "find_xsurf a c = Some x \<Longrightarrow> xs_addr x = a \<and> a \<in> xs_addr ` set (xwayland_surfaces c)"
  using find_addr [of xs_addr a "xwayland_surfaces c" x] by (auto simp: find_xsurf_def)

lemma associate_safe:
  assumes ok: "links_ok c L" and x: "find_xsurf a c = Some x" and once: "L (XSurfL a Xs_map) \<noteq> Linked"
    and h: "handle_xwayland_surface_associate v tr x c = Some (c', calls)"
  shows "\<exists>L'. link_run calls L = Some L' \<and> links_ok c' L'"
proof -
  note a = find_xsurf_addr [OF x]
  obtain s where s: "xwl_surface v (xs_xwayland_surface x) = Some s"
    using h by (auto simp: handle_xwayland_surface_associate_def bind_eq_Some_conv)
  let ?pre = "(case xs_scene_tree x of None \<Rightarrow> [] | Some old \<Rightarrow> [Scene (Wlr_scene_node_destroy old)]) @
        [Scene (Wlr_scene_subsurface_tree_create (Some s))] @
        (case tr of None \<Rightarrow> [] | Some t \<Rightarrow> [Scene (Wlr_scene_node_set_enabled t False)])"
  let ?post = "case surface_cb c of None \<Rightarrow> []
     | Some cb \<Rightarrow> [Own (Surface_callback cb s (surface_cb_data c))]"
  have c': "comp_linked c' sl = comp_linked c sl" "toplevels c' = toplevels c" "popups c' = popups c"
      "client_wrappers c' = client_wrappers c"
      "xwayland_surfaces c' = set_xsurf_tree a tr (xwayland_surfaces c)" for sl
    using h s a by (auto simp: handle_xwayland_surface_associate_def comp_linked_def Let_def)
  have calls: "calls = ?pre @ adds (surface_listeners a s) @ ?post"
    using h s a by (auto simp: handle_xwayland_surface_associate_def Let_def)
  have maps: "map xs_addr (xwayland_surfaces c') = map xs_addr (xwayland_surfaces c)"
    by (auto simp: c' set_xsurf_tree_def)
  let ?ls = "map (XSurfL a) [Xs_map, Xs_unmap]"
  have "link_run calls L = Some (set_links ?ls Linked L)" unfolding calls
  proof (rule add_struct)
    show "map snd (surface_listeners a s) = ?ls" by (simp add: surface_listeners_def)
    show "L l \<noteq> Linked" if "l \<in> set ?ls" for l
      using that once links_okD(6) [OF ok, of a] by auto
  qed (simp_all split: option.split)
  moreover have "links_ok c' (set_links ?ls Linked L)"
  proof (rule links_ok_xsurf [OF ok _ _ _ _ c'(1-4)])
    note im = map_eq_image [OF maps]
    show "distinct (map xs_addr (xwayland_surfaces c'))" using links_okD(9) [OF ok] maps by simp
    show "set_links ?ls Linked L (XSurfL b sl) = linked_if (b \<in> xs_addr ` set (xwayland_surfaces c'))"
      if "sl \<noteq> Xs_map" "sl \<noteq> Xs_unmap" for b sl
      using that links_okD(5) [OF ok that] by (simp only: xsurf_mk im) simp
    show "set_links ?ls Linked L (XSurfL b Xs_map) = set_links ?ls Linked L (XSurfL b Xs_unmap)" for b
      using links_okD(6) [OF ok] by (simp only: xsurf_mk) simp
    show "set_links ?ls Linked L (XSurfL b Xs_map) = Zeroed \<longleftrightarrow> b \<notin> xs_addr ` set (xwayland_surfaces c')" for b
      using links_okD(7) [OF ok, of b] a by (simp only: xsurf_mk im) auto
  qed (simp_all only: xsurf_other)
  ultimately show ?thesis by blast
qed

lemma dissociate_safe:
  assumes ok: "links_ok c L" and x: "find_xsurf a c = Some x"
    and h: "handle_xwayland_surface_dissociate x c = (c', calls)"
  shows "\<exists>L'. link_run calls L = Some L' \<and> links_ok c' L'"
proof -
  note a = find_xsurf_addr [OF x]
  have r: "c' = c" "calls = [Wl (Wl_list_remove (XSurfL a Xs_map)), Wl (Wl_list_init (XSurfL a Xs_map)),
           Wl (Wl_list_remove (XSurfL a Xs_unmap)), Wl (Wl_list_init (XSurfL a Xs_unmap))]"
    using h a by (auto simp: handle_xwayland_surface_dissociate_def Let_def)
  have nz: "L (XSurfL a Xs_map) \<noteq> Zeroed" "L (XSurfL a Xs_unmap) \<noteq> Zeroed"
    using links_okD(6,7) [OF ok, of a] a by auto
  let ?L = "L(XSurfL a Xs_map := Self, XSurfL a Xs_unmap := Self)"
  have "link_run calls L = Some ?L"
    using nz by (simp add: r link_remove_def link_init_def fun_upd_twist)
  moreover have "links_ok c' ?L"
    unfolding r
    by (rule links_ok_xsurf [OF ok]) (use links_okD [OF ok] a in auto)
  ultimately show ?thesis by blast
qed

lemma xsurf_destroy_safe:
  assumes ok: "links_ok c L" and x: "find_xsurf a c = Some x"
    and h: "handle_xwayland_surface_destroy x c = (c', calls)"
  shows "\<exists>L'. link_run calls L = Some L' \<and> links_ok c' L'"
proof -
  note a = find_xsurf_addr [OF x]
  have r: "c' = c\<lparr>xwayland_surfaces := filter (\<lambda>y. xs_addr y \<noteq> a) (xwayland_surfaces c)\<rparr>"
    "calls = removes (xsg.group a) @ [Own (Free_xsurf a)]"
    using h a by (auto simp: handle_xwayland_surface_destroy_def xsg.group_def)
  have nz: "L (XSurfL a s) \<noteq> Zeroed" for s
    using links_okD(5-7) [OF ok] a by (cases "s = Xs_map \<or> s = Xs_unmap") auto
  have "link_run calls L = Some (set_links (xsg.group a) Zeroed L)"
    unfolding r by (rule xsg.remove_and_free) (rule nz)
  moreover have "links_ok c' (set_links (xsg.group a) Zeroed L)"
  proof (rule links_ok_xsurf [OF ok])
    have im: "xs_addr ` set (xwayland_surfaces c') = xs_addr ` set (xwayland_surfaces c) - {a}"
      by (auto simp: r)
    show "distinct (map xs_addr (xwayland_surfaces c'))"
      using links_okD(9) [OF ok] by (simp add: r distinct_map_filter)
    show "set_links (xsg.group a) Zeroed L (XSurfL b s) = linked_if (b \<in> xs_addr ` set (xwayland_surfaces c'))"
      if "s \<noteq> Xs_map" "s \<noteq> Xs_unmap" for b s
      using links_okD(5) [OF ok that] by (simp add: xsg.set_links_mk im)
    show "set_links (xsg.group a) Zeroed L (XSurfL b Xs_map) =
        set_links (xsg.group a) Zeroed L (XSurfL b Xs_unmap)" for b
      using links_okD(6) [OF ok] by (simp add: xsg.set_links_mk)
    show "set_links (xsg.group a) Zeroed L (XSurfL b Xs_map) = Zeroed \<longleftrightarrow>
        b \<notin> xs_addr ` set (xwayland_surfaces c')" for b
      using links_okD(7) [OF ok] by (simp add: xsg.set_links_mk im)
  qed (simp_all add: xsg.set_links_other r comp_linked_def)
  ultimately show ?thesis by blast
qed

section \<open>Every event keeps the invariant\<close>

text \<open>Events whose handler only talks to seat, cursor and output.\<close>

fun plain_event :: "event \<Rightarrow> bool" where
  "plain_event (New_output_ev v m out) = False"
| "plain_event (Frame_ev e) = False"
| "plain_event Output_destroy_ev = False"
| "plain_event (New_input_ev v a b d) = False"
| "plain_event (Client_created_ev al cl) = False"
| "plain_event (Client_destroyed_ev w) = False"
| "plain_event (New_toplevel_ev v al tr x) = False"
| "plain_event (Toplevel_ev a s v) = False"
| "plain_event (New_popup_ev v al tr x) = False"
| "plain_event (Popup_ev a s v) = False"
| "plain_event (New_xsurface_ev al tr x) = False"
| "plain_event (Xsurf_ev a s v tr g) = False"
| "plain_event _ = True"

lemma calm_plain: "plain_event ev \<Longrightarrow> handle_event cfg ev c = Some r \<Longrightarrow> calm c r"
  by (cases ev) (auto simp: calm_input calm_input(1-4) handle_xwayland_ready_def
      simp del: split_paired_All split_paired_Ex)

lemma event_safe:
  assumes ok: "links_ok c L" and en: "L (listener_of ev) = Linked" and ev: "event_ok c L ev"
    and h: "handle_event cfg ev c = Some (c', calls)"
  shows "\<exists>L'. link_run calls L = Some L' \<and> links_ok c' L'"
proof -
  have calm: "calm c (c', calls) \<Longrightarrow> ?thesis" using calm_safe [OF ok] .
  have plain: "plain_event ev \<Longrightarrow> ?thesis" using calm_plain [OF _ h] calm by blast
  show ?thesis
  proof (cases ev)
    case (New_output_ev v m out)
    with new_output_safe [OF ok] ev h show ?thesis by simp
  next
    case (Frame_ev e)
    with h obtain b where "handle_output_frame e c = Some (c', calls, b)" by auto
    with calm_frame calm show ?thesis by blast
  next
    case Output_destroy_ev
    with en links_okD(1) [OF ok, of Output_destroy] have "comp_output c \<noteq> None" by simp
    with output_destroy_safe [OF ok this] h Output_destroy_ev show ?thesis by simp
  next
    case (New_input_ev v a b d)
    with ev h show ?thesis by (intro new_input_safe [OF ok, of d v a b]) simp_all
  next
    case (Client_created_ev al cl)
    with client_created_safe [OF ok] ev h show ?thesis by simp
  next
    case (Client_destroyed_ev w)
    with client_destroyed_safe [OF ok] en h show ?thesis by simp
  next
    case (New_toplevel_ev v al tr x)
    with new_toplevel_safe [OF ok] ev h show ?thesis by simp
  next
    case (Toplevel_ev a s v)
    with h obtain t where t: "find_toplevel a c = Some t" and r: "toplevel_handler s v t c = (c', calls)"
      by auto
    show ?thesis
    proof (cases "s = Tl_destroy")
      case True
      with toplevel_destroy_safe [OF ok t] r show ?thesis by (simp add: toplevel_handler_def)
    next
      case False
      from calm_toplevel [OF this, of c v t] calm r show ?thesis by simp
    qed
  next
    case (New_popup_ev v al tr x)
    with new_popup_safe [OF ok] ev h show ?thesis by simp
  next
    case (Popup_ev a s v)
    with h obtain p where p: "find_popup a c = Some p" and r: "popup_handler s v p c = (c', calls)"
      by auto
    show ?thesis
    proof (cases "s = Pp_destroy")
      case True
      with popup_destroy_safe [OF ok p] r show ?thesis by (simp add: popup_handler_def)
    next
      case False
      from calm_popup [OF this, of c v p] calm r show ?thesis by simp
    qed
  next
    case (New_xsurface_ev al tr x)
    with new_xsurface_safe [OF ok] ev h show ?thesis by simp
  next
    case (Xsurf_ev a s v tr g)
    with h obtain x where x: "find_xsurf a c = Some x" and r: "xsurf_handler s v tr g x c = Some (c', calls)"
      by (auto simp: bind_eq_Some_conv)
    consider "s = Xs_associate" | "s = Xs_dissociate" | "s = Xs_destroy"
      | "s \<notin> {Xs_associate, Xs_dissociate, Xs_destroy}" by blast
    then show ?thesis
    proof cases
      case 1
      with Xsurf_ev ev have "L (XSurfL a Xs_map) \<noteq> Linked" by simp
      with associate_safe [OF ok x this] r 1 show ?thesis by (simp add: xsurf_handler_def)
    next
      case 2
      with dissociate_safe [OF ok x] r show ?thesis by (simp add: xsurf_handler_def)
    next
      case 3
      with xsurf_destroy_safe [OF ok x] r show ?thesis by (simp add: xsurf_handler_def)
    next
      case 4
      from calm [OF calm_xsurf [OF this r]] show ?thesis .
    qed
  qed (rule plain, simp)+
qed

section \<open>Reachable states\<close>

text \<open>A running compositor: an event comes in through a listener that is in a list.\<close>

inductive step :: "build_config \<Rightarrow> coder_dlp_compositor \<times> links \<Rightarrow> event \<Rightarrow> coder_dlp_compositor \<times> links \<Rightarrow> bool"
  for cfg where
  step: "L (listener_of ev) = Linked \<Longrightarrow> event_ok c L ev \<Longrightarrow> handle_event cfg ev c = Some (c', calls) \<Longrightarrow>
     link_run calls L = Some L' \<Longrightarrow> step cfg (c, L) ev (c', L')"

inductive_cases stepE: "step cfg s ev s'"

inductive reachable :: "build_config \<Rightarrow> coder_dlp_compositor \<times> links \<Rightarrow> coder_dlp_compositor \<times> links \<Rightarrow> bool"
  for cfg s0 where
  start: "reachable cfg s0 s0"
| more: "reachable cfg s0 s \<Longrightarrow> step cfg s ev s' \<Longrightarrow> reachable cfg s0 s'"

lemma reachable_ok:
  assumes "reachable cfg s0 s" and "links_ok (fst s0) (snd s0)"
  shows "links_ok (fst s) (snd s)"
  using assms
proof (induction rule: reachable.induct)
  case (more s ev s')
  from more.hyps(2) more.IH [OF more.prems] show ?case
    by (elim stepE) (use event_safe in fastforce)
qed

end
