(* ===== verification/Lifetime.thy ===== *)
theory Lifetime
  imports System_Safety Launch_Spec
begin

text \<open>
  Creating and destroying a compositor (\<^verbatim>\<open>coder_dlp_create\<close> and
  \<^verbatim>\<open>coder_dlp_destroy\<close> of \<^verbatim>\<open>src/compositor.c\<close>): which listeners a creation adds, that the
  invariant of the running compositor holds from then on, and what the destruction removes.
\<close>

section \<open>Creating a compositor\<close>

text \<open>The devices the backend announces while it starts: at most one of each kind.\<close>

fun is_output_start :: "startup \<Rightarrow> bool" where
  "is_output_start (Start_output v m out) = True"
| "is_output_start (Start_input v a b d) = False"

fun is_input_start :: "input_device_type \<Rightarrow> startup \<Rightarrow> bool" where
  "is_input_start ty (Start_output v m out) = False"
| "is_input_start ty (Start_input v a b d) = (dev_type d = ty)"

definition room_for :: "startup list \<Rightarrow> coder_dlp_compositor \<Rightarrow> bool" where
  "room_for evs c \<longleftrightarrow>
     length (filter is_output_start evs) + (if comp_output c = None then 0 else 1) \<le> 1 \<and>
     length (filter (is_input_start WLR_INPUT_DEVICE_KEYBOARD) evs) + (if keyboard c = None then 0 else 1) \<le> 1 \<and>
     length (filter (is_input_start WLR_INPUT_DEVICE_TOUCH) evs) + (if touch c = None then 0 else 1) \<le> 1"

lemma start_event_safe:
  assumes ok: "links_ok c L" and room: "room_for (ev # evs) c" and h: "start_event cfg ev c = (c', calls)"
  shows "(\<exists>L'. link_run calls L = Some L' \<and> links_ok c' L') \<and> room_for evs c'"
proof (cases ev)
  case (Start_output v m out)
  with room h have "comp_output c = None" "dlp_compositor_handle_new_output cfg v m out c = (c', calls)"
    by (auto simp: room_for_def split: if_splits)
  with new_output_safe [OF ok] show ?thesis
    using room Start_output by (auto simp: room_for_def dlp_compositor_handle_new_output_def split: if_splits)
next
  case (Start_input v a b d)
  with room h have one: "dev_type d = WLR_INPUT_DEVICE_KEYBOARD \<longrightarrow> keyboard c = None"
      "dev_type d = WLR_INPUT_DEVICE_TOUCH \<longrightarrow> touch c = None"
    and n: "dlp_compositor_handle_new_input v a b d c = (c', calls)"
    by (auto simp: room_for_def split: if_splits)
  have "comp_output c' = comp_output c"
    "keyboard c' = keyboard c \<or> dev_type d = WLR_INPUT_DEVICE_KEYBOARD"
    "touch c' = touch c \<or> dev_type d = WLR_INPUT_DEVICE_TOUCH"
    "dev_type d = WLR_INPUT_DEVICE_KEYBOARD \<Longrightarrow> touch c' = touch c"
    "dev_type d = WLR_INPUT_DEVICE_TOUCH \<Longrightarrow> keyboard c' = keyboard c"
    using n by (cases "dev_type d";
        auto simp: dlp_compositor_handle_new_input_def setup_keyboard_def setup_pointer_def setup_touch_def
          Let_def split: if_splits)+
  then have "room_for evs c'"
    using room Start_input one by (auto simp: room_for_def split: if_splits)
  with new_input_safe [OF ok one n] show ?thesis by blast
qed

lemma start_events_safe:
  "links_ok c L \<Longrightarrow> room_for evs c \<Longrightarrow> start_events cfg evs c = (c', calls) \<Longrightarrow>
     \<exists>L'. link_run calls L = Some L' \<and> links_ok c' L'"
proof (induction evs arbitrary: c L calls)
  case (Cons ev evs)
  obtain c1 k1 where s: "start_event cfg ev c = (c1, k1)" by fastforce
  obtain k2 where r: "start_events cfg evs c1 = (c', k2)" and e: "calls = k1 @ k2"
    using Cons.prems(3) s by (auto split: prod.splits)
  from start_event_safe [OF Cons.prems(1,2) s]
  obtain L1 where L1: "link_run k1 L = Some L1" "links_ok c1 L1" "room_for evs c1" by blast
  from Cons.IH [OF L1(2,3) r] obtain L2 where "link_run k2 L1 = Some L2" "links_ok c' L2" by blast
  with L1 e show ?case by (simp add: link_run_append)
qed simp

text \<open>Call lists that only add listeners.\<close>

fun added :: "call list \<Rightarrow> listener list" where
  "added [] = []"
| "added (Wl (Wl_signal_add sg l) # cs) = l # added cs"
| "added (_ # cs) = added cs"

definition adding :: "call \<Rightarrow> bool" where
  "adding k \<longleftrightarrow> quiet k \<or> (\<exists>sg l. k = Wl (Wl_signal_add sg l))"

lemma adding_quiet: "quiet k \<Longrightarrow> adding k"
  by (simp add: adding_def)

lemma added_append [simp]: "added (cs @ ds) = added cs @ added ds"
  by (induction cs rule: added.induct) simp_all

lemma added_adds [simp]: "added (adds ps) = map snd ps"
  by (induction ps) (auto simp: adds_def)

lemma adding_adds [simp]: "list_all adding (adds ps)"
  by (auto simp: adds_def adding_def list_all_iff)

lemma added_Cons: "added (k # cs) = added [k] @ added cs"
  using added_append [of "[k]" cs] by simp

lemma quiet_not_add: "quiet k \<Longrightarrow> k \<noteq> Wl (Wl_signal_add sg l)"
proof
  assume "quiet k" "k = Wl (Wl_signal_add sg l)"
  then have "link_add l (\<lambda>_. Linked) = Some (\<lambda>_. Linked)" by (simp add: quiet_def)
  then show False by (simp add: link_add_def)
qed

lemma link_run_adding:
  "list_all adding cs \<Longrightarrow> distinct (added cs) \<Longrightarrow> (\<forall>l \<in> set (added cs). L l \<noteq> Linked) \<Longrightarrow>
     link_run cs L = Some (set_links (added cs) Linked L)"
proof (induction cs arbitrary: L)
  case (Cons k cs)
  show ?case
  proof (cases "\<exists>sg l. k = Wl (Wl_signal_add sg l)")
    case True
    then obtain sg l where k: "k = Wl (Wl_signal_add sg l)" by blast
    have "link_run cs (L(l := Linked)) = Some (set_links (added cs) Linked (L(l := Linked)))"
      using Cons.prems k by (intro Cons.IH) auto
    moreover have "set_links (added cs) Linked (L(l := Linked)) = set_links (added (k # cs)) Linked L"
      by (auto simp: set_links_def k)
    ultimately show ?thesis using Cons.prems(3) by (simp add: k link_add_def)
  next
    case False
    with Cons.prems(1) have "quiet k" by (auto simp: adding_def)
    moreover have "added (k # cs) = added cs"
      using False by (cases k rule: call.exhaust; (auto split: wl_call.split)?)
        (rename_tac w, case_tac w, auto)
    ultimately show ?thesis using Cons by (simp add: quiet_def)
  qed
qed simp

definition globals_state :: "build_config \<Rightarrow> create_env \<Rightarrow> coder_dlp_compositor \<Rightarrow> coder_dlp_compositor" where
  "globals_state cfg e c =
     (let c = c\<lparr>output_layout := ce_output_layout e, scene := ce_scene e, cursor := ce_cursor e,
               cursor_mgr := ce_cursor_mgr e, seat := ce_seat e, security_context_mgr := ce_security_mgr e\<rparr>
      in if WLR_HAS_XWAYLAND cfg then c\<lparr>xwayland_surfaces := [], xwayland := ce_xwayland e\<rparr> else c)"

definition globals_added :: "build_config \<Rightarrow> create_env \<Rightarrow> comp_slot list" where
  "globals_added cfg e =
     [New_xdg_toplevel, New_xdg_popup, Request_set_selection, Request_set_primary_selection] @
     (if ce_security_mgr e = None then [] else [Security_context_commit]) @
     (if WLR_HAS_XWAYLAND cfg \<and> ce_xwayland e \<noteq> None then [Xwayland_new_surface, Xwayland_ready] else []) @
     [Cursor_motion, Cursor_motion_absolute, Cursor_button, Cursor_axis, Cursor_frame,
      Request_set_cursor, New_output, New_input]"

lemma create_globals_result:
  assumes "create_globals cfg e c = Some (c', calls)"
  shows "c' = globals_state cfg e c" and "list_all adding calls"
    and "added calls = map CompL (globals_added cfg e)"
proof -
  obtain layout scn cur shell st where some: "ce_output_layout e = Some layout" "ce_scene e = Some scn"
    "ce_cursor e = Some cur" "ce_xdg_shell e = Some shell" "ce_seat e = Some st"
    using assms unfolding create_globals_def bind_eq_Some_conv by (elim exE conjE) (rule that)
  note d = create_globals_def dlp_clipboard_init_def dlp_security_context_init_def dlp_xwayland_init_def
    Let_def some
  have "c' = globals_state cfg e c \<and> list_all adding calls \<and> added calls = map CompL (globals_added cfg e)"
  proof (cases "WLR_HAS_XWAYLAND cfg")
    case True
    show ?thesis
      using assms True
      by (cases "ce_security_mgr e"; cases "ce_xwayland e")
        (simp_all add: d, safe, simp_all add: globals_state_def globals_added_def d protocol_globals_def
          adding_quiet added_Cons [of "Setup x" for x] shell_listeners_def clipboard_listeners_def
          xwayland_listeners_def cursor_listeners_def backend_listeners_def)
  next
    case False
    show ?thesis
      using assms False
      by (cases "ce_security_mgr e")
        (simp_all add: d, safe, simp_all add: globals_state_def globals_added_def d protocol_globals_def
          adding_quiet shell_listeners_def clipboard_listeners_def
          xwayland_listeners_def cursor_listeners_def backend_listeners_def)
  qed
  then show "c' = globals_state cfg e c" "list_all adding calls"
    "added calls = map CompL (globals_added cfg e)" by blast+
qed

definition created_base :: "build_config \<Rightarrow> create_env \<Rightarrow> coder_dlp_compositor" where
  "created_base cfg e = zero_compositor\<lparr>wl_display := ce_display e, wl_event_loop := ce_event_loop e,
     client_count := 0, backend := ce_backend e,
     is_x11_backend := WLR_HAS_X11_BACKEND cfg \<and> ce_backend_is_x11 e,
     renderer := ce_renderer e, allocator := ce_allocator e\<rparr>"

definition opening_calls :: "create_env \<Rightarrow> coder_dlp_log_level \<Rightarrow> addr vec \<Rightarrow> call list" where
  "opening_calls e level reg =
     (if used reg = 0 then [Setup (Wlr_log_init (wlr_log_level level))] else []) @
     [Wl (Wl_display_add_client_created_listener (CompL Client_created)), Setup Wlr_renderer_init_wl_display]"

text \<open>Once the allocator is there, only the start of the backend and the socket can fail.\<close>

lemma create_after_allocator:
  assumes "coder_dlp_create cfg e level reg h = Some r" and "ce_calloc e = Some a"
    and "ce_display e \<noteq> None" "ce_backend e \<noteq> None" "ce_renderer e \<noteq> None" "ce_allocator e \<noteq> None"
  shows "\<exists>ok reg1 globals. compositor_list_add (ce_realloc_ok e) a reg = Some (ok, reg1) \<and>
    create_globals cfg e (created_base cfg e) = Some (globals_state cfg e (created_base cfg e), globals) \<and>
    r = create_finish cfg e a (globals_state cfg e (created_base cfg e)) reg1 h (opening_calls e level reg @ globals)"
proof -
  obtain d b rr al where some: "ce_display e = Some d" "ce_backend e = Some b" "ce_renderer e = Some rr"
    "ce_allocator e = Some al" using assms by blast
  obtain ok reg1 where add: "compositor_list_add (ce_realloc_ok e) a reg = Some (ok, reg1)"
  proof (cases "compositor_list_add (ce_realloc_ok e) a reg")
    case None
    with assms(1,2) have False by (simp add: coder_dlp_create_def)
    then show ?thesis ..
  qed (use that in fastforce)
  have run: "coder_dlp_create cfg e level reg h =
      Option.bind (create_globals cfg e (created_base cfg e))
        (\<lambda>(c, globals). Some (create_finish cfg e a c reg1 h (opening_calls e level reg @ globals)))"
    by (simp add: coder_dlp_create_def assms(2) add some created_base_def opening_calls_def Let_def)
  with assms(1) obtain c globals where g: "create_globals cfg e (created_base cfg e) = Some (c, globals)"
    and r: "r = create_finish cfg e a c reg1 h (opening_calls e level reg @ globals)"
    by (cases "create_globals cfg e (created_base cfg e)") auto
  from create_globals_result(1) [OF g] g r add show ?thesis by blast
qed

lemma globals_state_fields:
  "comp_output (globals_state cfg e c) = comp_output c" "keyboard (globals_state cfg e c) = keyboard c"
  "touch (globals_state cfg e c) = touch c" "toplevels (globals_state cfg e c) = toplevels c"
  "popups (globals_state cfg e c) = popups c" "client_wrappers (globals_state cfg e c) = client_wrappers c"
  "security_context_mgr (globals_state cfg e c) = ce_security_mgr e"
  "xwayland_surfaces c = [] \<Longrightarrow> xwayland_surfaces (globals_state cfg e c) = []"
  "xwayland c = None \<Longrightarrow> xwayland (globals_state cfg e c) = (if WLR_HAS_XWAYLAND cfg then ce_xwayland e else None)"
  by (simp_all add: globals_state_def Let_def)

lemma created_base_fields [simp]:
  "comp_output (created_base cfg e) = None" "keyboard (created_base cfg e) = None"
  "touch (created_base cfg e) = None" "toplevels (created_base cfg e) = []"
  "popups (created_base cfg e) = []" "client_wrappers (created_base cfg e) = []"
  "xwayland_surfaces (created_base cfg e) = []" "xwayland (created_base cfg e) = None"
  by (simp_all add: created_base_def zero_compositor_def)

abbreviation no_links :: links where
  "no_links \<equiv> \<lambda>_. Zeroed"

lemma links_ok_created:
  "links_ok (globals_state cfg e (created_base cfg e))
     (set_links (map CompL (globals_added cfg e)) Linked (no_links(CompL Client_created := Linked)))"
proof -
  let ?c = "globals_state cfg e (created_base cfg e)"
  let ?L = "set_links (map CompL (globals_added cfg e)) Linked (no_links(CompL Client_created := Linked))"
  have "?L (CompL s) = linked_if (comp_linked ?c s)" for s
    unfolding set_links_CompL
    by (cases s) (simp_all add: globals_added_def globals_state_fields,
        simp_all add: comp_linked_def output_slots_def keyboard_slots_def touch_slots_def)
  moreover have "?L l = Zeroed" if "\<And>s. l \<noteq> CompL s" for l
    using that by (simp add: set_links_not_CompL)
  ultimately show ?thesis by (simp add: links_ok_def globals_state_fields)
qed

lemma opening_run:
  "link_run (opening_calls e level reg) no_links = Some (no_links(CompL Client_created := Linked))"
  by (simp add: opening_calls_def link_add_def)

lemma globals_run:
  assumes "create_globals cfg e (created_base cfg e) = Some (c', globals)"
  shows "link_run (opening_calls e level reg @ globals) no_links =
    Some (set_links (map CompL (globals_added cfg e)) Linked (no_links(CompL Client_created := Linked)))"
proof -
  have "distinct (globals_added cfg e)" "Client_created \<notin> set (globals_added cfg e)"
    by (simp_all add: globals_added_def)
  then have "link_run globals (no_links(CompL Client_created := Linked)) =
      Some (set_links (map CompL (globals_added cfg e)) Linked (no_links(CompL Client_created := Linked)))"
    using create_globals_result(2,3) [OF assms]
    by (subst link_run_adding) (auto simp: distinct_CompL)
  then show ?thesis by (simp add: link_run_append opening_run)
qed

lemma links_ok_timer_socket: "links_ok c L \<Longrightarrow> links_ok (c\<lparr>reap_timer := tm, socket := so\<rparr>) L"
  by (erule links_ok_cong) (simp add: same_shape_def)

lemma created_room: "room_for evs zero_compositor \<Longrightarrow> room_for evs (globals_state cfg e (created_base cfg e))"
  by (simp add: room_for_def globals_state_fields zero_compositor_def)

lemma create_finish_run:
  assumes g: "create_globals cfg e (created_base cfg e) = Some (globals_state cfg e (created_base cfg e), globals)"
    and room: "room_for (ce_start_events e) zero_compositor"
    and s: "start_events cfg (ce_start_events e) (globals_state cfg e (created_base cfg e)) = (c1, up)"
  shows "\<exists>L. link_run ((opening_calls e level reg @ globals) @ [Setup Wlr_backend_start] @ up) no_links = Some L \<and>
    links_ok c1 L"
proof -
  from start_events_safe [OF links_ok_created created_room [OF room] s] obtain L where
    "link_run up (set_links (map CompL (globals_added cfg e)) Linked (no_links(CompL Client_created := Linked))) = Some L"
    "links_ok c1 L" by blast
  then show ?thesis
    by (subst link_run_append) (simp only: globals_run [OF g] bind.bind_lunit append.simps link_run.simps
        quiet_setup quiet_def link_call.simps, blast)
qed

section \<open>Destroying it\<close>

lemma removes_append: "removes (ls @ ks) = removes ls @ removes ks"
  by (simp add: removes_def)

definition own_slots :: "coder_dlp_compositor \<Rightarrow> comp_slot list" where
  "own_slots c = always_slots @ (if comp_output c = None then [] else output_slots) @
     (if keyboard c = None then [] else keyboard_slots) @ (if touch c = None then [] else touch_slots) @
     cursor_slots @ [Request_set_cursor]"

lemma destroy_listeners_removes: "destroy_listeners c = removes (map CompL (own_slots c))"
  by (simp add: destroy_listeners_def own_slots_def removes_append split: option.split)
    (simp add: removes_def)

lemmas slot_defs = always_slots_def output_slots_def keyboard_slots_def touch_slots_def cursor_slots_def

lemma distinct_own: "distinct (own_slots c)"
  by (simp add: own_slots_def slot_defs)

lemma own_slots_linked:
  assumes "security_context_mgr c \<noteq> None"
  shows "s \<in> set (own_slots c) \<longleftrightarrow> comp_linked c s \<and> s \<noteq> Xwayland_new_surface \<and> s \<noteq> Xwayland_ready"
  using assms
  by (cases s) (simp_all add: own_slots_def slot_defs, simp_all add: comp_linked_def slot_defs)

lemma cleanup_dbus_frame:
  assumes "dlp_cleanup_dbus_proxies exited (Some c) s = Some (cc, s')"
  shows "cc = Some (c\<lparr>dbus_proxies := empty_vec\<rparr>)"
  using assms by (auto simp: dlp_cleanup_dbus_proxies_def bind_eq_Some_conv)

definition xwayland_part :: "build_config \<Rightarrow> coder_dlp_compositor \<Rightarrow> call list" where
  "xwayland_part cfg c = (if WLR_HAS_XWAYLAND cfg then snd (dlp_xwayland_destroy c) else [])"

definition timer_part :: "coder_dlp_compositor \<Rightarrow> call list" where
  "timer_part c = (case reap_timer c of None \<Rightarrow> [] | Some tm \<Rightarrow> [Wl (Wl_event_source_remove tm)])"

text \<open>The calls of a destruction, in four parts.\<close>

lemma destroy_calls:
  assumes "coder_dlp_destroy cfg exited (Some a) reg h s = Some (reg', h', s', calls)" and "h a = Some c"
  shows "calls = removes (map CompL (own_slots c)) @ timer_part c @ xwayland_part cfg c @
      concat (map toplevel_cleanup (toplevels c)) @ destroy_objects c"
    and "reg' = compositor_list_remove a reg" and "h' = h(a := None)"
proof -
  obtain cc s1 where cl: "dlp_cleanup_dbus_proxies exited (Some c) s = Some (cc, s1)"
    using assms by (cases "dlp_cleanup_dbus_proxies exited (Some c) s") (auto simp: coder_dlp_destroy_def)
  note cl' = cl [unfolded cleanup_dbus_frame [OF cl]]
  have obj: "destroy_objects (c\<lparr>dbus_proxies := empty_vec\<rparr>) = destroy_objects c"
    "destroy_objects (c\<lparr>dbus_proxies := empty_vec, xwayland := None, xwayland_surfaces := []\<rparr>) = destroy_objects c"
    by (simp_all add: destroy_objects_def)
  have "calls = removes (map CompL (own_slots c)) @ timer_part c @ xwayland_part cfg c @
      concat (map toplevel_cleanup (toplevels c)) @ destroy_objects c \<and>
      reg' = compositor_list_remove a reg \<and> h' = h(a := None)"
    using assms
    by (cases "WLR_HAS_XWAYLAND cfg"; cases "xwayland c")
      (auto simp: coder_dlp_destroy_def cl' destroy_listeners_removes obj timer_part_def
        xwayland_part_def dlp_xwayland_destroy_def)
  then show "calls = removes (map CompL (own_slots c)) @ timer_part c @ xwayland_part cfg c @
      concat (map toplevel_cleanup (toplevels c)) @ destroy_objects c"
    "reg' = compositor_list_remove a reg" "h' = h(a := None)" by blast+
qed

lemma destroy_first:
  assumes ok: "links_ok c L" and mgr: "security_context_mgr c \<noteq> None"
  shows "link_run (removes (map CompL (own_slots c)) @ timer_part c) L =
    Some (set_links (map CompL (own_slots c)) Zeroed L)"
proof -
  have "list_all quiet (timer_part c)" by (simp add: timer_part_def split: option.split)
  moreover have "link_run (removes (map CompL (own_slots c))) L = Some (set_links (map CompL (own_slots c)) Zeroed L)"
    using own_slots_linked [OF mgr] links_okD(1) [OF ok]
    by (intro link_run_removes distinct_CompL distinct_own) auto
  ultimately show ?thesis by (simp add: link_run_append link_run_quiet)
qed

lemma destroy_first_fails:
  assumes ok: "links_ok c L" and mgr: "security_context_mgr c = None"
  shows "link_run (removes (map CompL (own_slots c)) @ rest) L = None"
proof -
  have "L (CompL Security_context_commit) = Zeroed"
    using links_okD(1) [OF ok, of Security_context_commit] mgr by (simp add: comp_linked_def slot_defs)
  moreover have "L (CompL s) = Linked" if "s \<in> {New_output, New_input, New_xdg_toplevel, New_xdg_popup,
      Request_set_selection, Request_set_primary_selection}" for s
    using links_okD(1) [OF ok, of s] that by (auto simp: comp_linked_def slot_defs)
  ultimately show ?thesis
    by (simp add: own_slots_def always_slots_def removes_def link_remove_def)
qed

lemma toplevel_part:
  assumes "distinct (map tl_addr ts)" and "\<And>a s. a \<in> tl_addr ` set ts \<Longrightarrow> L (ToplevelL a s) \<noteq> Zeroed"
  shows "link_run (concat (map toplevel_cleanup ts)) L =
    Some (set_links (concat (map tlg.group (map tl_addr ts))) Zeroed L)"
proof -
  have "concat (map toplevel_cleanup ts) =
      concat (map (\<lambda>a. removes (tlg.group a) @ [Own (Free_toplevel a)]) (map tl_addr ts))"
    by (simp add: toplevel_cleanup_def [abs_def] tlg.group_def o_def)
  then show ?thesis using tlg.remove_and_free_all [OF assms(1), of L] assms(2) by simp
qed

lemma xsurf_part:
  assumes "distinct (map xs_addr xs)" and "\<And>a s. a \<in> xs_addr ` set xs \<Longrightarrow> L (XSurfL a s) \<noteq> Zeroed"
  shows "link_run (concat (map xsurf_cleanup xs)) L =
    Some (set_links (concat (map xsg.group (map xs_addr xs))) Zeroed L)"
proof -
  have "concat (map xsurf_cleanup xs) =
      concat (map (\<lambda>a. removes (xsg.group a) @ [Own (Free_xsurf a)]) (map xs_addr xs))"
    by (simp add: xsurf_cleanup_def [abs_def] xsg.group_def o_def)
  then show ?thesis using xsg.remove_and_free_all [OF assms(1), of L] assms(2) by simp
qed

lemma xsurf_not_zeroed:
  assumes "links_ok c L" and "a \<in> xs_addr ` set (xwayland_surfaces c)"
  shows "L (XSurfL a s) \<noteq> Zeroed"
  using assms links_okD(5,6) [OF assms(1)] by (cases "s = Xs_map \<or> s = Xs_unmap") (auto simp: links_ok_def)

lemma objects_part:
  assumes "\<And>s. L (CompL s) \<noteq> Linked"
  shows "link_run (destroy_objects c) L = Some (set_links (map CompL (filter (\<lambda>s. s \<noteq> Client_created) comp_slots)) Zeroed L)"
proof -
  have cl: "link_clear ss L = Some L" for ss using assms by (intro link_clear_ok) blast
  have fr: "link_free (map CompL ss) L = Some (set_links (map CompL ss) Zeroed L)" for ss
    using assms by (intro link_free_clear) auto
  have q: "link_run ((case (cursor c, touch c) of (Some _, Some tc) \<Rightarrow> [Inp (Wlr_cursor_detach_input_device tc)]
      | _ \<Rightarrow> []) @ rest) L = link_run rest L" for rest
    by (simp add: link_run_append link_run_quiet split: option.split)
  show ?thesis
    unfolding destroy_objects_def q
    by (cases "backend c"; cases "scene c"; cases "cursor_mgr c"; cases "cursor c"; cases "wl_display c")
      (simp_all add: cl fr)
qed

definition all_unlinked :: "links \<Rightarrow> bool" where
  "all_unlinked L \<longleftrightarrow> (\<forall>s. L (CompL s) = Zeroed) \<and> (\<forall>a s. L (ToplevelL a s) = Zeroed) \<and> (\<forall>a s. L (XSurfL a s) = Zeroed)"

lemma destroy_rest:
  assumes ok: "links_ok c L0" and mgr: "security_context_mgr c \<noteq> None"
    and L: "L = set_links (map CompL (own_slots c)) Zeroed L0"
    and cfg: "xwayland c \<noteq> None \<longrightarrow> WLR_HAS_XWAYLAND cfg" and xs: "xwayland c = None \<longrightarrow> xwayland_surfaces c = []"
  shows "\<exists>L'. link_run (xwayland_part cfg c @ concat (map toplevel_cleanup (toplevels c)) @ destroy_objects c) L = Some L' \<and>
    all_unlinked L'"
proof -
  let ?xs = "[CompL Xwayland_new_surface, CompL Xwayland_ready]"
  define G where "G = concat (map xsg.group (map xs_addr (xwayland_surfaces c)))"
  define T where "T = concat (map tlg.group (map tl_addr (toplevels c)))"
  define L1 where "L1 = (if xwayland c = None then L else set_links G Zeroed (set_links ?xs Zeroed L))"
  have comp: "L (CompL s) = (if s = Xwayland_new_surface \<or> s = Xwayland_ready then linked_if (xwayland c \<noteq> None) else Zeroed)" for s
    using own_slots_linked [OF mgr, of s] links_okD(1) [OF ok, of s]
    by (auto simp: L set_links_CompL comp_linked_def slot_defs split: if_splits)
  have oth: "L l = L0 l" if "\<And>s. l \<noteq> CompL s" for l using that by (auto simp: L set_links_def)
  have Gi: "l \<in> set G \<longleftrightarrow> (\<exists>a s. a \<in> xs_addr ` set (xwayland_surfaces c) \<and> l = XSurfL a s)" for l
    by (auto simp: G_def xsg.in_group)
  have Ti: "l \<in> set T \<longleftrightarrow> (\<exists>a s. a \<in> tl_addr ` set (toplevels c) \<and> l = ToplevelL a s)" for l
    by (auto simp: T_def tlg.in_group)
  have x: "link_run (xwayland_part cfg c) L = Some L1"
  proof (cases "xwayland c")
    case None
    then show ?thesis by (simp add: xwayland_part_def dlp_xwayland_destroy_def L1_def)
  next
    case (Some sv)
    have two: "link_run (removes ?xs) L = Some (set_links ?xs Zeroed L)"
      using comp Some by (intro link_run_removes) auto
    have many: "link_run (concat (map xsurf_cleanup (xwayland_surfaces c))) (set_links ?xs Zeroed L) = Some L1"
    proof -
      have "L1 = set_links G Zeroed (set_links ?xs Zeroed L)" by (simp add: L1_def Some)
      moreover have "distinct (map xs_addr (xwayland_surfaces c))" using ok by (simp add: links_ok_def)
      moreover have "set_links ?xs Zeroed L (XSurfL a s) \<noteq> Zeroed" if "a \<in> xs_addr ` set (xwayland_surfaces c)" for a s
        using xsurf_not_zeroed [OF ok that] oth by (simp add: set_links_def)
      ultimately show ?thesis unfolding G_def using xsurf_part by simp
    qed
    have "link_clear [Xwayland_new_surface, Xwayland_ready] L1 = Some L1"
      using Some by (intro link_clear_ok) (auto simp: L1_def set_links_def)
    moreover have "snd (dlp_xwayland_destroy c) = [Xwl (Unsetenv ''XWAYLAND_NO_GLAMOR'')] @ removes ?xs @
        concat (map xsurf_cleanup (xwayland_surfaces c)) @ [Xwl (Wlr_xwayland_destroy sv)]"
      by (simp add: dlp_xwayland_destroy_def Some)
    ultimately show ?thesis
      using two many cfg Some by (simp add: xwayland_part_def link_run_append)
  qed
  have t: "link_run (concat (map toplevel_cleanup (toplevels c))) L1 = Some (set_links T Zeroed L1)"
    unfolding T_def
  proof (rule toplevel_part)
    show "distinct (map tl_addr (toplevels c))" using ok by (simp add: links_ok_def)
    fix a s assume "a \<in> tl_addr ` set (toplevels c)"
    moreover have "ToplevelL a s \<notin> set G" by (simp only: Gi) blast
    ultimately show "L1 (ToplevelL a s) \<noteq> Zeroed"
      using links_okD(2) [OF ok] oth by (simp add: L1_def set_links_def)
  qed
  have z: "set_links T Zeroed L1 (CompL s) = Zeroed" for s
    using comp by (auto simp: set_links_def L1_def Gi Ti)
  have o: "link_run (destroy_objects c) (set_links T Zeroed L1) =
      Some (set_links (map CompL (filter (\<lambda>s. s \<noteq> Client_created) comp_slots)) Zeroed (set_links T Zeroed L1))"
    by (rule objects_part) (simp only: z link_state.distinct not_False_eq_True)
  have tz: "set_links T Zeroed L1 (ToplevelL a s) = Zeroed" for a s
    using links_okD(2) [OF ok] oth by (auto simp: set_links_def L1_def Ti)
  have xz: "L0 (XSurfL a s) = Zeroed" if "a \<notin> xs_addr ` set (xwayland_surfaces c)" for a s
    using that ok links_okD(5,6) [OF ok] by (cases "s = Xs_map \<or> s = Xs_unmap") (auto simp: links_ok_def)
  have "set_links T Zeroed L1 (XSurfL a s) = Zeroed" for a s
    using xz [of a s] xs oth by (auto simp: set_links_def L1_def Gi Ti)
  then have "all_unlinked (set_links (map CompL (filter (\<lambda>s. s \<noteq> Client_created) comp_slots)) Zeroed (set_links T Zeroed L1))"
    using z tz by (auto simp: all_unlinked_def set_links_def)
  with x t o show ?thesis by (simp add: link_run_append)
qed

section \<open>Xwayland while the compositor runs\<close>

definition xwl_ok :: "build_config \<Rightarrow> coder_dlp_compositor \<Rightarrow> bool" where
  "xwl_ok cfg c \<longleftrightarrow> (xwayland c \<noteq> None \<longrightarrow> WLR_HAS_XWAYLAND cfg) \<and> (xwayland c = None \<longrightarrow> xwayland_surfaces c = [])"

lemma xwl_ok_cong: "xwl_ok cfg c \<Longrightarrow> same_shape c c' \<Longrightarrow> xwl_ok cfg c'"
  by (auto simp: xwl_ok_def same_shape_def)

lemma xwl_ok_upd:
  "xwayland c' = xwayland c \<Longrightarrow> xwayland_surfaces c' = xwayland_surfaces c \<Longrightarrow> xwl_ok cfg c' = xwl_ok cfg c"
  by (simp add: xwl_ok_def)

lemma xwl_new_input:
  "dlp_compositor_handle_new_input v a b d c = (c', calls) \<Longrightarrow>
     xwayland c' = xwayland c \<and> xwayland_surfaces c' = xwayland_surfaces c"
  by (cases "dev_type d") (auto simp: dlp_compositor_handle_new_input_def setup_keyboard_def
      setup_pointer_def setup_touch_def Let_def split: if_splits)

lemma xwl_toplevel:
  "toplevel_handler s v t c = (c', calls) \<Longrightarrow>
     xwayland c' = xwayland c \<and> xwayland_surfaces c' = xwayland_surfaces c"
  by (cases "s = Tl_destroy")
    (auto simp: toplevel_handler_def handle_toplevel_destroy_def handle_toplevel_map_def handle_toplevel_unmap_def
      handle_toplevel_commit_def handle_toplevel_request_move_def handle_toplevel_request_resize_def
      handle_toplevel_request_maximize_def handle_toplevel_request_fullscreen_def split: toplevel_slot.splits)

lemma xwl_popup:
  "popup_handler s v p c = (c', calls) \<Longrightarrow> xwayland c' = xwayland c \<and> xwayland_surfaces c' = xwayland_surfaces c"
  by (cases s) (auto simp: popup_handler_def handle_popup_commit_def handle_popup_destroy_def)

lemma xwl_new_windows:
  "dlp_compositor_handle_new_xdg_toplevel v al tr x c = Some (c', calls) \<Longrightarrow>
     xwayland c' = xwayland c \<and> xwayland_surfaces c' = xwayland_surfaces c"
  "dlp_compositor_handle_new_xdg_popup v al tr x c = (c', calls) \<Longrightarrow>
     xwayland c' = xwayland c \<and> xwayland_surfaces c' = xwayland_surfaces c"
  "handle_client_created al cl c = (c', calls) \<Longrightarrow>
     xwayland c' = xwayland c \<and> xwayland_surfaces c' = xwayland_surfaces c"
  by (auto simp: dlp_compositor_handle_new_xdg_toplevel_def dlp_compositor_handle_new_xdg_popup_def
      handle_client_created_def Let_def bind_eq_Some_conv split: option.splits)

lemma xwl_xsurf:
  assumes "xsurf_handler s v tr g x c = Some (c', calls)" and "xwl_ok cfg c" and "find_xsurf a c = Some x"
  shows "xwl_ok cfg c'"
proof (cases "s \<in> {Xs_associate, Xs_dissociate, Xs_destroy}")
  case True
  have "xwayland_surfaces c \<noteq> []" using find_xsurf_addr [OF assms(3)] by auto
  with True assms(1,2) show ?thesis
    by (auto simp: xwl_ok_def xsurf_handler_def handle_xwayland_surface_associate_def Let_def bind_eq_Some_conv
        handle_xwayland_surface_dissociate_def handle_xwayland_surface_destroy_def)
next
  case False
  from calm_xsurf [OF this assms(1)] assms(2) show ?thesis by (auto simp: calm_def intro: xwl_ok_cong)
qed

lemma event_xwl_ok:
  assumes x: "xwl_ok cfg c" and ok: "links_ok c L" and en: "L (listener_of ev) = Linked"
    and h: "handle_event cfg ev c = Some (c', calls)"
  shows "xwl_ok cfg c'"
proof -
  have upd: "xwayland c' = xwayland c \<and> xwayland_surfaces c' = xwayland_surfaces c \<Longrightarrow> ?thesis"
    using xwl_ok_upd x by blast
  have calm: "calm c (c', calls) \<Longrightarrow> ?thesis" using xwl_ok_cong [OF x] by (simp add: calm_def)
  have plain: "plain_event ev \<Longrightarrow> ?thesis" using calm_plain [OF _ h] calm by blast
  show ?thesis
  proof (cases ev)
    case (New_output_ev v m out)
    with h show ?thesis by (intro upd) (auto simp: dlp_compositor_handle_new_output_def)
  next
    case (Frame_ev e)
    with h obtain b where "handle_output_frame e c = Some (c', calls, b)" by auto
    with calm_frame calm show ?thesis by blast
  next
    case Output_destroy_ev
    with h show ?thesis by (intro upd) (auto simp: handle_output_destroy_def)
  next
    case (New_input_ev v a b d)
    with h xwl_new_input show ?thesis by (intro upd) simp
  next
    case (Client_created_ev al cl)
    with h xwl_new_windows(3) show ?thesis by (intro upd) simp
  next
    case (Client_destroyed_ev w)
    with h show ?thesis by (intro upd) (auto simp: handle_client_destroyed_def)
  next
    case (New_toplevel_ev v al tr x)
    with h xwl_new_windows(1) show ?thesis by (intro upd) simp
  next
    case (Toplevel_ev a s v)
    with h xwl_toplevel show ?thesis by (intro upd) auto
  next
    case (New_popup_ev v al tr x)
    with h xwl_new_windows(2) show ?thesis by (intro upd) simp
  next
    case (Popup_ev a s v)
    with h xwl_popup show ?thesis by (intro upd) auto
  next
    case (New_xsurface_ev al tr xs)
    with en links_okD(1) [OF ok, of Xwayland_new_surface] have "xwayland c \<noteq> None" by simp
    with New_xsurface_ev h x show ?thesis
      by (auto simp: xwl_ok_def handle_xwayland_new_surface_def split: option.splits)
  next
    case (Xsurf_ev a s v tr g)
    with h obtain xs where "find_xsurf a c = Some xs" "xsurf_handler s v tr g xs c = Some (c', calls)"
      by (auto simp: bind_eq_Some_conv)
    with xwl_xsurf x show ?thesis by blast
  qed (rule plain, simp)+
qed

lemma reachable_xwl_ok:
  assumes "reachable cfg s0 s" and "links_ok (fst s0) (snd s0)" and "xwl_ok cfg (fst s0)"
  shows "xwl_ok cfg (fst s)"
  using assms
proof (induction rule: reachable.induct)
  case (more s ev s')
  have ok: "links_ok (fst s) (snd s)" using reachable_ok [OF more.hyps(1) more.prems(1)] .
  from more.hyps(2) more.IH [OF more.prems] ok show ?case
    by (elim stepE) (use event_xwl_ok in fastforce)
qed

section \<open>From creation to destruction\<close>

lemma create_objects:
  assumes "coder_dlp_create cfg e level reg h = Some (Some a, r)"
  shows "ce_calloc e \<noteq> None" "ce_display e \<noteq> None" "ce_backend e \<noteq> None" "ce_renderer e \<noteq> None"
    "ce_allocator e \<noteq> None"
  using assms
  by (auto simp: coder_dlp_create_def err_display_def bind_eq_Some_conv Let_def split: option.splits)

lemma create_finish_addr: "create_finish cfg e b c reg h calls = (Some a, r) \<Longrightarrow> b = a"
  by (auto simp: create_finish_def err_display_def Let_def split: prod.splits if_splits)

lemma create_calloc:
  assumes "coder_dlp_create cfg e level reg h = Some (Some a, r)"
  shows "ce_calloc e = Some a"
proof -
  obtain b where b: "ce_calloc e = Some b" using create_objects(1) [OF assms] by blast
  from create_after_allocator [OF assms b create_objects(2-) [OF assms]] create_finish_addr b
  show ?thesis by metis
qed

lemma new_input_keeps:
  "dlp_compositor_handle_new_input v a b d c = (c', calls) \<Longrightarrow>
     xwayland c' = xwayland c \<and> xwayland_surfaces c' = xwayland_surfaces c \<and>
     security_context_mgr c' = security_context_mgr c \<and> dbus_proxies c' = dbus_proxies c"
  by (cases "dev_type d") (auto simp: dlp_compositor_handle_new_input_def setup_keyboard_def
      setup_pointer_def setup_touch_def Let_def split: if_splits)

lemma start_events_keep:
  "start_events cfg evs c = (c', calls) \<Longrightarrow>
     xwayland c' = xwayland c \<and> xwayland_surfaces c' = xwayland_surfaces c \<and>
     security_context_mgr c' = security_context_mgr c \<and> dbus_proxies c' = dbus_proxies c"
proof (induction evs arbitrary: c calls)
  case (Cons ev evs)
  obtain c1 k1 where s: "start_event cfg ev c = (c1, k1)" by fastforce
  have "xwayland c1 = xwayland c \<and> xwayland_surfaces c1 = xwayland_surfaces c \<and>
      security_context_mgr c1 = security_context_mgr c \<and> dbus_proxies c1 = dbus_proxies c"
    using s new_input_keeps by (cases ev) (auto simp: dlp_compositor_handle_new_output_def)
  with Cons s show ?case by (auto split: prod.splits)
qed simp

text \<open>What a successful creation gives.\<close>

lemma create_success:
  assumes c: "coder_dlp_create cfg e level reg h = Some (Some a, reg', h', calls)"
    and room: "room_for (ce_start_events e) zero_compositor"
  shows "\<exists>c L ok. h' = h(a \<mapsto> c) \<and> link_run calls no_links = Some L \<and> links_ok c L \<and> xwl_ok cfg c \<and>
    security_context_mgr c = ce_security_mgr e \<and> dbus_proxies c = empty_vec \<and>
    socket c = ce_socket e \<and> ce_socket e \<noteq> None \<and> compositor_list_add (ce_realloc_ok e) a reg = Some (ok, reg')"
proof -
  from create_after_allocator [OF c create_calloc [OF c] create_objects(2-) [OF c]] obtain ok reg1 globals where
    add: "compositor_list_add (ce_realloc_ok e) a reg = Some (ok, reg1)" and
    g: "create_globals cfg e (created_base cfg e) = Some (globals_state cfg e (created_base cfg e), globals)" and
    r: "(Some a, reg', h', calls) = create_finish cfg e a (globals_state cfg e (created_base cfg e)) reg1 h
      (opening_calls e level reg @ globals)" by blast
  obtain c1 up where s: "start_events cfg (ce_start_events e) (globals_state cfg e (created_base cfg e)) = (c1, up)"
    by fastforce
  let ?calls = "(opening_calls e level reg @ globals) @ [Setup Wlr_backend_start] @ up"
  let ?tm = "case ce_timer e of None \<Rightarrow> [] | Some tm \<Rightarrow> [Wl (Wl_event_source_timer_update tm 30000)]"
  let ?c = "c1\<lparr>reap_timer := ce_timer e, socket := ce_socket e\<rparr>"
  from r s have f: "ce_socket e \<noteq> None" "reg' = reg1" "h' = h(a \<mapsto> ?c)" "calls = ?calls @ ?tm"
    by (auto simp: create_finish_def err_display_def Let_def split: if_splits)
  from create_finish_run [OF g room s, of level reg] obtain L where
    L: "link_run ?calls no_links = Some L" "links_ok c1 L" by blast
  have "list_all quiet ?tm" by (simp split: option.split)
  with L(1) have run: "link_run calls no_links = Some L"
    unfolding f(4) by (subst link_run_append) (simp only: bind.bind_lunit link_run_quiet)
  have "xwl_ok cfg (globals_state cfg e (created_base cfg e))"
    by (simp add: xwl_ok_def globals_state_fields)
  then have x1: "xwl_ok cfg c1" using start_events_keep [OF s] by (simp add: xwl_ok_def)
  have "security_context_mgr c1 = ce_security_mgr e \<and> dbus_proxies c1 = empty_vec"
    using start_events_keep [OF s]
    by (simp add: globals_state_def Let_def created_base_def zero_compositor_def)
  moreover from x1 have "xwl_ok cfg ?c" by (simp add: xwl_ok_def)
  ultimately show ?thesis using run f add links_ok_timer_socket [OF L(2)] by auto
qed

section \<open>Properties\<close>

text \<open>C6. A compositor that was created and has since handled any sequence of events, its library
  guarantees kept (fresh memory, one output, keyboard and touch device at a time), is in order: each
  of its listeners is in the list of a signal exactly as long as the struct or device behind it
  exists. The next event, whatever it is, adds no listener twice, removes none that is in no list
  and frees none that is still in one.\<close>

theorem running_compositor_safe:
  assumes "coder_dlp_create cfg e level reg h = Some (Some a, reg', h', calls)"
    and "room_for (ce_start_events e) zero_compositor"
    and "link_run calls no_links = Some L0" and "h' a = Some c0"
    and "reachable cfg (c0, L0) (c, L)"
  shows "links_ok c L \<and>
    (\<forall>ev c' calls'. L (listener_of ev) = Linked \<and> event_ok c L ev \<and> handle_event cfg ev c = Some (c', calls') \<longrightarrow>
       (\<exists>L'. link_run calls' L = Some L' \<and> links_ok c' L' \<and> reachable cfg (c0, L0) (c', L')))"
proof -
  from create_success [OF assms(1,2)] assms(3,4) have "links_ok c0 L0" by auto
  with reachable_ok [OF assms(5)] have ok: "links_ok c L" by simp
  have "\<exists>L'. link_run k L = Some L' \<and> links_ok c' L' \<and> reachable cfg (c0, L0) (c', L')"
    if "L (listener_of ev) = Linked" "event_ok c L ev" "handle_event cfg ev c = Some (c', k)" for ev c' k
  proof -
    from event_safe [OF ok that] obtain L' where L': "link_run k L = Some L'" "links_ok c' L'" by blast
    with step.step [OF that L'(1)] reachable.more [OF assms(5)] show ?thesis by blast
  qed
  with ok show ?thesis by blast
qed

text \<open>C7. Destroying such a compositor takes every listener of it, of its toplevels and of its
  Xwayland surfaces out of its list before the objects behind them go, and then frees the memory;
  its address leaves the registry. The exception: if the security context manager could not be
  created, the destruction removes a listener that was never added, which follows a null
  pointer.\<close>

theorem destroyed_compositor:
  assumes "coder_dlp_create cfg e level reg h = Some (Some a, reg', h', calls)"
    and "room_for (ce_start_events e) zero_compositor"
    and "link_run calls no_links = Some L0" and "h' a = Some c0"
    and "reachable cfg (c0, L0) (c, L)"
    and "coder_dlp_destroy cfg exited (Some a) reg1 h1 s = Some (reg2, h2, s2, dcalls)" and "h1 a = Some c"
  shows "reg2 = compositor_list_remove a reg1 \<and> h2 = h1(a := None) \<and>
    (case security_context_mgr c of
       None \<Rightarrow> link_run dcalls L = None
     | Some _ \<Rightarrow> (\<exists>L'. link_run dcalls L = Some L' \<and> all_unlinked L'))"
proof -
  from create_success [OF assms(1,2)] assms(3,4) have i: "links_ok c0 L0" "xwl_ok cfg c0" by auto
  with reachable_ok [OF assms(5)] reachable_xwl_ok [OF assms(5)] have ok: "links_ok c L" "xwl_ok cfg c"
    by simp_all
  note d = destroy_calls [OF assms(6,7)]
  show ?thesis
  proof (cases "security_context_mgr c")
    case None
    with destroy_first_fails [OF ok(1)] d show ?thesis by simp
  next
    case (Some m)
    then have mgr: "security_context_mgr c \<noteq> None" by simp
    from destroy_rest [OF ok(1) mgr refl] ok(2) obtain L' where
      "link_run (xwayland_part cfg c @ concat (map toplevel_cleanup (toplevels c)) @ destroy_objects c)
        (set_links (map CompL (own_slots c)) Zeroed L) = Some L'" "all_unlinked L'"
      by (auto simp: xwl_ok_def)
    moreover have "link_run dcalls L = Option.bind (link_run (removes (map CompL (own_slots c)) @ timer_part c) L)
        (link_run (xwayland_part cfg c @ concat (map toplevel_cleanup (toplevels c)) @ destroy_objects c))"
      using link_run_append [of "removes (map CompL (own_slots c)) @ timer_part c"] by (simp add: d(1))
    ultimately show ?thesis using destroy_first [OF ok(1) mgr] d(2,3) Some by simp
  qed
qed

text \<open>If everything could be created but the backend does not start or no socket is free,
  the error path destroys the display while the listeners of the shell, the seat and the backend
  are still in their lists.\<close>

lemma late_failure_leaves_listeners:
  assumes "coder_dlp_create cfg e level reg h = Some (None, reg', h', calls)"
    and "room_for (ce_start_events e) zero_compositor" and "ce_calloc e \<noteq> None"
    and "ce_display e \<noteq> None" "ce_backend e \<noteq> None" "ce_renderer e \<noteq> None" "ce_allocator e \<noteq> None"
  shows "(\<not> ce_backend_start e \<or> ce_socket e = None) \<and> link_run calls no_links = None"
proof -
  obtain a where a: "ce_calloc e = Some a" using assms(3) by blast
  from create_after_allocator [OF assms(1) a assms(4-)] obtain ok reg1 globals where
    g: "create_globals cfg e (created_base cfg e) = Some (globals_state cfg e (created_base cfg e), globals)" and
    r: "(None, reg', h', calls) = create_finish cfg e a (globals_state cfg e (created_base cfg e)) reg1 h
      (opening_calls e level reg @ globals)" by blast
  obtain c1 up where s: "start_events cfg (ce_start_events e) (globals_state cfg e (created_base cfg e)) = (c1, up)"
    by fastforce
  let ?calls = "(opening_calls e level reg @ globals) @ [Setup Wlr_backend_start] @ up"
  from create_finish_run [OF g assms(2) s, of level reg] obtain L where
    L: "link_run ?calls no_links = Some L" "links_ok c1 L" by blast
  have "L (CompL New_xdg_toplevel) = Linked"
    using links_okD(1) [OF L(2)] by (simp add: comp_linked_def slot_defs)
  then have fail: "link_run (Wl Wl_display_destroy # rest) L = None" for rest
    by (simp add: link_clear_def display_slots_def)
  have e: "\<not> ce_backend_start e \<or> ce_socket e = None"
    using r s by (auto simp: create_finish_def Let_def split: if_splits)
  obtain tm where "list_all quiet tm" "calls = (?calls @ tm) @ [Wl Wl_display_destroy, Own Free_compositor]"
  proof (cases "ce_backend_start e")
    case True
    with r s e that [of "case ce_timer e of None \<Rightarrow> [] | Some tm \<Rightarrow> [Wl (Wl_event_source_timer_update tm 30000)]"]
    show ?thesis by (simp add: create_finish_def err_display_def Let_def split: option.splits)
  next
    case False
    with r s that [of "[]"] show ?thesis by (simp add: create_finish_def err_display_def Let_def)
  qed
  then have "link_run calls no_links = None"
    using L(1) fail by (simp only: link_run_append bind.bind_lunit link_run_quiet)
  with e show ?thesis by blast
qed

text \<open>A second output, keyboard or touch device while one is there adds listeners to a list
  that are already in another, which corrupts both.\<close>

lemma second_device_corrupts:
  assumes "links_ok c L"
  shows "(comp_output c \<noteq> None \<longrightarrow> link_run (snd (dlp_compositor_handle_new_output cfg v m out c)) L = None) \<and>
    (keyboard c \<noteq> None \<and> dev_type d = WLR_INPUT_DEVICE_KEYBOARD \<longrightarrow>
       link_run (snd (dlp_compositor_handle_new_input v True True d c)) L = None) \<and>
    (touch c \<noteq> None \<and> dev_type d = WLR_INPUT_DEVICE_TOUCH \<longrightarrow>
       link_run (snd (dlp_compositor_handle_new_input v ctx keymap d c)) L = None)"
proof -
  have "link_run (snd (dlp_compositor_handle_new_output cfg v m out c)) L = None" if "comp_output c \<noteq> None"
  proof -
    have "L (CompL Output_frame) = Linked" using links_okD(1) [OF assms, of Output_frame] that by simp
    then show ?thesis
      by (simp add: dlp_compositor_handle_new_output_def output_listeners_def link_run_append link_run_quiet
          adds_def link_add_def split: option.split)
  qed
  moreover have "link_run (snd (dlp_compositor_handle_new_input v True True d c)) L = None"
    if "keyboard c \<noteq> None" "dev_type d = WLR_INPUT_DEVICE_KEYBOARD"
  proof -
    have "L (CompL Keyboard_key) = Linked" using links_okD(1) [OF assms, of Keyboard_key] that by simp
    with that show ?thesis
      by (simp add: dlp_compositor_handle_new_input_def setup_keyboard_def Let_def keyboard_listeners_def adds_def
          link_add_def link_run_append)
  qed
  moreover have "link_run (snd (dlp_compositor_handle_new_input v ctx keymap d c)) L = None"
    if "touch c \<noteq> None" "dev_type d = WLR_INPUT_DEVICE_TOUCH"
  proof -
    have "L (CompL Touch_down) = Linked" using links_okD(1) [OF assms, of Touch_down] that by simp
    with that show ?thesis
      by (simp add: dlp_compositor_handle_new_input_def setup_touch_def touch_listeners_def adds_def
          link_add_def link_run_append)
  qed
  ultimately show ?thesis by blast
qed

section \<open>A concrete compositor\<close>

definition demo_view :: wlr_view where
  "demo_view =
     \<lparr>xdg_toplevel_base = (\<lambda>x. x + 100), xdg_popup_base = (\<lambda>x. x + 100), xdg_popup_parent = (\<lambda>x. x),
      xdg_surface_surface = (\<lambda>x. x + 100), initial_commit = (\<lambda>_. True), initialized = (\<lambda>_. True),
      xdg_surface_try_from = Some, xdg_toplevel_try_from = Some, xwayland_surface_try_from = (\<lambda>_. None),
      focused_surface = None, seat_keyboard = Some 30, seat_capabilities = 0, pointer_focused_client = None,
      touch_points = [], output_width = (\<lambda>_. 1280), output_height = (\<lambda>_. 720), cursor_x = 0, cursor_y = 0,
      times = (\<lambda>x _. x), scene_node_at = (\<lambda>_ _. None), node_type = (\<lambda>_. WLR_SCENE_NODE_BUFFER),
      node_surface = Some, node_parent = (\<lambda>_. None), keyboard_modifiers = (\<lambda>_. 0), xwl_surface = (\<lambda>_. None),
      xwl_override_redirect = (\<lambda>_. False), xwl_x = (\<lambda>_. 0), xwl_y = (\<lambda>_. 0), xwl_wants_focus = (\<lambda>_. True),
      xwl_input_model = (\<lambda>_. WLR_ICCCM_INPUT_MODEL_LOCAL), xwl_display_name = None, backend_is_wl = True,
      backend_is_x11 = False\<rparr>"

definition demo_keyboard :: input_device where
  "demo_keyboard = \<lparr>dev_type = WLR_INPUT_DEVICE_KEYBOARD, dev_addr = 29, dev_object = 30\<rparr>"

definition demo_build :: build_config where
  "demo_build = \<lparr>WLR_HAS_XWAYLAND = True, WLR_HAS_X11_BACKEND = True\<rparr>"

definition demo_create :: create_env where
  "demo_create =
     \<lparr>ce_calloc = Some 77, ce_realloc_ok = True, ce_display = Some 2, ce_event_loop = Some 3,
      ce_backend = Some 4, ce_backend_is_x11 = False, ce_renderer = Some 5, ce_allocator = Some 6,
      ce_output_layout = Some 7, ce_scene = Some 8, ce_cursor = Some 9, ce_cursor_mgr = Some 10,
      ce_xdg_shell = Some 11, ce_seat = Some 12, ce_security_mgr = Some 13, ce_xwayland = Some 14,
      ce_start_events = [Start_output demo_view None 20, Start_input demo_view True True demo_keyboard],
      ce_backend_start = True, ce_timer = Some 15, ce_socket = Some ''wayland-1''\<rparr>"

lemma demo_create_fields [simp]:
  "ce_calloc demo_create = Some 77" "ce_display demo_create = Some 2" "ce_backend demo_create = Some 4"
  "ce_renderer demo_create = Some 5" "ce_allocator demo_create = Some 6"
  "ce_backend_start demo_create" "ce_realloc_ok demo_create" "ce_socket demo_create = Some ''wayland-1''"
  by (simp_all add: demo_create_def)

lemma demo_room [simp]: "room_for (ce_start_events demo_create) zero_compositor"
  by (simp add: room_for_def demo_create_def demo_keyboard_def zero_compositor_def)

lemma demo_globals: "create_globals cfg demo_create c \<noteq> None"
  by (simp add: create_globals_def demo_create_def Let_def split: prod.split)

lemma demo_add: "compositor_list_add True 77 empty_vec \<noteq> None"
  by (simp add: compositor_list_add_vec_add vec_add_def empty_vec_def vec_realloc_def vec_append_def store_at_def)

text \<open>Creation with the answers of \<^term>\<open>demo_create\<close>, up to a failing backend or socket.\<close>

lemma demo_created:
  assumes "ce_start_events e = ce_start_events demo_create"
    and "\<And>c. create_globals demo_build e c = create_globals demo_build demo_create c"
    and "ce_calloc e = Some 77" "ce_realloc_ok e" "ce_display e = Some 2" "ce_backend e = Some 4"
      "ce_renderer e = Some 5" "ce_allocator e = Some 6"
  shows "\<exists>reg' h' calls. coder_dlp_create demo_build e CODER_DLP_LOG_INFO empty_vec Map.empty =
    Some (if ce_backend_start e \<and> ce_socket e \<noteq> None then Some 77 else None, reg', h', calls)"
proof -
  obtain ok reg1 where add: "compositor_list_add True 77 empty_vec = Some (ok, reg1)" using demo_add by fast
  obtain c1 k where g: "create_globals demo_build e (created_base demo_build e) = Some (c1, k)"
    using demo_globals assms(2) by fastforce
  have fin: "\<exists>reg' h' calls. create_finish demo_build e 77 c1 reg1 Map.empty ks =
      (if ce_backend_start e \<and> ce_socket e \<noteq> None then Some 77 else None, reg', h', calls)" for ks
    by (auto simp: create_finish_def err_display_def Let_def split: prod.split)
  have "coder_dlp_create demo_build e CODER_DLP_LOG_INFO empty_vec Map.empty =
      Some (create_finish demo_build e 77 c1 reg1 Map.empty (opening_calls e CODER_DLP_LOG_INFO empty_vec @ k))"
    using assms g by (simp add: coder_dlp_create_def add created_base_def opening_calls_def Let_def)
  with fin show ?thesis by metis
qed

lemma demo_running:
  "\<exists>reg' h' calls c0 L0. coder_dlp_create demo_build demo_create CODER_DLP_LOG_INFO empty_vec Map.empty =
      Some (Some 77, reg', h', calls) \<and> link_run calls no_links = Some L0 \<and> h' 77 = Some c0 \<and> links_ok c0 L0"
proof -
  from demo_created [of demo_create] obtain reg' h' calls where
    c: "coder_dlp_create demo_build demo_create CODER_DLP_LOG_INFO empty_vec Map.empty = Some (Some 77, reg', h', calls)"
    by auto
  from create_success [OF c demo_room] c show ?thesis by auto
qed

theorem running_compositor_safe_witness:
  "\<exists>c0 L0. L0 (CompL New_xdg_toplevel) = Linked \<and> links_ok c0 L0 \<and>
    (\<forall>c' calls'. handle_event demo_build (New_toplevel_ev demo_view (Some 50) (Some 51) 52) c0 = Some (c', calls') \<and>
       (50 \<notin> tl_addr ` set (toplevels c0)) \<longrightarrow> (\<exists>L'. link_run calls' L0 = Some L' \<and> links_ok c' L'))"
proof -
  from demo_running obtain reg' h' calls c0 L0 where
    c: "coder_dlp_create demo_build demo_create CODER_DLP_LOG_INFO empty_vec Map.empty = Some (Some 77, reg', h', calls)"
      "link_run calls no_links = Some L0" "h' 77 = Some c0" by blast
  from running_compositor_safe [OF c(1) demo_room c(2,3) reachable.start] have r: "links_ok c0 L0"
    and n: "L0 (listener_of ev) = Linked \<Longrightarrow> event_ok c0 L0 ev \<Longrightarrow> handle_event demo_build ev c0 = Some (c', k) \<Longrightarrow>
      \<exists>L'. link_run k L0 = Some L' \<and> links_ok c' L'" for ev c' k by blast+
  have l: "L0 (CompL New_xdg_toplevel) = Linked"
    using links_okD(1) [OF r] by (simp add: comp_linked_def slot_defs)
  with r n [of "New_toplevel_ev demo_view (Some 50) (Some 51) 52"] show ?thesis
    by (intro exI [of _ c0] exI [of _ L0]) auto
qed

text \<open>No proxies: destroying asks nothing of the system.\<close>

lemma destroy_without_proxies:
  assumes "h a = Some c" and "used (dbus_proxies c) = 0"
  shows "\<exists>reg2 h2 calls. coder_dlp_destroy cfg exited (Some a) reg h s = Some (reg2, h2, s, calls)"
  using assms by (auto simp: coder_dlp_destroy_def dlp_cleanup_dbus_proxies_def Let_def split: prod.split)

theorem destroyed_compositor_witness:
  "\<exists>c L reg2 h2 dcalls L'.
     coder_dlp_destroy demo_build (\<lambda>_. False) (Some 77) empty_vec [77 \<mapsto> c] demo_os = Some (reg2, h2, demo_os, dcalls) \<and>
     links_ok c L \<and> link_run dcalls L = Some L' \<and> all_unlinked L' \<and> h2 77 = None"
proof -
  from demo_running obtain reg' h' calls c0 L0 where
    c: "coder_dlp_create demo_build demo_create CODER_DLP_LOG_INFO empty_vec Map.empty = Some (Some 77, reg', h', calls)"
      "link_run calls no_links = Some L0" "h' 77 = Some c0" "links_ok c0 L0" by blast
  from create_success [OF c(1) demo_room] c(3)
  have p: "security_context_mgr c0 \<noteq> None \<and> used (dbus_proxies c0) = 0"
    by (auto simp: demo_create_def empty_vec_def)
  then obtain m where m: "security_context_mgr c0 = Some m" by blast
  from destroy_without_proxies [of "[77 \<mapsto> c0]" 77 c0] p obtain reg2 h2 dcalls where
    d: "coder_dlp_destroy demo_build (\<lambda>_. False) (Some 77) empty_vec [77 \<mapsto> c0] demo_os = Some (reg2, h2, demo_os, dcalls)"
    by fastforce
  from destroyed_compositor [OF c(1) demo_room c(2,3) reachable.start d] m
  have "h2 77 = None" "\<exists>L'. link_run dcalls L0 = Some L' \<and> all_unlinked L'" by simp_all
  with d c(4) show ?thesis by blast
qed

section \<open>Creation that fails\<close>

lemma registered_and_removed:
  assumes "vec_wf reg" and "compositor_list_add ok a reg = Some (stored, reg1)" and "a \<notin> set (vec_elems reg)"
  shows "vec_wf reg1" and "mset (vec_elems reg1) = mset (vec_elems reg) + (if ok \<or> used reg < cap reg then {#a#} else {#})"
    and "vec_wf (compositor_list_remove a reg1)"
    and "mset (vec_elems (compositor_list_remove a reg1)) = mset (vec_elems reg)"
proof -
  have w: "vec_wf reg1 \<and> vec_elems reg1 = vec_elems reg @ (if ok \<or> used reg < cap reg then [a] else [])"
  proof (cases "ok \<or> used reg < cap reg")
    case True
    from vec_add_ok [OF assms(1) this, of a] assms(2) True show ?thesis by (auto simp: compositor_list_add_vec_add)
  next
    case False
    with vec_add_fail [of ok reg a] assms(1,2) show ?thesis by (simp add: compositor_list_add_vec_add)
  qed
  then show "vec_wf reg1" "mset (vec_elems reg1) = mset (vec_elems reg) + (if ok \<or> used reg < cap reg then {#a#} else {#})"
    by simp_all
  have "vec_wf (compositor_list_remove a reg1) \<and> mset (vec_elems (compositor_list_remove a reg1)) = mset (vec_elems reg1) - {#a#}"
    by (rule remove_mset) (simp add: w)
  then show "vec_wf (compositor_list_remove a reg1)"
    "mset (vec_elems (compositor_list_remove a reg1)) = mset (vec_elems reg)"
    using w assms(3) by (simp_all add: diff_single_trivial)
qed

lemma create_null_cases:
  assumes "coder_dlp_create cfg e level reg h = Some (None, reg', h', calls)"
  shows "case ce_calloc e of
      None \<Rightarrow> reg' = reg \<and> h' = h
    | Some a \<Rightarrow> h' = h(a := None) \<and> (\<exists>stored reg1. compositor_list_add (ce_realloc_ok e) a reg = Some (stored, reg1) \<and>
        reg' = (if ce_display e = None then reg1 else compositor_list_remove a reg1))"
proof (cases "ce_calloc e")
  case None
  with assms show ?thesis by (simp add: coder_dlp_create_def Let_def)
next
  case (Some a)
  obtain stored reg1 where add: "compositor_list_add (ce_realloc_ok e) a reg = Some (stored, reg1)"
  proof (cases "compositor_list_add (ce_realloc_ok e) a reg")
    case None
    with assms Some have False by (simp add: coder_dlp_create_def)
    then show ?thesis ..
  qed (use that in fastforce)
  have fin: "h' = h(a := None) \<and> reg' = compositor_list_remove a reg1"
    if "create_finish cfg e a c reg1 h ks = (None, reg', h', calls)" for c ks
    using that by (auto simp: create_finish_def err_display_def Let_def split: prod.splits if_splits)
  from assms add fin show ?thesis
    by (auto simp: coder_dlp_create_def Some err_display_def Let_def bind_eq_Some_conv split: option.splits prod.splits)
qed

text \<open>A creation that returns \<^verbatim>\<open>NULL\<close> leaves no compositor in memory, and none in the
  registry that was not there before. The exception is a display that could not be created: the
  address stays in the registry although its memory is freed.\<close>

lemma create_failure_spec:
  assumes "coder_dlp_create cfg e level reg h = Some (None, reg', h', calls)"
    and "vec_wf reg" and "\<And>a. ce_calloc e = Some a \<Longrightarrow> a \<notin> set (vec_elems reg) \<and> h a = None"
  shows "h' = h \<and> vec_wf reg' \<and>
    mset (vec_elems reg') = mset (vec_elems reg) +
      (case ce_calloc e of
         Some a \<Rightarrow> if ce_display e = None \<and> (used reg < cap reg \<or> ce_realloc_ok e) then {#a#} else {#}
       | None \<Rightarrow> {#})"
proof (cases "ce_calloc e")
  case None
  with create_null_cases [OF assms(1)] assms(2) show ?thesis by simp
next
  case (Some a)
  with create_null_cases [OF assms(1)] obtain stored reg1 where
    h: "h' = h(a := None)" and add: "compositor_list_add (ce_realloc_ok e) a reg = Some (stored, reg1)" and
    r: "reg' = (if ce_display e = None then reg1 else compositor_list_remove a reg1)" by auto
  from registered_and_removed [OF assms(2) add] assms(3) [OF Some] r Some h show ?thesis by auto
qed

end
