(* ===== verification/Row_Sync.thy ===== *)
theory Row_Sync
  imports Prelude
begin

text \<open>
  The list models of the desktop application (\<^verbatim>\<open>src/app/src/models\<close>): rows with an
  identifier, replaced as a whole by every poll without resetting the views. The two models have
  the same code for it, which is here, with the row type and its identifier as parameters; a
  \<^verbatim>\<open>QHash\<close> is a map, a \<^verbatim>\<open>QSet\<close> a set.
\<close>

section \<open>Signals to the views\<close>

text \<open>
  The signals of \<^verbatim>\<open>QAbstractListModel\<close> (a removal and an insertion are the matching pair of
  begin and end) and of the models.
\<close>

datatype row_signal =
  RemoveRow nat | InsertRow nat | DataChanged nat | ResetModel | CountChanged | LoadingChanged | ErrorChanged

text \<open>
  What a view knows of the rows: of each its content, or that it has to be read again. It follows the signals if each
  refers to a row it has (an insertion also to the end); what it was told has changed, or is new, it reads again.
\<close>

fun view_rows :: "row_signal list \<Rightarrow> 'c option list \<Rightarrow> 'c option list option" where
  "view_rows [] c = Some c"
| "view_rows (RemoveRow i # sg) c = (if i < length c then view_rows sg (take i c @ drop (Suc i) c) else None)"
| "view_rows (InsertRow i # sg) c = (if i \<le> length c then view_rows sg (take i c @ None # drop i c) else None)"
| "view_rows (DataChanged i # sg) c = (if i < length c then view_rows sg (c[i := None]) else None)"
| "view_rows (ResetModel # sg) c = view_rows sg []"
| "view_rows (_ # sg) c = view_rows sg c"

text \<open>The one knows no more than the other. A view is led from the old rows to the new ones if it ends with as many,
  and every content it has kept is that of the new row.\<close>

definition knows_less :: "'c option list \<Rightarrow> 'c option list \<Rightarrow> bool" where
  "knows_less = list_all2 (\<lambda>x y. x = None \<or> x = y)"

definition view_led :: "row_signal list \<Rightarrow> 'c list \<Rightarrow> 'c list \<Rightarrow> bool" where
  "view_led sg old new \<longleftrightarrow> (case view_rows sg (map Some old) of None \<Rightarrow> False | Some c \<Rightarrow> knows_less c (map Some new))"

lemma view_rows_append: "view_rows (sg @ sh) c = Option.bind (view_rows sg c) (view_rows sh)"
  by (induction sg c rule: view_rows.induct) simp_all

lemma knows_less_refl [simp]: "knows_less c c"
  by (simp add: knows_less_def list_all2_same)

lemma knows_less_trans: "knows_less c d \<Longrightarrow> knows_less d e \<Longrightarrow> knows_less c e"
  unfolding knows_less_def list_all2_conv_all_nth by metis

lemma knows_less_length: "knows_less c d \<Longrightarrow> length c = length d"
  by (simp add: knows_less_def list_all2_lengthD)

lemma knows_less_simps:
  "knows_less c d \<Longrightarrow> knows_less (take i c @ drop j c) (take i d @ drop j d)"
  "knows_less c d \<Longrightarrow> knows_less (take i c @ None # drop j c) (take i d @ None # drop j d)"
  "knows_less c d \<Longrightarrow> knows_less (c[i := None]) (d[i := None])"
  by (auto simp: knows_less_def intro: list_all2_appendI list_all2_takeI list_all2_dropI list_all2_update_cong)

text \<open>A view that knows less follows as well, and knows less in the end.\<close>

lemma view_rows_mono:
  "view_rows sg d = Some d' \<Longrightarrow> knows_less c d \<Longrightarrow> \<exists>c'. view_rows sg c = Some c' \<and> knows_less c' d'"
proof (induction sg d arbitrary: c rule: view_rows.induct)
  case (2 i sg d)
  from "2.prems"(1) have "i < length d" "view_rows sg (take i d @ drop (Suc i) d) = Some d'" by (auto split: if_splits)
  with "2.IH" [OF _ _ knows_less_simps(1) [OF "2.prems"(2)]] knows_less_length [OF "2.prems"(2)] show ?case by simp
next
  case (3 i sg d)
  from "3.prems"(1) have "i \<le> length d" "view_rows sg (take i d @ None # drop i d) = Some d'" by (auto split: if_splits)
  with "3.IH" [OF _ _ knows_less_simps(2) [OF "3.prems"(2)]] knows_less_length [OF "3.prems"(2)] show ?case by simp
next
  case (4 i sg d)
  from "4.prems"(1) have "i < length d" "view_rows sg (d[i := None]) = Some d'" by (auto split: if_splits)
  with "4.IH" [OF _ _ knows_less_simps(3) [OF "4.prems"(2)]] knows_less_length [OF "4.prems"(2)] show ?case by simp
qed simp_all

lemma view_led_trans:
  assumes "view_led sg old mid" and "view_led sh mid new"
  shows "view_led (sg @ sh) old new"
proof -
  obtain c d where c: "view_rows sg (map Some old) = Some c" "knows_less c (map Some mid)"
    and d: "view_rows sh (map Some mid) = Some d" "knows_less d (map Some new)"
    using assms by (auto simp: view_led_def split: option.splits)
  from view_rows_mono [OF d(1) c(2)] obtain e where "view_rows sh c = Some e" "knows_less e d" by blast
  with c(1) knows_less_trans [OF _ d(2)] show ?thesis by (simp add: view_led_def view_rows_append)
qed

lemma view_led_Cons: "view_led [x] old mid \<Longrightarrow> view_led sg mid new \<Longrightarrow> view_led (x # sg) old new"
  using view_led_trans [of "[x]" old mid sg new] by simp

lemma view_led_Nil [simp]: "view_led [] rows rows"
  by (simp add: view_led_def)

lemma view_led_quiet [simp]:
  "view_led (CountChanged # sg) old new = view_led sg old new" "view_led (LoadingChanged # sg) old new = view_led sg old new"
  "view_led (ErrorChanged # sg) old new = view_led sg old new"
  by (simp_all add: view_led_def)

lemma view_led_count: "view_led sg old new \<Longrightarrow> view_led (sg @ [CountChanged]) old new"
  using view_led_trans [of sg old new "[CountChanged]" new] by simp

lemma view_led_step:
  "i < length rows \<Longrightarrow> view_led [RemoveRow i] rows (take i rows @ drop (Suc i) rows)"
  "view_led [InsertRow (length rows)] rows (rows @ [r])"
  "i < length rows \<Longrightarrow> view_led [DataChanged i] rows (rows[i := r])"
  "view_led [ResetModel] rows []"
proof -
  have "knows_less ((map Some rows)[i := None]) ((map Some rows)[i := Some r])"
    unfolding knows_less_def by (rule list_all2_update_cong) (simp_all add: list_all2_same)
  then show "i < length rows \<Longrightarrow> view_led [DataChanged i] rows (rows[i := r])"
    by (simp add: view_led_def map_update)
qed (simp_all add: view_led_def take_map drop_map knows_less_def list_all2_append list_all2_same)

text \<open>In the end a view has the right number of rows, and it knows whatever it still knew.\<close>

lemma view_led_rows:
  assumes "view_led sg old new"
  obtains c where "view_rows sg (map Some old) = Some c" and "length c = length new"
    and "\<And>i x. i < length new \<Longrightarrow> c ! i = Some x \<Longrightarrow> new ! i = x"
proof -
  from assms obtain c where c: "view_rows sg (map Some old) = Some c" "knows_less c (map Some new)"
    by (auto simp: view_led_def split: option.splits)
  then have "length c = length new" "\<forall>i < length new. c ! i = None \<or> c ! i = Some (new ! i)"
    by (auto simp: knows_less_def list_all2_conv_all_nth)
  with c(1) show thesis by (intro that [of c]) auto
qed

section \<open>Replacing the rows\<close>

text \<open>The rows that are gone, from the last to the first.\<close>

fun remove_missing ::
    "('r \<Rightarrow> string) \<Rightarrow> string set \<Rightarrow> nat \<Rightarrow> 'r list \<Rightarrow> ('r list \<times> row_signal list) option" where
  "remove_missing key ids 0 rows = Some (rows, [])"
| "remove_missing key ids (Suc i) rows = do {
     r \<leftarrow> load_at rows i;
     if key r \<notin> ids
     then do {
       (rows', sg) \<leftarrow> remove_missing key ids i (take i rows @ drop (Suc i) rows);
       Some (rows', RemoveRow i # sg)
     }
     else remove_missing key ids i rows
   }"

fun positions_from :: "('r \<Rightarrow> string) \<Rightarrow> nat \<Rightarrow> 'r list \<Rightarrow> (string \<rightharpoonup> nat) \<Rightarrow> (string \<rightharpoonup> nat)" where
  "positions_from key i [] m = m"
| "positions_from key i (r # rs) m = positions_from key (Suc i) rs (m(key r \<mapsto> i))"

fun upsert_rows ::
    "('r \<Rightarrow> string) \<Rightarrow> (string \<rightharpoonup> nat) \<Rightarrow> 'r list \<Rightarrow> 'r list \<Rightarrow> ('r list \<times> row_signal list) option" where
  "upsert_rows key pos [] rows = Some (rows, [])"
| "upsert_rows key pos (r # rs) rows =
     (case pos (key r) of
        Some row \<Rightarrow> do {
          rows \<leftarrow> store_at rows row r;
          (rows, sg) \<leftarrow> upsert_rows key pos rs rows;
          Some (rows, DataChanged row # sg)
        }
      | None \<Rightarrow> do {
          (rows', sg) \<leftarrow> upsert_rows key pos rs (rows @ [r]);
          Some (rows', InsertRow (length rows) # sg)
        })"

definition set_rows ::
    "('r \<Rightarrow> string) \<Rightarrow> 'r list \<Rightarrow> 'r list \<Rightarrow> ('r list \<times> row_signal list) option" where
  "set_rows key new rows = do {
     (kept, removed) \<leftarrow> remove_missing key (key ` set new) (length rows) rows;
     (rows', changed) \<leftarrow> upsert_rows key (positions_from key 0 kept Map.empty) new kept;
     Some (rows', removed @ changed @ [CountChanged])
   }"

text \<open>One row: replaced where its identifier is, else appended.\<close>

fun update_from ::
    "('r \<Rightarrow> string) \<Rightarrow> 'r \<Rightarrow> nat \<Rightarrow> nat \<Rightarrow> 'r list \<Rightarrow> ('r list \<times> row_signal list) option" where
  "update_from key r i 0 rows = Some (rows @ [r], [InsertRow (length rows), CountChanged])"
| "update_from key r i (Suc n) rows = do {
     x \<leftarrow> load_at rows i;
     if key x = key r then do { rows \<leftarrow> store_at rows i r; Some (rows, [DataChanged i]) }
     else update_from key r (Suc i) n rows
   }"

definition update_row :: "('r \<Rightarrow> string) \<Rightarrow> 'r \<Rightarrow> 'r list \<Rightarrow> ('r list \<times> row_signal list) option" where
  "update_row key r rows = update_from key r 0 (length rows) rows"

definition clear_rows :: "'r list \<Rightarrow> 'r list \<times> row_signal list" where
  "clear_rows rows = (if rows = [] then (rows, []) else ([], [ResetModel, CountChanged]))"

section \<open>The reference\<close>

text \<open>
  What the rows are afterwards: those that stay, in their old order, each with the newest data
  given for it, then the new ones in the order given.
\<close>

definition newest :: "('r \<Rightarrow> string) \<Rightarrow> 'r list \<Rightarrow> 'r \<Rightarrow> 'r" where
  "newest key new r = fold (\<lambda>n x. if key n = key r then n else x) new r"

definition merge_rows :: "('r \<Rightarrow> string) \<Rightarrow> 'r list \<Rightarrow> 'r list \<Rightarrow> 'r list" where
  "merge_rows key new old =
     map (newest key new) (filter (\<lambda>r. key r \<in> key ` set new) old) @
     filter (\<lambda>n. key n \<notin> key ` set old) new"

lemma take_Suc_load: "i < length rows \<Longrightarrow> take (Suc i) rows = take i rows @ [rows ! i]"
  by (rule take_Suc_conv_app_nth)

lemma remove_missing_ok:
  "n \<le> length rows \<Longrightarrow> \<exists>sg. remove_missing key ids n rows =
     Some (filter (\<lambda>r. key r \<in> ids) (take n rows) @ drop n rows, sg) \<and>
     view_led sg rows (filter (\<lambda>r. key r \<in> ids) (take n rows) @ drop n rows)"
proof (induction n arbitrary: rows)
  case (Suc i)
  then have i: "i < length rows" by simp
  have tk: "take (Suc i) rows = take i rows @ [rows ! i]" using i by (rule take_Suc_load)
  show ?case
  proof (cases "key (rows ! i) \<in> ids")
    case True
    have d: "drop i rows = rows ! i # drop (Suc i) rows" using i by (rule Cons_nth_drop_Suc [symmetric])
    from Suc.IH [of rows] i obtain sg where
      "remove_missing key ids i rows = Some (filter (\<lambda>r. key r \<in> ids) (take i rows) @ drop i rows, sg)"
      "view_led sg rows (filter (\<lambda>r. key r \<in> ids) (take i rows) @ drop i rows)"
      by auto
    with i True show ?thesis by (simp add: tk d)
  next
    case False
    let ?rows = "take i rows @ drop (Suc i) rows"
    have l: "length ?rows = length rows - 1" "i \<le> length ?rows" using i by auto
    from Suc.IH [OF l(2)] obtain sg where
      "remove_missing key ids i ?rows = Some (filter (\<lambda>r. key r \<in> ids) (take i ?rows) @ drop i ?rows, sg)"
      "view_led sg ?rows (filter (\<lambda>r. key r \<in> ids) (take i ?rows) @ drop i ?rows)"
      by blast
    with i False l view_led_Cons [OF view_led_step(1) [OF i], of sg] show ?thesis by (simp add: tk)
  qed
qed simp

lemma remove_missing_all:
  obtains sg where "remove_missing key ids (length rows) rows = Some (filter (\<lambda>r. key r \<in> ids) rows, sg)"
    "view_led sg rows (filter (\<lambda>r. key r \<in> ids) rows)"
  using remove_missing_ok [of "length rows" rows key ids] that by auto

lemma positions_from_other:
  "k \<notin> key ` set rs \<Longrightarrow> positions_from key i rs m k = m k"
  by (induction rs arbitrary: i m) auto

lemma positions_from_nth:
  "distinct (map key rs) \<Longrightarrow> j < length rs \<Longrightarrow> positions_from key i rs m (key (rs ! j)) = Some (i + j)"
proof (induction rs arbitrary: i j m)
  case (Cons r rs)
  then show ?case by (cases j) (auto simp: positions_from_other)
qed simp

lemma newest_Cons: "newest key (n # ns) r = (if key n = key r then newest key ns n else newest key ns r)"
  by (simp add: newest_def)

lemma key_newest [simp]: "key (newest key new r) = key r"
  by (induction new arbitrary: r) (auto simp: newest_Cons, simp add: newest_def)

text \<open>What the map of the positions knows of the rows that were kept.\<close>

definition positions_ok :: "('r \<Rightarrow> string) \<Rightarrow> (string \<rightharpoonup> nat) \<Rightarrow> 'r list \<Rightarrow> bool" where
  "positions_ok key pos ks \<longleftrightarrow> distinct (map key ks) \<and> (\<forall>j < length ks. pos (key (ks ! j)) = Some j) \<and>
     (\<forall>k. k \<notin> key ` set ks \<longrightarrow> pos k = None)"

lemma positions_ok_from: "distinct (map key ks) \<Longrightarrow> positions_ok key (positions_from key 0 ks Map.empty) ks"
  by (simp add: positions_ok_def positions_from_nth positions_from_other)

lemma positions_ok_update:
  assumes "positions_ok key pos ks" and "row < length ks" and "key (ks ! row) = key r"
  shows "positions_ok key pos (ks[row := r])"
proof -
  have "map key (ks[row := r]) = map key ks"
    using assms(2,3) by (simp add: map_update list_update_same_conv)
  moreover have "key ` set ks = set (map key ks)" "key ` set (ks[row := r]) = set (map key (ks[row := r]))"
    by simp_all
  moreover have "key (ks[row := r] ! j) = key (ks ! j)" if "j < length ks" for j
    using assms(3) that by (cases "j = row") simp_all
  ultimately show ?thesis using assms(1) unfolding positions_ok_def by simp
qed

lemma newest_update:
  assumes "positions_ok key pos ks" and "row < length ks" and "key (ks ! row) = key r"
  shows "map (newest key rs) (ks[row := r]) = map (newest key (r # rs)) ks"
proof (rule nth_equalityI)
  fix j assume "j < length (map (newest key rs) (ks[row := r]))"
  then have j: "j < length ks" by simp
  have "key (ks ! j) \<noteq> key r" if "j \<noteq> row"
  proof
    assume "key (ks ! j) = key r"
    then have "pos (key (ks ! j)) = pos (key (ks ! row))" using assms(3) by simp
    with assms(1,2) j that show False by (simp add: positions_ok_def)
  qed
  with j assms(2,3) show "map (newest key rs) (ks[row := r]) ! j = map (newest key (r # rs)) ks ! j"
    by (cases "j = row") (simp_all add: newest_Cons)
qed simp

lemma upsert_rows_ok:
  "positions_ok key pos ks \<Longrightarrow> \<exists>sg. upsert_rows key pos new (ks @ as) =
     Some (map (newest key new) ks @ as @ filter (\<lambda>n. key n \<notin> key ` set ks) new, sg) \<and>
     view_led sg (ks @ as) (map (newest key new) ks @ as @ filter (\<lambda>n. key n \<notin> key ` set ks) new)"
proof (induction new arbitrary: ks as)
  case Nil
  then show ?case by (simp add: newest_def)
next
  case (Cons r rs)
  show ?case
  proof (cases "key r \<in> key ` set ks")
    case True
    then obtain row where row: "row < length ks" "key (ks ! row) = key r" by (auto simp: in_set_conv_nth)
    have keys: "key ` set (ks[row := r]) = key ` set ks"
    proof -
      have "map key (ks[row := r]) = map key ks" using row by (simp add: map_update list_update_same_conv)
      from arg_cong [OF this, of set] show ?thesis by simp
    qed
    from Cons.IH [OF positions_ok_update [OF Cons.prems row], of as] obtain sg where
      "upsert_rows key pos rs (ks[row := r] @ as) =
        Some (map (newest key rs) (ks[row := r]) @ as @ filter (\<lambda>n. key n \<notin> key ` set ks) rs, sg)"
      "view_led sg (ks[row := r] @ as) (map (newest key rs) (ks[row := r]) @ as @ filter (\<lambda>n. key n \<notin> key ` set ks) rs)"
      unfolding keys by auto
    moreover have "view_led [DataChanged row] (ks @ as) (ks[row := r] @ as)"
      using view_led_step(3) [of row "ks @ as" r] row(1) by (simp add: list_update_append)
    moreover have "pos (key r) = Some row" using Cons.prems row unfolding positions_ok_def by metis
    ultimately show ?thesis
      using row True view_led_Cons [of "DataChanged row" "ks @ as"]
      by (simp add: list_update_append newest_update [OF Cons.prems row] store_at_def)
  next
    case False
    then have no: "pos (key r) = None" using Cons.prems by (simp add: positions_ok_def)
    have nw: "map (newest key (r # rs)) ks = map (newest key rs) ks"
      using False by (auto simp: newest_Cons)
    from Cons.IH [OF Cons.prems, of "as @ [r]"] obtain sg where
      "upsert_rows key pos rs (ks @ as @ [r]) =
        Some (map (newest key rs) ks @ as @ r # filter (\<lambda>n. key n \<notin> key ` set ks) rs, sg)"
      "view_led sg (ks @ as @ [r]) (map (newest key rs) ks @ as @ r # filter (\<lambda>n. key n \<notin> key ` set ks) rs)"
      by auto
    moreover have "view_led [InsertRow (length ks + length as)] (ks @ as) (ks @ as @ [r])"
      using view_led_step(2) [of "ks @ as" r] by simp
    ultimately show ?thesis
      unfolding nw using False no view_led_Cons [of "InsertRow (length ks + length as)" "ks @ as" "ks @ as @ [r]"] by simp
  qed
qed

lemma set_rows_ok:
  assumes "distinct (map key rows)"
  shows "\<exists>sg. set_rows key new rows = Some (merge_rows key new rows, sg) \<and>
    view_led sg rows (merge_rows key new rows)"
proof -
  let ?kept = "filter (\<lambda>r. key r \<in> key ` set new) rows"
  obtain s1 where s1: "remove_missing key (key ` set new) (length rows) rows = Some (?kept, s1)"
    "view_led s1 rows ?kept" by (rule remove_missing_all)
  have "positions_ok key (positions_from key 0 ?kept Map.empty) ?kept"
    using assms by (intro positions_ok_from distinct_map_filter)
  from upsert_rows_ok [OF this, of new "[]"] obtain s2 where
    s2: "upsert_rows key (positions_from key 0 ?kept Map.empty) new ?kept =
      Some (map (newest key new) ?kept @ filter (\<lambda>n. key n \<notin> key ` set ?kept) new, s2)"
    "view_led s2 ?kept (map (newest key new) ?kept @ filter (\<lambda>n. key n \<notin> key ` set ?kept) new)" by auto
  have f: "filter (\<lambda>n. key n \<notin> key ` set ?kept) new = filter (\<lambda>n. key n \<notin> key ` set rows) new"
  proof (rule filter_cong [OF refl])
    fix n assume "n \<in> set new"
    then have "key n \<in> key ` set new" by (rule imageI)
    then have "key n \<in> key ` set ?kept \<longleftrightarrow> (\<exists>r \<in> set rows. key r = key n)"
      unfolding image_iff set_filter by fastforce
    also have "\<dots> \<longleftrightarrow> key n \<in> key ` set rows" by (auto intro: rev_image_eqI)
    finally have "key n \<in> key ` set ?kept \<longleftrightarrow> key n \<in> key ` set rows" .
    then show "(key n \<notin> key ` set ?kept) = (key n \<notin> key ` set rows)" by simp
  qed
  have "view_led (s1 @ s2 @ [CountChanged]) rows (merge_rows key new rows)"
    using view_led_count [OF view_led_trans [OF s1(2) s2(2) [unfolded f]]] by (simp add: merge_rows_def)
  with s1(1) s2(1) [unfolded f] show ?thesis by (simp add: set_rows_def merge_rows_def)
qed

text \<open>For distinct identifiers the rows are those given.\<close>

lemma newest_in:
  "distinct (map key new) \<Longrightarrow> n \<in> set new \<Longrightarrow> key n = key r \<Longrightarrow> newest key new r = n"
proof (induction new arbitrary: r)
  case (Cons m ms)
  have same: "newest key ms x = x" if "key x \<notin> key ` set ms" for x
    using that by (induction ms) (simp add: newest_def, auto simp: newest_Cons)
  from Cons show ?case by (auto simp: newest_Cons same)
qed simp

lemma merge_rows_distinct:
  assumes "distinct (map key old)" and "distinct (map key new)"
  shows "distinct (map key (merge_rows key new old))" and "set (merge_rows key new old) = set new"
proof -
  let ?k = "filter (\<lambda>r. key r \<in> key ` set new) old"
  have "map key (map (newest key new) ?k) = map key ?k" by simp
  moreover have "distinct (map key ?k)" using assms(1) by (rule distinct_map_filter)
  moreover have "distinct (map key (filter (\<lambda>n. key n \<notin> key ` set old) new))"
    using assms(2) by (rule distinct_map_filter)
  ultimately show "distinct (map key (merge_rows key new old))"
    by (auto simp: merge_rows_def simp del: map_map) (metis imageI)
  show "set (merge_rows key new old) = set new"
  proof (intro equalityI subsetI)
    fix x assume "x \<in> set (merge_rows key new old)"
    then consider r n where "r \<in> set old" "n \<in> set new" "key r = key n" "x = newest key new r" | "x \<in> set new"
      by (auto simp: merge_rows_def)
    then show "x \<in> set new" using newest_in [OF assms(2)] by cases auto
  next
    fix x assume x: "x \<in> set new"
    show "x \<in> set (merge_rows key new old)"
    proof (cases "key x \<in> key ` set old")
      case True
      then obtain r where r: "r \<in> set old" "key x = key r" by auto
      have "r \<in> set ?k" using r x by (auto intro: rev_image_eqI)
      then have "newest key new r \<in> newest key new ` set ?k" by (rule imageI)
      then show ?thesis unfolding newest_in [OF assms(2) x r(2)] by (simp add: merge_rows_def)
    qed (use x in \<open>simp add: merge_rows_def\<close>)
  qed
qed

lemma update_from_ok:
  "i + n = length rows \<Longrightarrow> \<forall>j < i. key (rows ! j) \<noteq> key r \<Longrightarrow> \<exists>sg rows'. update_from key r i n rows = Some (rows', sg) \<and>
     view_led sg rows rows' \<and>
     (if \<exists>x \<in> set rows. key x = key r
      then \<exists>j < length rows. key (rows ! j) = key r \<and> (\<forall>k < j. key (rows ! k) \<noteq> key r) \<and> rows' = rows[j := r]
      else rows' = rows @ [r])"
proof (induction n arbitrary: i)
  case 0
  then have "\<not> (\<exists>x \<in> set rows. key x = key r)" by (auto simp: in_set_conv_nth)
  with view_led_Cons [OF view_led_step(2), of "[CountChanged]" rows r] show ?case by simp
next
  case (Suc n)
  then have i: "i < length rows" by simp
  show ?case
  proof (cases "key (rows ! i) = key r")
    case True
    with i Suc.prems have "\<exists>x \<in> set rows. key x = key r" using nth_mem by blast
    moreover have "\<exists>j<length rows. key (rows ! j) = key r \<and> (\<forall>k<j. key (rows ! k) \<noteq> key r) \<and> rows[i := r] = rows[j := r]"
      using True i Suc.prems by (intro exI [of _ i]) simp
    ultimately show ?thesis using True i view_led_step(3) [OF i] by simp
  next
    case False
    with Suc.prems have "\<forall>j < Suc i. key (rows ! j) \<noteq> key r" using less_Suc_eq by auto
    from Suc.IH [OF _ this] Suc.prems i False show ?thesis by simp
  qed
qed

lemma update_row_ok:
  "\<exists>sg rows'. update_row key r rows = Some (rows', sg) \<and> view_led sg rows rows' \<and>
     (if \<exists>x \<in> set rows. key x = key r
      then \<exists>j < length rows. key (rows ! j) = key r \<and> (\<forall>k < j. key (rows ! k) \<noteq> key r) \<and> rows' = rows[j := r]
      else rows' = rows @ [r])"
  unfolding update_row_def by (rule update_from_ok) simp_all

lemma clear_rows_ok: "view_led (snd (clear_rows rows)) rows [] \<and> fst (clear_rows rows) = []"
  using view_led_Cons [OF view_led_step(4), of "[CountChanged]" "[]" rows] by (simp add: clear_rows_def)

text \<open>The reference for one row: the first with its identifier is replaced, or it is appended.\<close>

fun put_row :: "('r \<Rightarrow> string) \<Rightarrow> 'r \<Rightarrow> 'r list \<Rightarrow> 'r list" where
  "put_row key r [] = [r]"
| "put_row key r (x # xs) = (if key x = key r then r # xs else x # put_row key r xs)"

lemma put_row_at:
  "\<lbrakk>j < length rows; key (rows ! j) = key r; \<forall>k < j. key (rows ! k) \<noteq> key r\<rbrakk> \<Longrightarrow> put_row key r rows = rows[j := r]"
proof (induction rows arbitrary: j)
  case (Cons x xs)
  show ?case
  proof (cases j)
    case (Suc i)
    with Cons.prems have "\<forall>k < i. key (xs ! k) \<noteq> key r" by (metis Suc_mono nth_Cons_Suc)
    with Cons.IH [of i] Cons.prems Suc show ?thesis by auto
  qed (use Cons.prems in simp)
qed simp

lemma put_row_new: "\<forall>x\<in>set rows. key x \<noteq> key r \<Longrightarrow> put_row key r rows = rows @ [r]"
  by (induction rows) auto

lemma update_row_put:
  "\<exists>sg. update_row key r rows = Some (put_row key r rows, sg) \<and>
     view_led sg rows (put_row key r rows)"
proof -
  obtain sg rows' where u: "update_row key r rows = Some (rows', sg)" "view_led sg rows rows'"
    "if \<exists>x \<in> set rows. key x = key r
      then \<exists>j < length rows. key (rows ! j) = key r \<and> (\<forall>k < j. key (rows ! k) \<noteq> key r) \<and> rows' = rows[j := r]
      else rows' = rows @ [r]"
    using update_row_ok [of key r rows] by blast
  from u(3) have "rows' = put_row key r rows"
    using put_row_at [of _ rows key r] put_row_new [of rows key r] by (auto split: if_splits)
  with u(1,2) show ?thesis by simp
qed

lemma find_put_row:
  "find (\<lambda>x. key x = k) (put_row key r rows) = (if key r = k then Some r else find (\<lambda>x. key x = k) rows)"
  by (induction rows) auto

lemma keys_put_row: "distinct (map key rows) \<Longrightarrow> distinct (map key (put_row key r rows))"
proof (induction rows)
  case (Cons x xs)
  have "key ` set (put_row key r xs) = insert (key r) (key ` set xs)" by (induction xs) auto
  with Cons show ?case by auto
qed simp

text \<open>Whatever the identifiers, replacing the rows never leaves them or the views.\<close>

lemma positions_from_bound: "positions_from key i rs m k = Some j \<Longrightarrow> m k = Some j \<or> j < i + length rs"
  by (induction rs arbitrary: i m) (fastforce split: if_splits)+

lemma upsert_rows_total:
  "\<forall>k j. pos k = Some j \<longrightarrow> j < length rows \<Longrightarrow>
    \<exists>rows' sg. upsert_rows key pos new rows = Some (rows', sg) \<and> view_led sg rows rows'"
proof (induction new arbitrary: rows)
  case (Cons r rs)
  show ?case
  proof (cases "pos (key r)")
    case None
    have "\<forall>k j. pos k = Some j \<longrightarrow> j < length (rows @ [r])" using Cons.prems by (auto intro: less_SucI)
    from Cons.IH [OF this] view_led_Cons [OF view_led_step(2)] None show ?thesis by fastforce
  next
    case (Some row)
    have "\<forall>k j. pos k = Some j \<longrightarrow> j < length (rows[row := r])" using Cons.prems by simp
    moreover have row: "row < length rows" using Some Cons.prems by blast
    ultimately obtain rows' sg where "upsert_rows key pos rs (rows[row := r]) = Some (rows', sg)"
      "view_led sg (rows[row := r]) rows'" using Cons.IH by blast
    with Some row view_led_Cons [OF view_led_step(3) [OF row]] show ?thesis by fastforce
  qed
qed simp

lemma set_rows_total:
  "\<exists>rows' sg. set_rows key new rows = Some (rows', sg) \<and> view_led sg rows rows'"
proof -
  let ?kept = "filter (\<lambda>r. key r \<in> key ` set new) rows"
  obtain s1 where s1: "remove_missing key (key ` set new) (length rows) rows = Some (?kept, s1)"
    "view_led s1 rows ?kept" by (rule remove_missing_all)
  have "\<forall>k j. positions_from key 0 ?kept Map.empty k = Some j \<longrightarrow> j < length ?kept"
    using positions_from_bound by fastforce
  from upsert_rows_total [OF this, of key new] obtain rows' s2 where
    "upsert_rows key (positions_from key 0 ?kept Map.empty) new ?kept = Some (rows', s2)"
    "view_led s2 ?kept rows'" by blast
  with s1 view_led_count [OF view_led_trans [OF s1(2), of s2 rows']] show ?thesis by (simp add: set_rows_def)
qed

section \<open>The contract of a model with identified rows\<close>

text \<open>
  What a report about one row relies on, in every model: the row of its identifier is replaced or it is
  appended, and the signals lead a view to the rows the model has.
\<close>

locale keyed_rows =
  fixes key :: "'r \<Rightarrow> string"
    and rows :: "'m \<Rightarrow> 'r list"
    and set_one :: "'r \<Rightarrow> 'm \<Rightarrow> ('m \<times> row_signal list) option"
  assumes set_one_row: "\<exists>m' sg. set_one r m = Some (m', sg) \<and> rows m' = put_row key r (rows m) \<and>
      view_led sg (rows m) (rows m')"
begin

fun set_ones :: "'r list \<Rightarrow> 'm \<Rightarrow> 'm option" where
  "set_ones [] m = Some m"
| "set_ones (r # rs) m = Option.bind (set_one r m) (\<lambda>(m', _). set_ones rs m')"

text \<open>After reports about rows, each row shows the last report with its identifier.\<close>

lemma last_report:
  assumes "distinct (map key (rows m))"
  shows "\<exists>m'. set_ones rs m = Some m' \<and> distinct (map key (rows m')) \<and>
    (\<forall>k. find (\<lambda>r. key r = k) (rows m') = find (\<lambda>r. key r = k) (rev rs @ rows m))"
  using assms
proof (induction rs arbitrary: m)
  case (Cons r rs)
  obtain m1 sg where u: "set_one r m = Some (m1, sg)" "rows m1 = put_row key r (rows m)" using set_one_row by blast
  have f: "find P (xs @ ys) = (case find P xs of None \<Rightarrow> find P ys | Some x \<Rightarrow> Some x)" for P :: "'r \<Rightarrow> bool" and xs ys
    by (induction xs) auto
  have "distinct (map key (rows m1))" unfolding u(2) by (rule keys_put_row [OF Cons.prems])
  from Cons.IH [OF this] obtain m' where
    i: "set_ones rs m1 = Some m'" "distinct (map key (rows m'))"
      "\<And>k. find (\<lambda>r. key r = k) (rows m') = find (\<lambda>r. key r = k) (rev rs @ put_row key r (rows m))"
    unfolding u(2) by blast
  have "find (\<lambda>r. key r = k) (rows m') = find (\<lambda>r. key r = k) (rev (r # rs) @ rows m)" for k
    unfolding i(3) by (simp add: f find_put_row split: option.split)
  with i(1,2) u(1) show ?case by simp
qed simp

end

end
