(* ===== verification/Dto.thy ===== *)
theory Dto
  imports Prelude
begin

text \<open>
  The data the Coder API sends (\<^verbatim>\<open>src/app/src/api/dto/Workspace.h\<close> and
  \<^verbatim>\<open>Task.h\<close>), read from JSON. The JSON classes are those of Qt: a conversion to the wrong
  type gives the default value of that type, and so does a missing key. The parser of ISO dates is
  Qt's, a parameter; a null date is \<^term>\<open>None\<close>.
\<close>

section \<open>JSON\<close>

datatype json =
  JNull | JBool bool | JNumber double | JString string | JArray "json list" | JObject "(string \<times> json) list"

type_synonym json_object = "(string \<times> json) list"
type_synonym date = "nat option"

definition value_of :: "json_object \<Rightarrow> string \<Rightarrow> json" where
  "value_of obj k = (case map_of obj k of None \<Rightarrow> JNull | Some v \<Rightarrow> v)"

fun toString :: "json \<Rightarrow> string" where
  "toString (JString s) = s" | "toString _ = []"

fun toBool :: "json \<Rightarrow> bool" where
  "toBool (JBool b) = b" | "toBool _ = False"

fun toArray :: "json \<Rightarrow> json list" where
  "toArray (JArray xs) = xs" | "toArray _ = []"

fun toObject :: "json \<Rightarrow> json_object" where
  "toObject (JObject obj) = obj" | "toObject _ = []"

abbreviation str :: "json_object \<Rightarrow> string \<Rightarrow> string" where
  "str obj k \<equiv> toString (value_of obj k)"

definition date_of :: "(string \<Rightarrow> date) \<Rightarrow> string \<Rightarrow> date" where
  "date_of parse_date ts = (if ts \<noteq> [] then parse_date ts else None)"

section \<open>Workspaces\<close>

datatype WorkspaceStatus =
  WS_Running | WS_Stopped | WS_Starting | WS_Stopping | WS_Failed | WS_Canceling | WS_Canceled
| WS_Deleting | WS_Deleted | WS_Pending | WS_Unknown

datatype AgentStatus = AS_Connected | AS_Disconnected | AS_Connecting | AS_Timeout | AS_Unknown

text \<open>The values of the enums, as \<^verbatim>\<open>static_cast<int>\<close> gives them.\<close>

fun ws_int :: "WorkspaceStatus \<Rightarrow> int" where
  "ws_int WS_Running = 0" | "ws_int WS_Stopped = 1" | "ws_int WS_Starting = 2" | "ws_int WS_Stopping = 3"
| "ws_int WS_Failed = 4" | "ws_int WS_Canceling = 5" | "ws_int WS_Canceled = 6" | "ws_int WS_Deleting = 7"
| "ws_int WS_Deleted = 8" | "ws_int WS_Pending = 9" | "ws_int WS_Unknown = 10"

fun as_int :: "AgentStatus \<Rightarrow> int" where
  "as_int AS_Connected = 0" | "as_int AS_Disconnected = 1" | "as_int AS_Connecting = 2"
| "as_int AS_Timeout = 3" | "as_int AS_Unknown = 4"

definition workspaceStatusFromString :: "string \<Rightarrow> WorkspaceStatus" where
  "workspaceStatusFromString s =
     (if s = ''running'' then WS_Running
      else if s = ''stopped'' then WS_Stopped
      else if s = ''starting'' then WS_Starting
      else if s = ''stopping'' then WS_Stopping
      else if s = ''failed'' then WS_Failed
      else if s = ''canceling'' then WS_Canceling
      else if s = ''canceled'' then WS_Canceled
      else if s = ''deleting'' then WS_Deleting
      else if s = ''deleted'' then WS_Deleted
      else if s = ''pending'' then WS_Pending
      else WS_Unknown)"

definition agentStatusFromString :: "string \<Rightarrow> AgentStatus" where
  "agentStatusFromString s =
     (if s = ''connected'' then AS_Connected
      else if s = ''disconnected'' then AS_Disconnected
      else if s = ''connecting'' then AS_Connecting
      else if s = ''timeout'' then AS_Timeout
      else AS_Unknown)"

record WorkspaceApp =
  wa_displayName :: string
  wa_slug :: string
  wa_icon :: string
  wa_url :: string
  wa_subdomain :: bool
  wa_external :: bool

definition app_fromJson :: "json_object \<Rightarrow> WorkspaceApp" where
  "app_fromJson obj =
     \<lparr>wa_displayName = str obj ''display_name'', wa_slug = str obj ''slug'', wa_icon = str obj ''icon'',
      wa_url = str obj ''url'', wa_subdomain = toBool (value_of obj ''subdomain''),
      wa_external = toBool (value_of obj ''external'')\<rparr>"

record Agent =
  ag_id :: string
  ag_name :: string
  ag_status :: AgentStatus
  ag_apps :: "WorkspaceApp list"

definition agent_fromJson :: "json_object \<Rightarrow> Agent" where
  "agent_fromJson obj =
     \<lparr>ag_id = str obj ''id'', ag_name = str obj ''name'',
      ag_status = agentStatusFromString (str obj ''status''),
      ag_apps = map (app_fromJson \<circ> toObject) (toArray (value_of obj ''apps''))\<rparr>"

record Workspace =
  w_id :: string
  w_name :: string
  w_ownerName :: string
  w_templateName :: string
  w_templateIcon :: string
  w_status :: WorkspaceStatus
  w_health :: string
  w_agents :: "Agent list"
  w_favorite :: bool
  w_outdated :: bool
  w_latestBuildId :: string
  w_templateActiveVersionId :: string

text \<open>The agents of all resources of a build, in order.\<close>

definition build_agents :: "json_object \<Rightarrow> Agent list" where
  "build_agents latestBuild =
     concat (map (\<lambda>rv. map (agent_fromJson \<circ> toObject) (toArray (value_of (toObject rv) ''agents'')))
       (toArray (value_of latestBuild ''resources'')))"

definition workspace_fromJson :: "json_object \<Rightarrow> Workspace" where
  "workspace_fromJson obj =
     (let latestBuild = toObject (value_of obj ''latest_build'') in
      \<lparr>w_id = str obj ''id'', w_name = str obj ''name'', w_ownerName = str obj ''owner_name'',
       w_templateName = str obj ''template_name'', w_templateIcon = str obj ''template_icon'',
       w_status = workspaceStatusFromString (str latestBuild ''status''),
       w_health = (if toBool (value_of (toObject (value_of obj ''health'')) ''healthy'')
                   then ''healthy'' else ''unhealthy''),
       w_agents = build_agents latestBuild,
       w_favorite = toBool (value_of obj ''favorite''),
       w_outdated = toBool (value_of obj ''outdated''),
       w_latestBuildId = str latestBuild ''id'',
       w_templateActiveVersionId = str obj ''template_active_version_id''\<rparr>)"

section \<open>Tasks\<close>

datatype TaskStatus = TS_Pending | TS_Initializing | TS_Active | TS_Paused | TS_Error | TS_Unknown

datatype TaskState = St_Working | St_Idle | St_Complete | St_Failed

fun ts_int :: "TaskStatus \<Rightarrow> int" where
  "ts_int TS_Pending = 0" | "ts_int TS_Initializing = 1" | "ts_int TS_Active = 2"
| "ts_int TS_Paused = 3" | "ts_int TS_Error = 4" | "ts_int TS_Unknown = 5"

fun st_int :: "TaskState \<Rightarrow> int" where
  "st_int St_Working = 0" | "st_int St_Idle = 1" | "st_int St_Complete = 2" | "st_int St_Failed = 3"

definition taskStatusFromString :: "string \<Rightarrow> TaskStatus" where
  "taskStatusFromString s =
     (if s = ''pending'' then TS_Pending
      else if s = ''initializing'' then TS_Initializing
      else if s = ''active'' then TS_Active
      else if s = ''paused'' then TS_Paused
      else if s = ''error'' then TS_Error
      else TS_Unknown)"

definition taskStateFromString :: "string \<Rightarrow> TaskState" where
  "taskStateFromString s =
     (if s = ''working'' then St_Working
      else if s = ''idle'' then St_Idle
      else if s = ''complete'' then St_Complete
      else if s = ''failed'' then St_Failed
      else St_Idle)"

fun taskStatusToString :: "TaskStatus \<Rightarrow> string" where
  "taskStatusToString TS_Pending = ''Pending''"
| "taskStatusToString TS_Initializing = ''Initializing''"
| "taskStatusToString TS_Active = ''Active''"
| "taskStatusToString TS_Paused = ''Paused''"
| "taskStatusToString TS_Error = ''Error''"
| "taskStatusToString TS_Unknown = ''Unknown''"

fun taskStateToString :: "TaskState \<Rightarrow> string" where
  "taskStateToString St_Working = ''Working''"
| "taskStateToString St_Idle = ''Idle''"
| "taskStateToString St_Complete = ''Complete''"
| "taskStateToString St_Failed = ''Failed''"

record TaskStateEntry =
  se_timestamp :: date
  se_state :: TaskState
  se_message :: string
  se_uri :: string

definition no_state_entry :: TaskStateEntry where
  "no_state_entry = \<lparr>se_timestamp = None, se_state = St_Idle, se_message = [], se_uri = []\<rparr>"

definition state_fromJson :: "(string \<Rightarrow> date) \<Rightarrow> json_object \<Rightarrow> TaskStateEntry" where
  "state_fromJson parse_date obj =
     \<lparr>se_timestamp = date_of parse_date (str obj ''timestamp''), se_state = taskStateFromString (str obj ''state''),
      se_message = str obj ''message'', se_uri = str obj ''uri''\<rparr>"

record Task =
  t_id :: string
  t_name :: string
  t_displayName :: string
  t_ownerName :: string
  t_ownerAvatarUrl :: string
  t_templateName :: string
  t_templateDisplayName :: string
  t_templateIcon :: string
  t_templateVersionId :: string
  t_workspaceId :: string
  t_workspaceName :: string
  t_workspaceAppId :: string
  t_initialPrompt :: string
  t_status :: TaskStatus
  t_currentState :: TaskStateEntry
  t_createdAt :: date
  t_updatedAt :: date

definition task_fromJson :: "(string \<Rightarrow> date) \<Rightarrow> json_object \<Rightarrow> Task" where
  "task_fromJson parse_date obj =
     (let stateObj = toObject (value_of obj ''current_state'') in
      \<lparr>t_id = str obj ''id'', t_name = str obj ''name'', t_displayName = str obj ''display_name'',
       t_ownerName = str obj ''owner_name'', t_ownerAvatarUrl = str obj ''owner_avatar_url'',
       t_templateName = str obj ''template_name'', t_templateDisplayName = str obj ''template_display_name'',
       t_templateIcon = str obj ''template_icon'', t_templateVersionId = str obj ''template_version_id'',
       t_workspaceId = str obj ''workspace_id'', t_workspaceName = str obj ''workspace_name'',
       t_workspaceAppId = str obj ''workspace_app_id'', t_initialPrompt = str obj ''initial_prompt'',
       t_status = taskStatusFromString (str obj ''status''),
       t_currentState = (if stateObj \<noteq> [] then state_fromJson parse_date stateObj else no_state_entry),
       t_createdAt = date_of parse_date (str obj ''created_at''),
       t_updatedAt = date_of parse_date (str obj ''updated_at'')\<rparr>)"

section \<open>Templates and build information\<close>

record Template =
  tmpl_id :: string
  tmpl_name :: string
  tmpl_displayName :: string
  tmpl_description :: string
  tmpl_icon :: string
  tmpl_activeVersionId :: string
  tmpl_organizationId :: string

definition template_fromJson :: "json_object \<Rightarrow> Template" where
  "template_fromJson obj =
     \<lparr>tmpl_id = str obj ''id'', tmpl_name = str obj ''name'', tmpl_displayName = str obj ''display_name'',
      tmpl_description = str obj ''description'', tmpl_icon = str obj ''icon'',
      tmpl_activeVersionId = str obj ''active_version_id'', tmpl_organizationId = str obj ''organization_id''\<rparr>"

definition templates_fromJson :: "json list \<Rightarrow> Template list" where
  "templates_fromJson arr = map (template_fromJson \<circ> toObject) arr"

record BuildInfo =
  bi_version :: string
  bi_dashboardUrl :: string
  bi_externalAuthEnabled :: bool

definition buildInfo_fromJson :: "json_object \<Rightarrow> BuildInfo" where
  "buildInfo_fromJson obj =
     \<lparr>bi_version = str obj ''version'', bi_dashboardUrl = str obj ''dashboard_url'',
      bi_externalAuthEnabled = toBool (value_of obj ''external_auth_enabled'')\<rparr>"

end
