(* ===== verification/Models.thy ===== *)
theory Models
  imports Row_Sync Dto
begin

text \<open>
  The workspace and the task model (\<^verbatim>\<open>src/app/src/models/WorkspaceModel.cpp\<close>,
  \<^verbatim>\<open>TaskModel.cpp\<close>): what they hold, how the views read it, how a poll replaces it.
  Debug output is left out.
\<close>

section \<open>Values for the views\<close>

datatype qvariant =
  QInvalid | QString string | QInt int | QBool bool | QDate date | QDouble double

text \<open>A view asks for a row; \<^term>\<open>None\<close> is the invalid index.\<close>

type_synonym row_index = "int option"

definition row_at :: "'r list \<Rightarrow> row_index \<Rightarrow> 'r option" where
  "row_at rows idx =
     (case idx of
        None \<Rightarrow> None
      | Some i \<Rightarrow> if i < 0 \<or> i \<ge> int (length rows) then None else load_at rows (nat i))"

section \<open>Workspaces\<close>

record WorkspaceInfo =
  wi_id :: string
  wi_name :: string
  wi_ownerName :: string
  wi_templateName :: string
  wi_templateIcon :: string
  wi_status :: int
  wi_health :: bool
  wi_favorite :: bool
  wi_outdated :: bool
  wi_agentCount :: int
  wi_agentStatus :: int
  wi_lastUsedAt :: date

definition info_of_json :: "(string \<Rightarrow> date) \<Rightarrow> json_object \<Rightarrow> WorkspaceInfo" where
  "info_of_json parse_date obj =
     (let ws = workspace_fromJson obj in
      \<lparr>wi_id = w_id ws, wi_name = w_name ws, wi_ownerName = w_ownerName ws,
       wi_templateName = w_templateName ws, wi_templateIcon = w_templateIcon ws,
       wi_status = ws_int (w_status ws), wi_health = (w_health ws = ''healthy''),
       wi_favorite = w_favorite ws, wi_outdated = w_outdated ws,
       wi_agentCount = int (length (w_agents ws)),
       wi_agentStatus = (case w_agents ws of [] \<Rightarrow> 0 | a # _ \<Rightarrow> as_int (ag_status a)),
       wi_lastUsedAt = date_of parse_date (str obj ''last_used_at'')\<rparr>)"

definition statusToString :: "int \<Rightarrow> string" where
  "statusToString status =
     (if status = ws_int WS_Running then ''Running''
      else if status = ws_int WS_Stopped then ''Stopped''
      else if status = ws_int WS_Starting then ''Starting''
      else if status = ws_int WS_Stopping then ''Stopping''
      else if status = ws_int WS_Failed then ''Failed''
      else if status = ws_int WS_Canceling then ''Canceling''
      else if status = ws_int WS_Canceled then ''Canceled''
      else if status = ws_int WS_Deleting then ''Deleting''
      else if status = ws_int WS_Deleted then ''Deleted''
      else if status = ws_int WS_Pending then ''Pending''
      else ''Unknown'')"

datatype WorkspaceRole =
  W_IdRole | W_NameRole | W_OwnerNameRole | W_TemplateNameRole | W_TemplateIconRole | W_StatusRole
| W_StatusStringRole | W_HealthRole | W_FavoriteRole | W_OutdatedRole | W_AgentCountRole
| W_AgentStatusRole | W_LastUsedAtRole | W_OtherRole int

fun workspace_value :: "WorkspaceInfo \<Rightarrow> WorkspaceRole \<Rightarrow> qvariant" where
  "workspace_value ws W_IdRole = QString (wi_id ws)"
| "workspace_value ws W_NameRole = QString (wi_name ws)"
| "workspace_value ws W_OwnerNameRole = QString (wi_ownerName ws)"
| "workspace_value ws W_TemplateNameRole = QString (wi_templateName ws)"
| "workspace_value ws W_TemplateIconRole = QString (wi_templateIcon ws)"
| "workspace_value ws W_StatusRole = QInt (wi_status ws)"
| "workspace_value ws W_StatusStringRole = QString (statusToString (wi_status ws))"
| "workspace_value ws W_HealthRole = QBool (wi_health ws)"
| "workspace_value ws W_FavoriteRole = QBool (wi_favorite ws)"
| "workspace_value ws W_OutdatedRole = QBool (wi_outdated ws)"
| "workspace_value ws W_AgentCountRole = QInt (wi_agentCount ws)"
| "workspace_value ws W_AgentStatusRole = QInt (wi_agentStatus ws)"
| "workspace_value ws W_LastUsedAtRole = QDate (wi_lastUsedAt ws)"
| "workspace_value ws (W_OtherRole r) = QInvalid"

definition workspace_roleNames :: "(WorkspaceRole \<times> string) list" where
  "workspace_roleNames =
     [(W_IdRole, ''id''), (W_NameRole, ''name''), (W_OwnerNameRole, ''ownerName''),
      (W_TemplateNameRole, ''templateName''), (W_TemplateIconRole, ''templateIcon''),
      (W_StatusRole, ''status''), (W_StatusStringRole, ''statusString''), (W_HealthRole, ''health''),
      (W_FavoriteRole, ''favorite''), (W_OutdatedRole, ''outdated''),
      (W_AgentCountRole, ''agentCount''), (W_AgentStatusRole, ''agentStatus''),
      (W_LastUsedAtRole, ''lastUsedAt'')]"

record WorkspaceModel =
  m_workspaces :: "WorkspaceInfo list"
  wm_loading :: bool
  wm_errorMessage :: string

text \<open>\<open>parent_valid\<close>: the rows of a list have no rows of their own.\<close>

definition workspace_rowCount :: "bool \<Rightarrow> WorkspaceModel \<Rightarrow> nat" where
  "workspace_rowCount parent_valid m = (if parent_valid then 0 else length (m_workspaces m))"

definition workspace_data :: "WorkspaceModel \<Rightarrow> row_index \<Rightarrow> WorkspaceRole \<Rightarrow> qvariant" where
  "workspace_data m idx role =
     (case row_at (m_workspaces m) idx of None \<Rightarrow> QInvalid | Some ws \<Rightarrow> workspace_value ws role)"

definition setWorkspaces ::
    "WorkspaceInfo list \<Rightarrow> WorkspaceModel \<Rightarrow> (WorkspaceModel \<times> row_signal list) option" where
  "setWorkspaces workspaces m =
     map_option (\<lambda>(rows, sg). (m\<lparr>m_workspaces := rows\<rparr>, sg)) (set_rows wi_id workspaces (m_workspaces m))"

definition updateWorkspace ::
    "WorkspaceInfo \<Rightarrow> WorkspaceModel \<Rightarrow> (WorkspaceModel \<times> row_signal list) option" where
  "updateWorkspace workspace m =
     map_option (\<lambda>(rows, sg). (m\<lparr>m_workspaces := rows\<rparr>, sg)) (update_row wi_id workspace (m_workspaces m))"

definition workspace_clear :: "WorkspaceModel \<Rightarrow> WorkspaceModel \<times> row_signal list" where
  "workspace_clear m = (case clear_rows (m_workspaces m) of (rows, sg) \<Rightarrow> (m\<lparr>m_workspaces := rows\<rparr>, sg))"

definition workspace_setLoading :: "bool \<Rightarrow> WorkspaceModel \<Rightarrow> WorkspaceModel \<times> row_signal list" where
  "workspace_setLoading loading m =
     (if wm_loading m = loading then (m, []) else (m\<lparr>wm_loading := loading\<rparr>, [LoadingChanged]))"

definition workspace_setErrorMessage :: "string \<Rightarrow> WorkspaceModel \<Rightarrow> WorkspaceModel \<times> row_signal list" where
  "workspace_setErrorMessage msg m =
     (if wm_errorMessage m = msg then (m, []) else (m\<lparr>wm_errorMessage := msg\<rparr>, [ErrorChanged]))"

section \<open>Tasks\<close>

record TaskInfo =
  ti_id :: string
  ti_name :: string
  ti_displayName :: string
  ti_ownerName :: string
  ti_ownerAvatarUrl :: string
  ti_templateName :: string
  ti_templateIcon :: string
  ti_workspaceName :: string
  ti_initialPrompt :: string
  ti_status :: int
  ti_currentStateMessage :: string
  ti_currentState :: int
  ti_createdAt :: date
  ti_updatedAt :: date

definition fromTask :: "Task \<Rightarrow> TaskInfo" where
  "fromTask task =
     \<lparr>ti_id = t_id task, ti_name = t_name task, ti_displayName = t_displayName task,
      ti_ownerName = t_ownerName task, ti_ownerAvatarUrl = t_ownerAvatarUrl task,
      ti_templateName = t_templateName task, ti_templateIcon = t_templateIcon task,
      ti_workspaceName = t_workspaceName task, ti_initialPrompt = t_initialPrompt task,
      ti_status = ts_int (t_status task),
      ti_currentStateMessage = se_message (t_currentState task),
      ti_currentState = st_int (se_state (t_currentState task)),
      ti_createdAt = t_createdAt task, ti_updatedAt = t_updatedAt task\<rparr>"

definition task_info_of_json :: "(string \<Rightarrow> date) \<Rightarrow> json_object \<Rightarrow> TaskInfo" where
  "task_info_of_json parse_date obj = fromTask (task_fromJson parse_date obj)"

text \<open>The display string of a status that is an \<^verbatim>\<open>int\<close> again.\<close>

definition task_status_string :: "int \<Rightarrow> string" where
  "task_status_string status =
     (case find (\<lambda>s. ts_int s = status) [TS_Pending, TS_Initializing, TS_Active, TS_Paused, TS_Error, TS_Unknown] of
        Some s \<Rightarrow> taskStatusToString s
      | None \<Rightarrow> ''Unknown'')"

datatype TaskRole =
  T_IdRole | T_NameRole | T_DisplayNameRole | T_OwnerNameRole | T_OwnerAvatarRole | T_TemplateNameRole
| T_TemplateIconRole | T_WorkspaceNameRole | T_InitialPromptRole | T_StatusRole | T_StatusStringRole
| T_CurrentStateRole | T_CurrentStateMessageRole | T_CreatedAtRole | T_UpdatedAtRole | T_OtherRole int

fun task_value :: "TaskInfo \<Rightarrow> TaskRole \<Rightarrow> qvariant" where
  "task_value t T_IdRole = QString (ti_id t)"
| "task_value t T_NameRole = QString (ti_name t)"
| "task_value t T_DisplayNameRole = QString (ti_displayName t)"
| "task_value t T_OwnerNameRole = QString (ti_ownerName t)"
| "task_value t T_OwnerAvatarRole = QString (ti_ownerAvatarUrl t)"
| "task_value t T_TemplateNameRole = QString (ti_templateName t)"
| "task_value t T_TemplateIconRole = QString (ti_templateIcon t)"
| "task_value t T_WorkspaceNameRole = QString (ti_workspaceName t)"
| "task_value t T_InitialPromptRole = QString (ti_initialPrompt t)"
| "task_value t T_StatusRole = QInt (ti_status t)"
| "task_value t T_StatusStringRole = QString (task_status_string (ti_status t))"
| "task_value t T_CurrentStateRole = QInt (ti_currentState t)"
| "task_value t T_CurrentStateMessageRole = QString (ti_currentStateMessage t)"
| "task_value t T_CreatedAtRole = QDate (ti_createdAt t)"
| "task_value t T_UpdatedAtRole = QDate (ti_updatedAt t)"
| "task_value t (T_OtherRole r) = QInvalid"

definition task_roleNames :: "(TaskRole \<times> string) list" where
  "task_roleNames =
     [(T_IdRole, ''id''), (T_NameRole, ''name''), (T_DisplayNameRole, ''displayName''),
      (T_OwnerNameRole, ''ownerName''), (T_OwnerAvatarRole, ''ownerAvatar''),
      (T_TemplateNameRole, ''templateName''), (T_TemplateIconRole, ''templateIcon''),
      (T_WorkspaceNameRole, ''workspaceName''), (T_InitialPromptRole, ''initialPrompt''),
      (T_StatusRole, ''status''), (T_StatusStringRole, ''statusString''),
      (T_CurrentStateRole, ''currentState''), (T_CurrentStateMessageRole, ''currentStateMessage''),
      (T_CreatedAtRole, ''createdAt''), (T_UpdatedAtRole, ''updatedAt'')]"

record TaskModel =
  m_tasks :: "TaskInfo list"
  tm_loading :: bool
  tm_errorMessage :: string

definition task_rowCount :: "bool \<Rightarrow> TaskModel \<Rightarrow> nat" where
  "task_rowCount parent_valid m = (if parent_valid then 0 else length (m_tasks m))"

definition task_data :: "TaskModel \<Rightarrow> row_index \<Rightarrow> TaskRole \<Rightarrow> qvariant" where
  "task_data m idx role =
     (case row_at (m_tasks m) idx of None \<Rightarrow> QInvalid | Some t \<Rightarrow> task_value t role)"

definition setTasks :: "TaskInfo list \<Rightarrow> TaskModel \<Rightarrow> (TaskModel \<times> row_signal list) option" where
  "setTasks tasks m =
     map_option (\<lambda>(rows, sg). (m\<lparr>m_tasks := rows\<rparr>, sg)) (set_rows ti_id tasks (m_tasks m))"

definition updateTask :: "TaskInfo \<Rightarrow> TaskModel \<Rightarrow> (TaskModel \<times> row_signal list) option" where
  "updateTask task m =
     map_option (\<lambda>(rows, sg). (m\<lparr>m_tasks := rows\<rparr>, sg)) (update_row ti_id task (m_tasks m))"

definition task_clear :: "TaskModel \<Rightarrow> TaskModel \<times> row_signal list" where
  "task_clear m = (case clear_rows (m_tasks m) of (rows, sg) \<Rightarrow> (m\<lparr>m_tasks := rows\<rparr>, sg))"

definition task_setLoading :: "bool \<Rightarrow> TaskModel \<Rightarrow> TaskModel \<times> row_signal list" where
  "task_setLoading loading m =
     (if tm_loading m = loading then (m, []) else (m\<lparr>tm_loading := loading\<rparr>, [LoadingChanged]))"

definition task_setErrorMessage :: "string \<Rightarrow> TaskModel \<Rightarrow> TaskModel \<times> row_signal list" where
  "task_setErrorMessage msg m =
     (if tm_errorMessage m = msg then (m, []) else (m\<lparr>tm_errorMessage := msg\<rparr>, [ErrorChanged]))"

section \<open>The contract of a list model\<close>

text \<open>
  What the poller relies on besides: replacing the rows always succeeds and leads the views along; rows
  that are distinct become the merge of the old rows with the new ones.
\<close>

locale list_model = keyed_rows key rows set_one
  for key :: "'r \<Rightarrow> string" and rows :: "'m \<Rightarrow> 'r list" and set_one +
  fixes set_all :: "'r list \<Rightarrow> 'm \<Rightarrow> ('m \<times> row_signal list) option"
  assumes set_all_total: "\<exists>m' sg. set_all new m = Some (m', sg) \<and>
      view_led sg (rows m) (rows m')"
    and set_all_merge: "distinct (map key (rows m)) \<Longrightarrow> set_all new m = Some (m', sg) \<Longrightarrow>
      rows m' = merge_rows key new (rows m)"
begin

lemma set_all_merges:
  assumes "distinct (map key (rows m))"
  shows "\<exists>m' sg. set_all new m = Some (m', sg) \<and>
    rows m' = merge_rows key new (rows m) \<and> view_led sg (rows m) (rows m')"
  using set_all_total [of new m] set_all_merge [OF assms, of new] by blast

lemma set_all_distinct:
  assumes "distinct (map key (rows m))" and "distinct (map key new)" and "set_all new m = Some (m', sg)"
  shows "distinct (map key (rows m'))" and "set (rows m') = set new"
  using set_all_merges [OF assms(1), of new] assms(3) merge_rows_distinct [OF assms(1,2)] by auto

text \<open>Every list is of distinct rows if every poll is.\<close>

fun set_alls :: "'r list list \<Rightarrow> 'm \<Rightarrow> 'm option" where
  "set_alls [] m = Some m"
| "set_alls (new # news) m = Option.bind (set_all new m) (\<lambda>(m', _). set_alls news m')"

lemma set_alls_last:
  assumes "distinct (map key (rows m))" and "\<forall>new \<in> set (news @ [new]). distinct (map key new)"
  shows "\<exists>m'. set_alls (news @ [new]) m = Some m' \<and> distinct (map key (rows m')) \<and> set (rows m') = set new"
  using assms
proof (induction news arbitrary: m)
  case Nil
  obtain m' sg where s: "set_all new m = Some (m', sg)" using set_all_merges [OF Nil(1)] by blast
  with set_all_distinct [OF Nil(1) _ s] Nil(2) show ?case by auto
next
  case (Cons n ns)
  obtain m' sg where s: "set_all n m = Some (m', sg)" using set_all_merges [OF Cons.prems(1)] by blast
  from set_all_distinct(1) [OF Cons.prems(1) _ s] Cons.prems(2) have "distinct (map key (rows m'))" by simp
  from Cons.IH [OF this] Cons.prems(2) s show ?case by simp
qed

end

interpretation wsm: list_model wi_id m_workspaces updateWorkspace setWorkspaces
proof unfold_locales
  fix r and m :: WorkspaceModel
  from update_row_put [of wi_id r "m_workspaces m"] show "\<exists>m' sg. updateWorkspace r m = Some (m', sg) \<and>
    m_workspaces m' = put_row wi_id r (m_workspaces m) \<and> view_led sg (m_workspaces m) (m_workspaces m')"
    by (auto simp: updateWorkspace_def)
next
  fix new and m :: WorkspaceModel
  from set_rows_total [of wi_id new "m_workspaces m"] show "\<exists>m' sg. setWorkspaces new m = Some (m', sg) \<and>
    view_led sg (m_workspaces m) (m_workspaces m')" by (auto simp: setWorkspaces_def)
next
  fix new and m m' :: WorkspaceModel and sg
  assume "distinct (map wi_id (m_workspaces m))" and "setWorkspaces new m = Some (m', sg)"
  with set_rows_ok [of wi_id "m_workspaces m" new] show "m_workspaces m' = merge_rows wi_id new (m_workspaces m)"
    by (auto simp: setWorkspaces_def)
qed

interpretation tkm: list_model ti_id m_tasks updateTask setTasks
proof unfold_locales
  fix r and m :: TaskModel
  from update_row_put [of ti_id r "m_tasks m"] show "\<exists>m' sg. updateTask r m = Some (m', sg) \<and>
    m_tasks m' = put_row ti_id r (m_tasks m) \<and> view_led sg (m_tasks m) (m_tasks m')"
    by (auto simp: updateTask_def)
next
  fix new and m :: TaskModel
  from set_rows_total [of ti_id new "m_tasks m"] show "\<exists>m' sg. setTasks new m = Some (m', sg) \<and>
    view_led sg (m_tasks m) (m_tasks m')" by (auto simp: setTasks_def)
next
  fix new and m m' :: TaskModel and sg
  assume "distinct (map ti_id (m_tasks m))" and "setTasks new m = Some (m', sg)"
  with set_rows_ok [of ti_id "m_tasks m" new] show "m_tasks m' = merge_rows ti_id new (m_tasks m)"
    by (auto simp: setTasks_def)
qed

section \<open>Properties\<close>

text \<open>C25. If no two rows of the model have one identifier, and no two of the rows given, replacing the rows
  leaves the model with exactly the rows given (those that stay in their old places, the others after them in the
  order given), with distinct identifiers again. The signals lead a view along: each refers to a row the view has,
  in the end it has as many rows as the model, and every row it was not told of it shows as the model has it, so
  no row it shows is stale. This holds of both models.\<close>

theorem set_models_merge:
  assumes "distinct (map wi_id (m_workspaces m))" and "distinct (map wi_id ws)"
    and "distinct (map ti_id (m_tasks tm))" and "distinct (map ti_id ts)"
  shows "\<exists>m' sg tm' tsg. setWorkspaces ws m = Some (m', sg) \<and> setTasks ts tm = Some (tm', tsg) \<and>
    m_workspaces m' = merge_rows wi_id ws (m_workspaces m) \<and> m_tasks tm' = merge_rows ti_id ts (m_tasks tm) \<and>
    set (m_workspaces m') = set ws \<and> distinct (map wi_id (m_workspaces m')) \<and>
    set (m_tasks tm') = set ts \<and> distinct (map ti_id (m_tasks tm')) \<and>
    view_led sg (m_workspaces m) (m_workspaces m') \<and>
    view_led tsg (m_tasks tm) (m_tasks tm')"
proof -
  obtain m' sg where w: "setWorkspaces ws m = Some (m', sg)"
    "m_workspaces m' = merge_rows wi_id ws (m_workspaces m)"
    "view_led sg (m_workspaces m) (m_workspaces m')"
    using wsm.set_all_merges [OF assms(1), of ws] by blast
  obtain tm' tsg where t: "setTasks ts tm = Some (tm', tsg)"
    "m_tasks tm' = merge_rows ti_id ts (m_tasks tm)"
    "view_led tsg (m_tasks tm) (m_tasks tm')"
    using tkm.set_all_merges [OF assms(3), of ts] by blast
  from wsm.set_all_distinct [OF assms(1,2) w(1)] tkm.set_all_distinct [OF assms(3,4) t(1)] w t
  show ?thesis by blast
qed

definition example_info :: "string \<Rightarrow> int \<Rightarrow> WorkspaceInfo" where
  "example_info i st =
     \<lparr>wi_id = i, wi_name = i, wi_ownerName = [], wi_templateName = [], wi_templateIcon = [],
      wi_status = st, wi_health = True, wi_favorite = False, wi_outdated = False, wi_agentCount = 1,
      wi_agentStatus = 0, wi_lastUsedAt = None\<rparr>"

definition example_model :: WorkspaceModel where
  "example_model =
     \<lparr>m_workspaces = [example_info ''a'' 0, example_info ''b'' 0, example_info ''c'' 1],
      wm_loading = True, wm_errorMessage = []\<rparr>"

definition example_task :: "string \<Rightarrow> int \<Rightarrow> TaskInfo" where
  "example_task i st =
     \<lparr>ti_id = i, ti_name = i, ti_displayName = [], ti_ownerName = [], ti_ownerAvatarUrl = [],
      ti_templateName = [], ti_templateIcon = [], ti_workspaceName = [], ti_initialPrompt = [],
      ti_status = st, ti_currentStateMessage = [], ti_currentState = 1, ti_createdAt = None,
      ti_updatedAt = None\<rparr>"

definition example_tasks :: TaskModel where
  "example_tasks = \<lparr>m_tasks = [example_task ''t'' 0], tm_loading = False, tm_errorMessage = []\<rparr>"

theorem set_models_merge_witness:
  "\<exists>m' sg. setWorkspaces [example_info ''d'' 2, example_info ''c'' 0, example_info ''a'' 0] example_model = Some (m', sg) \<and>
    m_workspaces m' = [example_info ''a'' 0, example_info ''c'' 0, example_info ''d'' 2]"
proof -
  let ?new = "[example_info ''d'' 2, example_info ''c'' 0, example_info ''a'' 0]"
  have "distinct (map wi_id (m_workspaces example_model))" "distinct (map wi_id ?new)"
    "distinct (map ti_id (m_tasks example_tasks))" "distinct (map ti_id [example_task ''t'' 1])"
    by (simp_all add: example_model_def example_info_def example_tasks_def)
  from set_models_merge [OF this] obtain m' sg where
    "setWorkspaces ?new example_model = Some (m', sg)"
    "m_workspaces m' = merge_rows wi_id ?new (m_workspaces example_model)" by blast
  moreover have "merge_rows wi_id ?new (m_workspaces example_model) =
      [example_info ''a'' 0, example_info ''c'' 0, example_info ''d'' 2]"
    by (simp add: merge_rows_def newest_def example_model_def example_info_def)
  ultimately show ?thesis by simp
qed

section \<open>Status names\<close>

text \<open>The letters in lower case.\<close>

definition lower :: "char \<Rightarrow> char" where
  "lower c = (if c \<in> set ''ABCDEFGHIJKLMNOPQRSTUVWXYZ'' then char_of (of_char c + 32 :: nat) else c)"

text \<open>The names under which a status is displayed are, in lower case, the names by which the
  API calls it: reading the displayed name back gives the status. This covers every status of a
  workspace and of a task and every state of a task, and every other number is displayed as
  unknown.\<close>

lemma status_names_roundtrip:
  "workspaceStatusFromString (map lower (statusToString (ws_int ws))) = ws \<and>
   taskStatusFromString (map lower (task_status_string (ts_int ts))) = ts \<and>
   taskStateFromString (map lower (taskStateToString st)) = st \<and>
   (n \<notin> range ws_int \<longrightarrow> statusToString n = ''Unknown'') \<and>
   (n \<notin> range ts_int \<longrightarrow> task_status_string n = ''Unknown'')"
proof -
  have "workspaceStatusFromString (map lower (statusToString (ws_int ws))) = ws"
    by (cases ws; simp; code_simp)
  moreover have "taskStatusFromString (map lower (task_status_string (ts_int ts))) = ts"
    by (cases ts; simp; code_simp)
  moreover have "taskStateFromString (map lower (taskStateToString st)) = st"
    by (cases st; simp; code_simp)
  moreover have "n \<notin> range ws_int \<longrightarrow> statusToString n = ''Unknown''"
    by (auto simp: statusToString_def simp del: ws_int.simps)
  moreover have "n \<notin> range ts_int \<longrightarrow> task_status_string n = ''Unknown''"
    by (auto simp: task_status_string_def find_Some_iff simp del: ts_int.simps split: option.split)
  ultimately show ?thesis by blast
qed

end
