(* ===== verification/Polling.thy ===== *)
theory Polling
  imports Models
begin

text \<open>
  The periodic refresh (\<^verbatim>\<open>src/app/src/api/PollingController.cpp\<close>): it fetches, compares what
  comes with what the models hold, notifies, updates the models and caches the answer on disk.
\<close>

section \<open>State and surroundings\<close>

text \<open>The effects outside the controller, in order.\<close>

datatype poll_effect =
  FetchWorkspaces | FetchTasks | Notify string string string | RefreshIntervalChanged | PollingChanged
| WorkspaceSignals "row_signal list" | TaskSignals "row_signal list"

text \<open>
  The controller with its two models and its timer. The cache files are a map from paths to
  contents.
\<close>

record PollingController =
  m_refreshIntervalSec :: int
  m_firstFetch :: bool
  timer_interval :: int
  timer_active :: bool
  m_workspaceModel :: WorkspaceModel
  m_taskModel :: TaskModel
  cache_files :: "string \<rightharpoonup> string"

text \<open>
  What the controller reads: the settings, the cache directory of the platform and the base URL;
  and the functions of Qt it uses: SHA-1 in hexadecimal, the JSON writer and parser, the date
  parser. The last three say whether opening, committing and removing a file succeeds.
\<close>

record poll_env =
  notificationsEnabled :: bool
  disableDataCache :: bool
  refreshIntervalSec :: int
  cacheRoot :: string
  baseUrl :: string
  sha1_hex :: "string \<Rightarrow> string"
  toJson :: "json list \<Rightarrow> string"
  json_doc :: "string \<Rightarrow> json"
  iso_date :: "string \<Rightarrow> date"
  open_ok :: bool
  commit_ok :: bool
  remove_ok :: bool

type_synonym polled = "PollingController \<times> poll_effect list"

text \<open>The controller as it is constructed.\<close>

definition new_PollingController :: "WorkspaceModel \<Rightarrow> TaskModel \<Rightarrow> (string \<rightharpoonup> string) \<Rightarrow> PollingController" where
  "new_PollingController ws ts files =
     \<lparr>m_refreshIntervalSec = 10, m_firstFetch = True, timer_interval = 10 * 1000, timer_active = False,
      m_workspaceModel = ws, m_taskModel = ts, cache_files = files\<rparr>"

section \<open>The timer\<close>

definition clamp :: "int \<Rightarrow> int \<Rightarrow> int \<Rightarrow> int" where
  "clamp x lo hi = (if x < lo then lo else if hi < x then hi else x)"

definition setRefreshIntervalSec :: "int \<Rightarrow> PollingController \<Rightarrow> polled" where
  "setRefreshIntervalSec sec p =
     (let sec = clamp sec 5 300 in
      if sec = m_refreshIntervalSec p then (p, [])
      else (p\<lparr>m_refreshIntervalSec := sec, timer_interval := sec * 1000\<rparr>, [RefreshIntervalChanged]))"

definition refreshNow :: "PollingController \<Rightarrow> polled" where
  "refreshNow p = (p, [FetchWorkspaces, FetchTasks])"

definition stop :: "PollingController \<Rightarrow> polled" where
  "stop p = (p\<lparr>timer_active := False\<rparr>, [PollingChanged])"

definition isPolling :: "PollingController \<Rightarrow> bool" where
  "isPolling p = timer_active p"

section \<open>Notifications\<close>

fun qstr :: "qvariant \<Rightarrow> string" where
  "qstr (QString s) = s" | "qstr _ = []"

fun qint :: "qvariant \<Rightarrow> int" where
  "qint (QInt i) = i" | "qint _ = 0"

text \<open>A hash over the rows of a model, as the loops build it.\<close>

definition row_hash :: "(row_index \<Rightarrow> string) \<Rightarrow> (row_index \<Rightarrow> int) \<Rightarrow> nat \<Rightarrow> (string \<rightharpoonup> int)" where
  "row_hash key val n = fold (\<lambda>i h. h(key (Some (int i)) \<mapsto> val (Some (int i)))) [0..<n] Map.empty"

definition workspace_note :: "WorkspaceInfo \<Rightarrow> poll_effect" where
  "workspace_note ws = Notify (''Workspace: '' @ wi_name ws) ''Status changed'' ''WorkspaceState''"

definition task_note :: "TaskInfo \<Rightarrow> poll_effect" where
  "task_note t =
     Notify (''Task: '' @ (if ti_displayName t = [] then ti_name t else ti_displayName t))
       ''Status changed'' ''TaskUpdate''"

fun notify_workspaces :: "(string \<rightharpoonup> int) \<Rightarrow> WorkspaceInfo list \<Rightarrow> poll_effect list" where
  "notify_workspaces oldStatus [] = []"
| "notify_workspaces oldStatus (ws # rest) =
     (case oldStatus (wi_id ws) of
        None \<Rightarrow> notify_workspaces oldStatus rest
      | Some st \<Rightarrow>
          (if st \<noteq> wi_status ws then [workspace_note ws] else []) @
          notify_workspaces oldStatus rest)"

definition detectWorkspaceChanges :: "poll_env \<Rightarrow> WorkspaceInfo list \<Rightarrow> PollingController \<Rightarrow> poll_effect list" where
  "detectWorkspaceChanges e newList p =
     (if m_firstFetch p \<or> \<not> notificationsEnabled e then []
      else let m = m_workspaceModel p in
        notify_workspaces
          (row_hash (\<lambda>i. qstr (workspace_data m i W_IdRole)) (\<lambda>i. qint (workspace_data m i W_StatusRole))
            (workspace_rowCount False m)) newList)"

fun notify_tasks :: "(string \<rightharpoonup> int) \<Rightarrow> (string \<rightharpoonup> int) \<Rightarrow> TaskInfo list \<Rightarrow> poll_effect list" where
  "notify_tasks oldStatus oldState [] = []"
| "notify_tasks oldStatus oldState (t # rest) =
     (case oldStatus (ti_id t) of
        None \<Rightarrow> notify_tasks oldStatus oldState rest
      | Some st \<Rightarrow>
          (if st \<noteq> ti_status t \<or> (case oldState (ti_id t) of None \<Rightarrow> 0 | Some s \<Rightarrow> s) \<noteq> ti_currentState t
           then [task_note t] else []) @
          notify_tasks oldStatus oldState rest)"

definition detectTaskChanges :: "poll_env \<Rightarrow> TaskInfo list \<Rightarrow> PollingController \<Rightarrow> poll_effect list" where
  "detectTaskChanges e newList p =
     (if m_firstFetch p \<or> \<not> notificationsEnabled e then []
      else let m = m_taskModel p; key = (\<lambda>i. qstr (task_data m i T_IdRole)); n = task_rowCount False m in
        notify_tasks (row_hash key (\<lambda>i. qint (task_data m i T_StatusRole)) n)
          (row_hash key (\<lambda>i. qint (task_data m i T_CurrentStateRole)) n) newList)"

section \<open>The cache\<close>

definition cacheDirForDeployment :: "poll_env \<Rightarrow> string" where
  "cacheDirForDeployment e = cacheRoot e @ ''/'' @ sha1_hex e (baseUrl e)"

definition workspace_cache :: "poll_env \<Rightarrow> string" where
  "workspace_cache e = cacheDirForDeployment e @ ''/workspaces.json''"

definition task_cache :: "poll_env \<Rightarrow> string" where
  "task_cache e = cacheDirForDeployment e @ ''/tasks.json''"

text \<open>A \<^verbatim>\<open>QSaveFile\<close> replaces the file only when it is committed.\<close>

definition save_cache :: "poll_env \<Rightarrow> string \<Rightarrow> json list \<Rightarrow> PollingController \<Rightarrow> PollingController" where
  "save_cache e path arr p =
     (if disableDataCache e then p
      else if open_ok e \<and> commit_ok e then p\<lparr>cache_files := (cache_files p)(path \<mapsto> toJson e arr)\<rparr>
      else p)"

definition saveWorkspaceCache :: "poll_env \<Rightarrow> json list \<Rightarrow> PollingController \<Rightarrow> PollingController" where
  "saveWorkspaceCache e arr p = save_cache e (workspace_cache e) arr p"

definition saveTaskCache :: "poll_env \<Rightarrow> json list \<Rightarrow> PollingController \<Rightarrow> PollingController" where
  "saveTaskCache e arr p = save_cache e (task_cache e) arr p"

text \<open>A cached file that exists, can be opened and holds an array.\<close>

definition cached_array :: "poll_env \<Rightarrow> string \<Rightarrow> PollingController \<Rightarrow> json list option" where
  "cached_array e path p =
     (case cache_files p path of
        None \<Rightarrow> None
      | Some text \<Rightarrow> if open_ok e then (case json_doc e text of JArray arr \<Rightarrow> Some arr | _ \<Rightarrow> None) else None)"

definition workspaces_of :: "poll_env \<Rightarrow> json list \<Rightarrow> WorkspaceInfo list" where
  "workspaces_of e arr = map (\<lambda>v. info_of_json (iso_date e) (toObject v)) arr"

definition tasks_of :: "poll_env \<Rightarrow> json list \<Rightarrow> TaskInfo list" where
  "tasks_of e arr = map (\<lambda>v. task_info_of_json (iso_date e) (toObject v)) arr"

definition show_workspaces :: "WorkspaceInfo list \<Rightarrow> PollingController \<Rightarrow> polled option" where
  "show_workspaces list p = do {
     (m, sg) \<leftarrow> setWorkspaces list (m_workspaceModel p);
     Some (p\<lparr>m_workspaceModel := m\<rparr>, [WorkspaceSignals sg])
   }"

definition show_tasks :: "TaskInfo list \<Rightarrow> PollingController \<Rightarrow> polled option" where
  "show_tasks list p = do {
     (m, sg) \<leftarrow> setTasks list (m_taskModel p);
     Some (p\<lparr>m_taskModel := m\<rparr>, [TaskSignals sg])
   }"

definition loadCache :: "poll_env \<Rightarrow> PollingController \<Rightarrow> polled option" where
  "loadCache e p =
     (if disableDataCache e then Some (p, [])
      else do {
        (p, s1) \<leftarrow> (case cached_array e (workspace_cache e) p of
                       None \<Rightarrow> Some (p, []) | Some arr \<Rightarrow> show_workspaces (workspaces_of e arr) p);
        (p, s2) \<leftarrow> (case cached_array e (task_cache e) p of
                       None \<Rightarrow> Some (p, []) | Some arr \<Rightarrow> show_tasks (tasks_of e arr) p);
        Some (p, s1 @ s2)
      })"

definition purge_file :: "poll_env \<Rightarrow> string \<Rightarrow> PollingController \<Rightarrow> PollingController" where
  "purge_file e path p =
     (if cache_files p path \<noteq> None \<and> remove_ok e then p\<lparr>cache_files := (cache_files p)(path := None)\<rparr> else p)"

definition purgeCache :: "poll_env \<Rightarrow> PollingController \<Rightarrow> PollingController" where
  "purgeCache e p = purge_file e (task_cache e) (purge_file e (workspace_cache e) p)"

section \<open>Answers, start, settings\<close>

definition start_polling :: "poll_env \<Rightarrow> PollingController \<Rightarrow> polled option" where
  "start_polling e p = do {
     (p, s1) \<leftarrow> loadCache e (p\<lparr>m_firstFetch := True\<rparr>);
     let (p, s2) = refreshNow p;
     Some (p\<lparr>timer_active := True\<rparr>, s1 @ s2 @ [PollingChanged])
   }"

definition handleWorkspacesReceived :: "poll_env \<Rightarrow> json list \<Rightarrow> PollingController \<Rightarrow> polled option" where
  "handleWorkspacesReceived e arr p = do {
     let list = workspaces_of e arr;
     let notes = detectWorkspaceChanges e list p;
     (p, s1) \<leftarrow> show_workspaces list p;
     let (m, s2) = workspace_setLoading False (m_workspaceModel p);
     let (m, s3) = workspace_setErrorMessage [] m;
     let p = saveWorkspaceCache e arr (p\<lparr>m_workspaceModel := m\<rparr>);
     Some (p\<lparr>m_firstFetch := False\<rparr>, notes @ s1 @ [WorkspaceSignals (s2 @ s3)])
   }"

definition handleTasksReceived :: "poll_env \<Rightarrow> json list \<Rightarrow> PollingController \<Rightarrow> polled option" where
  "handleTasksReceived e arr p = do {
     let list = tasks_of e arr;
     let notes = detectTaskChanges e list p;
     (p, s1) \<leftarrow> show_tasks list p;
     let (m, s2) = task_setLoading False (m_taskModel p);
     let (m, s3) = task_setErrorMessage [] m;
     Some (saveTaskCache e arr (p\<lparr>m_taskModel := m\<rparr>), notes @ s1 @ [TaskSignals (s2 @ s3)])
   }"

definition settingsChanged :: "poll_env \<Rightarrow> PollingController \<Rightarrow> polled" where
  "settingsChanged e p =
     (let (p, s) = setRefreshIntervalSec (refreshIntervalSec e) p
      in (if disableDataCache e then purgeCache e p else p, s))"

section \<open>Lemmas\<close>

lemma row_hash_from:
  "distinct (map key' rs) \<Longrightarrow> (\<And>i. i < length rs \<Longrightarrow> key (Some (int i)) = key' (rs ! i)) \<Longrightarrow>
     (\<And>i. i < length rs \<Longrightarrow> val (Some (int i)) = val' (rs ! i)) \<Longrightarrow>
     row_hash key val (length rs) = map_of (map (\<lambda>r. (key' r, val' r)) rs)"
proof (induction rs rule: rev_induct)
  case Nil
  then show ?case by (simp add: row_hash_def)
next
  case (snoc r rs)
  have "row_hash key val (length rs) = map_of (map (\<lambda>r. (key' r, val' r)) rs)"
  proof (rule snoc.IH)
    show "distinct (map key' rs)" using snoc.prems(1) by simp
    fix i assume "i < length rs"
    then show "key (Some (int i)) = key' (rs ! i)" "val (Some (int i)) = val' (rs ! i)"
      using snoc.prems(2,3) [of i] by (simp_all add: nth_append)
  qed
  then have "row_hash key val (length (rs @ [r])) = (map_of (map (\<lambda>r. (key' r, val' r)) rs))(key' r \<mapsto> val' r)"
    using snoc.prems(2,3) [of "length rs"] by (simp add: row_hash_def)
  moreover have "map_of (map (\<lambda>r. (key' r, val' r)) rs) (key' r) = None"
    using snoc.prems(1) by (auto simp: map_of_eq_None_iff)
  ultimately show ?case by (auto simp: map_add_def split: option.split)
qed

lemma workspace_data_row:
  "i < length (m_workspaces m) \<Longrightarrow> workspace_data m (Some (int i)) role = workspace_value (m_workspaces m ! i) role"
  by (simp add: workspace_data_def row_at_def)

lemma task_data_row:
  "i < length (m_tasks m) \<Longrightarrow> task_data m (Some (int i)) role = task_value (m_tasks m ! i) role"
  by (simp add: task_data_def row_at_def)

lemma notify_workspaces_filter:
  "notify_workspaces h ws = map workspace_note
     (filter (\<lambda>w. \<exists>st. h (wi_id w) = Some st \<and> st \<noteq> wi_status w) ws)"
  by (induction ws) (auto split: option.split)

lemma notify_tasks_filter:
  "dom h = dom g \<Longrightarrow> notify_tasks h g ts =
     map task_note
     (filter (\<lambda>t. \<exists>st ss. h (ti_id t) = Some st \<and> g (ti_id t) = Some ss \<and> (st \<noteq> ti_status t \<or> ss \<noteq> ti_currentState t)) ts)"
proof (induction ts)
  case (Cons t ts)
  from Cons.prems have "h (ti_id t) = None \<longleftrightarrow> g (ti_id t) = None" by (metis domIff)
  with Cons show ?case by (auto split: option.splits)
qed simp

lemma map_of_rows:
  "distinct (map key rs) \<Longrightarrow> map_of (map (\<lambda>r. (key r, val r)) rs) k = Some v \<longleftrightarrow> (\<exists>r \<in> set rs. key r = k \<and> val r = v)"
  by (auto simp: map_of_eq_Some_iff o_def)

text \<open>The rows of which the status has changed since they were last shown.\<close>

definition changed_workspaces :: "WorkspaceInfo list \<Rightarrow> WorkspaceInfo list \<Rightarrow> WorkspaceInfo list" where
  "changed_workspaces old new = filter (\<lambda>w. \<exists>r \<in> set old. wi_id r = wi_id w \<and> wi_status r \<noteq> wi_status w) new"

definition changed_tasks :: "TaskInfo list \<Rightarrow> TaskInfo list \<Rightarrow> TaskInfo list" where
  "changed_tasks old new = filter (\<lambda>t. \<exists>r \<in> set old. ti_id r = ti_id t \<and>
     (ti_status r \<noteq> ti_status t \<or> ti_currentState r \<noteq> ti_currentState t)) new"

lemma detect_workspaces:
  assumes "distinct (map wi_id (m_workspaces (m_workspaceModel p)))"
  shows "detectWorkspaceChanges e new p =
    (if m_firstFetch p \<or> \<not> notificationsEnabled e then []
     else map workspace_note
       (changed_workspaces (m_workspaces (m_workspaceModel p)) new))"
proof -
  let ?m = "m_workspaceModel p"
  have h: "row_hash (\<lambda>i. qstr (workspace_data ?m i W_IdRole)) (\<lambda>i. qint (workspace_data ?m i W_StatusRole))
      (length (m_workspaces ?m)) = map_of (map (\<lambda>r. (wi_id r, wi_status r)) (m_workspaces ?m))"
    using assms by (rule row_hash_from) (simp_all add: workspace_data_row)
  have f: "(\<exists>st. (\<exists>r \<in> set (m_workspaces ?m). wi_id r = wi_id w \<and> wi_status r = st) \<and> st \<noteq> wi_status w) \<longleftrightarrow>
      (\<exists>r \<in> set (m_workspaces ?m). wi_id r = wi_id w \<and> wi_status r \<noteq> wi_status w)" for w
    by blast
  show ?thesis
    unfolding detectWorkspaceChanges_def changed_workspaces_def
    by (simp add: h workspace_rowCount_def notify_workspaces_filter map_of_rows [OF assms] f)
qed

lemma detect_tasks:
  assumes "distinct (map ti_id (m_tasks (m_taskModel p)))"
  shows "detectTaskChanges e new p =
    (if m_firstFetch p \<or> \<not> notificationsEnabled e then []
     else map task_note (changed_tasks (m_tasks (m_taskModel p)) new))"
proof -
  let ?m = "m_taskModel p"
  let ?id = "\<lambda>i. qstr (task_data ?m i T_IdRole)"
  let ?h = "map_of (map (\<lambda>r. (ti_id r, ti_status r)) (m_tasks ?m))"
  let ?g = "map_of (map (\<lambda>r. (ti_id r, ti_currentState r)) (m_tasks ?m))"
  have h: "row_hash ?id (\<lambda>i. qint (task_data ?m i T_StatusRole)) (length (m_tasks ?m)) = ?h"
    "row_hash ?id (\<lambda>i. qint (task_data ?m i T_CurrentStateRole)) (length (m_tasks ?m)) = ?g"
    using assms by (rule row_hash_from; simp add: task_data_row)+
  have dom: "dom ?h = dom ?g" by (simp add: dom_map_of_conv_image_fst image_image)
  have both: "(\<exists>st ss. ?h k = Some st \<and> ?g k = Some ss \<and> (st \<noteq> a \<or> ss \<noteq> b)) \<longleftrightarrow>
      (\<exists>r \<in> set (m_tasks ?m). ti_id r = k \<and> (ti_status r \<noteq> a \<or> ti_currentState r \<noteq> b))" for k a b
  proof -
    have "r = r'" if "r \<in> set (m_tasks ?m)" "r' \<in> set (m_tasks ?m)" "ti_id r = ti_id r'" for r r'
      using assms that by (auto simp: distinct_map inj_on_def)
    then show ?thesis by (simp add: map_of_rows [OF assms]) blast
  qed
  show ?thesis
    unfolding detectTaskChanges_def changed_tasks_def Let_def task_rowCount_def if_False h
      notify_tasks_filter [OF dom] both by (rule refl)
qed

lemma save_cache_fields [simp]:
  "m_workspaceModel (save_cache e path arr p) = m_workspaceModel p"
  "m_taskModel (save_cache e path arr p) = m_taskModel p"
  "m_firstFetch (save_cache e path arr p) = m_firstFetch p"
  "m_refreshIntervalSec (save_cache e path arr p) = m_refreshIntervalSec p"
  "timer_interval (save_cache e path arr p) = timer_interval p"
  by (simp_all add: save_cache_def)

lemma purge_file_fields [simp]:
  "m_refreshIntervalSec (purge_file e path p) = m_refreshIntervalSec p"
  "timer_interval (purge_file e path p) = timer_interval p"
  by (simp_all add: purge_file_def)

lemma show_workspaces_ok:
  assumes "distinct (map wi_id (m_workspaces (m_workspaceModel p)))"
  obtains m sg where "show_workspaces list p = Some (p\<lparr>m_workspaceModel := m\<rparr>, [WorkspaceSignals sg])"
    "m_workspaces m = merge_rows wi_id list (m_workspaces (m_workspaceModel p))"
    "view_led sg (m_workspaces (m_workspaceModel p)) (m_workspaces m)"
  using wsm.set_all_merges [OF assms, of list] that by (fastforce simp: show_workspaces_def)

lemma show_tasks_ok:
  assumes "distinct (map ti_id (m_tasks (m_taskModel p)))"
  obtains m sg where "show_tasks list p = Some (p\<lparr>m_taskModel := m\<rparr>, [TaskSignals sg])"
    "m_tasks m = merge_rows ti_id list (m_tasks (m_taskModel p))"
    "view_led sg (m_tasks (m_taskModel p)) (m_tasks m)"
  using tkm.set_all_merges [OF assms, of list] that by (fastforce simp: show_tasks_def)

section \<open>Operations in sequence\<close>

datatype poll_op =
  Start poll_env | Stop | Refresh | Workspaces poll_env "json list" | Tasks poll_env "json list"
| Settings poll_env | Interval int

fun poll_step :: "poll_op \<Rightarrow> PollingController \<Rightarrow> polled option" where
  "poll_step (Start e) p = start_polling e p"
| "poll_step Stop p = Some (stop p)"
| "poll_step Refresh p = Some (refreshNow p)"
| "poll_step (Workspaces e arr) p = handleWorkspacesReceived e arr p"
| "poll_step (Tasks e arr) p = handleTasksReceived e arr p"
| "poll_step (Settings e) p = Some (settingsChanged e p)"
| "poll_step (Interval sec) p = Some (setRefreshIntervalSec sec p)"

fun poll_run :: "poll_op list \<Rightarrow> PollingController \<Rightarrow> PollingController option" where
  "poll_run [] p = Some p"
| "poll_run (op # ops) p = do { (p, _) \<leftarrow> poll_step op p; poll_run ops p }"

definition interval_ok :: "PollingController \<Rightarrow> bool" where
  "interval_ok p \<longleftrightarrow> 5 \<le> m_refreshIntervalSec p \<and> m_refreshIntervalSec p \<le> 300 \<and>
     timer_interval p = m_refreshIntervalSec p * 1000"

lemma show_interval:
  "show_workspaces list p = Some (p', s) \<Longrightarrow> interval_ok p' = interval_ok p"
  "show_tasks tlist p = Some (p', s) \<Longrightarrow> interval_ok p' = interval_ok p"
  by (auto simp: show_workspaces_def show_tasks_def bind_eq_Some_conv interval_ok_def)

lemma load_interval: "loadCache e p = Some (p', s) \<Longrightarrow> interval_ok p' = interval_ok p"
  by (auto simp: loadCache_def bind_eq_Some_conv show_interval split: if_splits option.splits)

lemma poll_step_interval: "interval_ok p \<Longrightarrow> poll_step op p = Some (p', s) \<Longrightarrow> interval_ok p'"
proof (cases op)
  case (Start e)
  assume i: "interval_ok p" and "poll_step op p = Some (p', s)"
  with Start obtain q t where q: "loadCache e (p\<lparr>m_firstFetch := True\<rparr>) = Some (q, t)" "p' = q\<lparr>timer_active := True\<rparr>"
    by (auto simp: start_polling_def refreshNow_def bind_eq_Some_conv)
  have "interval_ok q" using load_interval [OF q(1)] i by (simp add: interval_ok_def)
  with q(2) show ?thesis by (simp add: interval_ok_def)
next
  case (Workspaces e arr)
  assume i: "interval_ok p" and "poll_step op p = Some (p', s)"
  with Workspaces obtain q t m where q: "show_workspaces (workspaces_of e arr) p = Some (q, t)"
    "p' = (saveWorkspaceCache e arr (q\<lparr>m_workspaceModel := m\<rparr>))\<lparr>m_firstFetch := False\<rparr>"
    by (auto simp: handleWorkspacesReceived_def bind_eq_Some_conv Let_def split_beta)
  with show_interval(1) [OF q(1)] i show ?thesis by (simp add: interval_ok_def saveWorkspaceCache_def)
next
  case (Tasks e arr)
  assume i: "interval_ok p" and "poll_step op p = Some (p', s)"
  with Tasks obtain q t m where q: "show_tasks (tasks_of e arr) p = Some (q, t)"
    "p' = saveTaskCache e arr (q\<lparr>m_taskModel := m\<rparr>)"
    by (auto simp: handleTasksReceived_def bind_eq_Some_conv Let_def split_beta)
  with show_interval(2) [OF q(1)] i show ?thesis by (simp add: interval_ok_def saveTaskCache_def)
qed (auto simp: stop_def refreshNow_def settingsChanged_def setRefreshIntervalSec_def clamp_def Let_def
    interval_ok_def purgeCache_def split: if_splits)

lemma poll_run_interval: "interval_ok p \<Longrightarrow> poll_run ops p = Some p' \<Longrightarrow> interval_ok p'"
proof (induction ops arbitrary: p)
  case (Cons op ops)
  then obtain q s where q: "poll_step op p = Some (q, s)" "poll_run ops q = Some p'"
    by (auto simp: bind_eq_Some_conv)
  from Cons.IH [OF poll_step_interval [OF Cons.prems(1) q(1)] q(2)] show ?case .
qed simp

section \<open>Properties\<close>

text \<open>The refresh interval never leaves 5 to 300 seconds, whatever is configured, and the timer
  runs at that interval.\<close>

lemma refresh_interval_bounds:
  assumes "poll_run ops (new_PollingController ws ts files) = Some p"
  shows "5 \<le> m_refreshIntervalSec p \<and> m_refreshIntervalSec p \<le> 300 \<and>
    timer_interval p = m_refreshIntervalSec p * 1000"
proof -
  have "interval_ok (new_PollingController ws ts files)"
    by (simp add: interval_ok_def new_PollingController_def)
  from poll_run_interval [OF this assms] show ?thesis by (simp add: interval_ok_def)
qed

text \<open>An answer with workspaces notifies exactly the workspaces that were shown with another
  status, in the order of the answer, and none before the first answer or when notifications are
  off; then the model shows the merge of the answer, its views have followed it row by row, and
  loading and error are reset.\<close>

lemma workspace_poll_spec:
  assumes "distinct (map wi_id (m_workspaces (m_workspaceModel p)))"
  shows "\<exists>p' sg ms. handleWorkspacesReceived e arr p =
      Some (p', (if m_firstFetch p \<or> \<not> notificationsEnabled e then []
                 else map workspace_note
                   (changed_workspaces (m_workspaces (m_workspaceModel p)) (workspaces_of e arr))) @
                [WorkspaceSignals sg, WorkspaceSignals ms]) \<and>
    m_workspaces (m_workspaceModel p') =
      merge_rows wi_id (workspaces_of e arr) (m_workspaces (m_workspaceModel p)) \<and>
    view_led sg (m_workspaces (m_workspaceModel p)) (m_workspaces (m_workspaceModel p')) \<and>
    \<not> wm_loading (m_workspaceModel p') \<and> wm_errorMessage (m_workspaceModel p') = [] \<and>
    \<not> m_firstFetch p' \<and> m_taskModel p' = m_taskModel p"
proof -
  obtain m sg where s: "show_workspaces (workspaces_of e arr) p = Some (p\<lparr>m_workspaceModel := m\<rparr>, [WorkspaceSignals sg])"
    and m: "m_workspaces m = merge_rows wi_id (workspaces_of e arr) (m_workspaces (m_workspaceModel p))"
    "view_led sg (m_workspaces (m_workspaceModel p)) (m_workspaces m)"
    using show_workspaces_ok [OF assms] by blast
  obtain m2 s2 where m2: "workspace_setLoading False m = (m2, s2)" by fastforce
  obtain m3 s3 where m3: "workspace_setErrorMessage [] m2 = (m3, s3)" by fastforce
  have k: "m_workspaces m3 = m_workspaces m" "\<not> wm_loading m3" "wm_errorMessage m3 = []"
    using m2 m3 by (auto simp: workspace_setLoading_def workspace_setErrorMessage_def split: if_splits)
  show ?thesis
    using m k by (simp add: handleWorkspacesReceived_def s m2 m3 detect_workspaces [OF assms] saveWorkspaceCache_def)
qed

text \<open>C35. The same for tasks, with two differences: the notification is about the status or the
  state, and nothing of its own suppresses it on the first answer with tasks. It is suppressed
  only until the first answer with workspaces.\<close>

theorem task_poll_spec:
  assumes "distinct (map ti_id (m_tasks (m_taskModel p)))"
  shows "\<exists>p' sg ms. handleTasksReceived e arr p =
      Some (p', (if m_firstFetch p \<or> \<not> notificationsEnabled e then []
                 else map task_note (changed_tasks (m_tasks (m_taskModel p)) (tasks_of e arr))) @
                [TaskSignals sg, TaskSignals ms]) \<and>
    m_tasks (m_taskModel p') = merge_rows ti_id (tasks_of e arr) (m_tasks (m_taskModel p)) \<and>
    view_led sg (m_tasks (m_taskModel p)) (m_tasks (m_taskModel p')) \<and>
    \<not> tm_loading (m_taskModel p') \<and> tm_errorMessage (m_taskModel p') = [] \<and>
    m_firstFetch p' = m_firstFetch p \<and> m_workspaceModel p' = m_workspaceModel p"
proof -
  obtain m sg where s: "show_tasks (tasks_of e arr) p = Some (p\<lparr>m_taskModel := m\<rparr>, [TaskSignals sg])"
    and m: "m_tasks m = merge_rows ti_id (tasks_of e arr) (m_tasks (m_taskModel p))"
    "view_led sg (m_tasks (m_taskModel p)) (m_tasks m)"
    using show_tasks_ok [OF assms] by blast
  obtain m2 s2 where m2: "task_setLoading False m = (m2, s2)" by fastforce
  obtain m3 s3 where m3: "task_setErrorMessage [] m2 = (m3, s3)" by fastforce
  have k: "m_tasks m3 = m_tasks m" "\<not> tm_loading m3" "tm_errorMessage m3 = []"
    using m2 m3 by (auto simp: task_setLoading_def task_setErrorMessage_def split: if_splits)
  show ?thesis
    using m k by (simp add: handleTasksReceived_def s m2 m3 detect_tasks [OF assms] saveTaskCache_def)
qed

lemma merge_rows_empty: "merge_rows key new [] = new"
  by (simp add: merge_rows_def)

lemma cache_paths: "workspace_cache e \<noteq> task_cache e"
  by (simp add: workspace_cache_def task_cache_def)

definition empty_workspaces :: WorkspaceModel where
  "empty_workspaces = \<lparr>m_workspaces = [], wm_loading = False, wm_errorMessage = []\<rparr>"

definition empty_tasks :: TaskModel where
  "empty_tasks = \<lparr>m_tasks = [], tm_loading = False, tm_errorMessage = []\<rparr>"

lemma received_files:
  "handleWorkspacesReceived e arr p = Some (p', s) \<Longrightarrow> cache_files p' = cache_files (saveWorkspaceCache e arr p)"
  "handleTasksReceived e arr p = Some (p', s) \<Longrightarrow> cache_files p' = cache_files (saveTaskCache e arr p)"
  by (auto simp: handleWorkspacesReceived_def handleTasksReceived_def show_workspaces_def show_tasks_def
      saveWorkspaceCache_def saveTaskCache_def save_cache_def bind_eq_Some_conv Let_def split_beta)

lemma load_two:
  assumes "\<not> disableDataCache e"
    and "cached_array e (workspace_cache e) p = Some arr" and "cached_array e (task_cache e) p = Some tarr"
    and "m_workspaces (m_workspaceModel p) = []" and "m_tasks (m_taskModel p) = []"
  shows "\<exists>q s. loadCache e p = Some (q, s) \<and> m_workspaces (m_workspaceModel q) = workspaces_of e arr \<and>
    m_tasks (m_taskModel q) = tasks_of e tarr"
proof -
  have d: "distinct (map wi_id (m_workspaces (m_workspaceModel p)))" using assms(4) by simp
  obtain m sg where w: "show_workspaces (workspaces_of e arr) p = Some (p\<lparr>m_workspaceModel := m\<rparr>, [WorkspaceSignals sg])"
    and m: "m_workspaces m = workspaces_of e arr"
    by (rule show_workspaces_ok [OF d, of "workspaces_of e arr"])
      (rule that, assumption, simp add: merge_rows_empty assms(4))
  let ?q = "p\<lparr>m_workspaceModel := m\<rparr>"
  have c: "cached_array e (task_cache e) ?q = Some tarr"
    using assms(3) by (simp add: cached_array_def)
  have td: "distinct (map ti_id (m_tasks (m_taskModel ?q)))" using assms(5) by simp
  obtain tm tsg where "show_tasks (tasks_of e tarr) ?q = Some (?q\<lparr>m_taskModel := tm\<rparr>, [TaskSignals tsg])"
    "m_tasks tm = tasks_of e tarr"
    by (rule show_tasks_ok [OF td, of "tasks_of e tarr"])
      (rule that, assumption, simp add: merge_rows_empty assms(5))
  with w m c assms(1,2) show ?thesis by (simp add: loadCache_def)
qed

lemma handle_workspaces_some:
  assumes "distinct (map wi_id (m_workspaces (m_workspaceModel p)))"
  shows "\<exists>p' s. handleWorkspacesReceived e arr p = Some (p', s) \<and> m_taskModel p' = m_taskModel p"
  by (rule show_workspaces_ok [OF assms, of "workspaces_of e arr"])
    (simp add: handleWorkspacesReceived_def split_beta Let_def saveWorkspaceCache_def)

lemma handle_tasks_some:
  assumes "distinct (map ti_id (m_tasks (m_taskModel p)))"
  shows "\<exists>p' s. handleTasksReceived e arr p = Some (p', s)"
  by (rule show_tasks_ok [OF assms, of "tasks_of e arr"])
    (simp add: handleTasksReceived_def split_beta Let_def)

text \<open>C32. What was cached is what a later start shows: after an answer with workspaces and one
  with tasks, with the cache on and the files written, a controller that starts with these files
  and empty models shows the rows of the two answers before anything is fetched. The JSON parser
  is assumed to read back what the JSON writer wrote for them.\<close>

theorem cache_roundtrip:
  assumes "json_doc e (toJson e arr) = JArray arr" "json_doc e (toJson e tarr) = JArray tarr"
    and "\<not> disableDataCache e" and "open_ok e" and "commit_ok e"
    and "handleWorkspacesReceived e arr p = Some (p1, s1)" and "handleTasksReceived e tarr p1 = Some (p2, s2)"
  shows "\<exists>q s. loadCache e (new_PollingController empty_workspaces empty_tasks (cache_files p2)) = Some (q, s) \<and>
    m_workspaces (m_workspaceModel q) = workspaces_of e arr \<and> m_tasks (m_taskModel q) = tasks_of e tarr"
proof (rule load_two)
  have f: "cache_files p2 = (cache_files p)(workspace_cache e \<mapsto> toJson e arr, task_cache e \<mapsto> toJson e tarr)"
    using received_files(1) [OF assms(6)] received_files(2) [OF assms(7)] assms(3-5)
    by (simp add: saveWorkspaceCache_def saveTaskCache_def save_cache_def)
  show "cached_array e (workspace_cache e) (new_PollingController empty_workspaces empty_tasks (cache_files p2)) = Some arr"
    "cached_array e (task_cache e) (new_PollingController empty_workspaces empty_tasks (cache_files p2)) = Some tarr"
    using cache_paths assms(1,2,4) by (simp_all add: cached_array_def f new_PollingController_def)
qed (simp_all add: assms new_PollingController_def empty_workspaces_def empty_tasks_def)

text \<open>With the cache switched off no answer reaches the disk and nothing is read from it; and
  the change of the setting removes both files, as far as they can be removed.\<close>

lemma disabled_cache:
  assumes "disableDataCache e"
  shows "(\<forall>arr p' s. handleWorkspacesReceived e arr p = Some (p', s) \<longrightarrow> cache_files p' = cache_files p) \<and>
    (\<forall>arr p' s. handleTasksReceived e arr p = Some (p', s) \<longrightarrow> cache_files p' = cache_files p) \<and>
    loadCache e p = Some (p, []) \<and>
    cache_files (fst (settingsChanged e p)) =
      (if remove_ok e then (cache_files p)(workspace_cache e := None, task_cache e := None) else cache_files p)"
proof -
  have "cache_files (fst (settingsChanged e p)) =
      (if remove_ok e then (cache_files p)(workspace_cache e := None, task_cache e := None) else cache_files p)"
    using assms
    by (auto simp: settingsChanged_def purgeCache_def purge_file_def setRefreshIntervalSec_def Let_def
        split_beta fun_eq_iff)
  moreover have "cache_files p' = cache_files p" if "handleWorkspacesReceived e arr p = Some (p', s)" for arr p' s
    using received_files(1) [OF that] assms by (simp add: saveWorkspaceCache_def save_cache_def)
  moreover have "cache_files p' = cache_files p" if "handleTasksReceived e arr p = Some (p', s)" for arr p' s
    using received_files(2) [OF that] assms by (simp add: saveTaskCache_def save_cache_def)
  ultimately show ?thesis using assms by (simp add: loadCache_def)
qed

section \<open>An example\<close>

definition demo_poll :: poll_env where
  "demo_poll =
     \<lparr>notificationsEnabled = True, disableDataCache = False, refreshIntervalSec = 1000,
      cacheRoot = ''/cache'', baseUrl = ''https://coder'', sha1_hex = (\<lambda>s. ''1f''),
      toJson = (\<lambda>a. map (\<lambda>_. CHR ''x'') a), json_doc = (\<lambda>s. JArray (map (\<lambda>_. JNull) s)), iso_date = (\<lambda>_. None),
      open_ok = True, commit_ok = True, remove_ok = True\<rparr>"

definition demo_controller :: PollingController where
  "demo_controller = new_PollingController example_model example_tasks Map.empty"

lemma demo_distinct: "distinct (map wi_id (m_workspaces (m_workspaceModel demo_controller)))"
  "distinct (map ti_id (m_tasks (m_taskModel demo_controller)))"
  by (simp_all add: demo_controller_def new_PollingController_def example_model_def example_info_def
      example_tasks_def)

theorem task_poll_spec_witness:
  "\<exists>p' sg ms. handleTasksReceived demo_poll [] demo_controller = Some (p', [TaskSignals sg, TaskSignals ms]) \<and>
    m_firstFetch p'"
proof -
  have f: "m_firstFetch demo_controller" by (simp add: demo_controller_def new_PollingController_def)
  from task_poll_spec [OF demo_distinct(2), of demo_poll "[]"] f show ?thesis by auto
qed

theorem cache_roundtrip_witness:
  "\<exists>p1 s1 p2 s2 q s. handleWorkspacesReceived demo_poll [JNull] demo_controller = Some (p1, s1) \<and>
    handleTasksReceived demo_poll [JNull, JNull] p1 = Some (p2, s2) \<and>
    loadCache demo_poll (new_PollingController empty_workspaces empty_tasks (cache_files p2)) = Some (q, s) \<and>
    length (m_workspaces (m_workspaceModel q)) = 1 \<and> length (m_tasks (m_taskModel q)) = 2"
proof -
  obtain p1 s1 where w: "handleWorkspacesReceived demo_poll [JNull] demo_controller = Some (p1, s1)"
    "m_taskModel p1 = m_taskModel demo_controller"
    using handle_workspaces_some [OF demo_distinct(1)] by blast
  then have "distinct (map ti_id (m_tasks (m_taskModel p1)))" using demo_distinct(2) by simp
  from handle_tasks_some [OF this] obtain p2 s2 where
    t: "handleTasksReceived demo_poll [JNull, JNull] p1 = Some (p2, s2)" by blast
  have "json_doc demo_poll (toJson demo_poll [JNull]) = JArray [JNull]"
    "json_doc demo_poll (toJson demo_poll [JNull, JNull]) = JArray [JNull, JNull]"
    "\<not> disableDataCache demo_poll" "open_ok demo_poll" "commit_ok demo_poll"
    by (simp_all add: demo_poll_def)
  from cache_roundtrip [OF this w(1) t] w(1) t show ?thesis
    by (auto simp: workspaces_of_def tasks_of_def)
qed

end
