(* ===== verification/Machine.thy ===== *)
theory Machine
  imports Prelude
begin

text \<open>
  What every component that is run by events has in common: a step that takes an event and a state to
  a state and what was sent out, and the run over a list of events. A step may fail (\<^term>\<open>None\<close> is
  undefined behaviour); a machine whose steps do not is a special case.
\<close>

locale partial_machine =
  fixes step :: "'ev \<Rightarrow> 's \<Rightarrow> ('s \<times> 'o list) option"
    and run :: "'ev list \<Rightarrow> 's \<Rightarrow> ('s \<times> 'o list) option"
  assumes run_Nil: "run [] s = Some (s, [])"
    and run_Cons: "run (ev # evs) s = do {
      (s, out) \<leftarrow> step ev s;
      (s, out') \<leftarrow> run evs s;
      Some (s, out @ out')
    }"
begin

text \<open>An invariant that may speak of the events to come, and what holds of everything sent out.\<close>

lemma invariant:
  assumes "I evs s" and "run evs s = Some (s', out)"
    and "\<And>ev evs s s1 o1. I (ev # evs) s \<Longrightarrow> step ev s = Some (s1, o1) \<Longrightarrow> I evs s1 \<and> (\<forall>x \<in> set o1. P x)"
  shows "I [] s' \<and> (\<forall>x \<in> set out. P x)"
  using assms(1,2)
proof (induction evs arbitrary: s out)
  case (Cons ev evs)
  from Cons.prems(2) obtain s1 o1 o2 where st: "step ev s = Some (s1, o1)" "run evs s1 = Some (s', o2)" "out = o1 @ o2"
    by (auto simp: run_Cons bind_eq_Some_conv)
  from assms(3) [OF Cons.prems(1) st(1)] Cons.IH [OF _ st(2)] st(3) show ?case by auto
qed (simp add: run_Nil)

text \<open>A run completes if every step does.\<close>

lemma total:
  assumes "I evs s" and "\<And>ev evs s. I (ev # evs) s \<Longrightarrow> \<exists>s1 o1. step ev s = Some (s1, o1) \<and> I evs s1"
  shows "\<exists>s' out. run evs s = Some (s', out) \<and> I [] s'"
  using assms(1)
proof (induction evs arbitrary: s)
  case (Cons ev evs)
  from assms(2) [OF Cons.prems] obtain s1 o1 where "step ev s = Some (s1, o1)" "I evs s1" by blast
  with Cons.IH [of s1] show ?case by (auto simp: run_Cons)
qed (simp add: run_Nil)

lemma split_run:
  "run (evs @ evs') s = do {
     (s, out) \<leftarrow> run evs s;
     (s, out') \<leftarrow> run evs' s;
     Some (s, out @ out')
   }"
proof (induction evs arbitrary: s)
  case (Cons ev evs)
  show ?case
  proof (cases "step ev s")
    case (Some r)
    obtain s1 o1 where r: "r = (s1, o1)" by (cases r)
    show ?thesis
    proof (cases "run evs s1")
      case (Some q)
      obtain s2 o2 where "q = (s2, o2)" by (cases q)
      with Some \<open>step ev s = Some r\<close> r Cons.IH [of s1] show ?thesis
        by (cases "run evs' s2") (auto simp: run_Cons)
    qed (use Some r Cons.IH [of s1] in \<open>simp add: run_Cons\<close>)
  qed (simp add: run_Cons)
next
  case Nil
  then show ?case by (cases "run evs' s") (auto simp: run_Nil)
qed

text \<open>
  A relation between the states before and after and what was sent out between them holds of a run if it holds
  of every step and composes: a budget that is kept, a view that can be rebuilt from what it was sent.
\<close>

lemma composed:
  assumes "I evs s" and "run evs s = Some (s', out)"
    and "\<And>ev evs s s1 o1. I (ev # evs) s \<Longrightarrow> step ev s = Some (s1, o1) \<Longrightarrow> I evs s1 \<and> R s s1 o1"
    and "\<And>s. R s s []" and "\<And>s s1 s2 o1 o2. R s s1 o1 \<Longrightarrow> R s1 s2 o2 \<Longrightarrow> R s s2 (o1 @ o2)"
  shows "I [] s' \<and> R s s' out"
  using assms(1,2)
proof (induction evs arbitrary: s out)
  case (Cons ev evs)
  from Cons.prems(2) obtain s1 o1 o2 where st: "step ev s = Some (s1, o1)" "run evs s1 = Some (s', o2)" "out = o1 @ o2"
    by (auto simp: run_Cons bind_eq_Some_conv)
  from assms(3) [OF Cons.prems(1) st(1)] Cons.IH [OF _ st(2)] have "R s s1 o1" "R s1 s' o2" "I [] s'" by simp_all
  then show ?case unfolding st(3) by (intro conjI assms(5))
qed (use assms(4) in \<open>simp add: run_Nil\<close>)

text \<open>What is sent out was sent by some step.\<close>

lemma sent_by:
  assumes "run evs s = Some (s', out)" and "x \<in> set out"
  shows "\<exists>past ev rest s1 o1 s2 o2. evs = past @ ev # rest \<and> run past s = Some (s1, o1) \<and>
    step ev s1 = Some (s2, o2) \<and> x \<in> set o2"
  using assms
proof (induction evs arbitrary: s out)
  case (Cons ev evs)
  from Cons.prems(1) obtain s1 o1 o2 where st: "step ev s = Some (s1, o1)" "run evs s1 = Some (s', o2)" "out = o1 @ o2"
    by (auto simp: run_Cons bind_eq_Some_conv)
  show ?case
  proof (cases "x \<in> set o1")
    case True
    with st(1) show ?thesis by (intro exI [of _ "[]"] exI [of _ ev] exI [of _ evs]) (simp add: run_Nil)
  next
    case False
    with Cons.prems(2) st(3) have "x \<in> set o2" by simp
    from Cons.IH [OF st(2) this] obtain past ev' rest s2 o3 s3 o4 where
      "evs = past @ ev' # rest" "run past s1 = Some (s2, o3)" "step ev' s2 = Some (s3, o4)" "x \<in> set o4" by blast
    with st(1) show ?thesis
      by (intro exI [of _ "ev # past"] exI [of _ ev'] exI [of _ rest] exI [of _ s2] exI [of _ "o1 @ o3"]
          exI [of _ s3] exI [of _ o4]) (simp add: run_Cons)
  qed
qed (simp add: run_Nil)

end

locale machine =
  fixes step :: "'ev \<Rightarrow> 's \<Rightarrow> 's \<times> 'o list"
    and run :: "'ev list \<Rightarrow> 's \<Rightarrow> 's \<times> 'o list"
  assumes run_Nil: "run [] s = (s, [])"
    and run_Cons: "run (ev # evs) s = (case step ev s of (s, out) \<Rightarrow> case run evs s of (s, out') \<Rightarrow> (s, out @ out'))"

sublocale machine \<subseteq> partial: partial_machine "\<lambda>ev s. Some (step ev s)" "\<lambda>evs s. Some (run evs s)"
  by unfold_locales (simp_all add: run_Nil run_Cons split: prod.split)

context machine
begin

lemma run_invariant:
  assumes "I evs s" and "run evs s = (s', out)"
    and "\<And>ev evs s s1 o1. I (ev # evs) s \<Longrightarrow> step ev s = (s1, o1) \<Longrightarrow> I evs s1 \<and> (\<forall>x \<in> set o1. P x)"
  shows "I [] s' \<and> (\<forall>x \<in> set out. P x)"
  by (rule partial.invariant [of I evs s]) (use assms in auto)

text \<open>An invariant of the state alone, under a condition on the events.\<close>

lemma state_invariant:
  assumes "I s" and "run evs s = (s', out)" and "\<forall>ev \<in> set evs. E ev"
    and "\<And>ev s s1 o1. I s \<Longrightarrow> E ev \<Longrightarrow> step ev s = (s1, o1) \<Longrightarrow> I s1 \<and> (\<forall>x \<in> set o1. P x)"
  shows "I s' \<and> (\<forall>x \<in> set out. P x)"
proof -
  let ?I = "\<lambda>evs s. I s \<and> (\<forall>ev \<in> set evs. E ev)"
  have "?I evs s" using assms(1,3) by simp
  moreover have "?I evs s1 \<and> (\<forall>x \<in> set o1. P x)" if "?I (ev # evs) s" "step ev s = (s1, o1)" for ev evs s s1 o1
    using that(1) assms(4) [OF _ _ that(2)] by simp
  ultimately have "?I [] s' \<and> (\<forall>x \<in> set out. P x)" by (rule run_invariant [where I = ?I, OF _ assms(2)])
  then show ?thesis by simp
qed

lemma preserved:
  assumes "I s" and "\<And>ev s. I s \<Longrightarrow> I (fst (step ev s))"
  shows "I (fst (run evs s))"
  using assms(1)
proof (induction evs arbitrary: s)
  case (Cons ev evs)
  from Cons.IH [OF assms(2) [OF Cons.prems, of ev]] show ?case by (simp add: run_Cons case_prod_beta)
qed (simp add: run_Nil)

lemma composed:
  assumes "I s" and "run evs s = (s', out)" and "\<forall>ev \<in> set evs. E ev"
    and "\<And>ev s s1 o1. I s \<Longrightarrow> E ev \<Longrightarrow> step ev s = (s1, o1) \<Longrightarrow> I s1 \<and> R s s1 o1"
    and "\<And>s. R s s []" and "\<And>s s1 s2 o1 o2. R s s1 o1 \<Longrightarrow> R s1 s2 o2 \<Longrightarrow> R s s2 (o1 @ o2)"
  shows "I s' \<and> R s s' out"
proof -
  let ?I = "\<lambda>evs s. I s \<and> (\<forall>ev \<in> set evs. E ev)"
  have "?I evs s" "Some (run evs s) = Some (s', out)" using assms(1-3) by simp_all
  moreover have "?I evs s1 \<and> R s s1 o1" if "?I (ev # evs) s" "Some (step ev s) = Some (s1, o1)" for ev evs s s1 o1
    using that(1) assms(4) [of s ev s1 o1] that(2) by simp
  ultimately have "?I [] s' \<and> R s s' out" using assms(5,6) by (rule partial.composed [where I = ?I])
  then show ?thesis by simp
qed

lemma run_append:
  "run (evs @ evs') s = (case run evs s of (s, out) \<Rightarrow> case run evs' s of (s, out') \<Rightarrow> (s, out @ out'))"
  using partial.split_run [of evs evs' s] by (simp split: prod.splits)

end

end
