(* ===== verification/Web_Socket.thy ===== *)
theory Web_Socket
  imports Machine Prelude
begin

text \<open>
  The WebSocket connection with its reconnection policy
  (\<^verbatim>\<open>src/app/src/api/WebSocketBase.cpp\<close>), as a state machine: the public operations and
  the slots that Qt calls are its events.
\<close>

section \<open>State\<close>

datatype socket_state = UnconnectedState | ConnectingState | ConnectedState | ClosingState

text \<open>The reconnect timer is single-shot: the delay it was started with, while it runs.\<close>

record WebSocketBase =
  m_socket :: socket_state
  m_baseUrl :: string
  m_sessionToken :: string
  m_autoReconnect :: bool
  m_maxReconnectAttempts :: int
  m_reconnectAttempt :: int
  m_reconnectTimer :: "int option"
  m_lastPath :: string

definition new_WebSocket :: WebSocketBase where
  "new_WebSocket =
     \<lparr>m_socket = UnconnectedState, m_baseUrl = [], m_sessionToken = [], m_autoReconnect = True,
      m_maxReconnectAttempts = 5, m_reconnectAttempt = 0, m_reconnectTimer = None, m_lastPath = []\<rparr>"

text \<open>What it does: open a URL with a token header, if there is one, send, close, emit a signal.\<close>

datatype ws_effect =
  Open string "string option" | Close | SendText string | SendBinary string
| Emit_connected | Emit_disconnected | Emit_connectionStateChanged | Emit_errorOccurred string
| Emit_textMessageReceived string | Emit_binaryMessageReceived string

type_synonym ws_out = "WebSocketBase \<times> ws_effect list"

text \<open>
  What it is built with and what Qt answers: whether WebSockets are compiled in, and which URLs
  are valid.
\<close>

record ws_env =
  HAS_WEBSOCKETS :: bool
  url_valid :: "string \<Rightarrow> bool"

section \<open>URLs\<close>

function chop_slashes :: "string \<Rightarrow> string" where
  "chop_slashes url = (if url \<noteq> [] \<and> last url = CHR ''/'' then chop_slashes (butlast url) else url)"
  by pat_completeness auto

termination chop_slashes
  by (relation "measure length") auto

declare chop_slashes.simps [simp del]

definition lower_char :: "char \<Rightarrow> char" where
  "lower_char c = (if c \<in> set ''ABCDEFGHIJKLMNOPQRSTUVWXYZ'' then char_of (of_char c + 32 :: nat) else c)"

text \<open>\<^verbatim>\<open>startsWith(p, Qt::CaseInsensitive)\<close> for a lower case prefix\<close>

definition starts_insensitive :: "string \<Rightarrow> string \<Rightarrow> bool" where
  "starts_insensitive p s = prefix p (map lower_char s)"

definition buildWsUrl :: "string \<Rightarrow> WebSocketBase \<Rightarrow> string" where
  "buildWsUrl path w =
     (let base = m_baseUrl w;
          base = (if starts_insensitive ''https://'' base then ''wss://'' @ drop 8 base
                  else if starts_insensitive ''http://'' base then ''ws://'' @ drop 7 base
                  else base);
          base = (if \<not> prefix ''/'' path then base @ ''/'' else base)
      in base @ path)"

section \<open>Operations\<close>

definition setBaseUrl :: "string \<Rightarrow> WebSocketBase \<Rightarrow> WebSocketBase" where
  "setBaseUrl url w = w\<lparr>m_baseUrl := chop_slashes url\<rparr>"

definition setSessionToken :: "string \<Rightarrow> WebSocketBase \<Rightarrow> WebSocketBase" where
  "setSessionToken token w = w\<lparr>m_sessionToken := token\<rparr>"

definition setAutoReconnect :: "bool \<Rightarrow> WebSocketBase \<Rightarrow> WebSocketBase" where
  "setAutoReconnect enabled w = w\<lparr>m_autoReconnect := enabled\<rparr>"

definition setMaxReconnectAttempts :: "int \<Rightarrow> WebSocketBase \<Rightarrow> WebSocketBase" where
  "setMaxReconnectAttempts n w = w\<lparr>m_maxReconnectAttempts := n\<rparr>"

definition isConnected :: "ws_env \<Rightarrow> WebSocketBase \<Rightarrow> bool" where
  "isConnected e w = (if HAS_WEBSOCKETS e then m_socket w = ConnectedState else False)"

definition connectToEndpoint :: "ws_env \<Rightarrow> string \<Rightarrow> WebSocketBase \<Rightarrow> ws_out" where
  "connectToEndpoint e path w =
     (if HAS_WEBSOCKETS e
      then let w = w\<lparr>m_lastPath := path, m_reconnectAttempt := 0, m_reconnectTimer := None\<rparr>;
               url = buildWsUrl path w
           in if \<not> url_valid e url then (w, [Emit_errorOccurred ''Invalid WebSocket URL''])
              else (w\<lparr>m_socket := ConnectingState\<rparr>,
                    [Open url (if m_sessionToken w \<noteq> [] then Some (m_sessionToken w) else None)])
      else (w, []))"

definition disconnect :: "ws_env \<Rightarrow> WebSocketBase \<Rightarrow> ws_out" where
  "disconnect e w =
     (if HAS_WEBSOCKETS e
      then let w = w\<lparr>m_autoReconnect := False, m_reconnectTimer := None\<rparr>
           in if m_socket w \<noteq> UnconnectedState then (w\<lparr>m_socket := ClosingState\<rparr>, [Close]) else (w, [])
      else (w, []))"

text \<open>The destructor.\<close>

definition destroy_WebSocketBase :: "ws_env \<Rightarrow> WebSocketBase \<Rightarrow> ws_out" where
  "destroy_WebSocketBase e w = disconnect e w"

definition sendTextMessage :: "ws_env \<Rightarrow> string \<Rightarrow> WebSocketBase \<Rightarrow> ws_out" where
  "sendTextMessage e message w = (w, if isConnected e w then [SendText message] else [])"

definition sendBinaryMessage :: "ws_env \<Rightarrow> string \<Rightarrow> WebSocketBase \<Rightarrow> ws_out" where
  "sendBinaryMessage e data w = (w, if isConnected e w then [SendBinary data] else [])"

definition onTextMessage :: "string \<Rightarrow> WebSocketBase \<Rightarrow> ws_out" where
  "onTextMessage message w = (w, [Emit_textMessageReceived message])"

definition onBinaryMessage :: "string \<Rightarrow> WebSocketBase \<Rightarrow> ws_out" where
  "onBinaryMessage data w = (w, [Emit_binaryMessageReceived data])"

definition onConnected :: "WebSocketBase \<Rightarrow> ws_out" where
  "onConnected w =
     (w\<lparr>m_socket := ConnectedState, m_reconnectAttempt := 0\<rparr>, [Emit_connected, Emit_connectionStateChanged])"

definition onDisconnected :: "WebSocketBase \<Rightarrow> ws_out" where
  "onDisconnected w =
     (let w = w\<lparr>m_socket := UnconnectedState\<rparr> in
      (if m_autoReconnect w \<and> m_reconnectAttempt w < m_maxReconnectAttempts w
       then w\<lparr>m_reconnectTimer := Some ((m_reconnectAttempt w + 1) * 1000)\<rparr> else w,
       [Emit_disconnected, Emit_connectionStateChanged]))"

text \<open>\<open>msg\<close> is the error string of the socket.\<close>

definition onError :: "ws_env \<Rightarrow> string \<Rightarrow> WebSocketBase \<Rightarrow> ws_out" where
  "onError e msg w = (w, if HAS_WEBSOCKETS e then [Emit_errorOccurred msg] else [])"

text \<open>The timer has run out.\<close>

definition attemptReconnect :: "ws_env \<Rightarrow> WebSocketBase \<Rightarrow> ws_out" where
  "attemptReconnect e w =
     (let w = w\<lparr>m_reconnectTimer := None\<rparr> in
      if m_lastPath w = [] then (w, [])
      else let attempt = m_reconnectAttempt w + 1;
               (w, out) = connectToEndpoint e (m_lastPath w) (w\<lparr>m_reconnectAttempt := attempt\<rparr>)
           in (w\<lparr>m_reconnectAttempt := attempt\<rparr>, out))"

section \<open>Events\<close>

datatype ws_event =
  Set_base string | Set_token string | Set_auto bool | Set_max int | Connect string | Disconnect
| Send_text string | Send_binary string | Text_message string | Binary_message string
| Socket_connected | Socket_disconnected | Socket_error string | Timeout

fun ws_step :: "ws_env \<Rightarrow> ws_event \<Rightarrow> WebSocketBase \<Rightarrow> ws_out" where
  "ws_step e (Set_base url) w = (setBaseUrl url w, [])"
| "ws_step e (Set_token token) w = (setSessionToken token w, [])"
| "ws_step e (Set_auto b) w = (setAutoReconnect b w, [])"
| "ws_step e (Set_max n) w = (setMaxReconnectAttempts n w, [])"
| "ws_step e (Connect path) w = connectToEndpoint e path w"
| "ws_step e Disconnect w = disconnect e w"
| "ws_step e (Send_text s) w = sendTextMessage e s w"
| "ws_step e (Send_binary s) w = sendBinaryMessage e s w"
| "ws_step e (Text_message s) w = onTextMessage s w"
| "ws_step e (Binary_message s) w = onBinaryMessage s w"
| "ws_step e Socket_connected w = onConnected w"
| "ws_step e Socket_disconnected w = onDisconnected w"
| "ws_step e (Socket_error msg) w = onError e msg w"
| "ws_step e Timeout w = (if m_reconnectTimer w = None then (w, []) else attemptReconnect e w)"

fun ws_run :: "ws_env \<Rightarrow> ws_event list \<Rightarrow> WebSocketBase \<Rightarrow> ws_out" where
  "ws_run e [] w = (w, [])"
| "ws_run e (ev # evs) w =
     (let (w, out) = ws_step e ev w; (w, outs) = ws_run e evs w in (w, out @ outs))"

interpretation sockets: machine "ws_step e" "ws_run e" for e
  by unfold_locales simp_all

section \<open>Lemmas\<close>

text \<open>
  The invariant of the policy: while the timer runs another attempt is allowed, and its delay is
  that of the coming attempt.
\<close>

definition policy_ok :: "WebSocketBase \<Rightarrow> bool" where
  "policy_ok w \<longleftrightarrow> 0 \<le> m_reconnectAttempt w \<and> m_reconnectAttempt w \<le> m_maxReconnectAttempts w \<and>
     (\<forall>d. m_reconnectTimer w = Some d \<longrightarrow>
        m_reconnectAttempt w < m_maxReconnectAttempts w \<and> 1000 \<le> d \<and> d \<le> m_maxReconnectAttempts w * 1000)"

lemma policy_step:
  "policy_ok w \<Longrightarrow> (\<And>n. ev \<noteq> Set_max n) \<Longrightarrow> ws_step e ev w = (w', out) \<Longrightarrow>
     policy_ok w' \<and> m_maxReconnectAttempts w' = m_maxReconnectAttempts w"
  by (cases ev)
    (auto simp: policy_ok_def setBaseUrl_def setSessionToken_def setAutoReconnect_def connectToEndpoint_def
      disconnect_def sendTextMessage_def sendBinaryMessage_def onTextMessage_def onBinaryMessage_def
      onConnected_def onDisconnected_def onError_def attemptReconnect_def Let_def split: if_splits)

definition no_set_max :: "ws_event \<Rightarrow> bool" where
  "no_set_max ev \<longleftrightarrow> (\<forall>n. ev \<noteq> Set_max n)"

lemma policy_run:
  assumes "policy_ok w" "list_all no_set_max evs" "ws_run e evs w = (w', out)"
  shows "policy_ok w' \<and> m_maxReconnectAttempts w' = m_maxReconnectAttempts w"
proof -
  let ?I = "\<lambda>t. policy_ok t \<and> m_maxReconnectAttempts t = m_maxReconnectAttempts w"
  have "?I t1 \<and> (\<forall>x \<in> set o1. True)" if "?I t" "no_set_max ev" "ws_step e ev t = (t1, o1)" for ev t t1 o1
    using policy_step [OF _ _ that(3)] that(1,2) by (auto simp: no_set_max_def)
  from sockets.state_invariant [where I = ?I, OF _ assms(3) _ this] assms(1,2) show ?thesis by (simp add: list_all_iff)
qed

lemma policy_new: "policy_ok new_WebSocket"
  by (simp add: policy_ok_def new_WebSocket_def)

text \<open>How often a socket was opened, and the events by which a user asks for it.\<close>

definition opens :: "ws_effect list \<Rightarrow> nat" where
  "opens out = length (filter (\<lambda>x. case x of Open u t \<Rightarrow> True | _ \<Rightarrow> False) out)"

lemma opens_append [simp]: "opens (xs @ ys) = opens xs + opens ys"
  by (simp add: opens_def)

definition lost_event :: "ws_event \<Rightarrow> bool" where
  "lost_event ev \<longleftrightarrow> (\<forall>n. ev \<noteq> Set_max n) \<and> (\<forall>p. ev \<noteq> Connect p) \<and> ev \<noteq> Socket_connected"

lemma lost_step:
  "policy_ok w \<Longrightarrow> lost_event ev \<Longrightarrow> ws_step e ev w = (w', out) \<Longrightarrow>
     int (opens out) \<le> m_reconnectAttempt w' - m_reconnectAttempt w"
  by (cases ev)
    (auto simp: policy_ok_def lost_event_def setBaseUrl_def setSessionToken_def setAutoReconnect_def
      connectToEndpoint_def disconnect_def sendTextMessage_def sendBinaryMessage_def onTextMessage_def
      onBinaryMessage_def onDisconnected_def onError_def attemptReconnect_def Let_def opens_def split: if_splits)

lemma lost_run:
  assumes "policy_ok w" "list_all lost_event evs" "ws_run e evs w = (w', out)"
  shows "int (opens out) \<le> m_reconnectAttempt w' - m_reconnectAttempt w"
proof -
  have "\<forall>ev \<in> set evs. lost_event ev" using assms(2) by (simp add: list_all_iff)
  moreover have "policy_ok t1 \<and> int (opens o1) \<le> m_reconnectAttempt t1 - m_reconnectAttempt t"
    if "policy_ok t" "lost_event ev" "ws_step e ev t = (t1, o1)" for ev t t1 o1
    using policy_step [OF that(1) _ that(3)] lost_step [OF that] that(2) by (simp add: lost_event_def)
  ultimately have "policy_ok w' \<and> int (opens out) \<le> m_reconnectAttempt w' - m_reconnectAttempt w"
    by (rule sockets.composed [where I = policy_ok and R = "\<lambda>w w' out. int (opens out) \<le> m_reconnectAttempt w' - m_reconnectAttempt w",
          OF assms(1,3)]) (simp_all add: opens_def)
  then show ?thesis by simp
qed

text \<open>No reconnection without the user's consent.\<close>

definition resting :: "WebSocketBase \<Rightarrow> bool" where
  "resting w \<longleftrightarrow> \<not> m_autoReconnect w \<and> m_reconnectTimer w = None"

lemma resting_step:
  "resting w \<Longrightarrow> ev \<noteq> Set_auto True \<Longrightarrow> ws_step e ev w = (w', out) \<Longrightarrow>
     resting w' \<and> ((\<forall>p. ev \<noteq> Connect p) \<longrightarrow> opens out = 0)"
  by (cases ev)
    (auto simp: resting_def setBaseUrl_def setSessionToken_def setAutoReconnect_def setMaxReconnectAttempts_def
      connectToEndpoint_def disconnect_def sendTextMessage_def sendBinaryMessage_def onTextMessage_def
      onBinaryMessage_def onConnected_def onDisconnected_def onError_def Let_def opens_def split: if_splits)

lemma lower_char_letters:
  "lower_char (CHR ''H'') = CHR ''h''" "lower_char (CHR ''T'') = CHR ''t''"
  "lower_char (CHR ''P'') = CHR ''p''" "lower_char (CHR ''S'') = CHR ''s''"
  "lower_char (CHR ''h'') = CHR ''h''" "lower_char (CHR ''t'') = CHR ''t''"
  "lower_char (CHR ''p'') = CHR ''p''" "lower_char (CHR ''s'') = CHR ''s''"
  "lower_char (CHR '':'') = CHR '':''" "lower_char (CHR ''/'') = CHR ''/''"
  by code_simp+

section \<open>Properties\<close>

text \<open>C33. From the start, and as long as the limit is not changed: the count of attempts stays
  within the limit of five, a running reconnect timer was started with a delay between one and
  five seconds, and while the connection stays down the sockets opened by the timer and the
  attempts left are at most five together. (No product of the policy overflows an int.)\<close>

theorem reconnect_bounds:
  assumes "list_all no_set_max evs" and "ws_run e evs new_WebSocket = (w, out)"
    and "list_all lost_event later" and "ws_run e later w = (w', out')"
  shows "0 \<le> m_reconnectAttempt w \<and> m_reconnectAttempt w \<le> 5 \<and>
    (\<forall>d. m_reconnectTimer w = Some d \<longrightarrow> 1000 \<le> d \<and> d \<le> 5000) \<and>
    int (opens out') + (5 - m_reconnectAttempt w') \<le> 5 - m_reconnectAttempt w"
proof -
  from policy_run [OF policy_new assms(1,2)] have p: "policy_ok w" and n: "m_maxReconnectAttempts w = 5"
    by (simp_all add: new_WebSocket_def)
  from lost_run [OF p assms(3,4)] p n show ?thesis by (auto simp: policy_ok_def)
qed

theorem reconnect_bounds_witness:
  "let e = \<lparr>HAS_WEBSOCKETS = True, url_valid = (\<lambda>_. True)\<rparr>;
       (w, out) = ws_run e [Connect ''/api''] new_WebSocket;
       (w', out') = ws_run e [Socket_disconnected, Timeout, Socket_disconnected, Timeout] w
   in opens out' = 2 \<and> int (opens out') + (5 - m_reconnectAttempt w') \<le> 5 - m_reconnectAttempt w"
proof -
  let ?e = "\<lparr>HAS_WEBSOCKETS = True, url_valid = (\<lambda>_. True)\<rparr>"
  let ?more = "[Socket_disconnected, Timeout, Socket_disconnected, Timeout]"
  obtain w out where r: "ws_run ?e [Connect ''/api''] new_WebSocket = (w, out)" by fastforce
  obtain w' out' where r': "ws_run ?e ?more w = (w', out')" by fastforce
  have "list_all no_set_max [Connect ''/api'']" "list_all lost_event ?more"
    by (simp_all add: no_set_max_def lost_event_def)
  from reconnect_bounds [OF this(1) r this(2) r'] have
    "int (opens out') + (5 - m_reconnectAttempt w') \<le> 5 - m_reconnectAttempt w" by blast
  moreover have "opens out' = 2"
    using r r' by (auto simp: connectToEndpoint_def new_WebSocket_def onDisconnected_def attemptReconnect_def
        Let_def opens_def)
  ultimately show ?thesis unfolding Let_def r r' prod.case by blast
qed

text \<open>After an explicit disconnect no reconnection is ever scheduled and no socket is opened
  that was not asked for, until automatic reconnection is switched on again. A new connection does
  not switch it on: from then on a loss of that connection is final, too.\<close>

lemma disconnect_is_final:
  assumes "HAS_WEBSOCKETS e" and "disconnect e w = (w1, out1)"
    and "Set_auto True \<notin> set evs" and "ws_run e evs w1 = (w2, out)"
  shows "\<not> m_autoReconnect w2 \<and> m_reconnectTimer w2 = None \<and>
    opens out \<le> length (filter (\<lambda>ev. case ev of Connect p \<Rightarrow> True | _ \<Rightarrow> False) evs)"
proof -
  have run: "resting w2 \<and> opens out \<le> length (filter (\<lambda>ev. case ev of Connect p \<Rightarrow> True | _ \<Rightarrow> False) evs)"
    if "resting w1" using that assms(3,4)
  proof (induction evs arbitrary: w1 out)
    case (Cons ev evs)
    obtain x o1 where s: "ws_step e ev w1 = (x, o1)" by fastforce
    obtain o2 where r: "ws_run e evs x = (w2, o2)" "out = o1 @ o2"
      using Cons.prems(3) s by (auto split: prod.splits)
    have ev: "ev \<noteq> Set_auto True" using Cons.prems(2) by auto
    have one: "opens o1 \<le> 1" if "ev = Connect p" for p
      using s that by (auto simp: connectToEndpoint_def Let_def opens_def split: if_splits)
    from resting_step [OF Cons.prems(1) ev s] have "resting x" and
      z: "(\<forall>p. ev \<noteq> Connect p) \<longrightarrow> opens o1 = 0" by simp_all
    from Cons.IH [OF this(1) _ r(1)] Cons.prems(2) r(2) one z show ?case
      by (cases "\<exists>p. ev = Connect p") (fastforce split: ws_event.split)+
  qed (simp add: opens_def)
  have "resting w1" using assms(1,2) by (auto simp: disconnect_def resting_def Let_def split: if_splits)
  with run show ?thesis by (simp add: resting_def)
qed

text \<open>The base URL is kept without trailing slashes and otherwise as given, and the URL that is
  opened keeps the security of the base: an https base, in whatever case, gives a wss URL with the
  same host, and the path is separated from it by a slash.\<close>

lemma ws_url_spec:
  "(\<exists>n. url = m_baseUrl (setBaseUrl url w) @ replicate n (CHR ''/'')) \<and>
   \<not> suffix ''/'' (m_baseUrl (setBaseUrl url w)) \<and>
   buildWsUrl path (w\<lparr>m_baseUrl := ''HTTPS://'' @ host\<rparr>) = buildWsUrl path (w\<lparr>m_baseUrl := ''https://'' @ host\<rparr>) \<and>
   buildWsUrl path (w\<lparr>m_baseUrl := ''https://'' @ host\<rparr>) =
     ''wss://'' @ host @ (if prefix ''/'' path then path else CHR ''/'' # path) \<and>
   buildWsUrl path (w\<lparr>m_baseUrl := ''http://'' @ host\<rparr>) =
     ''ws://'' @ host @ (if prefix ''/'' path then path else CHR ''/'' # path)"
proof -
  have chop: "(\<exists>n. u = chop_slashes u @ replicate n (CHR ''/'')) \<and>
      (chop_slashes u = [] \<or> last (chop_slashes u) \<noteq> CHR ''/'')" for u
  proof (induction u rule: chop_slashes.induct)
    case (1 u)
    show ?case
    proof (cases "u \<noteq> [] \<and> last u = CHR ''/''")
      case True
      then have c: "chop_slashes u = chop_slashes (butlast u)" by (subst chop_slashes.simps) simp
      from 1 [OF True] obtain n where n: "butlast u = chop_slashes (butlast u) @ replicate n (CHR ''/'')"
        and l: "chop_slashes (butlast u) = [] \<or> last (chop_slashes (butlast u)) \<noteq> CHR ''/''" by blast
      have "u = butlast u @ [CHR ''/'']" using True append_butlast_last_id [of u] by simp
      also have "\<dots> = chop_slashes (butlast u) @ replicate n (CHR ''/'') @ [CHR ''/'']"
        by (subst n) simp
      also have "\<dots> = chop_slashes (butlast u) @ replicate (Suc n) (CHR ''/'')"
        by (simp add: replicate_append_same)
      finally show ?thesis using l unfolding c by blast
    next
      case False
      then have "chop_slashes u = u" by (subst chop_slashes.simps) auto
      with False show ?thesis by (metis append_Nil2 replicate_0)
    qed
  qed
  note low = lower_char_letters
  have "\<not> suffix ''/'' (chop_slashes url)" using chop [of url] by (auto simp: suffix_def)
  with chop [of url] show ?thesis
    by (auto simp: setBaseUrl_def buildWsUrl_def starts_insensitive_def low)
qed

end
