(* ===== verification/Running_Apps.thy ===== *)
theory Running_Apps
  imports Models
begin

text \<open>
  The list of running applications for the views (\<^verbatim>\<open>src/app/src/apps/RunningAppModel.cpp\<close>)
  and the launch profiles of known applications (\<^verbatim>\<open>AppLaunchProfile.cpp\<close>).
\<close>

section \<open>The model of the running applications\<close>

record app_entry =
  en_pid :: int
  en_appName :: string
  en_command :: string

type_synonym RunningAppModel = "app_entry list"

datatype RunningAppRole = R_PidRole | R_AppNameRole | R_CommandRole | R_OtherRole int

definition running_rowCount :: "bool \<Rightarrow> RunningAppModel \<Rightarrow> nat" where
  "running_rowCount parent_valid entries = (if parent_valid then 0 else length entries)"

fun running_value :: "app_entry \<Rightarrow> RunningAppRole \<Rightarrow> qvariant" where
  "running_value entry R_PidRole = QInt (en_pid entry)"
| "running_value entry R_AppNameRole = QString (en_appName entry)"
| "running_value entry R_CommandRole = QString (en_command entry)"
| "running_value entry (R_OtherRole r) = QInvalid"

definition running_data :: "RunningAppModel \<Rightarrow> row_index \<Rightarrow> RunningAppRole \<Rightarrow> qvariant" where
  "running_data entries idx role =
     (case row_at entries idx of None \<Rightarrow> QInvalid | Some entry \<Rightarrow> running_value entry role)"

definition running_roleNames :: "(RunningAppRole \<times> string) list" where
  "running_roleNames =
     [(R_PidRole, ''pid''), (R_AppNameRole, ''appName''), (R_CommandRole, ''command'')]"

definition addApp :: "int \<Rightarrow> string \<Rightarrow> string \<Rightarrow> RunningAppModel \<Rightarrow> RunningAppModel \<times> row_signal list" where
  "addApp pid appName command entries =
     (entries @ [\<lparr>en_pid = pid, en_appName = appName, en_command = command\<rparr>],
      [InsertRow (length entries), CountChanged])"

text \<open>The loop of \<^verbatim>\<open>removeApp\<close>, from row \<open>i\<close> on; \<open>n\<close> rows are left.\<close>

fun remove_app_from :: "int \<Rightarrow> nat \<Rightarrow> nat \<Rightarrow> RunningAppModel \<Rightarrow> (RunningAppModel \<times> row_signal list) option" where
  "remove_app_from pid i 0 entries = Some (entries, [])"
| "remove_app_from pid i (Suc n) entries = do {
     x \<leftarrow> load_at entries i;
     if en_pid x = pid then Some (take i entries @ drop (Suc i) entries, [RemoveRow i, CountChanged])
     else remove_app_from pid (Suc i) n entries
   }"

definition model_removeApp :: "int \<Rightarrow> RunningAppModel \<Rightarrow> (RunningAppModel \<times> row_signal list) option" where
  "model_removeApp pid entries = remove_app_from pid 0 (length entries) entries"

definition running_clear :: "RunningAppModel \<Rightarrow> RunningAppModel \<times> row_signal list" where
  "running_clear entries = (if entries = [] then (entries, []) else ([], [ResetModel, CountChanged]))"

text \<open>The row that goes is the first with the identifier, and a view follows.\<close>

lemma remove_app_from_spec:
  assumes "i + n = length entries" and "\<forall>j < i. en_pid (entries ! j) \<noteq> pid"
  shows "\<exists>sg. remove_app_from pid i n entries =
      Some (case find (\<lambda>j. en_pid (entries ! j) = pid) [i..<length entries] of
              None \<Rightarrow> entries | Some j \<Rightarrow> take j entries @ drop (Suc j) entries, sg) \<and>
    view_led sg entries (case find (\<lambda>j. en_pid (entries ! j) = pid) [i..<length entries] of
              None \<Rightarrow> entries | Some j \<Rightarrow> take j entries @ drop (Suc j) entries)"
  using assms
proof (induction n arbitrary: i)
  case (Suc n)
  then have i: "i < length entries" by simp
  then have u: "[i..<length entries] = i # [Suc i..<length entries]" by (rule upt_conv_Cons)
  show ?case
  proof (cases "en_pid (entries ! i) = pid")
    case True
    with i u view_led_Cons [OF view_led_step(1) [OF i], of "[CountChanged]"] show ?thesis by simp
  next
    case False
    have "\<forall>j < Suc i. en_pid (entries ! j) \<noteq> pid" using Suc.prems(2) False less_Suc_eq by auto
    from Suc.IH [OF _ this] Suc.prems(1) False i u show ?thesis by simp
  qed
qed simp

lemma model_removeApp_at:
  assumes "i < length entries" and "distinct (map en_pid entries)"
  shows "\<exists>sg. model_removeApp (en_pid (entries ! i)) entries =
      Some (take i entries @ drop (Suc i) entries, sg) \<and>
    view_led sg entries (take i entries @ drop (Suc i) entries)"
proof -
  have "find (\<lambda>j. en_pid (entries ! j) = en_pid (entries ! i)) [0..<length entries] = Some i"
  proof -
    have "\<forall>j < length entries. en_pid (entries ! j) = en_pid (entries ! i) \<longleftrightarrow> j = i"
      using assms nth_eq_iff_index_eq [OF assms(2)] by auto
    then have "find (\<lambda>j. en_pid (entries ! j) = en_pid (entries ! i)) [0..<length entries] =
        find (\<lambda>j. j = i) [0..<length entries]" by (intro find_cong) auto
    moreover have "find (\<lambda>j. j = i) [0..<length entries] = Some i"
      using assms(1) by (simp add: find_Some_iff) (intro exI [of _ i], simp)
    ultimately show ?thesis by simp
  qed
  with remove_app_from_spec [of 0 "length entries" entries "en_pid (entries ! i)"] show ?thesis
    by (auto simp: model_removeApp_def)
qed

section \<open>Launch profiles\<close>

record LaunchProfile =
  isolatePid :: bool
  isolateIpc :: bool
  isolateNetwork :: bool
  isolateFilesystem :: bool
  bindHomeRw :: bool
  extraBindPaths :: "string list"

definition profile :: "bool \<Rightarrow> bool \<Rightarrow> bool \<Rightarrow> bool \<Rightarrow> bool \<Rightarrow> LaunchProfile" where
  "profile p i n f h =
     \<lparr>isolatePid = p, isolateIpc = i, isolateNetwork = n, isolateFilesystem = f, bindHomeRw = h,
      extraBindPaths = []\<rparr>"

text \<open>The four helpers, each inserting one shape for a list of identifiers.\<close>

definition insert_all :: "LaunchProfile \<Rightarrow> string list \<Rightarrow> (string \<rightharpoonup> LaunchProfile) \<Rightarrow> (string \<rightharpoonup> LaunchProfile)" where
  "insert_all pr ids reg = fold (\<lambda>k reg. reg(k \<mapsto> pr)) ids reg"

definition browsers :: "string list" where
  "browsers =
     [''firefox'', ''google-chrome'', ''google-chrome-stable'', ''chromium'', ''chromium-browser'',
      ''brave-browser'', ''vivaldi'', ''zen-browser'', ''microsoft-edge'']"

definition electron_ides :: "string list" where
  "electron_ides = [''code'', ''code-insiders'', ''cursor'', ''codium'']"

definition jetbrains_ides :: "string list" where
  "jetbrains_ides =
     [''idea'', ''goland'', ''pycharm'', ''webstorm'', ''clion'', ''phpstorm'', ''rider'', ''rubymine'',
      ''datagrip'']"

definition isolated_apps :: "string list" where
  "isolated_apps =
     [''zed'', ''lapce'', ''fleet'', ''antigravity''] @
     [''gedit'', ''kate'', ''kwrite'', ''mousepad'', ''xed'', ''pluma'', ''sublime_text'', ''subl'',
      ''emacs'', ''gvim'', ''neovide''] @
     [''claude'', ''aider'', ''continue''] @
     [''alacritty'', ''kitty'', ''wezterm'', ''foot'', ''gnome-terminal'', ''konsole'',
      ''xfce4-terminal'', ''tilix'']"

definition profileRegistry :: "string \<rightharpoonup> LaunchProfile" where
  "profileRegistry =
     insert_all (profile True True False False False) isolated_apps
       (insert_all (profile False True False False True) jetbrains_ides
         (insert_all (profile False False False False True) electron_ides
           (insert_all (profile False False False False True) browsers Map.empty)))"

definition profileFor :: "string \<Rightarrow> LaunchProfile" where
  "profileFor appId =
     (case profileRegistry appId of Some pr \<Rightarrow> pr | None \<Rightarrow> profile True True False False False)"

definition hasProfile :: "string \<Rightarrow> bool" where
  "hasProfile appId \<longleftrightarrow> profileRegistry appId \<noteq> None"

text \<open>The keys, in the order they were inserted (Qt leaves the order open).\<close>

definition knownAppIds :: "string list" where
  "knownAppIds = browsers @ electron_ides @ jetbrains_ides @ isolated_apps"

lemma insert_all_apply: "insert_all pr ids reg k = (if k \<in> set ids then Some pr else reg k)"
  unfolding insert_all_def by (induction ids arbitrary: reg) auto

lemma profileRegistry_apply:
  "profileRegistry k =
     (if k \<in> set isolated_apps then Some (profile True True False False False)
      else if k \<in> set jetbrains_ides then Some (profile False True False False True)
      else if k \<in> set electron_ides \<or> k \<in> set browsers then Some (profile False False False False True)
      else None)"
  by (simp add: profileRegistry_def insert_all_apply)

text \<open>The table of launch profiles: every identifier is listed once, and a profile exists exactly
  for the listed ones. Browsers and Electron IDEs share both namespaces, JetBrains IDEs the process
  namespace only, and these three see the home directory writable; every other application, listed or
  not, is isolated in both. No profile isolates the network or the file system.\<close>

lemma profile_table:
  "distinct knownAppIds \<and> hasProfile k = (k \<in> set knownAppIds) \<and>
   isolatePid (profileFor k) = (k \<notin> set browsers \<union> set electron_ides \<union> set jetbrains_ides) \<and>
   isolateIpc (profileFor k) = (k \<notin> set browsers \<union> set electron_ides) \<and>
   bindHomeRw (profileFor k) = (\<not> isolatePid (profileFor k)) \<and>
   \<not> isolateNetwork (profileFor k) \<and> \<not> isolateFilesystem (profileFor k) \<and> extraBindPaths (profileFor k) = []"
proof -
  have d: "distinct knownAppIds"
    by (simp add: knownAppIds_def browsers_def electron_ides_def jetbrains_ides_def isolated_apps_def)
  then have dis: "set isolated_apps \<inter> (set browsers \<union> set electron_ides \<union> set jetbrains_ides) = {}"
    "set jetbrains_ides \<inter> (set browsers \<union> set electron_ides) = {}"
    unfolding knownAppIds_def by auto
  have p: "profileFor k = (if k \<in> set jetbrains_ides then profile False True False False True
      else if k \<in> set electron_ides \<or> k \<in> set browsers then profile False False False False True
      else profile True True False False False)"
    using dis by (auto simp: profileFor_def profileRegistry_apply)
  have "hasProfile k = (k \<in> set knownAppIds)"
    by (auto simp: hasProfile_def profileRegistry_apply knownAppIds_def)
  with d dis show ?thesis by (auto simp: p profile_def)
qed

end
