(* ===== verification/Dlp_Manager.thy ===== *)
theory Dlp_Manager
  imports Lifetime Launch_Spec Running_Apps
begin

text \<open>
  The manager of the desktop application (\<^verbatim>\<open>src/app/src/dlp/DlpCompositorManager.cpp\<close>):
  one compositor for every application it launches. It is the client of the C library; its
  operations are stated over the same registry, memory and operating system. Log output is left
  out, a \<^verbatim>\<open>QString\<close> is its UTF-8 bytes.
\<close>

section \<open>State\<close>

text \<open>
  A running application; the notifier is known by the descriptor it watches. Both pointers are
  owned, the one by a smart pointer, the other by hand.
\<close>

record RunningApp =
  ra_pid :: int
  ra_appName :: string
  ra_command :: string
  ra_compositor :: ptr
  ra_notifier :: "int option"
  bwrapExited :: bool

record DlpCompositorManager =
  m_apps :: "RunningApp list"
  m_runningAppModel :: RunningAppModel
  m_logLevel :: coder_dlp_log_level
  m_currentPolicy :: coder_dlp_policy
  m_watermarkIdentity :: string

text \<open>The manager with what it shares with the library: the registry, the memory and the system.\<close>

record managed = DlpCompositorManager +
  w_reg :: "addr vec"
  w_heap :: heap
  w_os :: os

text \<open>
  What is seen from outside, in order: signals, calls of the library, notifiers, \<^verbatim>\<open>kill\<close>. A
  \<^verbatim>\<open>kill\<close> with the identifier of a process that is no child (any more) is a \<open>Stray_kill\<close>: it fails, or
  reaches whatever process has that number now.
\<close>

datatype mgr_effect =
  RunningChanged | AppCountChanged | ErrorOccurred string | Rows "row_signal list"
| Library "call list" | Notifier_on int | Notifier_off int | Kill int | Stray_kill int

type_synonym managing = "(managed \<times> mgr_effect list) option"

text \<open>The arguments of \<^verbatim>\<open>launchApp\<close>.\<close>

record launch_request =
  rq_command :: string
  rq_appName :: string
  rq_workspacePath :: string
  rq_isolatePid :: bool
  rq_isolateIpc :: bool
  rq_isolateNetwork :: bool
  rq_isolateFilesystem :: bool
  rq_bindHomeRw :: bool
  rq_extraBindPaths :: "string list"
  rq_filterDbus :: bool
  rq_dbusAllowedNames :: "string list"

text \<open>
  What an operation is answered: the build, the environment, the creation of a compositor, its
  title, its descriptor, the launch; the address of the log callback and of the manager itself; and
  which children have exited.
\<close>

record mgr_env =
  me_build :: build_config
  me_getenv :: "string \<rightharpoonup> string"
  me_create :: create_env
  me_view :: wlr_view
  me_strdup :: bool
  me_fd :: int
  me_launch :: launch_env
  me_log_cb :: addr
  me_this :: addr
  me_exited :: "int \<Rightarrow> bool"

definition new_manager :: "addr vec \<Rightarrow> heap \<Rightarrow> os \<Rightarrow> managed" where
  "new_manager reg h s =
     \<lparr>m_apps = [], m_runningAppModel = [], m_logLevel = CODER_DLP_LOG_ERROR, m_currentPolicy = zero_policy,
      m_watermarkIdentity = [], w_reg = reg, w_heap = h, w_os = s\<rparr>"

section \<open>Questions\<close>

definition isAvailable :: "mgr_env \<Rightarrow> bool" where
  "isAvailable e = coder_dlp_is_available (me_build e) (me_getenv e)"

definition isWaylandSession :: "mgr_env \<Rightarrow> bool" where
  "isWaylandSession e \<longleftrightarrow> me_getenv e ''WAYLAND_DISPLAY'' \<noteq> None"

definition securityLevel :: "mgr_env \<Rightarrow> string" where
  "securityLevel e =
     (if \<not> isAvailable e then ''unavailable''
      else if me_getenv e ''WAYLAND_DISPLAY'' \<noteq> None then ''full''
      else ''partial'')"

definition isRunning :: "managed \<Rightarrow> bool" where
  "isRunning m \<longleftrightarrow> m_apps m \<noteq> []"

definition launchedAppCount :: "managed \<Rightarrow> nat" where
  "launchedAppCount m = length (m_apps m)"

definition setLogLevel :: "string \<Rightarrow> managed \<Rightarrow> managed" where
  "setLogLevel level m =
     m\<lparr>m_logLevel :=
       (if level = ''trace'' \<or> level = ''debug'' then CODER_DLP_LOG_DEBUG
        else if level = ''info'' then CODER_DLP_LOG_INFO
        else CODER_DLP_LOG_ERROR)\<rparr>"

section \<open>Using a compositor\<close>

text \<open>A call of the library on a compositor; a freed one is undefined behaviour.\<close>

definition on_compositor ::
    "ptr \<Rightarrow> (coder_dlp_compositor option \<Rightarrow> coder_dlp_compositor option) \<Rightarrow> managed \<Rightarrow> managed option" where
  "on_compositor p f m =
     (case p of
        None \<Rightarrow> Some m
      | Some a \<Rightarrow> do {
          c \<leftarrow> w_heap m a;
          c' \<leftarrow> f (Some c);
          Some (m\<lparr>w_heap := (w_heap m)(a \<mapsto> c')\<rparr>)
        })"

text \<open>The notifier goes first, then the compositor, if there is one.\<close>

definition destroy_app :: "mgr_env \<Rightarrow> RunningApp \<Rightarrow> managed \<Rightarrow> managing" where
  "destroy_app e app m =
     (let off = (case ra_notifier app of None \<Rightarrow> [] | Some fd \<Rightarrow> [Notifier_off fd]) in
      if ra_compositor app \<noteq> None
      then do {
        (reg, h, s, calls) \<leftarrow>
          coder_dlp_destroy (me_build e) (me_exited e) (ra_compositor app) (w_reg m) (w_heap m) (w_os m);
        Some (m\<lparr>w_reg := reg, w_heap := h, w_os := s\<rparr>, off @ [Library calls])
      }
      else Some (m, off))"

definition removeApp :: "mgr_env \<Rightarrow> int \<Rightarrow> managed \<Rightarrow> managing" where
  "removeApp e index m =
     (if index < 0 \<or> index \<ge> int (length (m_apps m)) then Some (m, [])
      else do {
        let i = nat index;
        app \<leftarrow> load_at (m_apps m) i;
        (m, out) \<leftarrow> destroy_app e app m;
        let m = m\<lparr>m_apps := take i (m_apps m) @ drop (Suc i) (m_apps m)\<rparr>;
        (entries, sg) \<leftarrow> model_removeApp (ra_pid app) (m_runningAppModel m);
        Some (m\<lparr>m_runningAppModel := entries\<rparr>,
          out @ [Rows sg, AppCountChanged] @ (if m_apps m = [] then [RunningChanged] else []))
      })"

section \<open>Launching\<close>

definition app_name :: "launch_request \<Rightarrow> string" where
  "app_name rq = (if rq_appName rq = [] then rq_command rq else rq_appName rq)"

definition window_title :: "launch_request \<Rightarrow> string" where
  "window_title rq = ''Coder Secure - '' @ app_name rq"

definition sandbox_of :: "launch_request \<Rightarrow> coder_dlp_sandbox_config" where
  "sandbox_of rq =
     zero_sandbox_config
       \<lparr>workspace_path := (if rq_workspacePath rq = [] then None else Some (rq_workspacePath rq)),
        network_namespace := (if rq_isolateNetwork rq then Some ''dlp_net'' else None),
        isolate_pid := rq_isolatePid rq, isolate_ipc := rq_isolateIpc rq,
        isolate_filesystem := rq_isolateFilesystem rq, bind_home_rw := rq_bindHomeRw rq,
        extra_bind_paths := (if rq_extraBindPaths rq = [] then None else Some (map Some (rq_extraBindPaths rq))),
        extra_bind_count := int (length (rq_extraBindPaths rq)),
        filter_dbus := rq_filterDbus rq,
        dbus_talk_names := (if rq_dbusAllowedNames rq = [] then None else Some (map Some (rq_dbusAllowedNames rq))),
        dbus_talk_count := int (length (rq_dbusAllowedNames rq))\<rparr>"

text \<open>The new compositor gets callback, policy, identity and title.\<close>

definition set_up_compositor :: "mgr_env \<Rightarrow> launch_request \<Rightarrow> addr \<Rightarrow> managed \<Rightarrow> managing" where
  "set_up_compositor e rq a m = do {
     m \<leftarrow> on_compositor (Some a) (\<lambda>c. coder_dlp_set_log_callback c (Some (me_log_cb e)) (Some (me_this e))) m;
     m \<leftarrow> on_compositor (Some a) (\<lambda>c. coder_dlp_set_policy c (Some (m_currentPolicy m))) m;
     m \<leftarrow> (if m_watermarkIdentity m \<noteq> []
           then on_compositor (Some a) (\<lambda>c. coder_dlp_set_watermark_identity c (Some (m_watermarkIdentity m))) m
           else Some m);
     c \<leftarrow> w_heap m a;
     let (c', calls) = coder_dlp_set_output_title (me_build e) (me_view e) (me_strdup e) (Some c) (Some (window_title rq));
     m \<leftarrow> on_compositor (Some a) (\<lambda>_. c') m;
     Some (m, [Library calls])
   }"

text \<open>The result comes with the value returned.\<close>

definition launchApp :: "mgr_env \<Rightarrow> launch_request \<Rightarrow> managed \<Rightarrow> (int \<times> managed \<times> mgr_effect list) option" where
  "launchApp e rq m =
     (if \<not> isAvailable e
      then Some (-1, m, [ErrorOccurred ''DLP compositor requires a Wayland or X11 session''])
      else do {
        (comp, reg, h, calls) \<leftarrow> coder_dlp_create (me_build e) (me_create e) (m_logLevel m) (w_reg m) (w_heap m);
        let m = m\<lparr>w_reg := reg, w_heap := h\<rparr>;
        (case comp of
           None \<Rightarrow> Some (-1, m, [Library calls,
                     ErrorOccurred (''Failed to create DLP compositor for: '' @ rq_command rq)])
         | Some a \<Rightarrow> do {
             (m, out) \<leftarrow> set_up_compositor e rq a m;
             c \<leftarrow> w_heap m a;
             let fd = coder_dlp_get_fd (me_fd e) (Some c);
             (pid, cc, s, blocks) \<leftarrow>
               coder_dlp_launch_app (me_launch e) (Some c) (Some (rq_command rq)) (Some (sandbox_of rq)) (w_os m);
             m \<leftarrow> on_compositor (Some a) (\<lambda>_. cc) m;
             let m = m\<lparr>w_os := s\<rparr>;
             let out = Library calls # out @ [Notifier_on fd];
             if pid < 0
             then do {
               (reg, h, s, calls) \<leftarrow>
                 coder_dlp_destroy (me_build e) (me_exited e) (Some a) (w_reg m) (w_heap m) (w_os m);
               Some (-1, m\<lparr>w_reg := reg, w_heap := h, w_os := s\<rparr>,
                 out @ [ErrorOccurred (''Failed to launch app: '' @ rq_command rq), Notifier_off fd, Library calls])
             }
             else do {
               let wasEmpty = (m_apps m = []);
               let app = \<lparr>ra_pid = pid, ra_appName = app_name rq, ra_command = rq_command rq,
                          ra_compositor = Some a, ra_notifier = Some fd, bwrapExited = False\<rparr>;
               let (entries, sg) = addApp pid (ra_appName app) (rq_command rq) (m_runningAppModel m);
               Some (pid, m\<lparr>m_apps := m_apps m @ [app], m_runningAppModel := entries\<rparr>,
                 out @ [Rows sg, AppCountChanged] @ (if wasEmpty then [RunningChanged] else []))
             }
           })
      })"

section \<open>Stopping\<close>

text \<open>The index of the first application with the process identifier.\<close>

definition app_index :: "int \<Rightarrow> RunningApp list \<Rightarrow> nat option" where
  "app_index pid apps = find (\<lambda>i. ra_pid (apps ! i) = pid) [0..<length apps]"

definition mgr_kill :: "int \<Rightarrow> os \<Rightarrow> os \<times> mgr_effect" where
  "mgr_kill pid s = (case sys_kill pid s of Some s \<Rightarrow> (s, Kill pid) | None \<Rightarrow> (s, Stray_kill pid))"

definition stopApp :: "mgr_env \<Rightarrow> int \<Rightarrow> managed \<Rightarrow> managing" where
  "stopApp e pid m =
     (case app_index pid (m_apps m) of
        None \<Rightarrow> Some (m, [])
      | Some i \<Rightarrow> do {
          let (s, sent) = mgr_kill pid (w_os m);
          (m, out) \<leftarrow> removeApp e (int i) (m\<lparr>w_os := s\<rparr>);
          Some (m, sent # out)
        })"

fun kill_all :: "RunningApp list \<Rightarrow> os \<Rightarrow> os \<times> mgr_effect list" where
  "kill_all [] s = (s, [])"
| "kill_all (app # apps) s =
     (if ra_pid app > 0
      then (case mgr_kill (ra_pid app) s of (s, sent) \<Rightarrow>
            case kill_all apps s of (s, out) \<Rightarrow> (s, sent # out))
      else kill_all apps s)"

fun destroy_all :: "mgr_env \<Rightarrow> RunningApp list \<Rightarrow> managed \<Rightarrow> managing" where
  "destroy_all e [] m = Some (m, [])"
| "destroy_all e (app # apps) m = do {
     (m, out) \<leftarrow> destroy_app e app m;
     (m, out') \<leftarrow> destroy_all e apps m;
     Some (m, out @ out')
   }"

definition stopAll :: "mgr_env \<Rightarrow> managed \<Rightarrow> managing" where
  "stopAll e m = do {
     let (s, kills) = kill_all (m_apps m) (w_os m);
     (m, out) \<leftarrow> destroy_all e (m_apps m) (m\<lparr>w_os := s\<rparr>);
     let wasRunning = (m_apps m \<noteq> []);
     let (entries, sg) = running_clear (m_runningAppModel m);
     Some (m\<lparr>m_apps := [], m_runningAppModel := entries\<rparr>,
       kills @ out @ [Rows sg] @ (if wasRunning then [AppCountChanged, RunningChanged] else []))
   }"

section \<open>Policy and watermark\<close>

fun for_all_compositors ::
    "(coder_dlp_compositor option \<Rightarrow> coder_dlp_compositor option) \<Rightarrow> RunningApp list \<Rightarrow> managed \<Rightarrow> managed option" where
  "for_all_compositors f [] m = Some m"
| "for_all_compositors f (app # apps) m = do {
     m \<leftarrow> on_compositor (ra_compositor app) f m;
     for_all_compositors f apps m
   }"

text \<open>The six arguments are the new policy, field by field.\<close>

definition updatePolicy :: "coder_dlp_policy \<Rightarrow> managed \<Rightarrow> managed option" where
  "updatePolicy pol m =
     (let m = m\<lparr>m_currentPolicy := pol\<rparr> in
      for_all_compositors (\<lambda>c. coder_dlp_set_policy c (Some (m_currentPolicy m))) (m_apps m) m)"

definition setWatermarkIdentity :: "string \<Rightarrow> managed \<Rightarrow> managed option" where
  "setWatermarkIdentity identity m =
     (let m = m\<lparr>m_watermarkIdentity := identity\<rparr> in
      for_all_compositors (\<lambda>c. coder_dlp_set_watermark_identity c (Some (m_watermarkIdentity m))) (m_apps m) m)"

section \<open>Exited children\<close>

definition comp_clients :: "ptr \<Rightarrow> managed \<Rightarrow> int option" where
  "comp_clients p m =
     (case p of
        None \<Rightarrow> Some (coder_dlp_get_client_count None)
      | Some a \<Rightarrow> map_option (\<lambda>c. coder_dlp_get_client_count (Some c)) (w_heap m a))"

text \<open>From the last application to the first, so that a removal shifts none that is still to come.\<close>

fun check_from :: "mgr_env \<Rightarrow> nat \<Rightarrow> managed \<Rightarrow> managing" where
  "check_from e 0 m = Some (m, [])"
| "check_from e (Suc i) m = do {
     app \<leftarrow> load_at (m_apps m) i;
     let (result, s) = sys_waitpid_nohang (me_exited e) (ra_pid app) (w_os m);
     let app = (if result > 0 then app\<lparr>bwrapExited := True\<rparr> else app);
     apps \<leftarrow> store_at (m_apps m) i app;
     let m = m\<lparr>m_apps := apps, w_os := s\<rparr>;
     clients \<leftarrow> comp_clients (ra_compositor app) m;
     (m, out) \<leftarrow> (if bwrapExited app \<and> clients = 0 then removeApp e (int i) m else Some (m, []));
     (m, out') \<leftarrow> check_from e i m;
     Some (m, out @ out')
   }"

definition checkChildProcesses :: "mgr_env \<Rightarrow> managed \<Rightarrow> managing" where
  "checkChildProcesses e m = check_from e (length (m_apps m)) m"

section \<open>Log messages\<close>

datatype severity = Critical | Info | Debug

definition onCompositorLog :: "string \<Rightarrow> severity \<times> string" where
  "onCompositorLog msg =
     (if prefix ''[wlr ERROR]'' msg then (Critical, drop 12 msg)
      else if prefix ''[wlr INFO]'' msg then (Info, drop 11 msg)
      else if prefix ''[wlr DEBUG]'' msg then (Debug, drop 12 msg)
      else (Debug, msg))"

text \<open>A message of the library reaches the log of the application as it was written: the first
  listed compositor with a callback passes it on in one piece, and the manager reads back the
  severity it was logged with and the text, up to 1023 characters.\<close>

lemma log_reaches_application:
  assumes "vec_wf reg" and "vec_elems reg = cs @ c # ds"
    and "list_all (\<lambda>d. \<exists>cc. h d = Some cc \<and> log_cb cc = None) cs"
    and "h c = Some cc" and "log_cb cc = Some cb"
  shows "\<exists>msg. custom_wlr_log h reg importance text = Some (To_callback cb (log_cb_data cc) msg) \<and>
    onCompositorLog msg =
      (if importance = WLR_ERROR then Critical else if importance = WLR_INFO then Info else Debug, take 1023 text)"
  using custom_wlr_log_first_callback [OF assms, of importance "text"]
  by (simp add: onCompositorLog_def level_name_def)

end
