(* ===== verification/Shared_System.thy ===== *)
theory Shared_System
  imports Launch_Spec Lifetime
begin

text \<open>
  Several compositors over one operating system: what the proxies of each own is its own, and an
  operation on one leaves the accounts of the others as good as before.
\<close>

section \<open>Several compositors over one system\<close>

text \<open>What the proxies of a table own.\<close>

definition kept :: "dlp_dbus_proxy vec \<Rightarrow> resource set" where
  "kept v = (\<Union>i \<in> live_at v. owned (entry v i))"

lemma accounts_kept:
  assumes "accounts B v s"
  shows "resources s = B \<union> kept v" "B \<inter> kept v = {}" "resources s - kept v = B"
  using assms by (auto simp: accounts_def holds_def kept_def)

lemma accounts_frame:
  assumes "accounts C w s" and "resources t = C' \<union> kept w" and "C' \<inter> kept w = {}"
    and "\<And>f d. File f \<in> C' \<Longrightarrow> File f \<notin> C \<Longrightarrow> Dir d \<in> kept w \<Longrightarrow> \<not> in_dir d f"
  shows "accounts C' w t"
  unfolding accounts_def holds_def
proof (intro conjI ballI impI)
  fix i assume i: "i \<in> live_at w"
  then have own: "owned (entry w i) \<subseteq> kept w" and d: "Dir (dir_path (entry w i)) \<in> kept w"
    by (auto simp: kept_def owned_def)
  show "proxy_wf (entry w i)" using assms(1) i by (simp add: accounts_def holds_def)
  show "owned (entry w i) \<inter> C' = {}" using own assms(3) by blast
  show "f = socket_path (entry w i)" if f: "f \<in> files t" "in_dir (dir_path (entry w i)) f" for f
  proof -
    have "File f \<in> C' \<union> kept w" using f(1) assms(2) in_resources(3) by blast
    then have "File f \<in> resources s" using assms(4) [OF _ _ d] f(2) accounts_kept(1) [OF assms(1)] by blast
    then have "f \<in> files s" by (simp only: in_resources)
    with f(2) i assms(1) show ?thesis by (simp add: accounts_def holds_def)
  qed
next
  show "resources t = C' \<union> (\<Union>i \<in> live_at w. owned (entry w i))" using assms(2) by (simp add: kept_def)
qed (use assms(1) in \<open>auto simp: accounts_def holds_def\<close>)

definition system_ok :: "heap \<Rightarrow> os \<Rightarrow> bool" where
  "system_ok h s \<longleftrightarrow>
     (\<forall>a c. h a = Some c \<longrightarrow> accounts (resources s - kept (dbus_proxies c)) (dbus_proxies c) s) \<and>
     (\<forall>a b c d. h a = Some c \<and> h b = Some d \<and> a \<noteq> b \<longrightarrow> kept (dbus_proxies c) \<inter> kept (dbus_proxies d) = {})"

lemma system_okD:
  assumes "system_ok h s" and "h a = Some c"
  shows "accounts (resources s - kept (dbus_proxies c)) (dbus_proxies c) s"
    and "h b = Some d \<Longrightarrow> a \<noteq> b \<Longrightarrow> kept (dbus_proxies c) \<inter> kept (dbus_proxies d) = {}"
  using assms unfolding system_ok_def by blast+

lemma system_okI:
  assumes "\<And>a c. h a = Some c \<Longrightarrow> accounts (resources s - kept (dbus_proxies c)) (dbus_proxies c) s"
    and "\<And>a b c d. h a = Some c \<Longrightarrow> h b = Some d \<Longrightarrow> a \<noteq> b \<Longrightarrow> kept (dbus_proxies c) \<inter> kept (dbus_proxies d) = {}"
  shows "system_ok h s"
  using assms unfolding system_ok_def by blast

lemma kept_empty [simp]: "kept empty_vec = {}"
  by (simp add: kept_def live_at_def empty_vec_def)

lemma accounts_empty: "accounts (resources s) empty_vec s"
  by (simp add: accounts_def holds_def live_at_def) (simp add: empty_vec_def)

text \<open>
  One compositor, at \<open>a\<close>, changes its table: its proxies \<open>K\<close> before, the rest \<open>B\<close> of the
  system extended by \<open>R\<close>. The tables of the others are as good as before.
\<close>

lemma others_kept:
  assumes "resources s = B \<union> K" and "accounts (R \<union> B) v t" and "\<And>f. File f \<notin> R"
    and "accounts (resources s - kept w) w s" and "kept w \<inter> K = {}"
  shows "accounts (resources t - kept w) w t" "kept w \<inter> kept v = {}"
proof -
  have t: "resources t = (R \<union> B) \<union> kept v" "(R \<union> B) \<inter> kept v = {}" using accounts_kept [OF assms(2)] by simp_all
  have "kept w \<subseteq> resources s" using accounts_kept(1) [OF assms(4)] by blast
  then have w: "kept w \<subseteq> B" using assms(1,5) by blast
  then show d: "kept w \<inter> kept v = {}" using t(2) by blast
  show "accounts (resources t - kept w) w t"
  proof (rule accounts_frame [OF assms(4)])
    fix f d' assume f: "File f \<in> resources t - kept w" "File f \<notin> resources s - kept w" and d': "Dir d' \<in> kept w"
    then have "File f \<in> kept v" using t(1) assms(1,3) by blast
    then obtain i where i: "i \<in> live_at v" "f = socket_path (entry v i)" by (auto simp: kept_def owned_def)
    then have p: "proxy_wf (entry v i)" "Dir (dir_path (entry v i)) \<in> kept v"
      using assms(2) by (auto simp: accounts_def holds_def kept_def owned_def)
    with d d' have "dir_path (entry v i) \<noteq> d'" by blast
    with i(2) p(1) show "\<not> in_dir d' f" by (simp add: proxy_wf_def in_dir_unique)
  qed (use t w in auto)
qed

lemma system_ok_step:
  assumes ok: "system_ok h s" and "resources s = B \<union> K" and acc: "accounts (R \<union> B) (dbus_proxies c) t"
    and "\<And>f. File f \<notin> R" and K: "\<And>b d. b \<noteq> a \<Longrightarrow> h b = Some d \<Longrightarrow> kept (dbus_proxies d) \<inter> K = {}"
  shows "system_ok (h(a \<mapsto> c)) t"
proof -
  have other: "accounts (resources t - kept (dbus_proxies d)) (dbus_proxies d) t \<and>
      kept (dbus_proxies d) \<inter> kept (dbus_proxies c) = {}" if "b \<noteq> a" "h b = Some d" for b d
    using others_kept [OF assms(2) acc assms(4) _ K [OF that]] ok that by (auto simp: system_ok_def)
  have own: "accounts (resources t - kept (dbus_proxies c)) (dbus_proxies c) t"
    using acc accounts_kept(3) [OF acc] by simp
  show ?thesis
  proof (rule system_okI)
    fix b d assume "(h(a \<mapsto> c)) b = Some d"
    with own other show "accounts (resources t - kept (dbus_proxies d)) (dbus_proxies d) t"
      by (cases "b = a") auto
  next
    fix b b' d d' assume h: "(h(a \<mapsto> c)) b = Some d" "(h(a \<mapsto> c)) b' = Some d'" and "b \<noteq> b'"
    show "kept (dbus_proxies d) \<inter> kept (dbus_proxies d') = {}"
    proof (cases "b = a")
      case True
      then have "d = c" "b' \<noteq> a" using h(1) \<open>b \<noteq> b'\<close> by auto
      with other [of b' d'] h(2) show ?thesis by (simp add: Int_commute)
    next
      case b: False
      show ?thesis
      proof (cases "b' = a")
        case True
        with other [of b d] h b show ?thesis by simp
      next
        case False
        with h b system_okD(2) [OF ok _ _ \<open>b \<noteq> b'\<close>] show ?thesis by simp
      qed
    qed
  qed
qed

lemma system_ok_sub:
  assumes "system_ok h s" and "\<And>b d. h' b = Some d \<Longrightarrow> h b = Some d \<and> kept (dbus_proxies d) \<subseteq> resources t"
    and "resources t \<subseteq> resources s"
  shows "system_ok h' t"
proof (rule system_okI)
  fix b d assume b: "h' b = Some d"
  then have "h b = Some d" using assms(2) by blast
  note acc = system_okD(1) [OF assms(1) this]
  show "accounts (resources t - kept (dbus_proxies d)) (dbus_proxies d) t"
  proof (rule accounts_frame [OF acc])
    show "\<not> in_dir d' f" if "File f \<in> resources t - kept (dbus_proxies d)"
      "File f \<notin> resources s - kept (dbus_proxies d)" for f d'
      using that assms(3) by blast
  qed (use assms(2) [OF b] in auto)
next
  fix b b' d d' assume "h' b = Some d" "h' b' = Some d'" "b \<noteq> b'"
  with assms(2) system_okD(2) [OF assms(1)] show "kept (dbus_proxies d) \<inter> kept (dbus_proxies d') = {}"
    by blast
qed

lemma system_ok_update:
  assumes "system_ok h s" and "h a = Some c" and "dbus_proxies c' = dbus_proxies c"
  shows "system_ok (h(a \<mapsto> c')) s"
proof (rule system_okI)
  have tab: "\<exists>d'. h b = Some d' \<and> dbus_proxies d' = dbus_proxies d" if "(h(a \<mapsto> c')) b = Some d" for b d
    using that assms(2,3) by (auto split: if_splits)
  show "accounts (resources s - kept (dbus_proxies d)) (dbus_proxies d) s" if "(h(a \<mapsto> c')) b = Some d" for b d
    using tab [OF that] system_okD(1) [OF assms(1)] by metis
  show "kept (dbus_proxies d) \<inter> kept (dbus_proxies d') = {}"
    if "(h(a \<mapsto> c')) b = Some d" "(h(a \<mapsto> c')) b' = Some d'" "b \<noteq> b'" for b b' d d'
    using tab [OF that(1)] tab [OF that(2)] system_okD(2) [OF assms(1)] that(3) by metis
qed

definition all_kept :: "heap \<Rightarrow> resource set" where
  "all_kept h = {r. \<exists>a c. h a = Some c \<and> r \<in> kept (dbus_proxies c)}"

lemma all_kept_update:
  "h a = Some c \<Longrightarrow> dbus_proxies c' = dbus_proxies c \<Longrightarrow> all_kept (h(a \<mapsto> c')) = all_kept h"
proof -
  assume "h a = Some c" "dbus_proxies c' = dbus_proxies c"
  then have "(\<exists>b d. (h(a \<mapsto> c')) b = Some d \<and> r \<in> kept (dbus_proxies d)) \<longleftrightarrow>
      (\<exists>b d. h b = Some d \<and> r \<in> kept (dbus_proxies d))" for r
    by (metis fun_upd_apply option.inject)
  then show ?thesis by (simp add: all_kept_def)
qed

lemma all_kept_sub: "all_kept (h(a := None)) \<subseteq> all_kept h"
  by (auto simp: all_kept_def split: if_splits)

lemma all_kept_resources: "system_ok h s \<Longrightarrow> all_kept h \<subseteq> resources s"
  using accounts_kept(1) by (fastforce simp: system_ok_def all_kept_def)

end
