(* ===== verification/Definedness.thy ===== *)
theory Definedness
  imports System
begin

text \<open>
  When the handlers of a compositor and its creation are defined: from what wlroots guarantees of an event, and
  from the objects that are created without a check.
\<close>

section \<open>Events\<close>

text \<open>
  What a handler may rely on. The object an event is announced for exists. The scene is a finite tree, and the
  data pointer of a node that is hit leads to a window that exists, with a scene tree. A surface is associated with
  a \<^verbatim>\<open>wlr_surface\<close>. Scene trees are made whenever they are asked for (no handler looks whether one was). A buffer
  is as long as its size says.
\<close>

definition owner_exists :: "build_config \<Rightarrow> coder_dlp_compositor \<Rightarrow> surface_owner \<Rightarrow> bool" where
  "owner_exists cfg c owner \<longleftrightarrow>
     (case owner of
        DLP_SURFACE_XDG a \<Rightarrow> find_toplevel a c \<noteq> None
      | DLP_SURFACE_XWAYLAND a \<Rightarrow>
          WLR_HAS_XWAYLAND cfg \<longrightarrow> (\<exists>x. find_xsurf a c = Some x \<and> xs_scene_tree x \<noteq> None))"

definition scene_sound :: "build_config \<Rightarrow> wlr_view \<Rightarrow> coder_dlp_compositor \<Rightarrow> bool" where
  "scene_sound cfg v c \<longleftrightarrow>
     (\<exists>depth :: addr \<Rightarrow> nat. \<forall>n p. node_parent v n = Some p \<longrightarrow> depth p < depth n) \<and>
     (\<forall>x y node at n t owner. scene_node_at v x y = Some (node, at) \<and>
        (parent_of (node_parent v) ^^ n) (node_parent v node) = Some t \<and> node_data c t = Some owner \<longrightarrow>
        owner_exists cfg c owner)"

definition frame_sound :: "frame_env \<Rightarrow> coder_dlp_compositor \<Rightarrow> bool" where
  "frame_sound e c \<longleftrightarrow> comp_output c \<noteq> None \<and> (\<forall>b. fe_buffer e = Some b \<longrightarrow> buffer_fits b)"

definition xsurf_sound :: "xsurf_slot \<Rightarrow> wlr_view \<Rightarrow> coder_dlp_xwayland_surface \<Rightarrow> bool" where
  "xsurf_sound s v x \<longleftrightarrow>
     (if s = Xs_associate then xwl_surface v (xs_xwayland_surface x) \<noteq> None else xs_scene_tree x \<noteq> None)"

fun announced :: "build_config \<Rightarrow> event \<Rightarrow> coder_dlp_compositor \<Rightarrow> bool" where
  "announced cfg (Frame_ev e) c \<longleftrightarrow> frame_sound e c"
| "announced cfg (Key_ev v tm kc st) c \<longleftrightarrow> keyboard c \<noteq> None"
| "announced cfg Modifiers_ev c \<longleftrightarrow> keyboard c \<noteq> None"
| "announced cfg (Button_ev v tm b st) c \<longleftrightarrow> scene_sound cfg v c"
| "announced cfg (Touch_down_ev v v' tm i x y) c \<longleftrightarrow> scene_sound cfg v c"
| "announced cfg (New_toplevel_ev v al tr x) c \<longleftrightarrow> tr \<noteq> None"
| "announced cfg (Toplevel_ev a s v) c \<longleftrightarrow> find_toplevel a c \<noteq> None"
| "announced cfg (Popup_ev a s v) c \<longleftrightarrow> find_popup a c \<noteq> None"
| "announced cfg (Xsurf_ev a s v tr g) c \<longleftrightarrow> (\<exists>x. find_xsurf a c = Some x \<and> xsurf_sound s v x)"
| "announced cfg _ c \<longleftrightarrow> True"

lemma activate_exists: "owner_exists cfg c owner \<Longrightarrow> activate_owner cfg v owner c \<noteq> None"
  by (auto simp: owner_exists_def activate_owner_def split: surface_owner.splits)

lemma focus_defined:
  assumes "scene_sound cfg v c"
  shows "touch_focus_at cfg v x y c \<noteq> None"
proof (cases "scene_node_at v x y")
  case (Some na)
  obtain node at where na: "scene_node_at v x y = Some (node, at)" using Some by (cases na) auto
  from assms obtain depth :: "addr \<Rightarrow> nat" where d: "\<forall>n p. node_parent v n = Some p \<longrightarrow> depth p < depth n"
    by (auto simp: scene_sound_def)
  obtain n r where r: "owner_walk (node_parent v) (node_data c) (node_parent v node) = Some r"
    "(parent_of (node_parent v) ^^ n) (node_parent v node) = r" "case r of None \<Rightarrow> True | Some t \<Rightarrow> node_data c t \<noteq> None"
  proof (cases "node_parent v node")
    case None
    then show thesis by (intro that [of None 0]) simp_all
  next
    case (Some p)
    from owner_walk_nearest [OF d, of "node_data c" p] that Some show thesis by auto
  qed
  show ?thesis
  proof (cases r)
    case None
    with r(1) na show ?thesis by (simp add: touch_focus_at_def)
  next
    case (Some t)
    with r(3) obtain owner where o: "node_data c t = Some owner" by auto
    with assms na r(2) Some have "owner_exists cfg c owner" unfolding scene_sound_def by blast
    from activate_exists [OF this, of v] o r(1) Some na show ?thesis by (auto simp: touch_focus_at_def)
  qed
qed (simp add: touch_focus_at_def)

lemma watermark_defined:
  assumes "buffer_fits b" and "wm_wf st" and "has_identity st"
  shows "dlp_watermark_apply (Some b) (Some st) \<noteq> None"
proof (cases "wm_supported b")
  case True
  from apply_supported [OF assms(1) True assms(2,3)] show ?thesis by simp
qed (auto simp: dlp_watermark_apply_def wm_supported_def Let_def)

lemma xsurf_defined: "xsurf_sound s v x \<Longrightarrow> xsurf_handler s v tr g x c \<noteq> None"
  by (cases s) (auto simp: xsurf_sound_def xsurf_handler_def handle_xwayland_surface_associate_def
      handle_xwayland_surface_map_def handle_xwayland_surface_unmap_def focus_xwayland_surface_def
      handle_xwayland_request_configure_def handle_xwayland_request_activate_def Let_def split: option.splits prod.splits)

text \<open>Then the handler is defined.\<close>

lemma event_defined:
  assumes "announced cfg ev c" and "wm_wf (watermark c)"
  shows "handle_event cfg ev c \<noteq> None"
proof (cases ev)
  case (Frame_ev e)
  have "\<exists>ok b' bc. dlp_watermark_apply (Some b) (Some (watermark c)) = Some (ok, b', bc)"
    if "buffer_fits b" "has_identity (watermark c)" for b
    using watermark_defined [OF that(1) assms(2) that(2)] by auto
  with Frame_ev assms(1) show ?thesis
    by (cases "fe_buffer e") (fastforce simp: frame_sound_def handle_output_frame_def split: option.split)+
next
  case (Button_ev v tm b st)
  with assms focus_defined [of cfg v c "cursor_x v" "cursor_y v"] show ?thesis
    by (auto simp: dlp_handle_cursor_button_def)
next
  case (Touch_down_ev v v' tm i x y)
  obtain lx ly where l: "touch_coords_to_layout v x y c = (lx, ly)" by fastforce
  from Touch_down_ev assms focus_defined [of cfg v c lx ly] obtain focus where "touch_focus_at cfg v lx ly c = Some focus"
    by auto
  with Touch_down_ev l show ?thesis by (simp add: dlp_handle_touch_down_def)
next
  case (Xsurf_ev a s v tr g)
  with assms(1) obtain x where "find_xsurf a c = Some x" "xsurf_sound s v x" by auto
  with xsurf_defined [of s v x tr g c] Xsurf_ev show ?thesis by auto
qed (use assms(1) in \<open>auto simp: handle_keyboard_key_def handle_keyboard_modifiers_def
      dlp_compositor_handle_new_xdg_toplevel_def Let_def split: option.split\<close>)

section \<open>Creation\<close>

definition globals_made :: "create_env \<Rightarrow> bool" where
  "globals_made e \<longleftrightarrow> ce_output_layout e \<noteq> None \<and> ce_scene e \<noteq> None \<and> ce_cursor e \<noteq> None \<and> ce_xdg_shell e \<noteq> None \<and>
     ce_seat e \<noteq> None"

lemma create_defined:
  assumes "vec_wf reg" and "globals_made e"
  shows "coder_dlp_create cfg e level reg h \<noteq> None"
proof -
  have g: "\<exists>r. create_globals cfg e c = Some r" for c
    using assms(2) by (auto simp: create_globals_def globals_made_def Let_def split: prod.split)
  show ?thesis
  proof (cases "ce_calloc e")
    case (Some a)
    from registry.push_total [OF assms(1), of "ce_realloc_ok e" a] obtain stored reg' where
      "compositor_list_add (ce_realloc_ok e) a reg = Some (stored, reg')" by blast
    moreover obtain c globals where "create_globals cfg e (zero_compositor\<lparr>wl_display := ce_display e,
        wl_event_loop := ce_event_loop e, client_count := 0, backend := ce_backend e,
        is_x11_backend := WLR_HAS_X11_BACKEND cfg \<and> ce_backend_is_x11 e, renderer := ce_renderer e,
        allocator := ce_allocator e\<rparr>) = Some (c, globals)" using g by (metis surj_pair)
    ultimately show ?thesis using Some
      by (cases "ce_display e"; cases "ce_backend e"; cases "ce_renderer e"; cases "ce_allocator e")
        (simp_all add: coder_dlp_create_def Let_def)
  qed (simp add: coder_dlp_create_def)
qed
end
