(* ===== verification/Manager_Invariant.thy ===== *)
theory Manager_Invariant
  imports Dlp_Manager Shared_System Definedness
begin

text \<open>
  The invariant of the manager: its applications, their compositors in memory, the registry and the
  operating system belong together; what keeps it, from single updates to the loop over all
  compositors; destroying a compositor, and the signals an operation has to send.
\<close>

section \<open>What no handler changes\<close>

text \<open>Policy, watermark and proxies change only through the public functions and the timer.\<close>

definition keeps :: "coder_dlp_compositor \<Rightarrow> coder_dlp_compositor \<Rightarrow> bool" where
  "keeps c c' \<longleftrightarrow> policy c' = policy c \<and> watermark c' = watermark c \<and> dbus_proxies c' = dbus_proxies c"

lemma keeps_refl [simp]: "keeps c c"
  by (simp add: keeps_def)

lemma keeps_input:
  "handle_keyboard_key cfg v tm kc st c = Some (c', calls) \<Longrightarrow> keeps c c'"
  "handle_keyboard_modifiers c = Some (c', calls) \<Longrightarrow> keeps c c'"
  "dlp_handle_cursor_button cfg v tm b st c = Some (c', calls) \<Longrightarrow> keeps c c'"
  "dlp_handle_touch_down cfg v v' tm i x y c = Some (c', calls) \<Longrightarrow> keeps c c'"
  "keeps c (fst (dlp_handle_cursor_motion v d dx dy tm c))"
  "keeps c (fst (dlp_handle_cursor_motion_absolute v d ax ay tm c))"
  "keeps c (fst (dlp_handle_cursor_axis tm ori de dd src rd c))"
  "keeps c (fst (dlp_handle_cursor_frame c))"
  "keeps c (fst (dlp_handle_request_set_cursor v cl s hx hy c))"
  "keeps c (fst (dlp_handle_touch_up tm i c))"
  "keeps c (fst (dlp_handle_touch_motion v tm i tx ty c))"
  "keeps c (fst (dlp_handle_touch_cancel v c))"
  "keeps c (fst (dlp_handle_touch_frame c))"
  "keeps c (fst (handle_request_set_selection src' ser c))"
  "keeps c (fst (handle_request_set_primary_selection src' ser c))"
  "keeps c (fst (handle_security_context_commit c))"
  "keeps c (fst (handle_output_request_state out c))"
  by (auto simp: handle_keyboard_key_def handle_keyboard_modifiers_def dlp_handle_cursor_button_def
      dlp_handle_touch_down_def dlp_handle_cursor_motion_def dlp_handle_cursor_motion_absolute_def
      dlp_handle_cursor_axis_def dlp_handle_cursor_frame_def dlp_handle_request_set_cursor_def
      dlp_handle_touch_up_def dlp_handle_touch_motion_def dlp_handle_touch_cancel_def
      dlp_handle_touch_frame_def handle_request_set_selection_def
      handle_request_set_primary_selection_def handle_security_context_commit_def
      handle_output_request_state_def touch_coords_to_layout_def Let_def bind_eq_Some_conv
      split: option.splits if_splits prod.splits)

lemma keeps_devices:
  "keeps c (fst (dlp_compositor_handle_new_output cfg v m out c))"
  "keeps c (fst (handle_output_destroy c))"
  "keeps c (fst (dlp_compositor_handle_new_input v a b d c))"
  "handle_output_frame fe c = Some (c', calls, buf) \<Longrightarrow> keeps c c'"
  "keeps c (fst (handle_client_created al cl c))"
  "keeps c (fst (handle_client_destroyed w c))"
  subgoal by (simp add: keeps_def dlp_compositor_handle_new_output_def)
  subgoal by (simp add: keeps_def handle_output_destroy_def)
  subgoal by (cases "dev_type d") (auto simp: keeps_def dlp_compositor_handle_new_input_def setup_keyboard_def
      setup_pointer_def setup_touch_def Let_def split: if_splits)
  subgoal by (auto simp: handle_output_frame_def bind_eq_Some_conv split: if_splits option.splits)
  subgoal by (simp add: keeps_def handle_client_created_def Let_def split: option.split)
  subgoal by (simp add: keeps_def handle_client_destroyed_def)
  done

lemma keeps_windows:
  "dlp_compositor_handle_new_xdg_toplevel v al tr x c = Some (c', calls) \<Longrightarrow> keeps c c'"
  "keeps c (fst (dlp_compositor_handle_new_xdg_popup v al tr x c))"
  "keeps c (fst (toplevel_handler s v t c))"
  "keeps c (fst (popup_handler ps v p c))"
  "keeps c (fst (handle_xwayland_new_surface al tr x c))"
  "keeps c (fst (handle_xwayland_ready c))"
  subgoal by (auto simp: keeps_def dlp_compositor_handle_new_xdg_toplevel_def Let_def bind_eq_Some_conv
      split: option.splits)
  subgoal by (auto simp: keeps_def dlp_compositor_handle_new_xdg_popup_def Let_def split: option.splits)
  subgoal by (cases s) (auto simp: keeps_def toplevel_handler_def handle_toplevel_destroy_def
      handle_toplevel_map_def handle_toplevel_unmap_def
      handle_toplevel_commit_def handle_toplevel_request_move_def handle_toplevel_request_resize_def
      handle_toplevel_request_maximize_def handle_toplevel_request_fullscreen_def)
  subgoal by (cases ps) (auto simp: keeps_def popup_handler_def handle_popup_commit_def handle_popup_destroy_def)
  subgoal by (simp add: keeps_def handle_xwayland_new_surface_def split: option.split)
  subgoal by (simp add: keeps_def handle_xwayland_ready_def)
  done

lemma keeps_xsurf:
  "xsurf_handler s v tr g x c = Some (c', calls) \<Longrightarrow> keeps c c'"
  by (cases s) (auto simp: keeps_def xsurf_handler_def handle_xwayland_surface_associate_def
      handle_xwayland_surface_dissociate_def handle_xwayland_surface_destroy_def
      handle_xwayland_surface_map_def handle_xwayland_surface_unmap_def
      handle_xwayland_request_configure_def handle_xwayland_request_activate_def bind_eq_Some_conv Let_def
      handle_xwayland_request_move_def handle_xwayland_request_resize_def
      handle_xwayland_request_maximize_def handle_xwayland_request_fullscreen_def fill_output_def
      handle_xwayland_set_override_redirect_def handle_xwayland_set_title_def
      handle_xwayland_set_class_def split: option.splits prod.splits if_splits)

lemma keeps_fst: "keeps c (fst r) \<Longrightarrow> r = (c', calls) \<Longrightarrow> keeps c c'"
  by simp

lemmas keeps_total =
  keeps_input(5-) [THEN keeps_fst] keeps_devices(1,2,3,5,6) [THEN keeps_fst] keeps_windows(2-) [THEN keeps_fst]

lemma keeps_event:
  assumes "handle_event cfg ev c = Some (c', calls)"
  shows "keeps c c'"
  using assms
  by (cases ev) (auto simp: bind_eq_Some_conv dest: keeps_input(1-4) keeps_devices(4) keeps_windows(1) keeps_xsurf
      intro: keeps_total)

lemma keeps_start: "start_events cfg evs c = (c', calls) \<Longrightarrow> keeps c c'"
proof (induction evs arbitrary: c calls)
  case (Cons ev evs)
  obtain c1 k1 where s: "start_event cfg ev c = (c1, k1)" by fastforce
  then have "keeps c c1" by (cases ev) (auto intro: keeps_total)
  moreover obtain k2 where "start_events cfg evs c1 = (c', k2)" using Cons.prems s by (auto split: prod.splits)
  ultimately show ?case using Cons.IH by (auto simp: keeps_def)
qed simp

section \<open>Creation, seen from the manager\<close>

lemma create_some:
  assumes c: "coder_dlp_create cfg e level reg h = Some (Some a, reg', h', calls)"
  shows "ce_calloc e = Some a \<and> (\<exists>c ok. h' = h(a \<mapsto> c) \<and> dbus_proxies c = empty_vec \<and> watermark c = zero_watermark_state \<and>
    compositor_list_add (ce_realloc_ok e) a reg = Some (ok, reg'))"
proof -
  from create_after_allocator [OF c create_calloc [OF c] create_objects(2-) [OF c]] obtain ok reg1 globals where
    add: "compositor_list_add (ce_realloc_ok e) a reg = Some (ok, reg1)" and
    r: "(Some a, reg', h', calls) = create_finish cfg e a (globals_state cfg e (created_base cfg e)) reg1 h
      (opening_calls e level reg @ globals)" by blast
  obtain c1 up where s: "start_events cfg (ce_start_events e) (globals_state cfg e (created_base cfg e)) = (c1, up)"
    by fastforce
  from r s have f: "reg' = reg1" "h' = h(a \<mapsto> c1\<lparr>reap_timer := ce_timer e, socket := ce_socket e\<rparr>)"
    by (auto simp: create_finish_def err_display_def Let_def split: if_splits)
  have "dbus_proxies c1 = empty_vec" "watermark c1 = zero_watermark_state"
    using keeps_start [OF s] by (simp_all add: keeps_def globals_state_def Let_def created_base_def zero_compositor_def)
  with f add create_calloc [OF c] show ?thesis by auto
qed

lemma create_none:
  assumes c: "coder_dlp_create cfg e level reg h = Some (None, reg', h', calls)" and wf: "vec_wf reg"
    and fresh: "\<And>a. ce_calloc e = Some a \<Longrightarrow> h a = None \<and> a \<notin> set (vec_elems reg) \<and> ce_display e \<noteq> None"
  shows "h' = h \<and> vec_wf reg' \<and> mset (vec_elems reg') = mset (vec_elems reg)"
proof (cases "ce_calloc e")
  case None
  with create_null_cases [OF c] wf show ?thesis by simp
next
  case (Some a)
  with create_null_cases [OF c] fresh [OF Some] obtain stored reg1 where
    "h' = h(a := None)" and add: "compositor_list_add (ce_realloc_ok e) a reg = Some (stored, reg1)" and
    "reg' = compositor_list_remove a reg1" by auto
  with registered_and_removed(3,4) [OF wf add] fresh [OF Some] show ?thesis by auto
qed

section \<open>The invariant\<close>

definition entry_of :: "RunningApp \<Rightarrow> app_entry" where
  "entry_of app = \<lparr>en_pid = ra_pid app, en_appName = ra_appName app, en_command = ra_command app\<rparr>"

definition fingerprint_of :: "string \<Rightarrow> u8 list" where
  "fingerprint_of identity =
     concat (map (\<lambda>i. le_bytes64 (fnv1a_64 (of_nat i # bytes_of (take 255 identity)))) [0..<4])"

text \<open>A compositor that follows the manager: its policy, and the identity in its watermark.\<close>

definition follows :: "managed \<Rightarrow> coder_dlp_compositor \<Rightarrow> bool" where
  "follows m c \<longleftrightarrow> policy c = m_currentPolicy m \<and> wm_wf (watermark c) \<and>
     (m_watermarkIdentity m = [] \<or>
      has_identity (watermark c) \<and> fingerprint (watermark c) = fingerprint_of (m_watermarkIdentity m))"

text \<open>The views see the applications, each with a process, a notifier and a compositor of its own.\<close>

definition apps_ok :: "managed \<Rightarrow> bool" where
  "apps_ok m \<longleftrightarrow>
     m_runningAppModel m = map entry_of (m_apps m) \<and> distinct (map ra_pid (m_apps m)) \<and>
     (\<forall>app \<in> set (m_apps m). 0 < ra_pid app \<and> ra_notifier app \<noteq> None) \<and>
     distinct (map ra_compositor (m_apps m)) \<and>
     ra_compositor ` set (m_apps m) = Some ` dom (w_heap m)"

definition comps_ok :: "managed \<Rightarrow> bool" where
  "comps_ok m \<longleftrightarrow>
     (\<forall>a c. w_heap m a = Some c \<longrightarrow> follows m c) \<and> vec_wf (w_reg m) \<and> distinct (vec_elems (w_reg m)) \<and>
     set (vec_elems (w_reg m)) \<subseteq> dom (w_heap m)"

text \<open>
  The system: what was there before stays, what is there now belongs to the rest, to a proxy of a
  compositor, or is allowed to be left behind; a process that has not been waited for is there.
\<close>

definition world_ok :: "resource set \<Rightarrow> resource set \<Rightarrow> managed \<Rightarrow> bool" where
  "world_ok R E m \<longleftrightarrow>
     system_ok (w_heap m) (w_os m) \<and>
     R \<subseteq> resources (w_os m) \<and> R \<inter> all_kept (w_heap m) = {} \<and>
     resources (w_os m) \<subseteq> R \<union> E \<union> all_kept (w_heap m) \<and>
     (\<forall>app \<in> set (m_apps m). Child (ra_pid app) \<notin> R \<union> all_kept (w_heap m) \<and>
        (bwrapExited app \<longleftrightarrow> Child (ra_pid app) \<notin> resources (w_os m)))"

definition mgr_ok :: "resource set \<Rightarrow> resource set \<Rightarrow> managed \<Rightarrow> bool" where
  "mgr_ok R E m \<longleftrightarrow> apps_ok m \<and> comps_ok m \<and> world_ok R E m"

lemma mgr_ok_new: "mgr_ok (resources s) {} (new_manager empty_vec Map.empty s)"
  by (simp add: mgr_ok_def apps_ok_def comps_ok_def world_ok_def new_manager_def system_ok_def all_kept_def)

lemma mgr_ok_mono: "mgr_ok R E m \<Longrightarrow> E \<subseteq> E' \<Longrightarrow> mgr_ok R E' m"
  by (auto simp: mgr_ok_def world_ok_def)

section \<open>Updating compositors\<close>

lemma set_identity_follows:
  assumes "wm_wf st"
  shows "\<exists>st'. dlp_watermark_set_identity (Some st) (Some s) = Some st' \<and> wm_wf st' \<and>
    has_identity st' \<and> fingerprint st' = fingerprint_of s"
  using assms set_identity_fingerprint [of "fingerprint st" "bytes_of s"]
  by (simp add: dlp_watermark_set_identity_def wm_wf_def identity_buf_take bytes_of_def take_map
      length_concat sum_list_triv o_def fingerprint_of_def)

text \<open>An update of one compositor that keeps its proxies is one of the memory only.\<close>

lemma on_compositor_Some:
  assumes "w_heap m a = Some c" and "f (Some c) = Some c'"
  shows "on_compositor (Some a) f m = Some (m\<lparr>w_heap := (w_heap m)(a \<mapsto> c')\<rparr>)"
  using assms by (simp add: on_compositor_def)

definition heap_like :: "heap \<Rightarrow> heap \<Rightarrow> bool" where
  "heap_like h h' \<longleftrightarrow> (\<forall>a. map_option dbus_proxies (h' a) = map_option dbus_proxies (h a))"

lemma heap_like_update: "h a = Some c \<Longrightarrow> dbus_proxies c' = dbus_proxies c \<Longrightarrow> heap_like h (h(a \<mapsto> c'))"
  by (simp add: heap_like_def)

lemma heap_like_table:
  assumes "heap_like h h'" and "h' a = Some c'"
  obtains c where "h a = Some c" "dbus_proxies c' = dbus_proxies c"
proof -
  have "map_option dbus_proxies (h a) = Some (dbus_proxies c')"
    using assms(2) spec [OF assms(1) [unfolded heap_like_def], of a] by simp
  with that show thesis by (auto simp: map_option_eq_Some)
qed

lemma heap_like_dom:
  assumes "heap_like h h'"
  shows "dom h' = dom h"
proof -
  have "h' a = None \<longleftrightarrow> h a = None" for a
    using spec [OF assms [unfolded heap_like_def], of a] by (metis map_option_is_None)
  then show ?thesis by (simp add: dom_def)
qed

lemma heap_like_sym: "heap_like h h' \<Longrightarrow> heap_like h' h"
  by (simp add: heap_like_def)

lemma heap_like_trans: "heap_like h h' \<Longrightarrow> heap_like h' h'' \<Longrightarrow> heap_like h h''"
  by (simp add: heap_like_def)

lemma all_kept_like:
  assumes "heap_like h h'"
  shows "all_kept h' = all_kept h"
proof -
  have "all_kept k' \<subseteq> all_kept k" if l: "heap_like k k'" for k k'
  proof
    fix r assume "r \<in> all_kept k'"
    then obtain a c' where r: "k' a = Some c'" "r \<in> kept (dbus_proxies c')" by (auto simp: all_kept_def)
    obtain c where "k a = Some c" "dbus_proxies c' = dbus_proxies c" by (rule heap_like_table [OF l r(1)])
    with r(2) show "r \<in> all_kept k" unfolding all_kept_def by auto
  qed
  from this [OF assms] this [OF heap_like_sym [OF assms]] show ?thesis by blast
qed

lemma system_ok_like:
  assumes "system_ok h s" and "heap_like h h'"
  shows "system_ok h' s"
proof (rule system_okI)
  fix a c assume "h' a = Some c"
  then obtain c0 where "h a = Some c0" "dbus_proxies c = dbus_proxies c0" by (rule heap_like_table [OF assms(2)])
  with system_okD(1) [OF assms(1)] show "accounts (resources s - kept (dbus_proxies c)) (dbus_proxies c) s" by simp
next
  fix a b c d assume h: "h' a = Some c" "h' b = Some d" and "a \<noteq> b"
  obtain c0 where c0: "h a = Some c0" "dbus_proxies c = dbus_proxies c0" by (rule heap_like_table [OF assms(2) h(1)])
  obtain d0 where d0: "h b = Some d0" "dbus_proxies d = dbus_proxies d0" by (rule heap_like_table [OF assms(2) h(2)])
  from system_okD(2) [OF assms(1) c0(1) d0(1) \<open>a \<noteq> b\<close>] c0(2) d0(2)
  show "kept (dbus_proxies c) \<inter> kept (dbus_proxies d) = {}" by simp
qed

lemma mgr_ok_heap:
  assumes ok: "mgr_ok R E m" and like: "heap_like (w_heap m) h"
    and m': "m_apps m' = m_apps m" "m_runningAppModel m' = m_runningAppModel m" "w_reg m' = w_reg m"
      "w_os m' = w_os m" "w_heap m' = h"
    and fol: "\<And>a c. h a = Some c \<Longrightarrow> follows m' c"
  shows "mgr_ok R E m'"
proof -
  note d = heap_like_dom [OF like]
  have "apps_ok m'" using ok d m' by (simp add: mgr_ok_def apps_ok_def)
  moreover have "comps_ok m'" using ok d m' fol by (simp add: mgr_ok_def comps_ok_def)
  moreover have "world_ok R E m'"
    using ok system_ok_like [OF _ like] by (simp add: mgr_ok_def world_ok_def all_kept_like [OF like] m')
  ultimately show ?thesis by (simp add: mgr_ok_def)
qed

text \<open>The loop over all compositors touches each once.\<close>

lemma for_all_ok:
  assumes "\<And>c. P c \<Longrightarrow> \<exists>c'. f (Some c) = Some c' \<and> dbus_proxies c' = dbus_proxies c \<and> Q c'"
    and "distinct (map ra_compositor apps)" and "ra_compositor ` set apps \<subseteq> Some ` dom (w_heap m)"
    and "\<And>a c. w_heap m a = Some c \<Longrightarrow> Some a \<in> ra_compositor ` set apps \<Longrightarrow> P c"
  shows "\<exists>h. for_all_compositors f apps m = Some (m\<lparr>w_heap := h\<rparr>) \<and> heap_like (w_heap m) h \<and>
    (\<forall>a c. h a = Some c \<longrightarrow> (if Some a \<in> ra_compositor ` set apps then Q c else w_heap m a = Some c))"
  using assms(2-)
proof (induction apps arbitrary: m)
  case Nil
  then show ?case by (intro exI [of _ "w_heap m"]) (simp add: heap_like_def)
next
  case (Cons app apps)
  obtain a c where a: "ra_compositor app = Some a" "w_heap m a = Some c" using Cons.prems(2) by auto
  then have "P c" using Cons.prems(3) by auto
  then obtain c' where c': "f (Some c) = Some c'" "dbus_proxies c' = dbus_proxies c" "Q c'" using assms(1) by blast
  let ?m = "m\<lparr>w_heap := (w_heap m)(a \<mapsto> c')\<rparr>"
  have no: "Some a \<notin> ra_compositor ` set apps" using Cons.prems(1) a(1) by auto
  have "\<exists>h. for_all_compositors f apps ?m = Some (?m\<lparr>w_heap := h\<rparr>) \<and> heap_like (w_heap ?m) h \<and>
      (\<forall>a c. h a = Some c \<longrightarrow> (if Some a \<in> ra_compositor ` set apps then Q c else w_heap ?m a = Some c))"
  proof (rule Cons.IH)
    show "P d" if "w_heap ?m b = Some d" "Some b \<in> ra_compositor ` set apps" for b d
      using that no Cons.prems(3) [of b d] by (cases "b = a") auto
    show "ra_compositor ` set apps \<subseteq> Some ` dom (w_heap ?m)" using Cons.prems(2) by auto
  qed (use Cons.prems in auto)
  then obtain h where h: "for_all_compositors f apps ?m = Some (?m\<lparr>w_heap := h\<rparr>)" "heap_like (w_heap ?m) h"
    "\<And>b d. h b = Some d \<Longrightarrow> (if Some b \<in> ra_compositor ` set apps then Q d else w_heap ?m b = Some d)" by blast
  have "heap_like (w_heap m) h"
    using heap_like_trans [OF heap_like_update [of "w_heap m" a c c'] h(2) [simplified]] a c' by simp
  moreover have "if Some b \<in> ra_compositor ` set (app # apps) then Q d else w_heap m b = Some d"
    if "h b = Some d" for b d
    using h(3) [OF that] no a(1) c'(3) by (cases "b = a") (auto split: if_splits)
  moreover have "for_all_compositors f (app # apps) m = Some (m\<lparr>w_heap := h\<rparr>)"
    using h(1) a c'(1) by (simp add: on_compositor_def)
  ultimately show ?case by blast
qed

lemma updatePolicy_ok:
  assumes "mgr_ok R E m"
  shows "\<exists>m'. updatePolicy pol m = Some m' \<and> mgr_ok R E m' \<and> m_apps m' = m_apps m \<and>
    m_runningAppModel m' = m_runningAppModel m"
proof -
  let ?m = "m\<lparr>m_currentPolicy := pol\<rparr>"
  have apps: "distinct (map ra_compositor (m_apps m))" "ra_compositor ` set (m_apps m) = Some ` dom (w_heap m)"
    using assms by (simp_all add: mgr_ok_def apps_ok_def)
  have fol: "follows m c" if "w_heap m a = Some c" for a c using assms that by (simp add: mgr_ok_def comps_ok_def)
  have "\<exists>h. for_all_compositors (\<lambda>c. coder_dlp_set_policy c (Some pol)) (m_apps m) ?m = Some (?m\<lparr>w_heap := h\<rparr>) \<and>
    heap_like (w_heap ?m) h \<and>
    (\<forall>a c. h a = Some c \<longrightarrow> (if Some a \<in> ra_compositor ` set (m_apps m) then follows ?m c else w_heap ?m a = Some c))"
    by (rule for_all_ok [where P = "follows m"])
      (use apps fol in \<open>auto simp: coder_dlp_set_policy_def follows_def\<close>)
  then obtain h where h: "updatePolicy pol m = Some (?m\<lparr>w_heap := h\<rparr>)" "heap_like (w_heap m) h"
    "\<And>a c. h a = Some c \<Longrightarrow> (if Some a \<in> ra_compositor ` set (m_apps m) then follows ?m c else w_heap m a = Some c)"
    unfolding updatePolicy_def by fastforce
  have "follows (?m\<lparr>w_heap := h\<rparr>) c" if "h a = Some c" for a c
  proof -
    have "a \<in> dom (w_heap m)" using that heap_like_dom [OF h(2)] by auto
    with h(3) [OF that] apps(2) show ?thesis by (simp add: follows_def)
  qed
  from mgr_ok_heap [OF assms h(2) _ _ _ _ _ this] h(1) show ?thesis by simp
qed

lemma setWatermarkIdentity_ok:
  assumes "mgr_ok R E m"
  shows "\<exists>m'. setWatermarkIdentity identity m = Some m' \<and> mgr_ok R E m' \<and> m_apps m' = m_apps m \<and>
    m_runningAppModel m' = m_runningAppModel m"
proof -
  let ?m = "m\<lparr>m_watermarkIdentity := identity\<rparr>"
  have apps: "distinct (map ra_compositor (m_apps m))" "ra_compositor ` set (m_apps m) = Some ` dom (w_heap m)"
    using assms by (simp_all add: mgr_ok_def apps_ok_def)
  have fol: "follows m c" if "w_heap m a = Some c" for a c using assms that by (simp add: mgr_ok_def comps_ok_def)
  have set1: "\<exists>c'. coder_dlp_set_watermark_identity (Some c) (Some identity) = Some c' \<and>
      dbus_proxies c' = dbus_proxies c \<and> follows ?m c'" if "follows m c" for c
  proof -
    have "wm_wf (watermark c)" using that by (simp add: follows_def)
    from set_identity_follows [OF this, of identity] that show ?thesis
      by (auto simp: coder_dlp_set_watermark_identity_def follows_def)
  qed
  have "\<exists>h. for_all_compositors (\<lambda>c. coder_dlp_set_watermark_identity c (Some identity)) (m_apps m) ?m =
      Some (?m\<lparr>w_heap := h\<rparr>) \<and> heap_like (w_heap ?m) h \<and>
    (\<forall>a c. h a = Some c \<longrightarrow> (if Some a \<in> ra_compositor ` set (m_apps m) then follows ?m c else w_heap ?m a = Some c))"
    by (rule for_all_ok [where P = "follows m"]) (use apps fol set1 in auto)
  then obtain h where h: "setWatermarkIdentity identity m = Some (?m\<lparr>w_heap := h\<rparr>)" "heap_like (w_heap m) h"
    "\<And>a c. h a = Some c \<Longrightarrow> (if Some a \<in> ra_compositor ` set (m_apps m) then follows ?m c else w_heap m a = Some c)"
    unfolding setWatermarkIdentity_def by fastforce
  have "follows (?m\<lparr>w_heap := h\<rparr>) c" if "h a = Some c" for a c
  proof -
    have "a \<in> dom (w_heap m)" using that heap_like_dom [OF h(2)] by auto
    with h(3) [OF that] apps(2) show ?thesis by (simp add: follows_def)
  qed
  from mgr_ok_heap [OF assms h(2) _ _ _ _ _ this] h(1) show ?thesis by simp
qed

lemma update_one_ok:
  assumes ok: "mgr_ok R E m" and c: "w_heap m a = Some c" and "keeps c c'"
  shows "mgr_ok R E (m\<lparr>w_heap := (w_heap m)(a \<mapsto> c')\<rparr>)"
proof (rule mgr_ok_heap [OF ok])
  show "heap_like (w_heap m) ((w_heap m)(a \<mapsto> c'))"
    using heap_like_update c \<open>keeps c c'\<close> by (simp add: keeps_def)
  have fol: "follows m d" if "w_heap m b = Some d" for b d using ok that by (simp add: mgr_ok_def comps_ok_def)
  from fol [OF c] \<open>keeps c c'\<close> have "follows m c'" by (simp add: follows_def keeps_def)
  with fol show "follows (m\<lparr>w_heap := (w_heap m)(a \<mapsto> c')\<rparr>) d" if "((w_heap m)(a \<mapsto> c')) b = Some d" for b d
    using that by (auto simp: follows_def split: if_splits)
qed (use \<open>keeps c c'\<close> in \<open>simp_all add: keeps_def\<close>)

section \<open>Destroying a compositor\<close>

text \<open>The part of the invariant that is about memory, registry and system.\<close>

definition mem_ok :: "resource set \<Rightarrow> resource set \<Rightarrow> heap \<Rightarrow> addr vec \<Rightarrow> os \<Rightarrow> bool" where
  "mem_ok R E h reg s \<longleftrightarrow>
     system_ok h s \<and> R \<subseteq> resources s \<and> R \<inter> all_kept h = {} \<and> resources s \<subseteq> R \<union> E \<union> all_kept h \<and>
     vec_wf reg \<and> distinct (vec_elems reg) \<and> set (vec_elems reg) \<subseteq> dom h"

lemma mgr_ok_mem:
  "mgr_ok R E m \<longleftrightarrow>
     apps_ok m \<and> mem_ok R E (w_heap m) (w_reg m) (w_os m) \<and>
     (\<forall>a c. w_heap m a = Some c \<longrightarrow> follows m c) \<and>
     (\<forall>app \<in> set (m_apps m). Child (ra_pid app) \<notin> R \<union> all_kept (w_heap m) \<and>
        (bwrapExited app \<longleftrightarrow> Child (ra_pid app) \<notin> resources (w_os m)))"
  by (auto simp: mgr_ok_def comps_ok_def world_ok_def mem_ok_def)

lemma mem_ok_same:
  assumes "mem_ok R E h reg s" and "resources t = resources s"
  shows "mem_ok R E h reg t"
proof -
  have "system_ok h s" using assms(1) by (simp add: mem_ok_def)
  then have "system_ok h t"
    by (rule system_ok_sub) (use assms(2) all_kept_resources [OF \<open>system_ok h s\<close>] in \<open>auto simp: all_kept_def\<close>)
  with assms show ?thesis by (simp add: mem_ok_def)
qed

lemma mem_ok_child:
  assumes "mem_ok R E h reg s" and "resources t = resources s - {Child p}" and "Child p \<notin> R \<union> all_kept h"
  shows "mem_ok R E h reg t"
proof -
  have ok: "system_ok h s" using assms(1) by (simp add: mem_ok_def)
  then have "system_ok h t"
    by (rule system_ok_sub) (use assms(2,3) all_kept_resources [OF ok] in \<open>auto simp: all_kept_def\<close>)
  with assms show ?thesis by (auto simp: mem_ok_def)
qed

lemma reg_remove:
  assumes "vec_wf reg" and "distinct (vec_elems reg)"
  shows "vec_wf (compositor_list_remove a reg)" "distinct (vec_elems (compositor_list_remove a reg))"
    "set (vec_elems (compositor_list_remove a reg)) = set (vec_elems reg) - {a}"
proof -
  note r = remove_mset [OF assms(1), of a]
  show "vec_wf (compositor_list_remove a reg)" using r by simp
  have m: "mset (vec_elems (compositor_list_remove a reg)) = mset (remove1 a (vec_elems reg))" using r by simp
  from mset_eq_imp_distinct_iff [OF m] assms(2)
  show "distinct (vec_elems (compositor_list_remove a reg))" by simp
  from mset_eq_setD [OF m] assms(2) show "set (vec_elems (compositor_list_remove a reg)) = set (vec_elems reg) - {a}"
    by simp
qed

lemma all_kept_delete:
  assumes "system_ok h s" and "h a = Some c"
  shows "all_kept (h(a := None)) = all_kept h - kept (dbus_proxies c)"
proof
  show "all_kept (h(a := None)) \<subseteq> all_kept h - kept (dbus_proxies c)"
  proof
    fix r assume "r \<in> all_kept (h(a := None))"
    then obtain b d where b: "b \<noteq> a" "h b = Some d" "r \<in> kept (dbus_proxies d)"
      by (auto simp: all_kept_def split: if_splits)
    with system_okD(2) [OF assms(1) b(2) assms(2) b(1)] have "r \<notin> kept (dbus_proxies c)" by blast
    with b show "r \<in> all_kept h - kept (dbus_proxies c)" by (auto simp: all_kept_def)
  qed
next
  show "all_kept h - kept (dbus_proxies c) \<subseteq> all_kept (h(a := None))"
  proof
    fix r assume "r \<in> all_kept h - kept (dbus_proxies c)"
    then obtain b d where b: "h b = Some d" "r \<in> kept (dbus_proxies d)" and "r \<notin> kept (dbus_proxies c)"
      unfolding all_kept_def by blast
    moreover from this have "b \<noteq> a" using assms(2) by auto
    ultimately have b: "h b = Some d" "r \<in> kept (dbus_proxies d)" "b \<noteq> a" by blast+
    then show "r \<in> all_kept (h(a := None))" unfolding all_kept_def by auto
  qed
qed

lemma destroy_mem:
  assumes ok: "mem_ok R E h reg s" and c: "h a = Some c"
  shows "\<exists>t calls. coder_dlp_destroy cfg exited (Some a) reg h s =
      Some (compositor_list_remove a reg, h(a := None), t, calls) \<and>
    mem_ok R E (h(a := None)) (compositor_list_remove a reg) t \<and> resources t = resources s - kept (dbus_proxies c)"
proof -
  have sys: "system_ok h s" using ok by (simp add: mem_ok_def)
  obtain t where t: "dlp_cleanup_dbus_proxies exited (Some c) s = Some (Some (c\<lparr>dbus_proxies := empty_vec\<rparr>), t)"
    "resources t = resources s - kept (dbus_proxies c)"
    using cleanup_accounts [OF system_okD(1) [OF sys c], of exited] by blast
  then obtain calls where d: "coder_dlp_destroy cfg exited (Some a) reg h s =
      Some (compositor_list_remove a reg, h(a := None), t, calls)"
    using c by (simp add: coder_dlp_destroy_def split_beta Let_def)
  note del = all_kept_delete [OF sys c]
  have k: "all_kept h \<subseteq> resources s" using all_kept_resources [OF sys] .
  have "system_ok (h(a := None)) t"
  proof (rule system_ok_sub [OF sys])
    fix b e assume b: "(h(a := None)) b = Some e"
    then have b': "b \<noteq> a" "h b = Some e" by (auto split: if_splits)
    with system_okD(2) [OF sys b'(2) c b'(1)] k t(2) show "h b = Some e \<and> kept (dbus_proxies e) \<subseteq> resources t"
      unfolding all_kept_def by blast
  qed (simp add: t(2))
  moreover have "R \<subseteq> resources t" using ok c t(2) unfolding mem_ok_def all_kept_def by blast
  ultimately have "mem_ok R E (h(a := None)) (compositor_list_remove a reg) t"
    using ok reg_remove [of reg a] t(2) by (auto simp: mem_ok_def del)
  with d t(2) show ?thesis by blast
qed

section \<open>Signals\<close>

fun rows_in :: "mgr_effect list \<Rightarrow> row_signal list" where
  "rows_in [] = []"
| "rows_in (Rows sg # out) = sg @ rows_in out"
| "rows_in (_ # out) = rows_in out"

lemma rows_in_append [simp]: "rows_in (xs @ ys) = rows_in xs @ rows_in ys"
  by (induction xs rule: rows_in.induct) simp_all

definition times_in :: "mgr_effect \<Rightarrow> mgr_effect list \<Rightarrow> nat" where
  "times_in x out = length (filter ((=) x) out)"

lemma times_in_simps [simp]:
  "times_in x [] = 0" "times_in x (y # out) = (if x = y then 1 else 0) + times_in x out"
  "times_in x (out @ out') = times_in x out + times_in x out'"
  by (simp_all add: times_in_def)

text \<open>
  The views follow the rows; the two signals of the properties come exactly when the properties
  change, the one about running once.
\<close>

definition signals_ok :: "managed \<Rightarrow> managed \<Rightarrow> mgr_effect list \<Rightarrow> bool" where
  "signals_ok m m' out \<longleftrightarrow>
     view_led (rows_in out) (m_runningAppModel m) (m_runningAppModel m') \<and>
     times_in RunningChanged out = (if isRunning m = isRunning m' then 0 else 1) \<and>
     (0 < times_in AppCountChanged out) = (launchedAppCount m \<noteq> launchedAppCount m')"

lemma signals_ok_quiet:
  "rows_in out = [] \<Longrightarrow> times_in RunningChanged out = 0 \<Longrightarrow> times_in AppCountChanged out = 0 \<Longrightarrow>
     m_apps m' = m_apps m \<Longrightarrow> m_runningAppModel m' = m_runningAppModel m \<Longrightarrow> signals_ok m m' out"
  by (simp add: signals_ok_def isRunning_def launchedAppCount_def)

section \<open>Removing an application\<close>

lemma map_take_drop: "map f (take i xs @ drop j xs) = take i (map f xs) @ drop j (map f xs)"
  by (simp add: take_map drop_map)

lemma distinct_delete:
  assumes "distinct xs"
  shows "distinct (take i xs @ drop (Suc i) xs)"
proof (cases "i < length xs")
  case True
  then have x: "xs = take i xs @ xs ! i # drop (Suc i) xs" by (rule id_take_nth_drop)
  have "distinct (take i xs @ xs ! i # drop (Suc i) xs)" using assms x by simp
  then show ?thesis by simp
qed (use assms in simp)

lemma set_delete: "distinct xs \<Longrightarrow> i < length xs \<Longrightarrow> set (take i xs @ drop (Suc i) xs) = set xs - {xs ! i}"
proof -
  assume d: "distinct xs" and i: "i < length xs"
  have x: "xs = take i xs @ xs ! i # drop (Suc i) xs" using i by (rule id_take_nth_drop)
  have "distinct (take i xs @ xs ! i # drop (Suc i) xs)" using d x by simp
  moreover have "set xs = set (take i xs @ xs ! i # drop (Suc i) xs)" using x by simp
  ultimately show ?thesis by auto
qed

end
