(* ===== verification/Manager_Steps.thy ===== *)
theory Manager_Steps
  imports Manager_Invariant
begin

text \<open>
  Every operation of the manager keeps the invariant and sends the signals it has to: removing an
  application, stopping one or all, looking after exited children, launching.
\<close>

lemma apps_okD:
  assumes "apps_ok m"
  shows "m_runningAppModel m = map entry_of (m_apps m)" "distinct (map ra_pid (m_apps m))"
    "\<And>app. app \<in> set (m_apps m) \<Longrightarrow> 0 < ra_pid app \<and> ra_notifier app \<noteq> None"
    "distinct (map ra_compositor (m_apps m))" "ra_compositor ` set (m_apps m) = Some ` dom (w_heap m)"
  using assms by (simp_all add: apps_ok_def)

lemma app_compositor:
  assumes "apps_ok m" and "app \<in> set (m_apps m)"
  obtains a c where "ra_compositor app = Some a" "w_heap m a = Some c"
proof -
  have "ra_compositor app \<in> Some ` dom (w_heap m)" using apps_okD(5) [OF assms(1)] assms(2) by blast
  with that show thesis by auto
qed

lemma rows_pids: "map en_pid (map entry_of apps) = map ra_pid apps"
  by (simp add: entry_of_def)

lemma removeApp_ok:
  assumes ok: "mgr_ok R E m" and i: "i < length (m_apps m)" and a: "ra_compositor (m_apps m ! i) = Some a"
  shows "\<exists>m' out. removeApp e (int i) m = Some (m', out) \<and> mgr_ok R E m' \<and> signals_ok m m' out \<and>
    m_apps m' = take i (m_apps m) @ drop (Suc i) (m_apps m) \<and> w_heap m' = (w_heap m)(a := None) \<and>
    m_currentPolicy m' = m_currentPolicy m \<and> m_watermarkIdentity m' = m_watermarkIdentity m"
proof -
  let ?app = "m_apps m ! i" let ?apps = "take i (m_apps m) @ drop (Suc i) (m_apps m)"
  from ok have apps: "apps_ok m" and mem: "mem_ok R E (w_heap m) (w_reg m) (w_os m)"
    and fol: "\<And>a c. w_heap m a = Some c \<Longrightarrow> follows m c"
    and pids: "\<And>app. app \<in> set (m_apps m) \<Longrightarrow> Child (ra_pid app) \<notin> R \<union> all_kept (w_heap m) \<and>
      (bwrapExited app \<longleftrightarrow> Child (ra_pid app) \<notin> resources (w_os m))" by (auto simp: mgr_ok_mem)
  have here: "?app \<in> set (m_apps m)" using i by simp
  obtain c where c: "w_heap m a = Some c" using app_compositor [OF apps here] a by auto
  obtain t calls where d: "coder_dlp_destroy (me_build e) (me_exited e) (Some a) (w_reg m) (w_heap m) (w_os m) =
      Some (compositor_list_remove a (w_reg m), (w_heap m)(a := None), t, calls)"
    and mem': "mem_ok R E ((w_heap m)(a := None)) (compositor_list_remove a (w_reg m)) t"
    and t: "resources t = resources (w_os m) - kept (dbus_proxies c)"
    using destroy_mem [OF mem c, of "me_build e" "me_exited e"] by blast
  note rows = apps_okD(1) [OF apps]
  have "i < length (m_runningAppModel m)" "distinct (map en_pid (m_runningAppModel m))"
    using i apps_okD(2) [OF apps] by (simp_all add: rows entry_of_def o_def)
  from model_removeApp_at [OF this] i obtain sg where
    sg: "model_removeApp (ra_pid ?app) (m_runningAppModel m) =
        Some (take i (m_runningAppModel m) @ drop (Suc i) (m_runningAppModel m), sg)"
      "view_led sg (m_runningAppModel m) (take i (m_runningAppModel m) @ drop (Suc i) (m_runningAppModel m))"
    by (auto simp: rows entry_of_def)
  define m' where "m' = m\<lparr>w_reg := compositor_list_remove a (w_reg m), w_heap := (w_heap m)(a := None), w_os := t,
      m_apps := ?apps, m_runningAppModel := map entry_of ?apps\<rparr>"
  define off where "off = (case ra_notifier ?app of None \<Rightarrow> [] | Some fd \<Rightarrow> [Notifier_off fd])"
  define out where "out = (off @ [Library calls]) @ [Rows sg, AppCountChanged] @
      (if ?apps = [] then [RunningChanged] else [])"
  have r: "removeApp e (int i) m = Some (m', out)"
    using i a d sg(1)
    by (simp add: removeApp_def destroy_app_def off_def out_def m'_def rows map_take_drop take_map drop_map
        del: append.simps append_assoc)
  have "apps_ok m'"
    unfolding apps_ok_def
  proof (intro conjI)
    show "m_runningAppModel m' = map entry_of (m_apps m')" by (simp add: m'_def)
    show "distinct (map ra_pid (m_apps m'))" "distinct (map ra_compositor (m_apps m'))"
      using distinct_delete [OF apps_okD(2) [OF apps]] distinct_delete [OF apps_okD(4) [OF apps]]
      by (simp_all add: m'_def take_map drop_map)
    show "\<forall>app \<in> set (m_apps m'). 0 < ra_pid app \<and> ra_notifier app \<noteq> None"
      using apps_okD(3) [OF apps] by (auto simp: m'_def dest: in_set_takeD in_set_dropD)
    have "ra_compositor ` set (m_apps m') = set (take i (map ra_compositor (m_apps m)) @ drop (Suc i) (map ra_compositor (m_apps m)))"
      by (simp add: m'_def take_map drop_map image_Un)
    also have "\<dots> = set (map ra_compositor (m_apps m)) - {map ra_compositor (m_apps m) ! i}"
      by (rule set_delete [OF apps_okD(4) [OF apps]]) (use i in simp)
    also have "\<dots> = Some ` dom (w_heap m')"
      using apps_okD(5) [OF apps] i a by (auto simp: m'_def)
    finally show "ra_compositor ` set (m_apps m') = Some ` dom (w_heap m')" .
  qed
  moreover have "follows m' d" if "w_heap m' b = Some d" for b d
    using that fol [of b d] by (auto simp: m'_def follows_def split: if_splits)
  moreover have "Child (ra_pid app) \<notin> R \<union> all_kept (w_heap m') \<and>
      (bwrapExited app \<longleftrightarrow> Child (ra_pid app) \<notin> resources (w_os m'))" if "app \<in> set (m_apps m')" for app
  proof -
    have "app \<in> set (m_apps m)" using that by (auto simp: m'_def dest: in_set_takeD in_set_dropD)
    from pids [OF this] have p: "Child (ra_pid app) \<notin> R" "Child (ra_pid app) \<notin> all_kept (w_heap m)"
      "bwrapExited app \<longleftrightarrow> Child (ra_pid app) \<notin> resources (w_os m)" by blast+
    have "Child (ra_pid app) \<notin> kept (dbus_proxies c)" using p(2) c unfolding all_kept_def by blast
    moreover have "Child (ra_pid app) \<notin> all_kept (w_heap m')"
      using p(2) all_kept_sub [of "w_heap m" a] by (auto simp: m'_def)
    ultimately show ?thesis using p t by (simp add: m'_def)
  qed
  ultimately have "mgr_ok R E m'" using mem' by (auto simp: mgr_ok_mem m'_def)
  moreover have "signals_ok m m' out"
  proof -
    have "m_runningAppModel m' = take i (m_runningAppModel m) @ drop (Suc i) (m_runningAppModel m)"
      by (simp add: m'_def rows take_map drop_map)
    moreover have "rows_in out = sg" by (simp add: out_def off_def split: option.split)
    moreover have "times_in RunningChanged out = (if ?apps = [] then 1 else 0)" "0 < times_in AppCountChanged out"
      by (simp_all add: out_def off_def split: option.split)
    moreover have "isRunning m" "isRunning m' \<longleftrightarrow> ?apps \<noteq> []" "launchedAppCount m \<noteq> launchedAppCount m'"
      using i by (auto simp: isRunning_def launchedAppCount_def m'_def)
    ultimately show ?thesis using sg(2) by (auto simp: signals_ok_def)
  qed
  ultimately show ?thesis using r by (intro exI [of _ m'] exI [of _ out]) (simp add: m'_def)
qed

text \<open>Two removals in a row send the signals of both.\<close>

lemma signals_ok_trans:
  assumes "signals_ok m m1 out" and "signals_ok m1 m' out'"
    and "length (m_apps m1) \<le> length (m_apps m)" and "length (m_apps m') \<le> length (m_apps m1)"
  shows "signals_ok m m' (out @ out')"
  using assms
  by (cases "m_apps m = []"; cases "m_apps m1 = []"; cases "m_apps m' = []")
    (auto simp: signals_ok_def isRunning_def launchedAppCount_def intro: view_led_trans)

section \<open>Stopping one application\<close>

lemma kill_child:
  assumes "Child p \<in> resources s"
  shows "\<exists>t. sys_kill p s = Some t \<and> resources t = resources s"
proof -
  from assms obtain ch where ch: "children s p = Some ch" by auto
  then have "dom ((children s)(p \<mapsto> ch\<lparr>sigterm := True\<rparr>)) = dom (children s)" by auto
  with ch show ?thesis by (simp add: sys_kill_def resources_def)
qed

text \<open>A signal changes nothing that is counted; it goes astray when the process is no child.\<close>

lemma mgr_kill_spec:
  assumes "mgr_kill p s = (t, sent)"
  shows "resources t = resources s" and "sent = (if Child p \<in> resources s then Kill p else Stray_kill p)"
proof -
  have "children s p = None \<longleftrightarrow> Child p \<notin> resources s" by auto
  with kill_child [of p s] assms show "resources t = resources s"
      "sent = (if Child p \<in> resources s then Kill p else Stray_kill p)"
    by (auto simp: mgr_kill_def sys_kill_def split: option.splits)
qed

lemma mgr_ok_os:
  assumes "mgr_ok R E m" and "resources t = resources (w_os m)"
  shows "mgr_ok R E (m\<lparr>w_os := t\<rparr>)"
proof -
  from assms(1) have "mem_ok R E (w_heap m) (w_reg m) t" using mem_ok_same assms(2) by (auto simp: mgr_ok_mem)
  with assms show ?thesis by (simp add: mgr_ok_mem apps_ok_def follows_def)
qed

lemma app_index_Some:
  assumes "app_index pid apps = Some i"
  shows "i < length apps \<and> ra_pid (apps ! i) = pid"
  using assms by (auto simp: app_index_def find_Some_iff)

text \<open>
  The signals an operation sends that reach no child: to the listed applications with the identifiers
  \<open>pids\<close> whose process has been waited for.
\<close>

definition strays :: "mgr_effect list \<Rightarrow> int set" where
  "strays out = {pid. Stray_kill pid \<in> set out}"

lemma strays_simps [simp]:
  "strays [] = {}" "strays (Stray_kill p # out) = insert p (strays out)" "strays (RunningChanged # out) = strays out"
  "strays (AppCountChanged # out) = strays out" "strays (ErrorOccurred msg # out) = strays out"
  "strays (Rows sg # out) = strays out" "strays (Library calls # out) = strays out"
  "strays (Notifier_on fd # out) = strays out" "strays (Notifier_off fd # out) = strays out"
  "strays (Kill p # out) = strays out" "strays (out @ out') = strays out \<union> strays out'"
  by (auto simp: strays_def)

definition waited_for :: "int set \<Rightarrow> managed \<Rightarrow> int set" where
  "waited_for pids m = {pid \<in> pids. \<exists>app \<in> set (m_apps m). ra_pid app = pid \<and> bwrapExited app}"

lemma destroy_app_quiet: "destroy_app e app m = Some (m', out) \<Longrightarrow> strays out = {}"
  by (cases "ra_notifier app") (auto simp: destroy_app_def Let_def bind_eq_Some_conv split: if_splits)

lemma removeApp_quiet:
  assumes "removeApp e index m = Some (m', out)"
  shows "strays out = {}"
proof (cases "index < 0 \<or> index \<ge> int (length (m_apps m))")
  case False
  with assms obtain app m1 o1 o2 where "destroy_app e app m = Some (m1, o1)" "out = o1 @ o2" "strays o2 = {}"
    by (fastforce simp: removeApp_def Let_def bind_eq_Some_conv split: if_splits)
  with destroy_app_quiet show ?thesis by auto
qed (use assms in \<open>simp add: removeApp_def\<close>)

lemma app_index_None: "app_index pid apps = None \<Longrightarrow> pid \<notin> ra_pid ` set apps"
  by (auto simp: app_index_def find_None_iff in_set_conv_nth)

lemma stopApp_ok:
  assumes ok: "mgr_ok R E m"
  shows "\<exists>m' out. stopApp e pid m = Some (m', out) \<and> mgr_ok R E m' \<and> signals_ok m m' out \<and>
    strays out = waited_for {pid} m"
proof (cases "app_index pid (m_apps m)")
  case None
  with ok app_index_None [OF None] show ?thesis
    by (auto simp: stopApp_def waited_for_def intro: signals_ok_quiet)
next
  case (Some i)
  from app_index_Some [OF this] have i: "i < length (m_apps m)" "ra_pid (m_apps m ! i) = pid" by simp_all
  let ?app = "m_apps m ! i"
  have here: "?app \<in> set (m_apps m)" using i by simp
  have apps: "apps_ok m" using ok by (simp add: mgr_ok_def)
  obtain t sent where t: "mgr_kill pid (w_os m) = (t, sent)" by fastforce
  note k = mgr_kill_spec [OF t]
  let ?m = "m\<lparr>w_os := t\<rparr>"
  have ok': "mgr_ok R E ?m" using mgr_ok_os [OF ok k(1)] .
  have gone: "bwrapExited app \<longleftrightarrow> Child (ra_pid app) \<notin> resources (w_os m)" if "app \<in> set (m_apps m)" for app
    using ok that unfolding mgr_ok_mem by blast
  have w: "waited_for {pid} m = (if Child pid \<in> resources (w_os m) then {} else {pid})"
    using gone here i(2) unfolding waited_for_def by auto
  obtain a c where "ra_compositor ?app = Some a" using app_compositor [OF apps here] by metis
  then have a: "ra_compositor (m_apps ?m ! i) = Some a" by simp
  from removeApp_ok [OF ok' _ a, of e] i(1) obtain m' out where
    r: "removeApp e (int i) ?m = Some (m', out)" "mgr_ok R E m'" "signals_ok ?m m' out" by auto
  have "signals_ok m m' (sent # out)"
    using r(3) k(2) by (simp add: signals_ok_def isRunning_def launchedAppCount_def)
  moreover have "strays (sent # out) = waited_for {pid} m" using k(2) w removeApp_quiet [OF r(1)] by simp
  ultimately show ?thesis using r t(1) Some by (simp add: stopApp_def)
qed

section \<open>Stopping all\<close>

lemma kill_all_ok:
  assumes "kill_all apps s = (t, out)" and "\<forall>app \<in> set apps. 0 < ra_pid app"
  shows "resources t = resources s \<and> rows_in out = [] \<and> times_in RunningChanged out = 0 \<and>
    times_in AppCountChanged out = 0 \<and> strays out = {p \<in> ra_pid ` set apps. Child p \<notin> resources s} \<and>
    (\<forall>app \<in> set apps. Child (ra_pid app) \<in> resources s \<longrightarrow> Kill (ra_pid app) \<in> set out)"
  using assms
proof (induction apps arbitrary: s out)
  case (Cons app apps)
  obtain u sent where k: "mgr_kill (ra_pid app) s = (u, sent)" by fastforce
  obtain out' where r: "kill_all apps u = (t, out')" "out = sent # out'"
    using Cons.prems k by (auto split: prod.splits)
  from Cons.IH [OF r(1)] Cons.prems(2) mgr_kill_spec [OF k] r(2) show ?case by auto
qed simp

lemma destroy_all_ok:
  assumes "mem_ok R E (w_heap m) (w_reg m) (w_os m)"
    and "distinct (map ra_compositor apps)" and "ra_compositor ` set apps = Some ` dom (w_heap m)"
  shows "\<exists>reg s out. destroy_all e apps m = Some (m\<lparr>w_reg := reg, w_heap := Map.empty, w_os := s\<rparr>, out) \<and>
    mem_ok R E Map.empty reg s \<and> rows_in out = [] \<and> times_in RunningChanged out = 0 \<and> times_in AppCountChanged out = 0 \<and>
    strays out = {}"
  using assms
proof (induction apps arbitrary: m)
  case Nil
  then have h: "w_heap m = Map.empty" by simp
  then have "m = m\<lparr>w_reg := w_reg m, w_heap := Map.empty, w_os := w_os m\<rparr>" by simp
  with Nil h show ?case
    by (intro exI [of _ "w_reg m"] exI [of _ "w_os m"] exI [of _ "[]"]) simp
next
  case (Cons app apps)
  obtain a c where a: "ra_compositor app = Some a" and c: "w_heap m a = Some c"
    using Cons.prems(3) by (metis (no_types, lifting) domD imageE image_insert insertI1 list.simps(15))
  obtain t calls where d: "coder_dlp_destroy (me_build e) (me_exited e) (Some a) (w_reg m) (w_heap m) (w_os m) =
      Some (compositor_list_remove a (w_reg m), (w_heap m)(a := None), t, calls)"
    and mem': "mem_ok R E ((w_heap m)(a := None)) (compositor_list_remove a (w_reg m)) t"
    using destroy_mem [OF Cons.prems(1) c, of "me_build e" "me_exited e"] by blast
  define off where "off = (case ra_notifier app of None \<Rightarrow> [] | Some fd \<Rightarrow> [Notifier_off fd])"
  define m1 where "m1 = m\<lparr>w_reg := compositor_list_remove a (w_reg m), w_heap := (w_heap m)(a := None), w_os := t\<rparr>"
  have one: "destroy_app e app m = Some (m1, off @ [Library calls])"
    using a d by (simp add: destroy_app_def off_def m1_def)
  have "Some a \<notin> ra_compositor ` set apps" using Cons.prems(2) a by auto
  then have "ra_compositor ` set apps = Some ` dom (w_heap m) - {Some a}"
    using Cons.prems(3) a by (metis Diff_insert_absorb image_insert list.simps(15))
  then have img: "ra_compositor ` set apps = Some ` dom (w_heap m1)"
    by (auto simp: m1_def)
  have dist: "distinct (map ra_compositor apps)" using Cons.prems(2) by simp
  have mem1: "mem_ok R E (w_heap m1) (w_reg m1) (w_os m1)" using mem' by (simp add: m1_def)
  obtain reg s out where r: "destroy_all e apps m1 = Some (m1\<lparr>w_reg := reg, w_heap := Map.empty, w_os := s\<rparr>, out)"
    "mem_ok R E Map.empty reg s" "rows_in out = []" "times_in RunningChanged out = 0" "times_in AppCountChanged out = 0"
    "strays out = {}"
    using Cons.IH [OF mem1 dist img] by blast
  have "m1\<lparr>w_reg := reg, w_heap := Map.empty, w_os := s\<rparr> = m\<lparr>w_reg := reg, w_heap := Map.empty, w_os := s\<rparr>"
    by (simp add: m1_def)
  with r one show ?case
    by (intro exI [of _ reg] exI [of _ s] exI [of _ "(off @ [Library calls]) @ out"]) (simp add: off_def split: option.split)
qed

lemma stopAll_ok:
  assumes ok: "mgr_ok R E m"
  shows "\<exists>m' out. stopAll e m = Some (m', out) \<and> mgr_ok R E m' \<and> signals_ok m m' out \<and>
    m_apps m' = [] \<and> w_heap m' = Map.empty \<and> strays out = waited_for UNIV m \<and>
    (\<forall>app \<in> set (m_apps m). \<not> bwrapExited app \<longrightarrow> Kill (ra_pid app) \<in> set out)"
proof -
  have apps: "apps_ok m" using ok by (simp add: mgr_ok_def)
  obtain t kills where k1: "kill_all (m_apps m) (w_os m) = (t, kills)" by fastforce
  with kill_all_ok [OF k1] apps_okD(3) [OF apps] have k: "resources t = resources (w_os m)"
    "rows_in kills = []" "times_in RunningChanged kills = 0" "times_in AppCountChanged kills = 0"
    and gone: "strays kills = {p \<in> ra_pid ` set (m_apps m). Child p \<notin> resources (w_os m)}"
    and sent: "\<forall>app \<in> set (m_apps m). Child (ra_pid app) \<in> resources (w_os m) \<longrightarrow> Kill (ra_pid app) \<in> set kills"
    by simp_all
  have sent: "\<forall>app \<in> set (m_apps m). \<not> bwrapExited app \<longrightarrow> Kill (ra_pid app) \<in> set kills"
    using sent ok by (auto simp: mgr_ok_mem)
  have "strays kills = waited_for UNIV m" unfolding gone using ok by (auto simp: waited_for_def mgr_ok_mem)
  note k = k1 k this
  let ?m = "m\<lparr>w_os := t\<rparr>"
  have mem: "mem_ok R E (w_heap ?m) (w_reg ?m) (w_os ?m)"
    using ok mem_ok_same k(2) by (auto simp: mgr_ok_mem)
  obtain reg s out where d: "destroy_all e (m_apps m) ?m = Some (?m\<lparr>w_reg := reg, w_heap := Map.empty, w_os := s\<rparr>, out)"
    "mem_ok R E Map.empty reg s" "rows_in out = []" "times_in RunningChanged out = 0" "times_in AppCountChanged out = 0"
    "strays out = {}"
    using destroy_all_ok [OF mem apps_okD(4) [OF apps], of e] apps_okD(5) [OF apps] by auto
  obtain entries sg where c: "running_clear (m_runningAppModel m) = (entries, sg)" by fastforce
  then have e: "entries = []" "view_led sg (m_runningAppModel m) []"
    using view_led_Cons [OF view_led_step(4), of "[CountChanged]" "[]" "m_runningAppModel m"]
    by (auto simp: running_clear_def split: if_splits)
  let ?m' = "m\<lparr>w_os := s, w_reg := reg, w_heap := Map.empty, m_apps := [], m_runningAppModel := []\<rparr>"
  have "stopAll e m = Some (?m', kills @ out @ [Rows sg] @ (if m_apps m \<noteq> [] then [AppCountChanged, RunningChanged] else []))"
    using k(1) d(1) c e(1) by (simp add: stopAll_def)
  moreover have "mgr_ok R E ?m'" using d(2) by (simp add: mgr_ok_mem apps_ok_def)
  moreover have "signals_ok m ?m' (kills @ out @ [Rows sg] @ (if m_apps m \<noteq> [] then [AppCountChanged, RunningChanged] else []))"
    using k(3-) d(3-) e(2) by (auto simp: signals_ok_def isRunning_def launchedAppCount_def)
  moreover have "strays (kills @ out @ [Rows sg] @ (if m_apps m \<noteq> [] then [AppCountChanged, RunningChanged] else [])) =
      waited_for UNIV m" using k(6) d(6) by simp
  moreover have "\<forall>app \<in> set (m_apps m). \<not> bwrapExited app \<longrightarrow> Kill (ra_pid app) \<in>
      set (kills @ out @ [Rows sg] @ (if m_apps m \<noteq> [] then [AppCountChanged, RunningChanged] else []))"
    using sent by simp
  moreover have "m_apps ?m' = []" "w_heap ?m' = Map.empty" by simp_all
  ultimately show ?thesis by blast
qed

section \<open>Exited children\<close>

text \<open>What one look at an application's process changes in it, and whether it stays.\<close>

definition seen :: "(int \<Rightarrow> bool) \<Rightarrow> RunningApp \<Rightarrow> RunningApp" where
  "seen exited app = app\<lparr>bwrapExited := bwrapExited app \<or> exited (ra_pid app)\<rparr>"

definition clients_of :: "heap \<Rightarrow> RunningApp \<Rightarrow> int" where
  "clients_of h app = (case ra_compositor app of None \<Rightarrow> 0 | Some a \<Rightarrow> (case h a of None \<Rightarrow> 0 | Some c \<Rightarrow> client_count c))"

definition stays :: "heap \<Rightarrow> RunningApp \<Rightarrow> bool" where
  "stays h app \<longleftrightarrow> \<not> (bwrapExited app \<and> clients_of h app = 0)"

lemma seen_simps [simp]:
  "ra_pid (seen x app) = ra_pid app" "ra_compositor (seen x app) = ra_compositor app"
  "ra_notifier (seen x app) = ra_notifier app" "entry_of (seen x app) = entry_of app"
  "bwrapExited (seen x app) = (bwrapExited app \<or> x (ra_pid app))"
  by (simp_all add: seen_def entry_of_def)

lemma update_map: "f y = f (xs ! i) \<Longrightarrow> i < length xs \<Longrightarrow> map f (xs[i := y]) = map f xs"
  by (metis list_update_id map_update)

text \<open>The wait for one process.\<close>

lemma look_ok:
  assumes ok: "mgr_ok R E m" and i: "i < length (m_apps m)"
    and w: "sys_waitpid_nohang (me_exited e) (ra_pid (m_apps m ! i)) (w_os m) = (result, s)"
  shows "(if 0 < result then (m_apps m ! i)\<lparr>bwrapExited := True\<rparr> else m_apps m ! i) = seen (me_exited e) (m_apps m ! i)"
      (is ?app)
    and "mgr_ok R E (m\<lparr>m_apps := (m_apps m)[i := seen (me_exited e) (m_apps m ! i)], w_os := s\<rparr>)" (is ?ok)
proof -
  let ?x = "m_apps m ! i" let ?p = "ra_pid ?x"
  have here: "?x \<in> set (m_apps m)" using i by simp
  from ok have apps: "apps_ok m" and mem: "mem_ok R E (w_heap m) (w_reg m) (w_os m)"
    and fol: "\<And>a c. w_heap m a = Some c \<Longrightarrow> follows m c"
    and pids: "\<And>app. app \<in> set (m_apps m) \<Longrightarrow> Child (ra_pid app) \<notin> R \<union> all_kept (w_heap m) \<and>
      (bwrapExited app \<longleftrightarrow> Child (ra_pid app) \<notin> resources (w_os m))" by (auto simp: mgr_ok_mem)
  have pos: "0 < ?p" using apps_okD(3) [OF apps here] by simp
  note res = resources_nohang [OF w pos]
  have r: "0 < result \<longleftrightarrow> Child ?p \<in> resources (w_os m) \<and> me_exited e ?p"
    using w pos by (auto simp: sys_waitpid_nohang_def split: option.splits if_splits)
  show ?app
  proof (cases "0 < result")
    case True
    with r show ?thesis by (simp add: seen_def)
  next
    case False
    with r pids [OF here] have "bwrapExited ?x \<or> \<not> me_exited e ?p" by blast
    with False show ?thesis by (cases "bwrapExited ?x") (simp_all add: seen_def)
  qed
  let ?m = "m\<lparr>m_apps := (m_apps m)[i := seen (me_exited e) ?x], w_os := s\<rparr>"
  note up = update_map [OF _ i, of _ "seen (me_exited e) ?x"]
  have maps: "map ra_pid (m_apps ?m) = map ra_pid (m_apps m)" "map ra_compositor (m_apps ?m) = map ra_compositor (m_apps m)"
    "map entry_of (m_apps ?m) = map entry_of (m_apps m)"
    using up [of ra_pid] up [of ra_compositor] up [of entry_of] by simp_all
  have old: "x \<in> set (m_apps m) \<or> x = seen (me_exited e) ?x" if "x \<in> set (m_apps ?m)" for x
    using that set_update_subset_insert [of "m_apps m" i] by auto
  have "apps_ok ?m"
    unfolding apps_ok_def
  proof (intro conjI)
    show "\<forall>app \<in> set (m_apps ?m). 0 < ra_pid app \<and> ra_notifier app \<noteq> None"
      using old apps_okD(3) [OF apps] here by fastforce
    have "ra_compositor ` set (m_apps ?m) = ra_compositor ` set (m_apps m)"
      using maps(2) by (metis list.set_map)
    with apps_okD(5) [OF apps] show "ra_compositor ` set (m_apps ?m) = Some ` dom (w_heap ?m)" by simp
  qed (use maps apps_okD [OF apps] in simp_all)
  moreover have "mem_ok R E (w_heap m) (w_reg m) s"
  proof (cases "0 < result")
    case True
    with mem_ok_child [OF mem] res pids [OF here] show ?thesis by simp
  next
    case False
    with mem_ok_same [OF mem] res show ?thesis by simp
  qed
  moreover have "Child (ra_pid x) \<notin> R \<union> all_kept (w_heap m) \<and> (bwrapExited x \<longleftrightarrow> Child (ra_pid x) \<notin> resources s)"
    if x: "x \<in> set (m_apps ?m)" for x
  proof (cases "ra_pid x = ?p")
    case True
    from x obtain j where j: "j < length (m_apps m)" "x = (m_apps m)[i := seen (me_exited e) ?x] ! j"
      by (auto simp: in_set_conv_nth)
    have "map ra_pid (m_apps m) ! j = map ra_pid (m_apps m) ! i"
      using True j i by (cases "j = i") simp_all
    with nth_eq_iff_index_eq [OF apps_okD(2) [OF apps], of j i] j(1) i have "j = i" by simp
    with j i have xx: "x = seen (me_exited e) ?x" by simp
    with r res pids [OF here] show ?thesis by (auto split: if_splits)
  next
    case False
    then have "x \<in> set (m_apps m)" using old [OF x] by auto
    from pids [OF this] False res show ?thesis by (auto split: if_splits)
  qed
  ultimately show ?ok using fol by (auto simp: mgr_ok_mem follows_def)
qed

lemma comp_clients_ok:
  assumes "mgr_ok R E m" and "app \<in> set (m_apps m)"
  shows "comp_clients (ra_compositor app) m = Some (clients_of (w_heap m) app)"
proof -
  have "apps_ok m" using assms(1) by (simp add: mgr_ok_def)
  from app_compositor [OF this assms(2)] show ?thesis
    by (metis (no_types, lifting) clients_of_def coder_dlp_get_client_count_def comp_clients_def
        option.map(2) option.simps(5))
qed

lemma clients_of_delete: "ra_compositor app \<noteq> Some a \<Longrightarrow> clients_of (h(a := None)) app = clients_of h app"
  by (simp add: clients_of_def split: option.split)

lemma take_seen:
  "i < length xs \<Longrightarrow> take (Suc i) (map f xs) = take i (map f xs) @ [f (xs ! i)]"
  by (simp add: take_Suc_conv_app_nth)

lemma check_from_ok:
  assumes "mgr_ok R E m" and "i \<le> length (m_apps m)"
  shows "\<exists>m' out. check_from e i m = Some (m', out) \<and> mgr_ok R E m' \<and> signals_ok m m' out \<and>
    m_apps m' = filter (stays (w_heap m)) (map (seen (me_exited e)) (take i (m_apps m))) @ drop i (m_apps m) \<and>
    length (m_apps m') \<le> length (m_apps m)"
  using assms
proof (induction i arbitrary: m)
  case 0
  then show ?case by (auto intro: signals_ok_quiet)
next
  case (Suc i)
  then have i: "i < length (m_apps m)" by simp
  let ?x = "m_apps m ! i" let ?y = "seen (me_exited e) ?x"
  obtain result s where w: "sys_waitpid_nohang (me_exited e) (ra_pid ?x) (w_os m) = (result, s)" by fastforce
  note look = look_ok [OF Suc.prems(1) i w]
  let ?m = "m\<lparr>m_apps := (m_apps m)[i := ?y], w_os := s\<rparr>"
  have ok1: "mgr_ok R E ?m" using look(2) .
  have y: "?y \<in> set (m_apps ?m)" using i by (simp add: set_update_memI)
  have clients: "comp_clients (ra_compositor ?y) ?m = Some (clients_of (w_heap m) ?y)"
    using comp_clients_ok [OF ok1 y] by simp
  have quiet: "signals_ok m ?m []"
  proof -
    have "length (m_apps ?m) = length (m_apps m)" by simp
    then show ?thesis by (auto simp: signals_ok_def isRunning_def launchedAppCount_def)
  qed
  have split: "take (Suc i) (m_apps m) = take i (m_apps m) @ [?x]" using i by (rule take_Suc_conv_app_nth)
  have tk: "take i (m_apps ?m) = take i (m_apps m)" "drop (Suc i) (m_apps ?m) = drop (Suc i) (m_apps m)"
    "drop i (m_apps ?m) = ?y # drop (Suc i) (m_apps m)"
    using i by (simp_all add: drop_update_swap upd_conv_take_nth_drop)
  have unfold: "check_from e (Suc i) m = do {
      (m2, out) \<leftarrow> (if \<not> stays (w_heap m) ?y then removeApp e (int i) ?m else Some (?m, []));
      (m3, out') \<leftarrow> check_from e i m2;
      Some (m3, out @ out')
    }"
    using i w look(1) clients by (simp add: stays_def Let_def cong: if_cong)
  show ?case
  proof (cases "stays (w_heap m) ?y")
    case True
    obtain m' out where r: "check_from e i ?m = Some (m', out)" "mgr_ok R E m'" "signals_ok ?m m' out"
      "m_apps m' = filter (stays (w_heap ?m)) (map (seen (me_exited e)) (take i (m_apps ?m))) @ drop i (m_apps ?m)"
      "length (m_apps m') \<le> length (m_apps ?m)"
      using Suc.IH [OF ok1] i by auto
    have "signals_ok m m' ([] @ out)" by (rule signals_ok_trans [OF quiet r(3)]) (use r(5) in simp_all)
    moreover have "m_apps m' = filter (stays (w_heap m)) (map (seen (me_exited e)) (take (Suc i) (m_apps m))) @
        drop (Suc i) (m_apps m)"
      using r(4) True by (simp only: tk split) simp
    ultimately show ?thesis using r(1,2,5) True unfolding unfold by simp
  next
    case False
    obtain a c where a: "ra_compositor ?y = Some a"
      using app_compositor [OF _ y] ok1 by (metis mgr_ok_def)
    then have a': "ra_compositor (m_apps ?m ! i) = Some a" using i by simp
    from removeApp_ok [OF ok1 _ a', of e] i obtain m2 o2 where
      m2: "removeApp e (int i) ?m = Some (m2, o2)" "mgr_ok R E m2" "signals_ok ?m m2 o2"
      "m_apps m2 = take i (m_apps ?m) @ drop (Suc i) (m_apps ?m)" "w_heap m2 = (w_heap m)(a := None)"
      by auto
    have app2: "m_apps m2 = take i (m_apps m) @ drop (Suc i) (m_apps m)" using m2(4) tk by simp
    have i2: "i \<le> length (m_apps m2)" using i by (simp add: app2)
    obtain m' out where r: "check_from e i m2 = Some (m', out)" "mgr_ok R E m'" "signals_ok m2 m' out"
      "m_apps m' = filter (stays (w_heap m2)) (map (seen (me_exited e)) (take i (m_apps m2))) @ drop i (m_apps m2)"
      "length (m_apps m') \<le> length (m_apps m2)"
      using Suc.IH [OF m2(2) i2] by auto
    have same: "stays (w_heap m2) (seen (me_exited e) app) = stays (w_heap m) (seen (me_exited e) app)"
      if app: "app \<in> set (take i (m_apps m))" for app
    proof -
      have "distinct (map ra_compositor (m_apps m))" using Suc.prems(1) by (simp add: mgr_ok_def apps_ok_def)
      then have "distinct (map ra_compositor (take (Suc i) (m_apps m)))"
        using distinct_take [of "map ra_compositor (m_apps m)" "Suc i"] by (simp only: take_map)
      then have "ra_compositor ?x \<notin> ra_compositor ` set (take i (m_apps m))" by (simp add: split)
      then have "ra_compositor app \<noteq> ra_compositor ?x" using app by (metis imageI)
      then have "ra_compositor app \<noteq> Some a" using a by simp
      then show ?thesis by (simp add: stays_def m2(5) clients_of_delete)
    qed
    have "filter (stays (w_heap m2)) (map (seen (me_exited e)) (take i (m_apps m))) =
        filter (stays (w_heap m)) (map (seen (me_exited e)) (take i (m_apps m)))"
      by (rule filter_cong [OF refl]) (use same in auto)
    then have apps': "m_apps m' =
        filter (stays (w_heap m)) (map (seen (me_exited e)) (take (Suc i) (m_apps m))) @ drop (Suc i) (m_apps m)"
      using r(4) False i by (simp add: app2 split)
    have l2: "length (m_apps m2) \<le> length (m_apps ?m)" using i by (simp add: app2)
    have "signals_ok ?m m' (o2 @ out)" using signals_ok_trans [OF m2(3) r(3) l2 r(5)] .
    moreover have l3: "length (m_apps m') \<le> length (m_apps ?m)" using l2 r(5) by simp
    ultimately have "signals_ok m m' ([] @ (o2 @ out))" by (intro signals_ok_trans [OF quiet]) simp_all
    with r(1,2) m2(1) False apps' l3 show ?thesis unfolding unfold by simp
  qed
qed

lemma check_from_quiet: "check_from e i m = Some (m', out) \<Longrightarrow> strays out = {}"
proof (induction i arbitrary: m out)
  case (Suc i)
  then obtain b j m1 m2 o1 o2 where r: "(if b then removeApp e j m1 else Some (m1, [])) = Some (m2, o1)"
    "check_from e i m2 = Some (m', o2)" "out = o1 @ o2"
    by (simp add: bind_eq_Some_conv Let_def case_prod_beta del: split_paired_Ex) (metis prod.collapse)
  have "strays o1 = {}" using r(1) removeApp_quiet [of e j m1 m2 o1] by (cases b) simp_all
  with Suc.IH [OF r(2)] r(3) show ?case by simp
qed simp

lemma checkChildProcesses_ok:
  assumes "mgr_ok R E m"
  shows "\<exists>m' out. checkChildProcesses e m = Some (m', out) \<and> mgr_ok R E m' \<and> signals_ok m m' out \<and>
    m_apps m' = filter (stays (w_heap m)) (map (seen (me_exited e)) (m_apps m)) \<and> strays out = {}"
  using check_from_ok [OF assms order_refl, of e] check_from_quiet [of e "length (m_apps m)" m]
  by (fastforce simp: checkChildProcesses_def)

section \<open>Launching\<close>

lemma launch_frame:
  assumes "coder_dlp_launch_app e (Some c) (Some cmd) sandbox s = Some (ret, cc, t, n)"
  shows "\<exists>p bus u v. launch_filter e sandbox s = Some (p, bus, u) \<and> cc = Some (c\<lparr>dbus_proxies := v\<rparr>) \<and>
    (v = dbus_proxies c \<or> (\<exists>ok. vec_add ok p (dbus_proxies c) = Some (True, v)))"
proof -
  let ?Q = "\<lambda>p v. v = dbus_proxies c \<or> (\<exists>ok. vec_add ok p (dbus_proxies c) = Some (True, v))"
  have same: "\<exists>v. Some c = Some (c\<lparr>dbus_proxies := v\<rparr>) \<and> ?Q p v" for p
    by (rule exI [of _ "dbus_proxies c"]) simp
  have track: "\<exists>v. Some c' = Some (c\<lparr>dbus_proxies := v\<rparr>) \<and> ?Q p v"
    if t: "track_proxy ok p c x = Some (c', y)" for ok p x c' y
  proof (cases "c' = c")
    case True
    with same show ?thesis by simp
  next
    case False
    with t obtain v where "vec_add ok p (dbus_proxies c) = Some (True, v)" "c' = c\<lparr>dbus_proxies := v\<rparr>"
      by (auto simp: track_proxy_def bind_eq_Some_conv split: if_splits)
    then show ?thesis by blast
  qed
  note launch = coder_dlp_launch_app_def launch_filter_def [symmetric]
  obtain p bus u where f: "launch_filter e sandbox s = Some (p, bus, u)"
    using assms by (cases "launch_filter e sandbox s") (auto simp: launch)
  obtain av blocks where b: "dlp_build_bwrap_args (le_mem e) (le_host e) (Some c) (Some cmd) sandbox bus = Some (av, blocks)"
    using assms f by (cases "dlp_build_bwrap_args (le_mem e) (le_host e) (Some c) (Some cmd) sandbox bus") (auto simp: launch)
  have "\<exists>v. cc = Some (c\<lparr>dbus_proxies := v\<rparr>) \<and> ?Q p v"
  proof (cases "av = None \<or> le_fork e < 0")
    case True
    with assms f b have "cc = Some c"
      by (cases av) (auto simp: launch bind_eq_Some_conv)
    with same show ?thesis by simp
  next
    case False
    then obtain w where w: "av = Some w" by auto
    with False assms f b obtain c' where "cc = Some c'"
      "\<exists>x y. track_proxy (le_realloc e) p c x = Some (c', y)"
      by (auto simp: launch bind_eq_Some_conv Let_def)
    with track show ?thesis by blast
  qed
  with f show ?thesis by blast
qed

definition launch_left :: "launch_env \<Rightarrow> coder_dlp_sandbox_config option \<Rightarrow> resource set" where
  "launch_left e sandbox = launch_leak e sandbox \<union> (if 0 < le_fork e then {Child (le_fork e)} else {})"

text \<open>A launch in a compositor that has no proxy yet.\<close>

lemma launch_first:
  assumes c: "dbus_proxies c = empty_vec" and fresh: "launch_fresh e s" and range: "in_range sandbox"
  shows "\<exists>pid v t R0. coder_dlp_launch_app e (Some c) (Some cmd) sandbox s =
      Some (pid, Some (c\<lparr>dbus_proxies := v\<rparr>), t, 0) \<and>
    accounts (R0 \<union> resources s) v t \<and> R0 \<subseteq> launch_left e sandbox \<and> (\<forall>f. File f \<notin> R0) \<and>
    (\<forall>p. Child p \<in> kept v \<longrightarrow> p = se_fork (le_start e)) \<and>
    (pid < 0 \<or> 0 < pid \<and> pid = le_fork e \<and> Child pid \<in> R0 \<and> Child pid \<notin> resources s)"
proof -
  have acc: "accounts (resources s) (dbus_proxies c) s" using accounts_empty by (simp add: c)
  obtain pid c' t where l: "coder_dlp_launch_app e (Some c) (Some cmd) sandbox s = Some (pid, Some c', t, 0)"
    and res: "if pid = -1 then c' = c \<and> accounts (launch_leak e sandbox \<union> resources s) (dbus_proxies c') t
     else pid = le_fork e \<and> 0 < pid \<and>
       accounts (insert (Child pid) (launch_leak e sandbox \<union> resources s)) (dbus_proxies c') t \<and>
       (\<exists>ch. children t pid = Some ch \<and> runs_sandboxed ch e c cmd sandbox)"
    using launch_app_cases [OF acc fresh range, of cmd] by blast
  obtain p bus u v where f: "launch_filter e sandbox s = Some (p, bus, u)" "c' = c\<lparr>dbus_proxies := v\<rparr>"
    "v = dbus_proxies c \<or> (\<exists>ok. vec_add ok p (dbus_proxies c) = Some (True, v))"
    using launch_frame [OF l] by blast
  have pid: "proxy_pid p \<le> 0 \<or> proxy_pid p = se_fork (le_start e)"
    using launch_filter_pending [OF acc, of e sandbox] fresh range f(1)
    by (auto simp: launch_fresh_def in_range_def)
  let ?R0 = "if pid = -1 then launch_leak e sandbox else insert (Child pid) (launch_leak e sandbox)"
  have cv: "dbus_proxies c' = v" using f(2) by simp
  have v: "accounts (?R0 \<union> resources s) v t" using res unfolding cv by (simp split: if_splits)
  have "q = se_fork (le_start e)" if q: "Child q \<in> kept v" for q
  proof -
    obtain i where i: "i \<in> live_at v" "Child q \<in> owned (entry v i)" using q by (auto simp: kept_def)
    have wf: "proxy_wf (entry v i)" using v i(1) by (auto simp: accounts_def holds_def)
    have wf_v: "vec_wf v" and iu: "i < used v" using v i(1) by (simp_all add: accounts_def live_at_def)
    have len: "length (vec_elems v) = used v" using wf_v by simp
    then have "vec_elems v \<noteq> []" using iu by auto
    then have "v \<noteq> dbus_proxies c" using c by auto
    then obtain ok where "vec_add ok p (dbus_proxies c) = Some (True, v)" using f(3) by blast
    then have el: "vec_elems v = [p]" using doubling.push_stored [of "dbus_proxies c"] c by simp
    then have "i = 0" using iu len by simp
    then have "entry v i = p" using el by (simp add: entry_def)
    with i(2) wf pid show ?thesis by (auto simp: owned_def proxy_wf_def)
  qed
  moreover have "pid < 0 \<or> 0 < pid \<and> pid = le_fork e \<and> Child pid \<in> ?R0 \<and> Child pid \<notin> resources s"
    using res fresh by (auto simp: launch_fresh_def split: if_splits)
  moreover have "?R0 \<subseteq> launch_left e sandbox" using res by (auto simp: launch_left_def split: if_splits)
  moreover have "File fl \<notin> ?R0" for fl by (auto simp: launch_leak_def)
  ultimately show ?thesis using l f(2) v by blast
qed

lemma sandbox_of_range: "in_range (Some (sandbox_of rq))"
  by (simp add: in_range_def extra_in_range_def talk_in_range_def sandbox_of_def)

lemma set_up_ok:
  assumes c: "w_heap m a = Some c" and "dbus_proxies c = empty_vec" "watermark c = zero_watermark_state"
  shows "\<exists>c' calls. set_up_compositor e rq a m = Some (m\<lparr>w_heap := (w_heap m)(a \<mapsto> c')\<rparr>, [Library calls]) \<and>
    dbus_proxies c' = empty_vec \<and> follows m c'"
proof -
  let ?c1 = "c\<lparr>log_cb := Some (me_log_cb e), log_cb_data := Some (me_this e), policy := m_currentPolicy m\<rparr>"
  have wm: "wm_wf (watermark ?c1)" using assms(3) by (simp add: wm_wf_def zero_watermark_state_def)
  obtain c2 where c2: "(if m_watermarkIdentity m \<noteq> []
      then coder_dlp_set_watermark_identity (Some ?c1) (Some (m_watermarkIdentity m)) else Some ?c1) = Some c2"
    "dbus_proxies c2 = empty_vec" "follows m c2"
  proof (cases "m_watermarkIdentity m = []")
    case True
    with that [of ?c1] assms wm show thesis by (simp add: follows_def)
  next
    case False
    from set_identity_follows [OF wm, of "m_watermarkIdentity m"] obtain w where w:
      "dlp_watermark_set_identity (Some (watermark ?c1)) (Some (m_watermarkIdentity m)) = Some w"
      "wm_wf w" "has_identity w" "fingerprint w = fingerprint_of (m_watermarkIdentity m)" by blast
    have "coder_dlp_set_watermark_identity (Some ?c1) (Some (m_watermarkIdentity m)) = Some (?c1\<lparr>watermark := w\<rparr>)"
      unfolding coder_dlp_set_watermark_identity_def option.case prod.case w(1) by simp
    with False have "(if m_watermarkIdentity m \<noteq> []
      then coder_dlp_set_watermark_identity (Some ?c1) (Some (m_watermarkIdentity m)) else Some ?c1) =
      Some (?c1\<lparr>watermark := w\<rparr>)" by (simp only: simp_thms if_True)
    then show thesis by (rule that) (use assms(2) w in \<open>simp_all add: follows_def\<close>)
  qed
  let ?c3 = "c2\<lparr>output_title := if me_strdup e then Some (window_title rq) else None\<rparr>"
  have "follows m ?c3" "dbus_proxies ?c3 = empty_vec" using c2 by (simp_all add: follows_def)
  moreover have "\<exists>calls. set_up_compositor e rq a m = Some (m\<lparr>w_heap := (w_heap m)(a \<mapsto> ?c3)\<rparr>, [Library calls])"
  proof -
    let ?m1 = "m\<lparr>w_heap := (w_heap m)(a \<mapsto> ?c1)\<rparr>" let ?m2 = "m\<lparr>w_heap := (w_heap m)(a \<mapsto> c2)\<rparr>"
    have s1: "on_compositor (Some a) (\<lambda>c. coder_dlp_set_log_callback c (Some (me_log_cb e)) (Some (me_this e))) m =
        Some (m\<lparr>w_heap := (w_heap m)(a \<mapsto> c\<lparr>log_cb := Some (me_log_cb e), log_cb_data := Some (me_this e)\<rparr>)\<rparr>)"
      using c by (simp add: on_compositor_def coder_dlp_set_log_callback_def)
    have s2: "on_compositor (Some a) (\<lambda>x. coder_dlp_set_policy x (Some (m_currentPolicy
          (m\<lparr>w_heap := (w_heap m)(a \<mapsto> c\<lparr>log_cb := Some (me_log_cb e), log_cb_data := Some (me_this e)\<rparr>)\<rparr>))))
        (m\<lparr>w_heap := (w_heap m)(a \<mapsto> c\<lparr>log_cb := Some (me_log_cb e), log_cb_data := Some (me_this e)\<rparr>)\<rparr>) = Some ?m1"
      by (simp add: on_compositor_def coder_dlp_set_policy_def)
    have s3: "(if m_watermarkIdentity ?m1 \<noteq> []
        then on_compositor (Some a) (\<lambda>c. coder_dlp_set_watermark_identity c (Some (m_watermarkIdentity ?m1))) ?m1
        else Some ?m1) = Some ?m2"
    proof (cases "m_watermarkIdentity m = []")
      case True
      then have "c2 = ?c1" using c2(1) by (simp only: if_False simp_thms option.inject)
      with True show ?thesis by simp
    next
      case False
      then have "coder_dlp_set_watermark_identity (Some ?c1) (Some (m_watermarkIdentity m)) = Some c2"
        using c2(1) by (simp only: if_True simp_thms)
      with False show ?thesis by (simp add: on_compositor_def)
    qed
    show ?thesis
      unfolding set_up_compositor_def s1 bind.bind_lunit s2 s3
      by (simp add: on_compositor_def coder_dlp_set_output_title_def split_beta Let_def)
  qed
  ultimately show ?thesis by blast
qed

lemma set_up_quiet: "set_up_compositor e rq a m = Some (m', out) \<Longrightarrow> strays out = {}"
  by (auto simp: set_up_compositor_def bind_eq_Some_conv Let_def case_prod_beta split: if_splits)

lemma launchApp_quiet:
  assumes "launchApp e rq m = Some (pid, m', out)"
  shows "strays out = {}"
proof (cases "isAvailable e")
  case True
  with assms obtain comp reg h calls where c: "coder_dlp_create (me_build e) (me_create e) (m_logLevel m) (w_reg m) (w_heap m) =
      Some (comp, reg, h, calls)" by (auto simp: launchApp_def bind_eq_Some_conv)
  show ?thesis
  proof (cases comp)
    case (Some a)
    with assms True c obtain m1 o1 where "set_up_compositor e rq a (m\<lparr>w_reg := reg, w_heap := h\<rparr>) = Some (m1, o1)"
      by (auto simp: launchApp_def bind_eq_Some_conv)
    with set_up_quiet [OF this] assms True c Some show ?thesis
      by (auto simp: launchApp_def bind_eq_Some_conv Let_def split: if_splits prod.splits)
  qed (use assms True c in \<open>auto simp: launchApp_def\<close>)
qed (use assms in \<open>auto simp: launchApp_def\<close>)

text \<open>
  What a launch relies on: the objects the library does not check can be made, memory is new, the display
  can be created, the system answers as described for the launch of the library, and a process
  identifier is not given to another process while an application is listed under it.
\<close>

definition launch_allowed :: "mgr_env \<Rightarrow> managed \<Rightarrow> bool" where
  "launch_allowed e m \<longleftrightarrow>
     globals_made (me_create e) \<and>
     (\<forall>a. ce_calloc (me_create e) = Some a \<longrightarrow> w_heap m a = None \<and> ce_display (me_create e) \<noteq> None) \<and>
     launch_fresh (me_launch e) (w_os m) \<and>
     le_fork (me_launch e) \<notin> ra_pid ` set (m_apps m) \<and>
     se_fork (le_start (me_launch e)) \<notin> ra_pid ` set (m_apps m)"

lemma all_kept_insert:
  assumes "h a = None"
  shows "all_kept (h(a \<mapsto> c)) = all_kept h \<union> kept (dbus_proxies c)"
proof (intro equalityI subsetI)
  fix r assume "r \<in> all_kept (h(a \<mapsto> c))"
  then show "r \<in> all_kept h \<union> kept (dbus_proxies c)" by (auto simp: all_kept_def split: if_splits)
next
  fix r assume "r \<in> all_kept h \<union> kept (dbus_proxies c)"
  then consider b d where "h b = Some d" "r \<in> kept (dbus_proxies d)" | "r \<in> kept (dbus_proxies c)"
    by (auto simp: all_kept_def)
  then show "r \<in> all_kept (h(a \<mapsto> c))"
  proof cases
    case (1 b d)
    with assms have "(h(a \<mapsto> c)) b = Some d" by auto
    with 1(2) show ?thesis unfolding all_kept_def by blast
  next
    case 2
    have "(h(a \<mapsto> c)) a = Some c" by simp
    with 2 show ?thesis unfolding all_kept_def by blast
  qed
qed

text \<open>After the creation, a compositor without proxies is in the memory.\<close>

lemma mem_ok_create:
  assumes mem: "mem_ok R E h reg s" and "h a = None" and "dbus_proxies c = empty_vec"
    and add: "compositor_list_add ok a reg = Some (stored, reg')"
  shows "mem_ok R E (h(a \<mapsto> c)) reg' s" "all_kept (h(a \<mapsto> c)) = all_kept h"
proof -
  have sys: "system_ok h s" using mem by (simp add: mem_ok_def)
  have "system_ok (h(a \<mapsto> c)) s"
    by (rule system_ok_step [OF sys, where B = "resources s" and K = "{}" and R = "{}"])
      (use assms(3) accounts_empty in simp_all)
  moreover show ak: "all_kept (h(a \<mapsto> c)) = all_kept h"
    using all_kept_insert [of h a c] assms(2,3) by simp
  moreover have "a \<notin> set (vec_elems reg)" using mem assms(2) by (auto simp: mem_ok_def)
  moreover have wf: "vec_wf reg" "distinct (vec_elems reg)" "set (vec_elems reg) \<subseteq> dom h"
    using mem by (simp_all add: mem_ok_def)
  ultimately show "mem_ok R E (h(a \<mapsto> c)) reg' s"
  proof -
    note r = registered_and_removed(1,2) [OF wf(1) add \<open>a \<notin> set (vec_elems reg)\<close>]
    let ?new = "if ok \<or> used reg < cap reg then a # vec_elems reg else vec_elems reg"
    have m: "mset (vec_elems reg') = mset ?new" using r(2) by simp
    have "distinct ?new" using \<open>a \<notin> set (vec_elems reg)\<close> wf(2) by simp
    then have "distinct (vec_elems reg')" using mset_eq_imp_distinct_iff [OF m] by simp
    moreover have "set (vec_elems reg') \<subseteq> insert a (set (vec_elems reg))"
      using mset_eq_setD [OF m] by auto
    ultimately have "distinct (vec_elems reg')" "set (vec_elems reg') \<subseteq> insert a (set (vec_elems reg))"
      by simp_all
    with mem wf r(1) ak \<open>system_ok (h(a \<mapsto> c)) s\<close> show ?thesis by (auto simp: mem_ok_def)
  qed
qed

lemma mem_ok_none:
  assumes mem: "mem_ok R E h reg s" and "vec_wf reg'" and "mset (vec_elems reg') = mset (vec_elems reg)"
  shows "mem_ok R E h reg' s"
  using assms mset_eq_imp_distinct_iff [OF assms(3)] mset_eq_setD [OF assms(3)] by (simp add: mem_ok_def)

text \<open>After the launch of the library.\<close>

lemma mem_ok_launch:
  assumes mem: "mem_ok R E (h(a \<mapsto> c)) reg s" and ha: "h a = None" and c: "dbus_proxies c = empty_vec"
    and acc: "accounts (R0 \<union> resources s) (dbus_proxies c') t" and R0: "\<And>f. File f \<notin> R0"
  shows "mem_ok R (R0 \<union> E) (h(a \<mapsto> c')) reg t"
    "all_kept (h(a \<mapsto> c')) = all_kept h \<union> kept (dbus_proxies c')"
    "resources t = R0 \<union> resources s \<union> kept (dbus_proxies c')"
proof -
  note k = accounts_kept [OF acc]
  have sys: "system_ok (h(a \<mapsto> c)) s" using mem by (simp add: mem_ok_def)
  show t: "resources t = R0 \<union> resources s \<union> kept (dbus_proxies c')" using k(1) .
  show ak: "all_kept (h(a \<mapsto> c')) = all_kept h \<union> kept (dbus_proxies c')"
    by (rule all_kept_insert) (rule ha)
  have ak0: "all_kept (h(a \<mapsto> c)) = all_kept h"
    using all_kept_insert [of h a c] ha c by simp
  have "system_ok ((h(a \<mapsto> c))(a \<mapsto> c')) t"
    by (rule system_ok_step [OF sys, where B = "resources s" and K = "{}" and R = R0]) (use acc R0 in simp_all)
  then have "system_ok (h(a \<mapsto> c')) t" by simp
  moreover have "R \<inter> kept (dbus_proxies c') = {}" using k(2) mem by (auto simp: mem_ok_def)
  ultimately show "mem_ok R (R0 \<union> E) (h(a \<mapsto> c')) reg t"
    using mem t ak ak0 by (auto simp: mem_ok_def)
qed

definition launch_effects :: "mgr_env \<Rightarrow> launch_request \<Rightarrow> resource set" where
  "launch_effects e rq = launch_left (me_launch e) (Some (sandbox_of rq))"

lemma launchApp_ok:
  assumes ok: "mgr_ok R E m" and al: "launch_allowed e m"
  shows "\<exists>pid m' out. launchApp e rq m = Some (pid, m', out) \<and> mgr_ok R (launch_effects e rq \<union> E) m' \<and>
    signals_ok m m' out \<and>
    (pid = -1 \<and> m_apps m' = m_apps m \<and> w_heap m' = w_heap m \<or>
     0 < pid \<and> (\<exists>app. m_apps m' = m_apps m @ [app] \<and> ra_pid app = pid \<and> \<not> bwrapExited app))"
proof (cases "isAvailable e")
  case False
  have "mgr_ok R (launch_effects e rq \<union> E) m" using mgr_ok_mono [OF ok] by blast
  with False show ?thesis by (simp add: launchApp_def) (auto intro!: signals_ok_quiet)
next
  case True
  from ok have apps: "apps_ok m" and mem: "mem_ok R E (w_heap m) (w_reg m) (w_os m)"
    and fol: "\<And>a c. w_heap m a = Some c \<Longrightarrow> follows m c"
    and pids: "\<And>app. app \<in> set (m_apps m) \<Longrightarrow> Child (ra_pid app) \<notin> R \<union> all_kept (w_heap m) \<and>
      (bwrapExited app \<longleftrightarrow> Child (ra_pid app) \<notin> resources (w_os m))" by (auto simp: mgr_ok_mem)
  obtain comp reg h calls where cr:
    "coder_dlp_create (me_build e) (me_create e) (m_logLevel m) (w_reg m) (w_heap m) = Some (comp, reg, h, calls)"
    using create_defined [of "w_reg m" "me_create e"] al mem unfolding launch_allowed_def mem_ok_def
    by (metis not_None_eq prod_cases4)
  show ?thesis
  proof (cases comp)
    case None
    have wf: "vec_wf (w_reg m)" "set (vec_elems (w_reg m)) \<subseteq> dom (w_heap m)" using mem by (simp_all add: mem_ok_def)
    have n: "h = w_heap m \<and> vec_wf reg \<and> mset (vec_elems reg) = mset (vec_elems (w_reg m))"
      by (rule create_none [OF cr [unfolded None] wf(1)]) (use al wf(2) in \<open>auto simp: launch_allowed_def\<close>)
    let ?m = "m\<lparr>w_reg := reg, w_heap := h\<rparr>"
    have "mem_ok R E (w_heap m) reg (w_os m)" using mem_ok_none [OF mem] n by blast
    then have "mgr_ok R E ?m"
      using ok n by (auto simp: mgr_ok_mem apps_ok_def follows_def)
    then have "mgr_ok R (launch_effects e rq \<union> E) ?m" by (rule mgr_ok_mono) simp
    with True cr None n show ?thesis by (simp add: launchApp_def) (auto intro!: signals_ok_quiet)
  next
    case (Some a)
    from create_some [OF cr [unfolded Some]] obtain c stored where
      a: "ce_calloc (me_create e) = Some a" and h: "h = (w_heap m)(a \<mapsto> c)" and
      c: "dbus_proxies c = empty_vec" "watermark c = zero_watermark_state" and
      add: "compositor_list_add (ce_realloc_ok (me_create e)) a (w_reg m) = Some (stored, reg)" by blast
    have new: "w_heap m a = None" using al a by (simp add: launch_allowed_def)
    let ?m0 = "m\<lparr>w_reg := reg, w_heap := h\<rparr>"
    obtain c1 calls1 where up: "set_up_compositor e rq a ?m0 = Some (?m0\<lparr>w_heap := h(a \<mapsto> c1)\<rparr>, [Library calls1])"
      and c1: "dbus_proxies c1 = empty_vec" "follows ?m0 c1"
      using set_up_ok [of ?m0 a c e rq] h c by auto
    have hc1: "h(a \<mapsto> c1) = (w_heap m)(a \<mapsto> c1)" by (simp add: h)
    have fresh: "launch_fresh (me_launch e) (w_os m)" using al by (simp add: launch_allowed_def)
    obtain pid v t R0 where l: "coder_dlp_launch_app (me_launch e) (Some c1) (Some (rq_command rq))
        (Some (sandbox_of rq)) (w_os m) = Some (pid, Some (c1\<lparr>dbus_proxies := v\<rparr>), t, 0)"
      and acc: "accounts (R0 \<union> resources (w_os m)) v t" and R0: "R0 \<subseteq> launch_left (me_launch e) (Some (sandbox_of rq))"
      and nofile: "\<And>f. File f \<notin> R0" and proxy: "\<And>p. Child p \<in> kept v \<Longrightarrow> p = se_fork (le_start (me_launch e))"
      and pid: "pid < 0 \<or> 0 < pid \<and> pid = le_fork (me_launch e) \<and> Child pid \<in> R0 \<and> Child pid \<notin> resources (w_os m)"
      using launch_first [OF c1(1) fresh sandbox_of_range, of "rq_command rq"] by blast
    let ?c2 = "c1\<lparr>dbus_proxies := v\<rparr>"
    have mem1: "mem_ok R E ((w_heap m)(a \<mapsto> c1)) reg (w_os m)" by (rule mem_ok_create(1) [OF mem new c1(1) add])
    note L = mem_ok_launch [OF mem1 new c1(1), of R0 ?c2 t]
    have mem2: "mem_ok R (R0 \<union> E) ((w_heap m)(a \<mapsto> ?c2)) reg t"
      and ak2: "all_kept ((w_heap m)(a \<mapsto> ?c2)) = all_kept (w_heap m) \<union> kept v"
      and t: "resources t = R0 \<union> resources (w_os m) \<union> kept v"
      using L acc nofile by simp_all
    have mono: "R0 \<union> E \<subseteq> launch_effects e rq \<union> E" using R0 by (auto simp: launch_effects_def)
    have old: "Child (ra_pid app) \<notin> R \<union> all_kept (w_heap m) \<union> kept v \<and>
        (bwrapExited app \<longleftrightarrow> Child (ra_pid app) \<notin> resources t)" if app: "app \<in> set (m_apps m)" for app
    proof -
      have "se_fork (le_start (me_launch e)) \<notin> ra_pid ` set (m_apps m)" using al by (simp add: launch_allowed_def)
      then have "ra_pid app \<noteq> se_fork (le_start (me_launch e))" using app by (metis imageI)
      moreover have "le_fork (me_launch e) \<notin> ra_pid ` set (m_apps m)" using al by (simp add: launch_allowed_def)
      then have "ra_pid app \<noteq> le_fork (me_launch e)" using app by (metis imageI)
      then have "Child (ra_pid app) \<notin> R0" using R0 by (auto simp: launch_left_def launch_leak_def split: if_splits)
      ultimately show ?thesis using proxy [of "ra_pid app"] pids [OF app] t by auto
    qed
    let ?fd = "coder_dlp_get_fd (me_fd e) (Some c1)"
    let ?m1 = "m\<lparr>w_reg := reg, w_heap := (w_heap m)(a \<mapsto> ?c2), w_os := t\<rparr>"
    let ?out = "Library calls # [Library calls1] @ [Notifier_on ?fd]"
    show ?thesis
    proof (cases "pid < 0")
      case True2: True
      obtain u dcalls where d: "coder_dlp_destroy (me_build e) (me_exited e) (Some a) reg ((w_heap m)(a \<mapsto> ?c2)) t =
          Some (compositor_list_remove a reg, ((w_heap m)(a \<mapsto> ?c2))(a := None), u, dcalls)"
        and mem3: "mem_ok R (R0 \<union> E) (((w_heap m)(a \<mapsto> ?c2))(a := None)) (compositor_list_remove a reg) u"
        and u: "resources u = resources t - kept (dbus_proxies ?c2)"
        using destroy_mem [OF mem2, of a ?c2 "me_build e" "me_exited e"] by auto
      have gone: "((w_heap m)(a \<mapsto> ?c2))(a := None) = w_heap m" using new by (auto simp: fun_eq_iff)
      have gone2: "(w_heap m)(a := None) = w_heap m" using new by (auto simp: fun_eq_iff)
      let ?m2 = "m\<lparr>w_reg := compositor_list_remove a reg, w_heap := w_heap m, w_os := u\<rparr>"
      let ?out2 = "?out @ [ErrorOccurred (''Failed to launch app: '' @ rq_command rq), Notifier_off ?fd, Library dcalls]"
      have r: "launchApp e rq m = Some (-1, ?m2, ?out2)"
        using True cr Some up l True2 d
        by (simp add: launchApp_def h on_compositor_def Let_def gone gone2)
      have "mgr_ok R (R0 \<union> E) ?m2"
        unfolding mgr_ok_mem
      proof (intro conjI ballI)
        show "apps_ok ?m2" using apps by (simp add: apps_ok_def)
        show "mem_ok R (R0 \<union> E) (w_heap ?m2) (w_reg ?m2) (w_os ?m2)" using mem3 by (simp only: gone) simp
        show "\<forall>a c. w_heap ?m2 a = Some c \<longrightarrow> follows ?m2 c" using fol by (simp add: follows_def)
        fix app assume "app \<in> set (m_apps ?m2)"
        then have app: "app \<in> set (m_apps m)" by simp
        show "Child (ra_pid app) \<notin> R \<union> all_kept (w_heap ?m2)" using old [OF app] by simp
        show "bwrapExited app \<longleftrightarrow> Child (ra_pid app) \<notin> resources (w_os ?m2)" using old [OF app] u by auto
      qed
      then have "mgr_ok R (launch_effects e rq \<union> E) ?m2" by (rule mgr_ok_mono) (rule mono)
      moreover have "signals_ok m ?m2 ?out2" by (rule signals_ok_quiet) simp_all
      ultimately show ?thesis using r by (intro exI [of _ "-1"] exI [of _ ?m2] exI [of _ ?out2]) simp
    next
      case False2: False
      then have p: "0 < pid" "pid = le_fork (me_launch e)" "Child pid \<in> R0" "Child pid \<notin> resources (w_os m)"
        using pid by auto
      let ?app = "\<lparr>ra_pid = pid, ra_appName = app_name rq, ra_command = rq_command rq, ra_compositor = Some a,
        ra_notifier = Some ?fd, bwrapExited = False\<rparr>"
      let ?m2 = "?m1\<lparr>m_apps := m_apps m @ [?app], m_runningAppModel := map entry_of (m_apps m @ [?app])\<rparr>"
      let ?out2 = "?out @ [Rows [InsertRow (length (m_runningAppModel m)), CountChanged], AppCountChanged] @
        (if m_apps m = [] then [RunningChanged] else [])"
      have rows: "m_runningAppModel m @ [\<lparr>en_pid = pid, en_appName = app_name rq, en_command = rq_command rq\<rparr>] =
          map entry_of (m_apps m @ [?app])"
        using apps_okD(1) [OF apps] by (simp add: entry_of_def)
      have r: "launchApp e rq m = Some (pid, ?m2, ?out2)"
        using True cr Some up l False2 rows
        by (simp add: launchApp_def h on_compositor_def Let_def addApp_def)
      have "mgr_ok R (R0 \<union> E) ?m2"
        unfolding mgr_ok_mem
      proof (intro conjI ballI)
        have "pid \<notin> ra_pid ` set (m_apps m)" using al p(2) by (simp add: launch_allowed_def)
        moreover have "Some a \<notin> ra_compositor ` set (m_apps m)" using apps_okD(5) [OF apps] new by auto
        ultimately show "apps_ok ?m2" using apps p(1) by (auto simp: apps_ok_def)
        show "mem_ok R (R0 \<union> E) (w_heap ?m2) (w_reg ?m2) (w_os ?m2)" using mem2 by simp
        have "follows ?m2 ?c2" using c1(2) by (simp add: follows_def)
        then show "\<forall>a c. w_heap ?m2 a = Some c \<longrightarrow> follows ?m2 c" using fol by (simp add: follows_def)
        fix app assume "app \<in> set (m_apps ?m2)"
        then consider "app \<in> set (m_apps m)" | "app = ?app" by auto
        then have "Child (ra_pid app) \<notin> R \<union> all_kept (w_heap ?m2) \<and>
            (bwrapExited app \<longleftrightarrow> Child (ra_pid app) \<notin> resources (w_os ?m2))"
        proof cases
          case 1
          from old [OF 1] show ?thesis by (simp add: ak2)
        next
          case 2
          have "Child pid \<notin> kept v" using accounts_kept(2) [OF acc] p(3) by blast
          moreover have "Child pid \<notin> R \<union> all_kept (w_heap m)"
            using p(4) mem all_kept_resources [of "w_heap m" "w_os m"] by (auto simp: mem_ok_def)
          ultimately show ?thesis using 2 p(3) t by (simp add: ak2)
        qed
        then show "Child (ra_pid app) \<notin> R \<union> all_kept (w_heap ?m2)"
          "bwrapExited app \<longleftrightarrow> Child (ra_pid app) \<notin> resources (w_os ?m2)" by blast+
      qed
      then have "mgr_ok R (launch_effects e rq \<union> E) ?m2" by (rule mgr_ok_mono) (rule mono)
      moreover have "signals_ok m ?m2 ?out2"
        using apps_okD(1) [OF apps] view_led_Cons [OF view_led_step(2), of "[CountChanged]" "map entry_of (m_apps m)" "entry_of ?app"]
        by (cases "m_apps m = []") (simp_all add: signals_ok_def isRunning_def launchedAppCount_def)
      ultimately show ?thesis using r p(1) by (intro exI [of _ pid] exI [of _ ?m2] exI [of _ ?out2]) simp
    qed
  qed
qed

end
