(* ===== verification/Manager_Safety.thy ===== *)
theory Manager_Safety
  imports Machine Manager_Steps
begin

text \<open>
  The manager over any sequence of requests, events and timers, and what follows for it.
\<close>

section \<open>Everything that happens to the manager\<close>

text \<open>
  Its operations, and what the event loop brings: events of a compositor, dispatched when its
  descriptor becomes readable, and its timer.
\<close>

datatype mgr_op =
  Launch_app mgr_env launch_request
| Stop_app mgr_env int
| Stop_all mgr_env
| Update_policy coder_dlp_policy
| Set_identity string
| Set_log_level string
| Check_children mgr_env
| Dispatch build_config addr event
| Reap_timer "int \<Rightarrow> bool" addr

fun op_step :: "mgr_op \<Rightarrow> managed \<Rightarrow> managing" where
  "op_step (Launch_app e rq) m = map_option snd (launchApp e rq m)"
| "op_step (Stop_app e pid) m = stopApp e pid m"
| "op_step (Stop_all e) m = stopAll e m"
| "op_step (Update_policy pol) m = map_option (\<lambda>m. (m, [])) (updatePolicy pol m)"
| "op_step (Set_identity identity) m = map_option (\<lambda>m. (m, [])) (setWatermarkIdentity identity m)"
| "op_step (Set_log_level level) m = Some (setLogLevel level m, [])"
| "op_step (Check_children e) m = checkChildProcesses e m"
| "op_step (Dispatch cfg a ev) m = do {
     c \<leftarrow> w_heap m a;
     (c', calls) \<leftarrow> handle_event cfg ev c;
     Some (m\<lparr>w_heap := (w_heap m)(a \<mapsto> c')\<rparr>, [Library (coder_dlp_dispatch (Some c) @ calls)])
   }"
| "op_step (Reap_timer exited a) m = do {
     c \<leftarrow> w_heap m a;
     (c', calls, s) \<leftarrow> reap_timer_cb exited c (w_os m);
     Some (m\<lparr>w_heap := (w_heap m)(a \<mapsto> c'), w_os := s\<rparr>, [Library calls])
   }"

text \<open>
  The conditions, all on what the libraries and the system answer: those of a launch; an event is dispatched by a
  compositor that exists, for an object that exists. Whatever is asked of the manager is allowed.
\<close>

fun op_ok :: "mgr_op \<Rightarrow> managed \<Rightarrow> bool" where
  "op_ok (Launch_app e rq) m \<longleftrightarrow> launch_allowed e m"
| "op_ok (Dispatch cfg a ev) m \<longleftrightarrow> (\<exists>c. w_heap m a = Some c \<and> announced cfg ev c)"
| "op_ok (Reap_timer exited a) m \<longleftrightarrow> a \<in> dom (w_heap m)"
| "op_ok _ m \<longleftrightarrow> True"

text \<open>
  The one thing that is not in order: a request to stop sends its signal also for an application that is only listed
  because its compositor has clients, when its process has been waited for and its number may be that of another.
\<close>

fun op_strays :: "mgr_op \<Rightarrow> managed \<Rightarrow> int set" where
  "op_strays (Stop_app e pid) m = waited_for {pid} m"
| "op_strays (Stop_all e) m = waited_for UNIV m"
| "op_strays _ m = {}"

fun op_left :: "mgr_op \<Rightarrow> resource set" where
  "op_left (Launch_app e rq) = launch_effects e rq"
| "op_left _ = {}"

fun mgr_run :: "mgr_op list \<Rightarrow> managed \<Rightarrow> managing" where
  "mgr_run [] m = Some (m, [])"
| "mgr_run (op # ops) m = do {
     (m, out) \<leftarrow> op_step op m;
     (m, out') \<leftarrow> mgr_run ops m;
     Some (m, out @ out')
   }"

interpretation manager: partial_machine op_step mgr_run
  by unfold_locales simp_all

fun ops_ok :: "mgr_op list \<Rightarrow> managed \<Rightarrow> bool" where
  "ops_ok [] m \<longleftrightarrow> True"
| "ops_ok (op # ops) m \<longleftrightarrow> op_ok op m \<and> (case op_step op m of None \<Rightarrow> True | Some (m, out) \<Rightarrow> ops_ok ops m)"

lemma reaped_kept: "reaped_upto exited v (used v) w \<Longrightarrow> kept w \<subseteq> kept v"
proof
  fix r assume up: "reaped_upto exited v (used v) w" and "r \<in> kept w"
  then obtain i where "i \<in> live_at w" "r \<in> owned (entry w i)" by (auto simp: kept_def)
  with up have "i \<in> live_at v" "r \<in> owned (entry v i)" by (auto simp: reaped_upto_def)
  then show "r \<in> kept v" by (auto simp: kept_def)
qed

lemma reap_ok:
  assumes ok: "mgr_ok R E m" and c: "w_heap m a = Some c"
  shows "\<exists>c' calls s. reap_timer_cb exited c (w_os m) = Some (c', calls, s) \<and>
    mgr_ok R E (m\<lparr>w_heap := (w_heap m)(a \<mapsto> c'), w_os := s\<rparr>)"
proof -
  from ok have apps: "apps_ok m" and mem: "mem_ok R E (w_heap m) (w_reg m) (w_os m)"
    and fol: "\<And>a c. w_heap m a = Some c \<Longrightarrow> follows m c"
    and pids: "\<And>app. app \<in> set (m_apps m) \<Longrightarrow> Child (ra_pid app) \<notin> R \<union> all_kept (w_heap m) \<and>
      (bwrapExited app \<longleftrightarrow> Child (ra_pid app) \<notin> resources (w_os m))" by (auto simp: mgr_ok_mem)
  have sys: "system_ok (w_heap m) (w_os m)" using mem by (simp add: mem_ok_def)
  let ?B = "resources (w_os m) - kept (dbus_proxies c)"
  obtain v t where r: "dlp_reap_dbus_proxies exited (Some c) (w_os m) = Some (Some (c\<lparr>dbus_proxies := v\<rparr>), t)"
    and acc: "accounts ?B v t" and up: "reaped_upto exited (dbus_proxies c) (used (dbus_proxies c)) v"
    using reap_accounts [OF system_okD(1) [OF sys c], of exited] by blast
  let ?c = "c\<lparr>dbus_proxies := v\<rparr>" let ?h = "(w_heap m)(a \<mapsto> ?c)"
  have sub: "kept v \<subseteq> kept (dbus_proxies c)" using reaped_kept [OF up] .
  have kc: "kept (dbus_proxies c) \<subseteq> all_kept (w_heap m)" using c by (auto simp: all_kept_def)
  note t = accounts_kept [OF acc]
  have "system_ok ?h t"
    by (rule system_ok_step [OF sys, where B = ?B and K = "kept (dbus_proxies c)" and R = "{}"])
      (use acc accounts_kept(1) [OF system_okD(1) [OF sys c]] system_okD(2) [OF sys _ c] in auto)
  have del: "all_kept ((w_heap m)(a := None)) = all_kept (w_heap m) - kept (dbus_proxies c)"
    by (rule all_kept_delete [OF sys c])
  have ak: "all_kept ?h = (all_kept (w_heap m) - kept (dbus_proxies c)) \<union> kept v"
    using all_kept_insert [of "(w_heap m)(a := None)" a ?c] del by simp
  have "mem_ok R E ?h (w_reg m) t"
  proof -
    have "a \<in> dom (w_heap m)" using c by blast
    then have "set (vec_elems (w_reg m)) \<subseteq> dom ?h" using mem by (auto simp: mem_ok_def)
    moreover have "R \<subseteq> ?B" using mem kc by (auto simp: mem_ok_def)
    moreover have "resources t \<subseteq> R \<union> E \<union> all_kept ?h" using t(1) ak mem by (auto simp: mem_ok_def)
    ultimately show ?thesis using mem \<open>system_ok ?h t\<close> t ak by (auto simp: mem_ok_def)
  qed
  moreover have "apps_ok (m\<lparr>w_heap := ?h, w_os := t\<rparr>)"
    using apps c by (auto simp: apps_ok_def insert_absorb)
  moreover have "Child (ra_pid app) \<notin> R \<union> all_kept ?h \<and> (bwrapExited app \<longleftrightarrow> Child (ra_pid app) \<notin> resources t)"
    if app: "app \<in> set (m_apps m)" for app
    using pids [OF app] kc sub t(1) ak by auto
  moreover have "follows (m\<lparr>w_heap := ?h, w_os := t\<rparr>) d" if "?h b = Some d" for b d
    using that fol [OF c] fol [of b d] by (auto simp: follows_def split: if_splits)
  ultimately have "mgr_ok R E (m\<lparr>w_heap := ?h, w_os := t\<rparr>)" by (auto simp: mgr_ok_mem)
  with r show ?thesis by (simp add: reap_timer_cb_def)
qed

lemma op_step_ok:
  assumes ok: "mgr_ok R E m" and op: "op_ok op m"
  shows "\<exists>m' out. op_step op m = Some (m', out) \<and> mgr_ok R (op_left op \<union> E) m' \<and> signals_ok m m' out \<and>
    strays out = op_strays op m"
proof (cases op)
  case (Launch_app e rq)
  with launchApp_ok [OF ok, of e rq] launchApp_quiet [of e rq m] op show ?thesis by fastforce
next
  case (Stop_app e pid)
  with stopApp_ok [OF ok, of e pid] show ?thesis by auto
next
  case (Stop_all e)
  with stopAll_ok [OF ok, of e] op show ?thesis by auto
next
  case (Update_policy pol)
  with updatePolicy_ok [OF ok, of pol] show ?thesis by (auto intro!: signals_ok_quiet)
next
  case (Set_identity identity)
  with setWatermarkIdentity_ok [OF ok, of identity] show ?thesis by (auto intro!: signals_ok_quiet)
next
  case (Set_log_level level)
  have "mgr_ok R E (setLogLevel level m)"
    by (rule mgr_ok_heap [OF ok, of "w_heap m"])
      (use ok in \<open>auto simp: heap_like_def setLogLevel_def mgr_ok_def comps_ok_def follows_def\<close>)
  with Set_log_level show ?thesis by (auto simp: setLogLevel_def intro!: signals_ok_quiet)
next
  case (Check_children e)
  with checkChildProcesses_ok [OF ok, of e] show ?thesis by auto
next
  case (Dispatch cfg a ev)
  with op obtain c where c: "w_heap m a = Some c" "announced cfg ev c" by auto
  have "wm_wf (watermark c)" using ok c(1) by (auto simp: mgr_ok_def comps_ok_def follows_def)
  with event_defined [OF c(2)] c(1) obtain c' calls where
    c: "w_heap m a = Some c" "handle_event cfg ev c = Some (c', calls)" by auto
  from update_one_ok [OF ok c(1) keeps_event [OF c(2)]] c Dispatch show ?thesis
    by (auto intro!: signals_ok_quiet)
next
  case (Reap_timer exited a)
  with op obtain c where c: "w_heap m a = Some c" by auto
  from reap_ok [OF ok c, of exited] c Reap_timer show ?thesis by (auto intro!: signals_ok_quiet)
qed

lemma mgr_run_ok:
  assumes "mgr_ok R E m" and "ops_ok ops m"
  shows "\<exists>m' out. mgr_run ops m = Some (m', out) \<and> mgr_ok R ((\<Union>op \<in> set ops. op_left op) \<union> E) m'"
proof -
  let ?L = "(\<Union>op \<in> set ops. op_left op) \<union> E"
  let ?I = "\<lambda>ops m. ops_ok ops m \<and> (\<exists>F. mgr_ok R F m \<and> (\<Union>op \<in> set ops. op_left op) \<union> F = ?L)"
  have "\<exists>m1 o1. op_step op m = Some (m1, o1) \<and> ?I ops m1" if I: "?I (op # ops) m" for op ops m
  proof -
    from I obtain F where F: "mgr_ok R F m" "(\<Union>op \<in> set (op # ops). op_left op) \<union> F = ?L" by blast
    from I have "op_ok op m" by simp
    from op_step_ok [OF F(1) this] obtain m1 o1 where "op_step op m = Some (m1, o1)" "mgr_ok R (op_left op \<union> F) m1" by blast
    moreover have "(\<Union>op \<in> set ops. op_left op) \<union> (op_left op \<union> F) = ?L" using F(2) by auto
    ultimately show ?thesis using I by auto
  qed
  moreover have "?I ops m" using assms by blast
  ultimately have "\<exists>m' out. mgr_run ops m = Some (m', out) \<and> ?I [] m'" by (intro manager.total [where I = ?I])
  then show ?thesis by auto
qed

text \<open>From the start.\<close>

definition initial :: "os \<Rightarrow> managed" where
  "initial s = new_manager empty_vec Map.empty s"

lemma run_from_start:
  assumes "ops_ok ops (initial s)"
  obtains m out where "mgr_run ops (initial s) = Some (m, out)" "mgr_ok (resources s) (\<Union>op \<in> set ops. op_left op) m"
  using mgr_run_ok [OF mgr_ok_new [of s] assms [unfolded initial_def]] by (auto simp: initial_def)

lemma reached:
  assumes "ops_ok ops (initial s)" and "mgr_run ops (initial s) = Some (m, out)"
  shows "mgr_ok (resources s) (\<Union>op \<in> set ops. op_left op) m"
  using run_from_start [OF assms(1)] assms(2) by (metis option.inject prod.inject)

section \<open>Properties\<close>

lemma ops_ok_append: "ops_ok (before @ op # after) m \<Longrightarrow> mgr_run before m = Some (m1, o1) \<Longrightarrow> ops_ok before m \<and> op_ok op m1"
  by (induction before arbitrary: m o1) (auto simp: bind_eq_Some_conv split: option.splits)



text \<open>C34. The periodic check removes exactly the applications whose process has exited, now or
  earlier, and whose compositor has no client left; the others stay in their order and remember
  that their process has exited.\<close>

theorem exited_apps_removed:
  assumes "ops_ok ops (initial s)" and "mgr_run ops (initial s) = Some (m, out)"
  shows "\<exists>m' out'. checkChildProcesses e m = Some (m', out') \<and>
    m_apps m' = filter (\<lambda>app. \<not> (bwrapExited app \<and> clients_of (w_heap m) app = 0))
      (map (\<lambda>app. app\<lparr>bwrapExited := bwrapExited app \<or> me_exited e (ra_pid app)\<rparr>) (m_apps m)) \<and>
    m_runningAppModel m' = map entry_of (m_apps m')"
proof -
  have "stays (w_heap m) = (\<lambda>app. \<not> (bwrapExited app \<and> clients_of (w_heap m) app = 0))"
    "seen (me_exited e) = (\<lambda>app. app\<lparr>bwrapExited := bwrapExited app \<or> me_exited e (ra_pid app)\<rparr>)"
    by (simp_all add: fun_eq_iff stays_def seen_def)
  with checkChildProcesses_ok [OF reached [OF assms], of e] show ?thesis
    by (auto simp: mgr_ok_def apps_ok_def)
qed

text \<open>The signals of every operation: a view that follows them has the rows the model
  has; the signal of the running property is sent once when the property changes and not
  otherwise; that of the number of applications exactly when the number changes.\<close>

lemma manager_signals:
  assumes "ops_ok ops (initial s)" and "mgr_run ops (initial s) = Some (m, out)"
    and "op_ok op m" and "op_step op m = Some (m', out')"
  shows "view_led (rows_in out') (m_runningAppModel m) (m_runningAppModel m') \<and>
    times_in RunningChanged out' = (if isRunning m = isRunning m' then 0 else 1) \<and>
    (0 < times_in AppCountChanged out') = (launchedAppCount m \<noteq> launchedAppCount m')"
  using op_step_ok [OF reached [OF assms(1,2)] assms(3)] assms(4) by (auto simp: signals_ok_def)

text \<open>A request to stop sends its signal astray exactly if the process has been waited for, which is the case for an
  application that is still listed because its compositor has clients.\<close>

lemma stop_after_wait:
  assumes "ops_ok ops (initial s)" and "mgr_run ops (initial s) = Some (m, out)"
  shows "(\<exists>m' out'. stopApp e pid m = Some (m', out') \<and>
      (Stray_kill pid \<in> set out') = (\<exists>app \<in> set (m_apps m). ra_pid app = pid \<and> bwrapExited app))"
  using stopApp_ok [OF reached [OF assms], of e pid] by (fastforce simp: strays_def waited_for_def)

section \<open>An example\<close>

definition demo_mgr :: mgr_env where
  "demo_mgr =
     \<lparr>me_build = demo_build, me_getenv = [''WAYLAND_DISPLAY'' \<mapsto> ''wayland-0''], me_create = demo_create,
      me_view = demo_view, me_strdup = True, me_fd = 9, me_launch = demo_launch, me_log_cb = 200, me_this = 201,
      me_exited = (\<lambda>_. True)\<rparr>"

definition demo_request :: launch_request where
  "demo_request =
     \<lparr>rq_command = ''code'', rq_appName = [], rq_workspacePath = ''/work'', rq_isolatePid = True,
      rq_isolateIpc = True, rq_isolateNetwork = False, rq_isolateFilesystem = True, rq_bindHomeRw = False,
      rq_extraBindPaths = [''/data''], rq_filterDbus = True, rq_dbusAllowedNames = [''org.x'']\<rparr>"

definition demo_ops :: "mgr_op list" where
  "demo_ops = [Set_log_level ''info'', Set_identity ''alice'', Launch_app demo_mgr demo_request]"

definition demo_before :: managed where
  "demo_before = (initial demo_os)\<lparr>m_logLevel := CODER_DLP_LOG_INFO, m_watermarkIdentity := ''alice''\<rparr>"

lemma demo_allowed: "launch_allowed demo_mgr demo_before"
proof -
  have "globals_made demo_create" by (simp add: globals_made_def demo_create_def)
  moreover have "launch_fresh demo_launch demo_os" by (rule demo_launch_fresh)
  ultimately show ?thesis
    by (simp add: launch_allowed_def demo_before_def demo_mgr_def initial_def new_manager_def)
qed

lemma demo_before_steps:
  "op_step (Set_log_level ''info'') (initial demo_os) = Some ((initial demo_os)\<lparr>m_logLevel := CODER_DLP_LOG_INFO\<rparr>, [])"
  "op_step (Set_identity ''alice'') ((initial demo_os)\<lparr>m_logLevel := CODER_DLP_LOG_INFO\<rparr>) = Some (demo_before, [])"
  by (simp_all add: setLogLevel_def setWatermarkIdentity_def demo_before_def initial_def new_manager_def)

lemma demo_ops_ok: "ops_ok demo_ops (initial demo_os)"
  using demo_allowed by (simp add: demo_ops_def demo_before_steps del: op_step.simps split: option.split prod.split)

lemma demo_ops_run:
  obtains m out where "mgr_run demo_ops (initial demo_os) = Some (m, out)"
  using run_from_start [OF demo_ops_ok] .



theorem exited_apps_removed_witness:
  "\<exists>m out m' out'. mgr_run demo_ops (initial demo_os) = Some (m, out) \<and>
    checkChildProcesses demo_mgr m = Some (m', out') \<and> m_runningAppModel m' = map entry_of (m_apps m')"
proof -
  obtain m out where r: "mgr_run demo_ops (initial demo_os) = Some (m, out)" by (rule demo_ops_run)
  from exited_apps_removed [OF demo_ops_ok r, of demo_mgr] r show ?thesis by blast
qed

end
