(* ===== verification/File_Sync.thy ===== *)
theory File_Sync
  imports Machine Models
begin

text \<open>
  File synchronisation (\<^verbatim>\<open>src/app/src/filesync\<close>): the sessions, the daemon process and the
  manager that runs \<^verbatim>\<open>mutagen\<close> commands and lists its sessions for the views. A command runs
  beside the application; that it finishes, or fails to start, is an event. Log output is left out.
\<close>

section \<open>Sessions\<close>

datatype FileSyncStatus =
  FS_Unknown | FS_ConnectingAlpha | FS_ConnectingBeta | FS_Scanning | FS_Reconciling | FS_StagingAlpha
| FS_StagingBeta | FS_Transitioning | FS_Saving | FS_Watching | FS_Disconnected | FS_HaltedOnRootEmptied
| FS_HaltedOnRootDeletion | FS_HaltedOnRootTypeChange | FS_WaitingForRescan | FS_Paused

fun fs_int :: "FileSyncStatus \<Rightarrow> int" where
  "fs_int FS_Unknown = 0" | "fs_int FS_ConnectingAlpha = 1" | "fs_int FS_ConnectingBeta = 2"
| "fs_int FS_Scanning = 3" | "fs_int FS_Reconciling = 4" | "fs_int FS_StagingAlpha = 5"
| "fs_int FS_StagingBeta = 6" | "fs_int FS_Transitioning = 7" | "fs_int FS_Saving = 8"
| "fs_int FS_Watching = 9" | "fs_int FS_Disconnected = 10" | "fs_int FS_HaltedOnRootEmptied = 11"
| "fs_int FS_HaltedOnRootDeletion = 12" | "fs_int FS_HaltedOnRootTypeChange = 13"
| "fs_int FS_WaitingForRescan = 14" | "fs_int FS_Paused = 15"

datatype FileSyncMode = TwoWay | OneWayLocalToRemote | OneWayRemoteToLocal

fun mode_int :: "FileSyncMode \<Rightarrow> int" where
  "mode_int TwoWay = 0" | "mode_int OneWayLocalToRemote = 1" | "mode_int OneWayRemoteToLocal = 2"

record FileSyncSession =
  sessionId :: string
  localPath :: string
  workspace :: string
  remotePath :: string
  status :: FileSyncStatus
  mode :: FileSyncMode
  sizeBytes :: int
  conflictCount :: int
  paused :: bool
  lastError :: string

text \<open>The ellipsis in UTF-8.\<close>

definition ellipsis :: string where
  "ellipsis = [CHR 0xE2, CHR 0x80, CHR 0xA6]"

fun statusString :: "FileSyncStatus \<Rightarrow> string" where
  "statusString FS_Unknown = ''Unknown''"
| "statusString FS_ConnectingAlpha = ''Connecting (local)'' @ ellipsis"
| "statusString FS_ConnectingBeta = ''Connecting (remote)'' @ ellipsis"
| "statusString FS_Scanning = ''Scanning'' @ ellipsis"
| "statusString FS_Reconciling = ''Reconciling'' @ ellipsis"
| "statusString FS_StagingAlpha = ''Staging (local)'' @ ellipsis"
| "statusString FS_StagingBeta = ''Staging (remote)'' @ ellipsis"
| "statusString FS_Transitioning = ''Applying changes'' @ ellipsis"
| "statusString FS_Saving = ''Saving'' @ ellipsis"
| "statusString FS_Watching = ''Synced''"
| "statusString FS_Disconnected = ''Disconnected''"
| "statusString FS_HaltedOnRootEmptied = ''Halted: root emptied''"
| "statusString FS_HaltedOnRootDeletion = ''Halted: root deleted''"
| "statusString FS_HaltedOnRootTypeChange = ''Halted: root type changed''"
| "statusString FS_WaitingForRescan = ''Waiting for rescan'' @ ellipsis"
| "statusString FS_Paused = ''Paused''"

fun statusCategory :: "FileSyncStatus \<Rightarrow> string" where
  "statusCategory FS_Watching = ''ok''"
| "statusCategory FS_ConnectingAlpha = ''working''"
| "statusCategory FS_ConnectingBeta = ''working''"
| "statusCategory FS_Scanning = ''working''"
| "statusCategory FS_Reconciling = ''working''"
| "statusCategory FS_StagingAlpha = ''working''"
| "statusCategory FS_StagingBeta = ''working''"
| "statusCategory FS_Transitioning = ''working''"
| "statusCategory FS_Saving = ''working''"
| "statusCategory FS_Disconnected = ''error''"
| "statusCategory FS_HaltedOnRootEmptied = ''error''"
| "statusCategory FS_HaltedOnRootDeletion = ''error''"
| "statusCategory FS_HaltedOnRootTypeChange = ''error''"
| "statusCategory FS_WaitingForRescan = ''error''"
| "statusCategory FS_Paused = ''paused''"
| "statusCategory FS_Unknown = ''error''"

text \<open>The table of \<^verbatim>\<open>parseStatus\<close>, in its order; the first entry with the name counts.\<close>

definition status_map :: "(string \<times> FileSyncStatus) list" where
  "status_map =
     [(''connectingAlpha'', FS_ConnectingAlpha), (''connectingBeta'', FS_ConnectingBeta),
      (''scanning'', FS_Scanning), (''reconciling'', FS_Reconciling), (''stagingAlpha'', FS_StagingAlpha),
      (''stagingBeta'', FS_StagingBeta), (''transitioning'', FS_Transitioning), (''saving'', FS_Saving),
      (''watching'', FS_Watching), (''disconnected'', FS_Disconnected),
      (''haltedOnRootEmptied'', FS_HaltedOnRootEmptied), (''haltedOnRootDeletion'', FS_HaltedOnRootDeletion),
      (''haltedOnRootTypeChange'', FS_HaltedOnRootTypeChange), (''waitingForRescan'', FS_WaitingForRescan),
      (''paused'', FS_Paused)]"

definition parseStatus :: "string \<Rightarrow> FileSyncStatus" where
  "parseStatus statusStr = (case map_of status_map statusStr of Some v \<Rightarrow> v | None \<Rightarrow> FS_Unknown)"

section \<open>The daemon\<close>

text \<open>The process object, if there is one, and whether the process runs.\<close>

record MutagenDaemon =
  process :: "bool option"
  dataDir :: string
  binaryPath :: string
  intentionalStop :: bool

text \<open>How a process ends; a crash comes with Qt's description of it.\<close>

datatype proc_exit = Exited int | Crashed int string

datatype daemon_effect =
  Daemon_command "(string \<times> string) list" "string list" | Make_path string | Kill_daemon
| DaemonRunningChanged | DaemonError string

definition daemon_isRunning :: "MutagenDaemon \<Rightarrow> bool" where
  "daemon_isRunning d \<longleftrightarrow> process d = Some True"

definition socketPath :: "MutagenDaemon \<Rightarrow> string" where
  "socketPath d = dataDir d @ ''/daemon/daemon.sock''"

text \<open>
  The search for the program; \<open>exists_file\<close>, \<open>canonical\<close> and \<open>in_path\<close> are Qt's questions to the
  file system.
\<close>

definition findMutagenBinary :: "string \<Rightarrow> (string \<Rightarrow> bool) \<Rightarrow> (string \<Rightarrow> string) \<Rightarrow> (string \<Rightarrow> string) \<Rightarrow> string" where
  "findMutagenBinary appDir exists_file canonical in_path =
     (let sameDir = appDir @ ''/'' @ ''mutagen'';
          libDir = appDir @ ''/../lib/coder-desktop/'' @ ''mutagen'' in
      if exists_file sameDir then canonical sameDir
      else if exists_file libDir then canonical libDir
      else in_path ''mutagen'')"

definition new_MutagenDaemon :: "string \<Rightarrow> string \<Rightarrow> MutagenDaemon" where
  "new_MutagenDaemon dataRoot binary =
     \<lparr>process = None, dataDir = dataRoot @ ''/coder-desktop/mutagen'', binaryPath = binary, intentionalStop = False\<rparr>"

text \<open>A command is given with what is added to the environment.\<close>

definition data_env :: "MutagenDaemon \<Rightarrow> (string \<times> string) list" where
  "data_env d = [(''MUTAGEN_DATA_DIRECTORY'', dataDir d)]"

definition cleanupOrphan :: "MutagenDaemon \<Rightarrow> daemon_effect list" where
  "cleanupOrphan d = (if binaryPath d = [] then [] else [Daemon_command (data_env d) [binaryPath d, ''daemon'', ''stop'']])"

definition onProcessError :: "string \<Rightarrow> MutagenDaemon \<Rightarrow> daemon_effect list" where
  "onProcessError errorString d =
     (if process d \<noteq> None then [DaemonError (''Mutagen daemon error: '' @ errorString)] else [])"

definition onProcessFinished :: "proc_exit \<Rightarrow> MutagenDaemon \<Rightarrow> daemon_effect list" where
  "onProcessFinished x d =
     DaemonRunningChanged #
     (if \<not> intentionalStop d
      then [DaemonError (case x of
              Crashed code _ \<Rightarrow> ''Mutagen daemon crashed (exit code '' @ number code @ '')''
            | Exited code \<Rightarrow> ''Mutagen daemon exited unexpectedly (exit code '' @ number code @ '')'')]
      else [])"

text \<open>The process has ended: a crash is reported first, then the end, when it does not run any more.\<close>

definition daemon_exits :: "proc_exit \<Rightarrow> MutagenDaemon \<Rightarrow> MutagenDaemon \<times> daemon_effect list" where
  "daemon_exits x d =
     (if daemon_isRunning d
      then let d = d\<lparr>process := Some False\<rparr> in
           (d, (case x of Crashed code err \<Rightarrow> onProcessError err d | Exited code \<Rightarrow> []) @ onProcessFinished x d)
      else (d, []))"

text \<open>
  How \<^verbatim>\<open>waitForStarted\<close> ends; only a failure (not the time limit) is a signal of the process.
  Qt ends a process that has not started in time when its object is destroyed.
\<close>

datatype start_result = Started | Failed_to_start string | Not_in_time string

definition daemon_start :: "start_result \<Rightarrow> MutagenDaemon \<Rightarrow> bool \<times> MutagenDaemon \<times> daemon_effect list" where
  "daemon_start result d =
     (if daemon_isRunning d then (True, d, [])
      else if binaryPath d = [] then (False, d, [DaemonError ''mutagen binary not found''])
      else
        let out = Make_path (dataDir d) # cleanupOrphan d @
              [Daemon_command (data_env d @ [(''MUTAGEN_SSH_CONFIG_PATH'', ''none'')]) [binaryPath d, ''daemon'', ''run'']];
            d = d\<lparr>intentionalStop := False, process := Some True\<rparr> in
        case result of
          Started \<Rightarrow> (True, d, out @ [DaemonRunningChanged])
        | Failed_to_start err \<Rightarrow>
            (False, d\<lparr>process := None\<rparr>,
             out @ onProcessError err d @ [DaemonError (''Failed to start mutagen daemon: '' @ err)])
        | Not_in_time err \<Rightarrow>
            (False, d\<lparr>process := None\<rparr>, out @ [DaemonError (''Failed to start mutagen daemon: '' @ err)]))"

text \<open>
  Stopping: whether the stop command finished in time, how the daemon then ended, and how it ended
  when it was killed; \<^term>\<open>None\<close> is that it did not in the time given.
\<close>

definition daemon_stop ::
    "bool \<Rightarrow> proc_exit option \<Rightarrow> proc_exit option \<Rightarrow> MutagenDaemon \<Rightarrow> MutagenDaemon \<times> daemon_effect list" where
  "daemon_stop stop_done graceful killed d =
     (if \<not> daemon_isRunning d then (d, [])
      else
        let d = d\<lparr>intentionalStop := True\<rparr>;
            ends = (\<lambda>x out d. case x of
                      None \<Rightarrow> (d, out)
                    | Some x \<Rightarrow> (case daemon_exits x d of (d, out') \<Rightarrow> (d, out @ out'))) in
        if binaryPath d \<noteq> []
        then (let out = [Daemon_command (data_env d) [binaryPath d, ''daemon'', ''stop'']] in
              if stop_done \<and> graceful \<noteq> None then ends graceful out d
              else ends killed (out @ [Kill_daemon]) d)
        else ends killed [Kill_daemon] d)"

section \<open>The manager\<close>

text \<open>
  What a running command is for, that is, its callback. The commands that run are listed in the
  order they were started.
\<close>

datatype purpose = On_create | On_pause | On_resume | On_reset | On_terminate | On_list

datatype SessionRole =
  F_SessionIdRole | F_LocalPathRole | F_WorkspaceRole | F_RemotePathRole | F_StatusRole | F_StatusStringRole
| F_StatusCategoryRole | F_SizeBytesRole | F_ConflictCountRole | F_PausedRole | F_ModeRole | F_OtherRole int

record FileSyncManager =
  m_daemon :: MutagenDaemon
  pollTimer :: bool
  m_vpnConnected :: bool
  m_pollInFlight :: bool
  m_sessions :: "FileSyncSession list"
  commands :: "purpose list"

datatype sync_effect =
  AvailableChanged | PolicyChanged | SessionCountChanged | StatusSummaryChanged | SyncError string | ResetRows
| Command purpose "(string \<times> string) list" "string list" | Refresh_after int | Daemon "daemon_effect list"

type_synonym synced = "FileSyncManager \<times> sync_effect list"

text \<open>
  What the manager is answered: the two settings of the policy, Qt's JSON parser and its conversion
  of a JSON number to an integer, and how the daemon starts and stops.
\<close>

record sync_env =
  disableFileUpload :: bool
  disableFileDownload :: bool
  sync_doc :: "string \<Rightarrow> json"
  to_integer :: "json \<Rightarrow> int"
  se_start :: start_result
  se_stop_done :: bool
  se_graceful :: "proc_exit option"
  se_killed :: "proc_exit option"

definition new_FileSyncManager :: "MutagenDaemon \<Rightarrow> FileSyncManager" where
  "new_FileSyncManager d =
     \<lparr>m_daemon = d, pollTimer = False, m_vpnConnected = False, m_pollInFlight = False, m_sessions = [], commands = []\<rparr>"

definition sync_rowCount :: "bool \<Rightarrow> FileSyncManager \<Rightarrow> nat" where
  "sync_rowCount parent_valid m = (if parent_valid then 0 else length (m_sessions m))"

fun session_value :: "FileSyncSession \<Rightarrow> SessionRole \<Rightarrow> qvariant" where
  "session_value s F_SessionIdRole = QString (sessionId s)"
| "session_value s F_LocalPathRole = QString (localPath s)"
| "session_value s F_WorkspaceRole = QString (workspace s)"
| "session_value s F_RemotePathRole = QString (remotePath s)"
| "session_value s F_StatusRole = QInt (fs_int (status s))"
| "session_value s F_StatusStringRole = QString (statusString (status s))"
| "session_value s F_StatusCategoryRole = QString (statusCategory (status s))"
| "session_value s F_SizeBytesRole = QInt (sizeBytes s)"
| "session_value s F_ConflictCountRole = QInt (conflictCount s)"
| "session_value s F_PausedRole = QBool (paused s)"
| "session_value s F_ModeRole = QInt (mode_int (mode s))"
| "session_value s (F_OtherRole r) = QInvalid"

definition sync_data :: "FileSyncManager \<Rightarrow> row_index \<Rightarrow> SessionRole \<Rightarrow> qvariant" where
  "sync_data m idx role =
     (case row_at (m_sessions m) idx of None \<Rightarrow> QInvalid | Some s \<Rightarrow> session_value s role)"

definition sync_roleNames :: "(SessionRole \<times> string) list" where
  "sync_roleNames =
     [(F_SessionIdRole, ''sessionId''), (F_LocalPathRole, ''localPath''), (F_WorkspaceRole, ''workspace''),
      (F_RemotePathRole, ''remotePath''), (F_StatusRole, ''status''), (F_StatusStringRole, ''statusString''),
      (F_StatusCategoryRole, ''statusCategory''), (F_SizeBytesRole, ''sizeBytes''),
      (F_ConflictCountRole, ''conflictCount''), (F_PausedRole, ''paused''), (F_ModeRole, ''mode'')]"

section \<open>Policy and status\<close>

definition uploadAllowed :: "sync_env \<Rightarrow> bool" where
  "uploadAllowed e \<longleftrightarrow> \<not> disableFileUpload e"

definition downloadAllowed :: "sync_env \<Rightarrow> bool" where
  "downloadAllowed e \<longleftrightarrow> \<not> disableFileDownload e"

definition sync_isAvailable :: "sync_env \<Rightarrow> FileSyncManager \<Rightarrow> bool" where
  "sync_isAvailable e m \<longleftrightarrow> m_vpnConnected m \<and> (uploadAllowed e \<or> downloadAllowed e)"

definition sessionCount :: "FileSyncManager \<Rightarrow> nat" where
  "sessionCount m = length (m_sessions m)"

definition effectiveSyncMode :: "sync_env \<Rightarrow> FileSyncMode" where
  "effectiveSyncMode e =
     (let noUpload = disableFileUpload e; noDownload = disableFileDownload e in
      if noUpload \<and> \<not> noDownload then OneWayRemoteToLocal
      else if noDownload \<and> \<not> noUpload then OneWayLocalToRemote
      else TwoWay)"

text \<open>The loop over the sessions with its two flags \<open>(allSynced, anyError)\<close>.\<close>

fun summary_flags :: "FileSyncSession list \<Rightarrow> bool \<times> bool \<Rightarrow> bool \<times> bool" where
  "summary_flags [] flags = flags"
| "summary_flags (s # ss) (allSynced, anyError) =
     (let cat = statusCategory (status s) in
      summary_flags ss
        (if cat = ''error'' then (False, True)
         else if cat \<noteq> ''ok'' then (False, anyError)
         else (allSynced, anyError)))"

definition statusSummary :: "FileSyncManager \<Rightarrow> string" where
  "statusSummary m =
     (let count = sessionCount m in
      if count = 0 then ''No sync sessions''
      else
        let (allSynced, anyError) = summary_flags (m_sessions m) (True, False);
            noun = (if count = 1 then ''session'' else ''sessions'') in
        if anyError then decimal count @ '' '' @ noun @ '' (error)''
        else if allSynced then decimal count @ '' '' @ noun @ '' (synced)''
        else decimal count @ '' '' @ noun @ '' (syncing)'')"

section \<open>Commands\<close>

text \<open>
  A command of the manager; a missing program is reported and the callback is dropped.
  \<^verbatim>\<open>dataDirArgs\<close> is empty.
\<close>

definition dataDirArgs :: "string list" where
  "dataDirArgs = []"

definition runMutagenAsync :: "purpose \<Rightarrow> string list \<Rightarrow> FileSyncManager \<Rightarrow> synced" where
  "runMutagenAsync p args m =
     (let binary = binaryPath (m_daemon m) in
      if binary = [] then (m, [SyncError ''Mutagen binary not found''])
      else (m\<lparr>commands := commands m @ [p]\<rparr>, [Command p (data_env (m_daemon m)) (binary # args)]))"

text \<open>What the daemon does, and the signal of the manager each change of its running state is connected to.\<close>

definition from_daemon :: "daemon_effect list \<Rightarrow> sync_effect list" where
  "from_daemon eff = Daemon eff # map (\<lambda>_. AvailableChanged) (filter (\<lambda>x. x = DaemonRunningChanged) eff)"

text \<open>Starting the daemon if it does not run; the flag says whether it runs then.\<close>

definition ensure_daemon :: "sync_env \<Rightarrow> FileSyncManager \<Rightarrow> bool \<times> synced" where
  "ensure_daemon e m =
     (if daemon_isRunning (m_daemon m) then (True, m, [])
      else case daemon_start (se_start e) (m_daemon m) of
             (ok, d, eff) \<Rightarrow> (ok, m\<lparr>m_daemon := d\<rparr>, from_daemon eff))"

definition create_args :: "sync_env \<Rightarrow> string \<Rightarrow> string \<Rightarrow> string \<Rightarrow> string list" where
  "create_args e local ws remote =
     (let betaUrl = ws @ '':'' @ remote; m = effectiveSyncMode e in
      [''sync'', ''create'', local, betaUrl, ''--ignore-vcs''] @ dataDirArgs @
      (if m = OneWayRemoteToLocal \<or> m = OneWayLocalToRemote then [''--mode=one-way-replica''] else []))"

definition createSession :: "sync_env \<Rightarrow> string \<Rightarrow> string \<Rightarrow> string \<Rightarrow> FileSyncManager \<Rightarrow> synced" where
  "createSession e local ws remote m =
     (if \<not> uploadAllowed e \<and> \<not> downloadAllowed e
      then (m, [SyncError ''File sync is disabled by policy''])
      else case ensure_daemon e m of (ok, m, out) \<Rightarrow>
        if \<not> ok then (m, out @ [SyncError ''Failed to start Mutagen daemon''])
        else
          let m = (if \<not> pollTimer m then m\<lparr>pollTimer := True\<rparr> else m);
              (m, out') = runMutagenAsync On_create (create_args e local ws remote) m in
          (m, out @ out'))"

definition pauseSession :: "string \<Rightarrow> FileSyncManager \<Rightarrow> synced" where
  "pauseSession sid m = runMutagenAsync On_pause ([''sync'', ''pause'', sid] @ dataDirArgs) m"

definition resumeSession :: "string \<Rightarrow> FileSyncManager \<Rightarrow> synced" where
  "resumeSession sid m = runMutagenAsync On_resume ([''sync'', ''resume'', sid] @ dataDirArgs) m"

definition resetSession :: "string \<Rightarrow> FileSyncManager \<Rightarrow> synced" where
  "resetSession sid m = runMutagenAsync On_reset ([''sync'', ''reset'', sid] @ dataDirArgs) m"

definition terminateSession :: "string \<Rightarrow> FileSyncManager \<Rightarrow> synced" where
  "terminateSession sid m = runMutagenAsync On_terminate ([''sync'', ''terminate'', sid] @ dataDirArgs) m"

definition refreshSessions :: "FileSyncManager \<Rightarrow> synced" where
  "refreshSessions m =
     (if \<not> daemon_isRunning (m_daemon m) then (m, [])
      else if m_pollInFlight m then (m, [])
      else runMutagenAsync On_list ([''sync'', ''list'', ''--template'', ''{{json .}}''] @ dataDirArgs)
             (m\<lparr>m_pollInFlight := True\<rparr>))"

section \<open>Answers\<close>

definition session_of_json :: "sync_env \<Rightarrow> json \<Rightarrow> FileSyncSession" where
  "session_of_json e val =
     (let obj = toObject val;
          alpha = toObject (value_of obj ''alpha'');
          beta = toObject (value_of obj ''beta'');
          pause = toBool (value_of obj ''paused'') in
      \<lparr>sessionId = str obj ''identifier'', localPath = str alpha ''path'', workspace = str beta ''host'',
       remotePath = str beta ''path'',
       status = (if pause then FS_Paused else parseStatus (str obj ''status'')),
       mode = TwoWay, sizeBytes = to_integer e (value_of obj ''sizeBytes''),
       conflictCount = int (length (toArray (value_of obj ''conflicts''))),
       paused = pause, lastError = str obj ''lastError''\<rparr>)"

definition parseSessionList :: "sync_env \<Rightarrow> string \<Rightarrow> FileSyncSession list" where
  "parseSessionList e text =
     (case sync_doc e text of
        JArray sessions \<Rightarrow> map (session_of_json e) sessions
      | JObject obj \<Rightarrow> map (session_of_json e) (toArray (value_of obj ''sessions''))
      | _ \<Rightarrow> [])"

definition updateModel :: "FileSyncSession list \<Rightarrow> FileSyncManager \<Rightarrow> synced" where
  "updateModel newSessions m =
     (let oldCount = length (m_sessions m);
          newCount = length newSessions;
          oldSummary = statusSummary m;
          m = m\<lparr>m_sessions := newSessions\<rparr> in
      (m, [ResetRows] @ (if oldCount \<noteq> newCount then [SessionCountChanged] else []) @
          (if statusSummary m \<noteq> oldSummary then [StatusSummaryChanged] else [])))"

text \<open>The message of each command when it fails.\<close>

fun failure_text :: "purpose \<Rightarrow> string" where
  "failure_text On_create = ''Failed to create sync session (see logs)''"
| "failure_text On_pause = ''Failed to pause session''"
| "failure_text On_resume = ''Failed to resume session''"
| "failure_text On_reset = ''Failed to reset session''"
| "failure_text On_terminate = ''Failed to terminate session''"
| "failure_text On_list = []"

text \<open>The callbacks.\<close>

definition run_callback :: "sync_env \<Rightarrow> purpose \<Rightarrow> int \<Rightarrow> string \<Rightarrow> FileSyncManager \<Rightarrow> synced" where
  "run_callback e p exitCode output m =
     (if p = On_list
      then let m = m\<lparr>m_pollInFlight := False\<rparr> in
           if exitCode \<noteq> 0 then (m, []) else updateModel (parseSessionList e output) m
      else case refreshSessions m of
             (m, out) \<Rightarrow> (m, (if exitCode \<noteq> 0 then [SyncError (failure_text p)] else []) @ out))"

section \<open>Events\<close>

definition drop_command :: "nat \<Rightarrow> FileSyncManager \<Rightarrow> FileSyncManager" where
  "drop_command i m = m\<lparr>commands := take i (commands m) @ drop (Suc i) (commands m)\<rparr>"

definition command_finished :: "sync_env \<Rightarrow> nat \<Rightarrow> int \<Rightarrow> string \<Rightarrow> FileSyncManager \<Rightarrow> synced" where
  "command_finished e i exitCode output m =
     (if i < length (commands m) then run_callback e (commands m ! i) exitCode output (drop_command i m) else (m, []))"

definition command_failed_to_start :: "nat \<Rightarrow> string \<Rightarrow> FileSyncManager \<Rightarrow> synced" where
  "command_failed_to_start i errorString m =
     (if i < length (commands m)
      then (drop_command i m, [SyncError (''Failed to start mutagen: '' @ errorString)])
      else (m, []))"

definition setVpnConnected :: "sync_env \<Rightarrow> bool \<Rightarrow> FileSyncManager \<Rightarrow> synced" where
  "setVpnConnected e connected m =
     (if m_vpnConnected m = connected then (m, [])
      else
        let m = m\<lparr>m_vpnConnected := connected\<rparr> in
        if connected
        then (case ensure_daemon e m of (ok, m, out) \<Rightarrow>
          if \<not> ok then (m, AvailableChanged # out)
          else (if \<not> pollTimer m then m\<lparr>pollTimer := True\<rparr> else m, AvailableChanged # out @ [Refresh_after 500]))
        else
          let m = m\<lparr>pollTimer := False\<rparr> in
          if daemon_isRunning (m_daemon m)
          then (case daemon_stop (se_stop_done e) (se_graceful e) (se_killed e) (m_daemon m) of
                  (d, eff) \<Rightarrow> (m\<lparr>m_daemon := d\<rparr>, AvailableChanged # from_daemon eff))
          else (m, [AvailableChanged]))"

datatype sync_event =
  Create string string string | Pause string | Resume string | Reset_session string | Terminate string
| Vpn bool | Settings_changed | Poll_timeout | Late_refresh | Daemon_exited proc_exit
| Command_finished nat int string | Command_failed nat string

fun sync_step :: "sync_env \<times> sync_event \<Rightarrow> FileSyncManager \<Rightarrow> synced" where
  "sync_step (e, Create local ws remote) m = createSession e local ws remote m"
| "sync_step (e, Pause sid) m = pauseSession sid m"
| "sync_step (e, Resume sid) m = resumeSession sid m"
| "sync_step (e, Reset_session sid) m = resetSession sid m"
| "sync_step (e, Terminate sid) m = terminateSession sid m"
| "sync_step (e, Vpn connected) m = setVpnConnected e connected m"
| "sync_step (e, Settings_changed) m = (m, [PolicyChanged, AvailableChanged])"
| "sync_step (e, Poll_timeout) m = (if pollTimer m then refreshSessions m else (m, []))"
| "sync_step (e, Late_refresh) m = refreshSessions m"
| "sync_step (e, Daemon_exited x) m =
     (case daemon_exits x (m_daemon m) of (d, eff) \<Rightarrow> (m\<lparr>m_daemon := d\<rparr>, from_daemon eff))"
| "sync_step (e, Command_finished i exitCode output) m = command_finished e i exitCode output m"
| "sync_step (e, Command_failed i errorString) m = command_failed_to_start i errorString m"

fun sync_run :: "(sync_env \<times> sync_event) list \<Rightarrow> FileSyncManager \<Rightarrow> synced" where
  "sync_run [] m = (m, [])"
| "sync_run (ev # evs) m =
     (case sync_step ev m of (m, out) \<Rightarrow> case sync_run evs m of (m, out') \<Rightarrow> (m, out @ out'))"

interpretation syncs: machine sync_step sync_run
  by unfold_locales simp_all

section \<open>The poll in flight\<close>

text \<open>
  What an operation can do to the polls: it keeps the number of running \<^verbatim>\<open>sync list\<close> commands,
  with the flag, or it starts the one poll there can be.
\<close>

definition lists :: "FileSyncManager \<Rightarrow> nat" where
  "lists m = count_list (commands m) On_list"

definition list_started :: "sync_effect list \<Rightarrow> nat" where
  "list_started out = length (filter (\<lambda>x. case x of Command p env ws \<Rightarrow> p = On_list | _ \<Rightarrow> False) out)"

definition polls_ok :: "FileSyncManager \<Rightarrow> synced \<Rightarrow> bool" where
  "polls_ok m r \<longleftrightarrow>
     m_sessions (fst r) = m_sessions m \<and>
     (m_pollInFlight m \<longrightarrow> m_pollInFlight (fst r)) \<and>
     lists (fst r) = lists m + list_started (snd r) \<and>
     list_started (snd r) \<le> (if m_pollInFlight m then 0 else 1) \<and>
     (0 < list_started (snd r) \<longrightarrow> m_pollInFlight (fst r))"

lemma list_started_simps [simp]:
  "list_started [] = 0" "list_started (out @ out') = list_started out + list_started out'"
  "list_started (AvailableChanged # out) = list_started out" "list_started (PolicyChanged # out) = list_started out"
  "list_started (SyncError msg # out) = list_started out" "list_started (Refresh_after n # out) = list_started out"
  "list_started (Daemon eff # out) = list_started out" "list_started (ResetRows # out) = list_started out"
  "list_started (SessionCountChanged # out) = list_started out"
  "list_started (StatusSummaryChanged # out) = list_started out"
  "list_started (Command p env ws # out) = (if p = On_list then 1 else 0) + list_started out"
  by (simp_all add: list_started_def)

lemma lists_simps [simp]:
  "lists (m\<lparr>m_daemon := d\<rparr>) = lists m" "lists (m\<lparr>pollTimer := b\<rparr>) = lists m"
  "lists (m\<lparr>m_vpnConnected := b\<rparr>) = lists m" "lists (m\<lparr>m_pollInFlight := b\<rparr>) = lists m"
  "lists (m\<lparr>m_sessions := ss\<rparr>) = lists m"
  "lists (m\<lparr>commands := ps @ qs\<rparr>) = count_list ps On_list + count_list qs On_list"
  by (simp_all add: lists_def)

lemma list_started_daemon [simp]: "list_started (from_daemon eff) = 0"
  by (simp add: from_daemon_def list_started_def)

lemma run_polls:
  "runMutagenAsync p args m = (m', out) \<Longrightarrow>
     m_sessions m' = m_sessions m \<and> m_pollInFlight m' = m_pollInFlight m \<and> m_daemon m' = m_daemon m \<and>
     lists m' = lists m + list_started out \<and> list_started out \<le> (if p = On_list then 1 else 0)"
  by (auto simp: runMutagenAsync_def Let_def lists_def split: if_splits)

lemma polls_run: "p \<noteq> On_list \<Longrightarrow> polls_ok m (runMutagenAsync p args m)"
  using run_polls [of p args m] by (cases "runMutagenAsync p args m") (auto simp: polls_ok_def)

lemma polls_refresh: "polls_ok m (refreshSessions m)"
proof -
  obtain m' out where r: "runMutagenAsync On_list ([''sync'', ''list'', ''--template'', ''{{json .}}''] @ dataDirArgs)
      (m\<lparr>m_pollInFlight := True\<rparr>) = (m', out)" by fastforce
  from run_polls [OF this] r show ?thesis by (auto simp: polls_ok_def refreshSessions_def)
qed

lemma polls_daemon: "ensure_daemon e m = (ok, r) \<Longrightarrow> polls_ok m r"
  by (auto simp: ensure_daemon_def polls_ok_def split: if_splits prod.splits)

lemma polls_create: "polls_ok m (createSession e local ws remote m)"
proof (cases "ensure_daemon e m")
  case (fields ok m1 out)
  from polls_daemon [OF this] have 1: "polls_ok m (m1, out)" .
  obtain m' out' where r: "runMutagenAsync On_create (create_args e local ws remote) (m1\<lparr>pollTimer := True\<rparr>) = (m', out')"
    "runMutagenAsync On_create (create_args e local ws remote) (m1\<lparr>pollTimer := True\<rparr>) = (m', out')" by fastforce
  obtain m2 out2 where q: "runMutagenAsync On_create (create_args e local ws remote) m1 = (m2, out2)" by fastforce
  from run_polls [OF r(1)] run_polls [OF q] 1 fields r q show ?thesis
    by (auto simp: createSession_def polls_ok_def Let_def)
qed

lemma polls_vpn: "polls_ok m (setVpnConnected e b m)"
proof (cases "ensure_daemon e (m\<lparr>m_vpnConnected := True\<rparr>)")
  case (fields ok m1 out)
  from polls_daemon [OF this] fields show ?thesis
    by (auto simp: setVpnConnected_def polls_ok_def Let_def split: prod.split)
qed

text \<open>Every event but the end of a command.\<close>

lemma polls_step:
  assumes "\<And>i code output. ev \<noteq> Command_finished i code output" and "\<And>i err. ev \<noteq> Command_failed i err"
  shows "polls_ok m (sync_step (e, ev) m)"
proof (cases ev)
  case (Daemon_exited x)
  then show ?thesis by (auto simp: polls_ok_def split: prod.split)
next
  case Settings_changed
  then show ?thesis by (simp add: polls_ok_def)
next
  case Poll_timeout
  then show ?thesis using polls_refresh [of m] by (simp add: polls_ok_def)
qed (use assms in \<open>simp_all add: polls_create polls_vpn polls_refresh polls_run pauseSession_def resumeSession_def
    resetSession_def terminateSession_def\<close>)

text \<open>
  At most one poll runs, and only while the flag is set; and a daemon that runs has a program.
\<close>

definition sync_ok :: "FileSyncManager \<Rightarrow> bool" where
  "sync_ok m \<longleftrightarrow>
     lists m \<le> (if m_pollInFlight m then 1 else 0) \<and>
     (daemon_isRunning (m_daemon m) \<longrightarrow> binaryPath (m_daemon m) \<noteq> [])"

lemma lists_drop:
  assumes "i < length (commands m)"
  shows "lists m = lists (drop_command i m) + (if commands m ! i = On_list then 1 else 0)"
proof -
  have "lists m = count_list (take i (commands m) @ commands m ! i # drop (Suc i) (commands m)) On_list"
    using id_take_nth_drop [OF assms] by (simp add: lists_def)
  then show ?thesis by (simp add: drop_command_def)
qed

lemma drop_command_simps [simp]:
  "m_daemon (drop_command i m) = m_daemon m" "m_pollInFlight (drop_command i m) = m_pollInFlight m"
  "m_sessions (drop_command i m) = m_sessions m" "pollTimer (drop_command i m) = pollTimer m"
  by (simp_all add: drop_command_def)

lemma updateModel_simps [simp]:
  "m_pollInFlight (fst (updateModel ss m)) = m_pollInFlight m" "m_daemon (fst (updateModel ss m)) = m_daemon m"
  "m_sessions (fst (updateModel ss m)) = ss" "lists (fst (updateModel ss m)) = lists m"
  "pollTimer (fst (updateModel ss m)) = pollTimer m"
  by (simp_all add: updateModel_def Let_def)

definition daemon_ok :: "MutagenDaemon \<Rightarrow> bool" where
  "daemon_ok d \<longleftrightarrow> (daemon_isRunning d \<longrightarrow> binaryPath d \<noteq> [])"

lemma daemon_ok_exits: "daemon_ok d \<Longrightarrow> daemon_exits x d = (d', out) \<Longrightarrow> daemon_ok d'"
  by (auto simp: daemon_ok_def daemon_exits_def daemon_isRunning_def Let_def split: if_splits)

lemma daemon_ok_start: "daemon_ok d \<Longrightarrow> daemon_start r d = (ok, d', out) \<Longrightarrow> daemon_ok d'"
  by (auto simp: daemon_ok_def daemon_start_def daemon_isRunning_def Let_def split: start_result.splits if_splits)

lemma daemon_ok_stop:
  assumes "daemon_ok d" and "daemon_stop fin graceful killed d = (d', out)"
  shows "daemon_ok d'"
proof -
  have ok: "daemon_ok (d\<lparr>intentionalStop := True\<rparr>)"
    using assms(1) by (simp add: daemon_ok_def daemon_isRunning_def)
  have "d' = d \<or> d' = d\<lparr>intentionalStop := True\<rparr> \<or> (\<exists>x out. daemon_exits x (d\<lparr>intentionalStop := True\<rparr>) = (d', out))"
    using assms(2) by (auto simp: daemon_stop_def Let_def split: if_splits option.splits prod.splits)
  with ok assms(1) daemon_ok_exits [OF ok] show ?thesis by blast
qed

lemma daemon_ok_ensure: "daemon_ok (m_daemon m) \<Longrightarrow> ensure_daemon e m = (ok, m', out) \<Longrightarrow> daemon_ok (m_daemon m')"
  by (auto simp: ensure_daemon_def dest: daemon_ok_start split: if_splits prod.splits)

lemma run_daemon: "runMutagenAsync p args m = (m', out) \<Longrightarrow> m_daemon m' = m_daemon m"
  by (auto simp: runMutagenAsync_def Let_def split: if_splits)

lemma refresh_daemon: "refreshSessions m = (m', out) \<Longrightarrow> m_daemon m' = m_daemon m"
  by (auto simp: refreshSessions_def dest: run_daemon split: if_splits)

lemma run_callback_daemon: "run_callback e p code output m = (m', out) \<Longrightarrow> m_daemon m' = m_daemon m"
  by (auto simp: run_callback_def updateModel_def Let_def dest: refresh_daemon split: if_splits prod.splits)

lemma daemon_ok_create:
  assumes "daemon_ok (m_daemon m)" and "createSession e local ws remote m = (m', out)"
  shows "daemon_ok (m_daemon m')"
proof (cases "ensure_daemon e m")
  case (fields ok m1 out1)
  from daemon_ok_ensure [OF assms(1) this] assms fields run_daemon [of On_create _ "m1\<lparr>pollTimer := True\<rparr>" m']
    run_daemon [of On_create _ m1 m'] show ?thesis
    by (auto simp: createSession_def Let_def split: if_splits prod.splits)
qed

lemma daemon_ok_vpn:
  assumes "daemon_ok (m_daemon m)" and "setVpnConnected e b m = (m', out)"
  shows "daemon_ok (m_daemon m')"
proof (cases "ensure_daemon e (m\<lparr>m_vpnConnected := True\<rparr>)")
  case (fields ok m1 out1)
  have "daemon_ok (m_daemon m1)" using daemon_ok_ensure [OF _ fields] assms(1) by simp
  with assms fields daemon_ok_stop [OF assms(1)] show ?thesis
    by (auto simp: setVpnConnected_def Let_def split: if_splits prod.splits)
qed

lemma daemon_ok_step:
  assumes ok: "daemon_ok (m_daemon m)"
  shows "daemon_ok (m_daemon (fst (sync_step (e, ev) m)))"
proof -
  obtain m' out where s: "sync_step (e, ev) m = (m', out)" by fastforce
  have "daemon_ok (m_daemon m')"
  proof (cases ev)
    case (Command_finished i code ans)
    with s ok show ?thesis by (auto simp: command_finished_def dest: run_callback_daemon split: if_splits)
  next
    case (Command_failed i err)
    with s ok show ?thesis by (auto simp: command_failed_to_start_def split: if_splits)
  next
    case Poll_timeout
    with s ok show ?thesis by (auto dest: refresh_daemon split: if_splits)
  next
    case Late_refresh
    with s ok show ?thesis by (auto dest: refresh_daemon)
  next
    case (Daemon_exited x)
    with s ok show ?thesis by (auto dest: daemon_ok_exits split: prod.splits)
  next
    case (Create local ws remote)
    with s ok show ?thesis by (auto dest: daemon_ok_create)
  next
    case (Vpn b)
    with s ok show ?thesis by (auto dest: daemon_ok_vpn)
  qed (use s ok in \<open>auto simp: pauseSession_def resumeSession_def resetSession_def terminateSession_def dest: run_daemon\<close>)
  with s show ?thesis by simp
qed

lemma sync_ok_step:
  assumes ok: "sync_ok m"
  shows "sync_ok (fst (sync_step (e, ev) m))"
proof -
  have d: "daemon_ok (m_daemon (fst (sync_step (e, ev) m)))"
    using daemon_ok_step ok by (simp add: sync_ok_def daemon_ok_def)
  have l: "lists m \<le> (if m_pollInFlight m then 1 else 0)" using ok by (simp add: sync_ok_def)
  have "lists (fst (sync_step (e, ev) m)) \<le> (if m_pollInFlight (fst (sync_step (e, ev) m)) then 1 else 0)"
  proof (cases "(\<exists>i code ans. ev = Command_finished i code ans) \<or> (\<exists>i err. ev = Command_failed i err)")
    case False
    then have "polls_ok m (sync_step (e, ev) m)" by (intro polls_step) auto
    with l show ?thesis by (auto simp: polls_ok_def split: if_splits)
  next
    case True
    then show ?thesis
    proof (elim disjE exE)
      fix i err assume "ev = Command_failed i err"
      with l lists_drop [of i m] show ?thesis by (auto simp: command_failed_to_start_def split: if_splits)
    next
      fix i code ans assume ev: "ev = Command_finished i code ans"
      have "lists (fst (run_callback e (commands m ! i) code ans (drop_command i m)))
        \<le> (if m_pollInFlight (fst (run_callback e (commands m ! i) code ans (drop_command i m))) then 1 else 0)"
        if i: "i < length (commands m)"
      proof (cases "commands m ! i = On_list")
        case True
        with l lists_drop [OF i] show ?thesis by (auto simp: run_callback_def Let_def split: if_splits)
      next
        case False
        with l lists_drop [OF i] polls_refresh [of "drop_command i m"] show ?thesis
          by (auto simp: run_callback_def polls_ok_def split: prod.splits if_splits)
      qed
      with l ev show ?thesis by (auto simp: command_finished_def)
    qed
  qed
  with d show ?thesis by (simp add: sync_ok_def daemon_ok_def)
qed

lemma sync_ok_run: "sync_ok m \<Longrightarrow> sync_ok (fst (sync_run evs m))"
  by (erule syncs.preserved) (metis sync_ok_step prod.collapse)

lemma sync_ok_new: "sync_ok (new_FileSyncManager (new_MutagenDaemon root bin))"
  by (simp add: sync_ok_def lists_def new_FileSyncManager_def new_MutagenDaemon_def daemon_isRunning_def)

section \<open>Properties\<close>

text \<open>A poll that is lost: the flag is set, but no \<^verbatim>\<open>sync list\<close> command runs.\<close>

definition poll_lost :: "FileSyncManager \<Rightarrow> bool" where
  "poll_lost m \<longleftrightarrow> m_pollInFlight m \<and> lists m = 0"

lemma lists_nth: "i < length (commands m) \<Longrightarrow> lists m = 0 \<Longrightarrow> commands m ! i \<noteq> On_list"
  using lists_drop [of i m] by auto

lemma lost_poll_step:
  assumes "poll_lost m" and s: "sync_step ev m = (m', out)"
  shows "poll_lost m' \<and> m_sessions m' = m_sessions m \<and> list_started out = 0"
proof -
  obtain e v where ev: "ev = (e, v)" by (cases ev)
  have keep: ?thesis if "polls_ok m (m', out)" using that assms(1) by (auto simp: polls_ok_def poll_lost_def)
  show ?thesis
  proof (cases v)
    case (Command_failed i err)
    with assms ev lists_drop [of i m] show ?thesis
      by (auto simp: command_failed_to_start_def poll_lost_def split: if_splits)
  next
    case (Command_finished i code ans)
    show ?thesis
    proof (cases "i < length (commands m)")
      case True
      have "commands m ! i \<noteq> On_list" using lists_nth [OF True] assms(1) by (simp add: poll_lost_def)
      with s ev Command_finished True assms(1) polls_refresh [of "drop_command i m"] lists_drop [OF True]
      show ?thesis by (auto simp: command_finished_def run_callback_def polls_ok_def poll_lost_def split: prod.splits)
    qed (use s ev Command_finished assms(1) in \<open>simp add: command_finished_def\<close>)
  qed (use s ev polls_step [where ev = v and e = e and m = m] in \<open>intro keep; simp\<close>)+
qed

lemma list_started_calm: "list_started out = 0 \<longleftrightarrow> (\<forall>x \<in> set out. list_started [x] = 0)"
  by (auto simp: list_started_def filter_empty_conv)

lemma lost_poll_run:
  assumes "poll_lost m" and "sync_run evs m = (m', out)"
  shows "m_sessions m' = m_sessions m \<and> list_started out = 0"
proof -
  let ?I = "\<lambda>t. poll_lost t \<and> m_sessions t = m_sessions m"
  have "?I t1 \<and> (\<forall>x \<in> set o1. list_started [x] = 0)" if "?I t" "True" "sync_step ev t = (t1, o1)" for ev t t1 o1
    using that(1) lost_poll_step [OF _ that(3)] list_started_calm [of o1] by simp
  from syncs.state_invariant [where I = ?I and E = "\<lambda>_. True", OF _ assms(2) _ this] assms(1)
  show ?thesis using list_started_calm [of out] by simp
qed

lemma list_started_0: "list_started out = 0 \<longleftrightarrow> (\<forall>env ws. Command On_list env ws \<notin> set out)"
  by (force simp: list_started_def filter_empty_conv split: sync_effect.split)

lemma sync_reached:
  assumes "sync_run evs (new_FileSyncManager (new_MutagenDaemon root bin)) = (m, out)"
  shows "sync_ok m"
  using sync_ok_run [OF sync_ok_new, of evs root bin] assms by simp

text \<open>C27. One list command that cannot be started ends the polling: the flag that keeps polls from
  overlapping stays set, and whatever happens afterwards (further polls, commands, the VPN, the
  daemon) no session list is asked for any more and the sessions shown never change.\<close>

theorem failed_poll_is_final:
  assumes "sync_run evs (new_FileSyncManager (new_MutagenDaemon root bin)) = (m, out)"
    and "i < length (commands m)" and "commands m ! i = On_list"
    and "sync_step (e, Command_failed i err) m = (m1, out1)" and "sync_run evs' m1 = (m2, out2)"
  shows "m_sessions m2 = m_sessions m \<and> (\<forall>env ws. Command On_list env ws \<notin> set out2)"
proof -
  have "lists m = Suc (lists (drop_command i m))" using lists_drop [OF assms(2)] assms(3) by simp
  moreover have "lists m \<le> (if m_pollInFlight m then 1 else 0)" using sync_reached [OF assms(1)] by (simp add: sync_ok_def)
  ultimately have "poll_lost (drop_command i m)" by (simp add: poll_lost_def split: if_splits)
  moreover have "m1 = drop_command i m" using assms(2,4) by (simp add: command_failed_to_start_def)
  ultimately show ?thesis using lost_poll_run [OF _ assms(5)] by (simp add: list_started_0)
qed

text \<open>The polls: there is never more than one; when it ends, whatever its result, the next one
  can start (and does at the next tick of the timer while the daemon runs); a successful one shows
  exactly the sessions it reports, a failed one leaves them; and the signals of count and summary are
  sent exactly when these change.\<close>

lemma poll_shows_sessions:
  assumes "sync_run evs (new_FileSyncManager (new_MutagenDaemon root bin)) = (m, out)"
    and "i < length (commands m)" and "commands m ! i = On_list"
    and "sync_step (e, Command_finished i code ans) m = (m1, out1)"
  shows "count_list (commands m) On_list = 1 \<and> \<not> m_pollInFlight m1 \<and>
    m_sessions m1 = (if code = 0 then parseSessionList e ans else m_sessions m) \<and>
    (SessionCountChanged \<in> set out1) = (sessionCount m1 \<noteq> sessionCount m) \<and>
    (StatusSummaryChanged \<in> set out1) = (statusSummary m1 \<noteq> statusSummary m) \<and>
    (\<exists>env ws. Command On_list env ws \<in> set (snd (sync_step (e', Poll_timeout) m1))) =
      (pollTimer m \<and> daemon_isRunning (m_daemon m))"
proof -
  note ok = sync_reached [OF assms(1)]
  have 1: "count_list (commands m) On_list = 1"
    using ok lists_drop [OF assms(2)] assms(3) by (simp add: sync_ok_def lists_def split: if_splits)
  have same: "statusSummary n = statusSummary m" if "m_sessions n = m_sessions m" for n
    using that by (simp add: statusSummary_def sessionCount_def Let_def)
  let ?d = "(drop_command i m)\<lparr>m_pollInFlight := False\<rparr>"
  have step: "(m1, out1) = (if code \<noteq> 0 then (?d, []) else updateModel (parseSessionList e ans) ?d)"
    using assms(2-4) by (simp add: command_finished_def run_callback_def Let_def split: if_splits)
  then have m1: "m_daemon m1 = m_daemon m" "pollTimer m1 = pollTimer m" "\<not> m_pollInFlight m1"
    "m_sessions m1 = (if code = 0 then parseSessionList e ans else m_sessions m)"
    by (auto simp: updateModel_def Let_def split: if_splits)
  moreover have "(SessionCountChanged \<in> set out1) = (sessionCount m1 \<noteq> sessionCount m)"
    using step by (auto simp: updateModel_def sessionCount_def Let_def split: if_splits)
  moreover have "(StatusSummaryChanged \<in> set out1) = (statusSummary m1 \<noteq> statusSummary m)"
    using step same [of m1] same [of ?d] by (auto simp: updateModel_def Let_def split: if_splits)
  moreover have "(\<exists>env ws. Command On_list env ws \<in> set (snd (sync_step (e', Poll_timeout) m1))) =
      (pollTimer m \<and> daemon_isRunning (m_daemon m))"
    using ok m1 by (auto simp: refreshSessions_def runMutagenAsync_def sync_ok_def Let_def)
  ultimately show ?thesis using 1 by simp
qed

text \<open>
  The copies a command makes possible, by the documentation of \<^verbatim>\<open>mutagen sync create\<close>: both
  ways between its two endpoints, and with \<^verbatim>\<open>one-way-replica\<close> from the first to the second only.
\<close>

fun copies_of :: "sync_effect \<Rightarrow> (string \<times> string) set" where
  "copies_of (Command p env (prog # v # w # alpha # beta # opts)) =
     (if v = ''sync'' \<and> w = ''create''
      then if ''--mode=one-way-replica'' \<in> set opts then {(alpha, beta)} else {(alpha, beta), (beta, alpha)}
      else {})"
| "copies_of _ = {}"

definition copies :: "sync_effect list \<Rightarrow> (string \<times> string) set" where
  "copies out = (\<Union>x \<in> set out. copies_of x)"

text \<open>C21. The policy and the direction of a new synchronisation, with the daemon running: with both
  directions forbidden nothing is started. With one forbidden the session copies one way, but always
  from the local directory to the workspace: that is right when downloads are forbidden, and the
  very direction that is forbidden when uploads are.\<close>

theorem sync_policy:
  assumes "daemon_isRunning (m_daemon m)" and "binaryPath (m_daemon m) \<noteq> []"
  shows "copies (snd (createSession e local ws remote m)) =
    (if disableFileUpload e \<and> disableFileDownload e then {}
     else if disableFileUpload e \<or> disableFileDownload e then {(local, ws @ '':'' @ remote)}
     else {(local, ws @ '':'' @ remote), (ws @ '':'' @ remote, local)})"
  using assms
  by (simp add: createSession_def ensure_daemon_def runMutagenAsync_def create_args_def effectiveSyncMode_def
      uploadAllowed_def downloadAllowed_def dataDirArgs_def copies_def Let_def)

section \<open>Examples\<close>

definition demo_sync_env :: sync_env where
  "demo_sync_env =
     \<lparr>disableFileUpload = True, disableFileDownload = False,
      sync_doc = (\<lambda>s. if s = ''two'' then JArray [JObject [(''identifier'', JString ''a''), (''status'', JString ''watching'')]] else JNull),
      to_integer = (\<lambda>_. 0), se_start = Started, se_stop_done = True, se_graceful = Some (Exited 0), se_killed = None\<rparr>"

definition demo_sync_events :: "(sync_env \<times> sync_event) list" where
  "demo_sync_events = [(demo_sync_env, Vpn True), (demo_sync_env, Late_refresh)]"

definition demo_sync :: FileSyncManager where
  "demo_sync = fst (sync_run demo_sync_events (new_FileSyncManager (new_MutagenDaemon ''/home'' ''/bin/mutagen'')))"

lemma demo_sync_run:
  "\<exists>out. sync_run demo_sync_events (new_FileSyncManager (new_MutagenDaemon ''/home'' ''/bin/mutagen'')) = (demo_sync, out)"
  unfolding demo_sync_def by (metis prod.collapse)

lemma demo_sync_state:
  "commands demo_sync = [On_list]" "m_sessions demo_sync = []" "pollTimer demo_sync"
  "daemon_isRunning (m_daemon demo_sync)" "binaryPath (m_daemon demo_sync) = ''/bin/mutagen''"
  by (simp_all add: demo_sync_def demo_sync_events_def demo_sync_env_def new_FileSyncManager_def new_MutagenDaemon_def
      setVpnConnected_def ensure_daemon_def daemon_isRunning_def daemon_start_def cleanupOrphan_def from_daemon_def
      refreshSessions_def runMutagenAsync_def Let_def)

theorem failed_poll_is_final_witness:
  "\<exists>m2 out2. sync_run [(demo_sync_env, Poll_timeout)] (fst (sync_step (demo_sync_env, Command_failed 0 ''x'') demo_sync)) =
      (m2, out2) \<and> m_sessions m2 = [] \<and> (\<forall>env ws. Command On_list env ws \<notin> set out2)"
proof -
  obtain out where r: "sync_run demo_sync_events (new_FileSyncManager (new_MutagenDaemon ''/home'' ''/bin/mutagen'')) =
    (demo_sync, out)" using demo_sync_run by blast
  obtain m1 out1 where s: "sync_step (demo_sync_env, Command_failed 0 ''x'') demo_sync = (m1, out1)" by fastforce
  obtain m2 out2 where q: "sync_run [(demo_sync_env, Poll_timeout)] m1 = (m2, out2)" by fastforce
  from failed_poll_is_final [OF r _ _ s q] demo_sync_state(1,2) s q show ?thesis by simp
qed

theorem sync_policy_witness:
  "copies (snd (createSession demo_sync_env ''/doc'' ''dev'' ''/src'' demo_sync)) = {(''/doc'', ''dev:/src'')}"
  using sync_policy [of demo_sync demo_sync_env "''/doc''" "''dev''" "''/src''"] demo_sync_state
  by (simp add: demo_sync_env_def)

end
