(* ===== verification/File_Transfer.thy ===== *)
theory File_Transfer
  imports Machine Models
begin

text \<open>
  File transfer with \<^verbatim>\<open>scp\<close> (\<^verbatim>\<open>src/app/src/filesync/FileTransferManager.cpp\<close>): the list of
  transfers, each with its process, and what its output and its end do to it. Log output is left
  out; a byte array is a list of characters.
\<close>

section \<open>State\<close>

datatype FileTransferState = X_Queued | X_Running | X_Completed | X_Failed | X_Cancelled

fun xs_int :: "FileTransferState \<Rightarrow> int" where
  "xs_int X_Queued = 0" | "xs_int X_Running = 1" | "xs_int X_Completed = 2" | "xs_int X_Failed = 3"
| "xs_int X_Cancelled = 4"

record FileTransfer =
  ft_id :: int
  agentHostname :: string
  ft_localPath :: string
  ft_remotePath :: string
  isUpload :: bool
  bytesTransferred :: int
  bytesTotal :: int
  ft_state :: FileTransferState
  errorMessage :: string

text \<open>The process object of a transfer, if it has been made, and whether the process runs.\<close>

record RunningTransfer =
  info :: FileTransfer
  scp :: "bool option"
  stderrBuffer :: string

record FileTransferManager =
  m_nextId :: int
  m_transfers :: "RunningTransfer list"

datatype TransferRole =
  X_TransferIdRole | X_LocalPathRole | X_RemotePathRole | X_IsUploadRole | X_ProgressRole | X_StateRole
| X_ErrorMessageRole | X_AgentHostnameRole | X_OtherRole int

text \<open>The signals of model and manager and the commands, in order.\<close>

datatype transfer_effect =
  Row row_signal | Row_changed nat "TransferRole list"
| TransferStarted int | TransferProgress int int int | TransferCompleted int | TransferFailed int string
| TransferCancelled int | TransferCountChanged
| Scp int "string list" | Terminate_scp int | Kill_scp int | Remove_after int int

type_synonym transferred = "FileTransferManager \<times> transfer_effect list"

text \<open>
  What the manager is answered: the arithmetic of \<^verbatim>\<open>double\<close> (the quotient of two sizes, and the
  product of a number as text with a factor, as an integer), the size of a local file, and whether
  the process cannot even be forked.
\<close>

record transfer_env =
  quotient :: "int \<Rightarrow> int \<Rightarrow> double"
  scaled :: "string \<Rightarrow> int \<Rightarrow> int"
  file_size :: "string \<Rightarrow> int option"
  fork_fails :: bool

definition new_FileTransferManager :: FileTransferManager where
  "new_FileTransferManager = \<lparr>m_nextId = 1, m_transfers = []\<rparr>"

section \<open>The list for the views\<close>

definition progress :: "transfer_env \<Rightarrow> FileTransfer \<Rightarrow> double" where
  "progress e t = (if bytesTotal t > 0 then quotient e (bytesTransferred t) (bytesTotal t) else 0)"

definition transfer_rowCount :: "bool \<Rightarrow> FileTransferManager \<Rightarrow> nat" where
  "transfer_rowCount parent_valid m = (if parent_valid then 0 else length (m_transfers m))"

fun transfer_value :: "transfer_env \<Rightarrow> FileTransfer \<Rightarrow> TransferRole \<Rightarrow> qvariant" where
  "transfer_value e t X_TransferIdRole = QInt (ft_id t)"
| "transfer_value e t X_LocalPathRole = QString (ft_localPath t)"
| "transfer_value e t X_RemotePathRole = QString (ft_remotePath t)"
| "transfer_value e t X_IsUploadRole = QBool (isUpload t)"
| "transfer_value e t X_ProgressRole = QDouble (progress e t)"
| "transfer_value e t X_StateRole = QInt (xs_int (ft_state t))"
| "transfer_value e t X_ErrorMessageRole = QString (errorMessage t)"
| "transfer_value e t X_AgentHostnameRole = QString (agentHostname t)"
| "transfer_value e t (X_OtherRole r) = QInvalid"

definition transfer_data :: "transfer_env \<Rightarrow> FileTransferManager \<Rightarrow> row_index \<Rightarrow> TransferRole \<Rightarrow> qvariant" where
  "transfer_data e m idx role =
     (case row_at (m_transfers m) idx of None \<Rightarrow> QInvalid | Some t \<Rightarrow> transfer_value e (info t) role)"

definition transfer_roleNames :: "(TransferRole \<times> string) list" where
  "transfer_roleNames =
     [(X_TransferIdRole, ''transferId''), (X_LocalPathRole, ''localPath''), (X_RemotePathRole, ''remotePath''),
      (X_IsUploadRole, ''isUpload''), (X_ProgressRole, ''progress''), (X_StateRole, ''state''),
      (X_ErrorMessageRole, ''errorMessage''), (X_AgentHostnameRole, ''agentHostname'')]"

definition is_active :: "RunningTransfer \<Rightarrow> bool" where
  "is_active t \<longleftrightarrow> ft_state (info t) = X_Queued \<or> ft_state (info t) = X_Running"

definition activeTransferCount :: "FileTransferManager \<Rightarrow> nat" where
  "activeTransferCount m = length (filter is_active (m_transfers m))"

definition transfers :: "FileTransferManager \<Rightarrow> FileTransfer list" where
  "transfers m = map info (m_transfers m)"

definition emitActiveCountIfChanged :: "nat \<Rightarrow> FileTransferManager \<Rightarrow> transfer_effect list" where
  "emitActiveCountIfChanged previousCount m =
     (if activeTransferCount m \<noteq> previousCount then [TransferCountChanged] else [])"

text \<open>
  The row of a transfer. \<^verbatim>\<open>findTransfer\<close> is the same search, with the transfer as its result;
  the handlers change it where it is.
\<close>

fun row_from :: "int \<Rightarrow> nat \<Rightarrow> RunningTransfer list \<Rightarrow> nat option" where
  "row_from transferId i [] = None"
| "row_from transferId i (t # ts) =
     (if ft_id (info t) = transferId then Some i else row_from transferId (Suc i) ts)"

definition rowForTransfer :: "int \<Rightarrow> FileTransferManager \<Rightarrow> nat option" where
  "rowForTransfer transferId m = row_from transferId 0 (m_transfers m)"

definition set_transfer :: "nat \<Rightarrow> RunningTransfer \<Rightarrow> FileTransferManager \<Rightarrow> FileTransferManager" where
  "set_transfer row t m = m\<lparr>m_transfers := (m_transfers m)[row := t]\<rparr>"

definition set_state :: "FileTransferState \<Rightarrow> RunningTransfer \<Rightarrow> RunningTransfer" where
  "set_state s t = t\<lparr>info := (info t)\<lparr>ft_state := s\<rparr>\<rparr>"

definition set_error :: "string \<Rightarrow> RunningTransfer \<Rightarrow> RunningTransfer" where
  "set_error msg t = t\<lparr>info := (info t)\<lparr>errorMessage := msg\<rparr>\<rparr>"

section \<open>The end of a process\<close>

text \<open>\<^verbatim>\<open>trimmed\<close> and the pattern classes \<^verbatim>\<open>\s\<close> and \<^verbatim>\<open>\d\<close>, over ASCII.\<close>

definition is_space :: "char \<Rightarrow> bool" where
  "is_space c \<longleftrightarrow> c \<in> {CHR '' '', CHR 0x09, CHR 0x0A, CHR 0x0B, CHR 0x0C, CHR 0x0D}"

definition is_digit :: "char \<Rightarrow> bool" where
  "is_digit c \<longleftrightarrow> c \<in> set ''0123456789''"

definition trimmed :: "string \<Rightarrow> string" where
  "trimmed s = rev (dropWhile is_space (rev (dropWhile is_space s)))"

text \<open>The handler of \<^verbatim>\<open>errorOccurred\<close>: only a failure to start counts.\<close>

definition scp_failed_to_start :: "int \<Rightarrow> FileTransferManager \<Rightarrow> transferred" where
  "scp_failed_to_start tid m =
     (case rowForTransfer tid m of
        None \<Rightarrow> (m, [])
      | Some row \<Rightarrow>
          let t = (m_transfers m ! row)\<lparr>scp := Some False\<rparr> in
          if ft_state (info t) = X_Cancelled then (set_transfer row t m, [])
          else
            let previousActive = activeTransferCount m;
                m' = set_transfer row (set_error ''Failed to start scp process'' (set_state X_Failed t)) m in
            (m', [Row_changed row [X_StateRole, X_ErrorMessageRole],
                  TransferFailed tid ''Failed to start scp process''] @
                 emitActiveCountIfChanged previousActive m'))"

text \<open>The handler of \<^verbatim>\<open>finished\<close>, with the rest of the error output.\<close>

definition scp_finished :: "int \<Rightarrow> bool \<Rightarrow> int \<Rightarrow> string \<Rightarrow> FileTransferManager \<Rightarrow> transferred" where
  "scp_finished tid crashed exitCode remaining m =
     (case rowForTransfer tid m of
        None \<Rightarrow> (m, [])
      | Some row \<Rightarrow>
          let t = (m_transfers m ! row)\<lparr>scp := Some False\<rparr>;
              previousActive = activeTransferCount m in
          if ft_state (info t) = X_Cancelled then (set_transfer row t m, [])
          else if crashed \<or> exitCode \<noteq> 0
          then
            let msg = ''scp exited with code '' @ number exitCode @
                      (if remaining \<noteq> [] then '': '' @ trimmed remaining else []);
                m' = set_transfer row (set_error msg (set_state X_Failed t)) m in
            (m', [Row_changed row [X_StateRole, X_ErrorMessageRole], TransferFailed tid msg] @
                 emitActiveCountIfChanged previousActive m')
          else
            let t = set_state X_Completed t;
                t = t\<lparr>info := (info t)\<lparr>bytesTransferred := bytesTotal (info t)\<rparr>\<rparr>;
                m' = set_transfer row t m in
            (m', [Row_changed row [X_StateRole, X_ProgressRole], TransferCompleted tid, Remove_after 3000 tid] @
                 emitActiveCountIfChanged previousActive m'))"

section \<open>Starting\<close>

definition scp_args :: "FileTransfer \<Rightarrow> string list" where
  "scp_args t =
     [''-o'', ''StrictHostKeyChecking=no'', ''-o'', ''UserKnownHostsFile=/dev/null'', ''-o'', ''LogLevel=ERROR''] @
     (let remoteSpec = agentHostname t @ '':'' @ ft_remotePath t in
      if isUpload t then [ft_localPath t, remoteSpec] else [remoteSpec, ft_localPath t])"

text \<open>\<open>i\<close> is where the transfer is in the list.\<close>

definition startScpProcess :: "transfer_env \<Rightarrow> nat \<Rightarrow> FileTransferManager \<Rightarrow> transferred" where
  "startScpProcess e i m =
     (let t = set_state X_Running ((m_transfers m ! i)\<lparr>scp := Some True\<rparr>);
          tid = ft_id (info t);
          m = set_transfer i t m;
          changed = (case rowForTransfer tid m of None \<Rightarrow> [] | Some row \<Rightarrow> [Row_changed row [X_StateRole]]);
          (m, failed) = (if fork_fails e then scp_failed_to_start tid m else (m, [])) in
      (m, changed @ [Scp tid (scp_args (info t))] @ failed @ [TransferStarted tid]))"

definition add_transfer :: "transfer_env \<Rightarrow> FileTransfer \<Rightarrow> FileTransferManager \<Rightarrow> transferred" where
  "add_transfer e t m =
     (let previousActive = activeTransferCount m;
          row = length (m_transfers m);
          m = m\<lparr>m_transfers := m_transfers m @ [\<lparr>info = t, scp = None, stderrBuffer = []\<rparr>]\<rparr>;
          (m, out) = startScpProcess e row m in
      (m, Row (InsertRow row) # out @ emitActiveCountIfChanged previousActive m))"

definition download :: "transfer_env \<Rightarrow> string \<Rightarrow> string \<Rightarrow> string \<Rightarrow> FileTransferManager \<Rightarrow> int \<times> transferred" where
  "download e host remote local m =
     (let tid = m_nextId m in
      (tid, add_transfer e
        \<lparr>ft_id = tid, agentHostname = host, ft_localPath = local, ft_remotePath = remote, isUpload = False,
         bytesTransferred = 0, bytesTotal = 0, ft_state = X_Queued, errorMessage = []\<rparr>
        (m\<lparr>m_nextId := tid + 1\<rparr>)))"

definition upload :: "transfer_env \<Rightarrow> string \<Rightarrow> string \<Rightarrow> string \<Rightarrow> FileTransferManager \<Rightarrow> int \<times> transferred" where
  "upload e host local remote m =
     (let tid = m_nextId m in
      (tid, add_transfer e
        \<lparr>ft_id = tid, agentHostname = host, ft_localPath = local, ft_remotePath = remote, isUpload = True,
         bytesTransferred = 0, bytesTotal = (case file_size e local of Some n \<Rightarrow> n | None \<Rightarrow> 0),
         ft_state = X_Queued, errorMessage = []\<rparr>
        (m\<lparr>m_nextId := tid + 1\<rparr>)))"

section \<open>Progress\<close>

text \<open>
  The pattern \<^verbatim>\<open>\s+(\d{1,3})%\s+(\d+(?:\.\d+)?)(KB|MB|GB|TB|B)\s\<close> at the start of a text. No
  class meets the one that follows it, so nothing is tried twice.
\<close>

definition unit_at :: "string \<Rightarrow> (string \<times> string) option" where
  "unit_at s =
     (case find (\<lambda>u. prefix u s) [''KB'', ''MB'', ''GB'', ''TB'', ''B''] of
        None \<Rightarrow> None | Some u \<Rightarrow> Some (u, drop (length u) s))"

definition number_at :: "string \<Rightarrow> string \<times> string" where
  "number_at s =
     (let n = takeWhile is_digit s; rest = dropWhile is_digit s in
      case rest of
        CHR ''.'' # frac \<Rightarrow>
          if takeWhile is_digit frac \<noteq> [] then (n @ ''.'' @ takeWhile is_digit frac, dropWhile is_digit frac)
          else (n, rest)
      | _ \<Rightarrow> (n, rest))"

definition match_at :: "string \<Rightarrow> (string \<times> string \<times> string) option" where
  "match_at s =
     (let p = dropWhile is_space s; percent = takeWhile is_digit p in
      if takeWhile is_space s = [] \<or> percent = [] \<or> 3 < length percent then None
      else case dropWhile is_digit p of
        CHR ''%'' # q \<Rightarrow>
          if takeWhile is_space q = [] then None
          else (case number_at (dropWhile is_space q) of
                  (n, r) \<Rightarrow>
                    if n = [] then None
                    else (case unit_at r of
                            Some (u, c # _) \<Rightarrow> if is_space c then Some (percent, n, u) else None
                          | _ \<Rightarrow> None))
      | _ \<Rightarrow> None)"

fun progress_match :: "string \<Rightarrow> (string \<times> string \<times> string) option" where
  "progress_match [] = None"
| "progress_match (c # s) = (case match_at (c # s) of None \<Rightarrow> progress_match s | Some m \<Rightarrow> Some m)"

definition digit_value :: "char \<Rightarrow> int" where
  "digit_value c = int (of_char c) - 48"

definition digits_value :: "string \<Rightarrow> int" where
  "digits_value s = foldl (\<lambda>n c. 10 * n + digit_value c) 0 s"

text \<open>\<^verbatim>\<open>toInt\<close> gives 0 for what an \<^verbatim>\<open>int\<close> cannot hold.\<close>

definition toInt :: "string \<Rightarrow> int" where
  "toInt s = (let n = digits_value s in if n \<le> 2147483647 then n else 0)"

definition unit_factor :: "string \<Rightarrow> int" where
  "unit_factor u =
     (if u = ''B'' then 1 else if u = ''KB'' then 1024 else if u = ''MB'' then 1024 * 1024
      else if u = ''GB'' then 1024 * 1024 * 1024 else if u = ''TB'' then 1024 * 1024 * 1024 * 1024 else 0)"

text \<open>One line of output.\<close>

definition progress_line :: "transfer_env \<Rightarrow> nat \<Rightarrow> FileTransfer \<Rightarrow> string \<Rightarrow> FileTransfer \<times> transfer_effect list" where
  "progress_line e row t line =
     (if line = [] then (t, [])
      else case progress_match line of
        None \<Rightarrow> (t, [])
      | Some (p, sizeVal, sizeUnit) \<Rightarrow>
          let percent = toInt p;
              moved = scaled e sizeVal (unit_factor sizeUnit);
              t = (if percent > 0 \<and> bytesTotal t = 0 \<and> moved > 0 then t\<lparr>bytesTotal := moved * 100 div percent\<rparr> else t);
              t = t\<lparr>bytesTransferred := moved\<rparr> in
          (t, [Row_changed row [X_ProgressRole], TransferProgress (ft_id t) (bytesTransferred t) (bytesTotal t)]))"

definition index_of :: "char \<Rightarrow> string \<Rightarrow> nat option" where
  "index_of c s = (if c \<in> set s then Some (length (takeWhile (\<lambda>x. x \<noteq> c) s)) else None)"

text \<open>A carriage return is looked for first, a line feed only if there is none.\<close>

definition separator :: "string \<Rightarrow> nat option" where
  "separator buf = (case index_of (CHR 0x0D) buf of Some i \<Rightarrow> Some i | None \<Rightarrow> index_of (CHR 0x0A) buf)"

lemma index_of_less: "index_of c s = Some i \<Longrightarrow> i < length s"
proof -
  have "c \<in> set s \<Longrightarrow> length (takeWhile (\<lambda>x. x \<noteq> c) s) < length s" by (induction s) auto
  then show "index_of c s = Some i \<Longrightarrow> i < length s" by (auto simp: index_of_def split: if_splits)
qed

lemma separator_less: "separator buf = Some i \<Longrightarrow> i < length buf"
  by (auto simp: separator_def dest: index_of_less split: option.splits)

function progress_lines ::
    "transfer_env \<Rightarrow> nat \<Rightarrow> FileTransfer \<Rightarrow> string \<Rightarrow> FileTransfer \<times> string \<times> transfer_effect list" where
  "progress_lines e row t buf =
     (case separator buf of
        None \<Rightarrow> (t, buf, [])
      | Some sep \<Rightarrow>
          (case progress_line e row t (trimmed (take sep buf)) of
             (t, out) \<Rightarrow>
               (case progress_lines e row t (drop (Suc sep) buf) of (t, buf, out') \<Rightarrow> (t, buf, out @ out'))))"
  by pat_completeness auto
termination
  by (relation "measure (\<lambda>(e, row, t, buf). length buf)") (auto dest: separator_less)

declare progress_lines.simps [simp del]

definition parseScpProgress :: "transfer_env \<Rightarrow> int \<Rightarrow> string \<Rightarrow> FileTransferManager \<Rightarrow> transferred" where
  "parseScpProgress e transferId output m =
     (case rowForTransfer transferId m of
        None \<Rightarrow> (m, [])
      | Some row \<Rightarrow>
          let t = m_transfers m ! row in
          (case progress_lines e row (info t) (stderrBuffer t @ output) of
             (i, buf, out) \<Rightarrow> (set_transfer row (t\<lparr>info := i, stderrBuffer := buf\<rparr>) m, out)))"

section \<open>Cancelling and removing\<close>

text \<open>
  While it waits for the process, Qt delivers its output and its end: \<open>w1\<close> and \<open>w2\<close> are, for the
  wait after each of the two signals, what was read and whether the process has ended.
\<close>

definition wait_for_finished :: "transfer_env \<Rightarrow> int \<Rightarrow> string \<times> bool \<Rightarrow> FileTransferManager \<Rightarrow> transferred" where
  "wait_for_finished e tid w m =
     (case parseScpProgress e tid (fst w) m of
        (m, out) \<Rightarrow>
          if snd w then (case scp_finished tid True 0 [] m of (m, out') \<Rightarrow> (m, out @ out')) else (m, out))"

definition stop_scp ::
    "transfer_env \<Rightarrow> int \<Rightarrow> string \<times> bool \<Rightarrow> string \<times> bool \<Rightarrow> FileTransferManager \<Rightarrow> transferred" where
  "stop_scp e tid w1 w2 m =
     (case wait_for_finished e tid w1 m of
        (m, out) \<Rightarrow>
          if snd w1 then (m, Terminate_scp tid # out)
          else (case wait_for_finished e tid w2 m of
                  (m, out') \<Rightarrow> (m, Terminate_scp tid # out @ Kill_scp tid # out')))"

definition cancelTransfer ::
    "transfer_env \<Rightarrow> string \<times> bool \<Rightarrow> string \<times> bool \<Rightarrow> int \<Rightarrow> FileTransferManager \<Rightarrow> transferred" where
  "cancelTransfer e w1 w2 transferId m =
     (case rowForTransfer transferId m of
        None \<Rightarrow> (m, [])
      | Some row \<Rightarrow>
          let t = m_transfers m ! row in
          if ft_state (info t) \<in> {X_Completed, X_Failed, X_Cancelled} then (m, [])
          else
            let previousActive = activeTransferCount m;
                m = set_transfer row (set_state X_Cancelled t) m;
                (m, out) = (if scp t = Some True then stop_scp e transferId w1 w2 m else (m, []));
                changed = (case rowForTransfer transferId m of None \<Rightarrow> [] | Some row \<Rightarrow> [Row_changed row [X_StateRole]])
            in (m, out @ changed @ [TransferCancelled transferId] @ emitActiveCountIfChanged previousActive m))"

definition removeTransfer :: "int \<Rightarrow> FileTransferManager \<Rightarrow> transferred" where
  "removeTransfer transferId m =
     (case rowForTransfer transferId m of
        None \<Rightarrow> (m, [])
      | Some row \<Rightarrow>
          if is_active (m_transfers m ! row) then (m, [])
          else (m\<lparr>m_transfers := take row (m_transfers m) @ drop (Suc row) (m_transfers m)\<rparr>,
                [Row (RemoveRow row), TransferCountChanged]))"

definition kMaxFinishedTransfers :: nat where
  "kMaxFinishedTransfers = 50"

text \<open>The loop, at row \<open>i\<close> with \<open>k\<close> transfers still to remove, over the rest of the list.\<close>

fun purge_from :: "nat \<Rightarrow> nat \<Rightarrow> RunningTransfer list \<Rightarrow> RunningTransfer list \<times> transfer_effect list" where
  "purge_from k i [] = ([], [])"
| "purge_from 0 i (t # ts) = (t # ts, [])"
| "purge_from (Suc k) i (t # ts) =
     (if \<not> is_active t
      then (case purge_from k i ts of (ts, out) \<Rightarrow> (ts, Row (RemoveRow i) # out))
      else (case purge_from (Suc k) (Suc i) ts of (ts, out) \<Rightarrow> (t # ts, out)))"

definition purgeOldFinishedTransfers :: "FileTransferManager \<Rightarrow> transferred" where
  "purgeOldFinishedTransfers m =
     (let finishedCount = length (filter (\<lambda>t. \<not> is_active t) (m_transfers m)) in
      if finishedCount \<le> kMaxFinishedTransfers then (m, [])
      else
        let (ts, out) = purge_from (finishedCount - kMaxFinishedTransfers) 0 (m_transfers m) in
        (m\<lparr>m_transfers := ts\<rparr>, out @ (if out \<noteq> [] then [TransferCountChanged] else [])))"

section \<open>Everything that happens to the manager\<close>

text \<open>
  Requests, the output and the end of a process that runs, and the timers. An event of a process
  comes only while it runs.
\<close>

datatype transfer_event =
  Download string string string | Upload string string string | Cancel "string \<times> bool" "string \<times> bool" int
| Scp_output int string | Scp_finished int bool int string | Scp_not_started int
| Remove_timeout int | Cleanup_timeout

definition scp_runs :: "int \<Rightarrow> FileTransferManager \<Rightarrow> bool" where
  "scp_runs tid m \<longleftrightarrow> (\<exists>t \<in> set (m_transfers m). ft_id (info t) = tid \<and> scp t = Some True)"

fun transfer_step :: "transfer_env \<times> transfer_event \<Rightarrow> FileTransferManager \<Rightarrow> transferred" where
  "transfer_step (e, Download host remote local) m = snd (download e host remote local m)"
| "transfer_step (e, Upload host local remote) m = snd (upload e host local remote m)"
| "transfer_step (e, Cancel w1 w2 tid) m = cancelTransfer e w1 w2 tid m"
| "transfer_step (e, Scp_output tid output) m = (if scp_runs tid m then parseScpProgress e tid output m else (m, []))"
| "transfer_step (e, Scp_finished tid crashed code remaining) m =
     (if scp_runs tid m then scp_finished tid crashed code remaining m else (m, []))"
| "transfer_step (e, Scp_not_started tid) m = (if scp_runs tid m then scp_failed_to_start tid m else (m, []))"
| "transfer_step (e, Remove_timeout tid) m = removeTransfer tid m"
| "transfer_step (e, Cleanup_timeout) m = purgeOldFinishedTransfers m"

fun transfer_run :: "(transfer_env \<times> transfer_event) list \<Rightarrow> FileTransferManager \<Rightarrow> transferred" where
  "transfer_run [] m = (m, [])"
| "transfer_run (ev # evs) m =
     (case transfer_step ev m of (m, out) \<Rightarrow> case transfer_run evs m of (m, out') \<Rightarrow> (m, out @ out'))"

interpretation transfers: machine transfer_step transfer_run
  by unfold_locales simp_all

section \<open>Looking up a transfer\<close>

abbreviation ids :: "FileTransferManager \<Rightarrow> int list" where
  "ids m \<equiv> map (\<lambda>t. ft_id (info t)) (m_transfers m)"

lemma row_from_Some: "row_from tid i ts = Some j \<Longrightarrow> i \<le> j \<and> j < i + length ts \<and> ft_id (info (ts ! (j - i))) = tid"
  by (induction ts arbitrary: i) (auto simp: nth_Cons' split: if_splits, fastforce+)

lemma row_Some:
  "rowForTransfer tid m = Some row \<Longrightarrow> row < length (m_transfers m) \<and> ft_id (info (m_transfers m ! row)) = tid"
  using row_from_Some [of tid 0 "m_transfers m" row] by (simp add: rowForTransfer_def)

lemma row_from_ids:
  "map (\<lambda>t. ft_id (info t)) ts = map (\<lambda>t. ft_id (info t)) us \<Longrightarrow> row_from tid i ts = row_from tid i us"
proof (induction ts arbitrary: us i)
  case (Cons t ts)
  then obtain u us' where "us = u # us'" by (cases us) auto
  with Cons.prems Cons.IH [of us' "Suc i"] show ?case by simp
qed simp

lemma row_from_iff: "row_from tid i ts = None \<longleftrightarrow> (\<forall>t \<in> set ts. ft_id (info t) \<noteq> tid)"
  by (induction ts arbitrary: i) auto

lemma row_None: "rowForTransfer tid m = None \<longleftrightarrow> (\<forall>t \<in> set (m_transfers m). ft_id (info t) \<noteq> tid)"
  by (simp add: rowForTransfer_def row_from_iff)

lemma ids_set_transfer:
  "ft_id (info t) = ft_id (info (m_transfers m ! row)) \<Longrightarrow> ids (set_transfer row t m) = ids m"
  by (cases "row < length (m_transfers m)") (simp_all add: set_transfer_def map_update list_update_same_conv list_update_beyond)

lemma row_set_transfer:
  "ft_id (info t) = ft_id (info (m_transfers m ! row)) \<Longrightarrow>
     rowForTransfer tid (set_transfer row t m) = rowForTransfer tid m"
  unfolding rowForTransfer_def by (rule row_from_ids) (rule ids_set_transfer)

lemma set_transfer_twice [simp]: "set_transfer row t (set_transfer row u m) = set_transfer row t m"
  by (simp add: set_transfer_def)

lemma nth_set_transfer [simp]: "row < length (m_transfers m) \<Longrightarrow> m_transfers (set_transfer row t m) ! row = t"
  by (simp add: set_transfer_def)

lemma length_set_transfer [simp]: "length (m_transfers (set_transfer row t m)) = length (m_transfers m)"
  by (simp add: set_transfer_def)

lemma nextId_set_transfer [simp]: "m_nextId (set_transfer row t m) = m_nextId m"
  by (simp add: set_transfer_def)

section \<open>The invariant\<close>

text \<open>
  A transfer is never left queued; it is running only as long as its process is, and completed or
  failed only when its process is not.
\<close>

definition transfer_ok :: "RunningTransfer \<Rightarrow> bool" where
  "transfer_ok t \<longleftrightarrow>
     scp t \<noteq> None \<and>
     (case ft_state (info t) of
        X_Queued \<Rightarrow> False | X_Running \<Rightarrow> scp t = Some True | X_Completed \<Rightarrow> scp t = Some False
      | X_Failed \<Rightarrow> scp t = Some False | X_Cancelled \<Rightarrow> True)"

definition transfers_ok :: "FileTransferManager \<Rightarrow> bool" where
  "transfers_ok m \<longleftrightarrow>
     distinct (ids m) \<and> 0 < m_nextId m \<and>
     (\<forall>t \<in> set (m_transfers m). 0 < ft_id (info t) \<and> ft_id (info t) < m_nextId m \<and> transfer_ok t)"

text \<open>
  What a view that shows one role follows, and what it should show: the values of the role, of whatever
  \<^verbatim>\<open>double\<close> arithmetic. The rows an operation changes without a word to that view must show the same.
\<close>

fun rows_for :: "TransferRole \<Rightarrow> transfer_effect list \<Rightarrow> row_signal list" where
  "rows_for role [] = []"
| "rows_for role (Row s # out) = s # rows_for role out"
| "rows_for role (Row_changed i roles # out) = (if role \<in> set roles then [DataChanged i] else []) @ rows_for role out"
| "rows_for role (_ # out) = rows_for role out"

definition shown_values :: "transfer_env \<Rightarrow> TransferRole \<Rightarrow> FileTransferManager \<Rightarrow> qvariant list" where
  "shown_values e0 role m = map (\<lambda>t. transfer_value e0 (info t) role) (m_transfers m)"

lemma transfer_value_other:
  "role \<noteq> X_ProgressRole \<Longrightarrow> transfer_value e0 (t\<lparr>bytesTransferred := b\<rparr>) role = transfer_value e0 t role"
  "role \<noteq> X_ProgressRole \<Longrightarrow> transfer_value e0 (t\<lparr>bytesTotal := b\<rparr>) role = transfer_value e0 t role"
  "role \<noteq> X_StateRole \<Longrightarrow> transfer_value e0 (t\<lparr>ft_state := x\<rparr>) role = transfer_value e0 t role"
  "role \<noteq> X_ErrorMessageRole \<Longrightarrow> transfer_value e0 (t\<lparr>errorMessage := msg\<rparr>) role = transfer_value e0 t role"
  by (cases role; simp add: progress_def)+

definition told :: "nat \<Rightarrow> FileTransfer \<Rightarrow> FileTransfer \<Rightarrow> transfer_effect list \<Rightarrow> bool" where
  "told row t u out \<longleftrightarrow>
     (\<forall>role. set (rows_for role out) \<subseteq> {DataChanged row} \<and>
        (rows_for role out \<noteq> [] \<or> (\<forall>e0. transfer_value e0 u role = transfer_value e0 t role)))"

lemma rows_for_append [simp]: "rows_for role (out @ out') = rows_for role out @ rows_for role out'"
  by (induction out rule: rows_for.induct) simp_all

lemma rows_for_emit [simp]: "rows_for role (emitActiveCountIfChanged n m) = []"
  by (simp add: emitActiveCountIfChanged_def)

lemma told_trans: "told row t u out \<Longrightarrow> told row u v out' \<Longrightarrow> told row t v (out @ out')"
  by (auto simp: told_def)

lemma told_Nil [simp]: "told row t t []"
  by (simp add: told_def)

lemma told_skip [simp]:
  "told row t u (Terminate_scp x # out) = told row t u out" "told row t u (out @ Kill_scp x # out') = told row t u (out @ out')"
  by (simp_all add: told_def)

text \<open>A finished transfer stays as it ended.\<close>

definition final :: "FileTransferManager \<Rightarrow> FileTransferManager \<Rightarrow> bool" where
  "final m m' \<longleftrightarrow>
     (\<forall>t \<in> set (m_transfers m). \<forall>t' \<in> set (m_transfers m').
        ft_id (info t) = ft_id (info t') \<and> \<not> is_active t \<longrightarrow> ft_state (info t') = ft_state (info t))"

definition good :: "FileTransferManager \<Rightarrow> transferred \<Rightarrow> bool" where
  "good m r \<longleftrightarrow>
     transfers_ok (fst r) \<and> final m (fst r) \<and>
     (\<forall>e0 role. view_led (rows_for role (snd r)) (shown_values e0 role m) (shown_values e0 role (fst r))) \<and>
     (length (m_transfers (fst r)) \<noteq> length (m_transfers m) \<or> activeTransferCount (fst r) \<noteq> activeTransferCount m \<longrightarrow>
        TransferCountChanged \<in> set (snd r))"

lemma transfers_ok_set:
  assumes "transfers_ok m" and "row < length (m_transfers m)"
    and "ft_id (info t) = ft_id (info (m_transfers m ! row))" and "transfer_ok t"
  shows "transfers_ok (set_transfer row t m)"
proof -
  have "u = t \<or> u \<in> set (m_transfers m)" if "u \<in> set (m_transfers (set_transfer row t m))" for u
    using that set_update_subset_insert [of "m_transfers m" row t] by (auto simp: set_transfer_def)
  moreover have "m_transfers m ! row \<in> set (m_transfers m)" using assms(2) by simp
  ultimately show ?thesis using assms by (fastforce simp: transfers_ok_def ids_set_transfer)
qed

lemma same_id:
  assumes "transfers_ok m" and "i < length (m_transfers m)" and "t \<in> set (m_transfers m)"
    and "ft_id (info t) = ft_id (info (m_transfers m ! i))"
  shows "t = m_transfers m ! i"
  using assms by (auto simp: transfers_ok_def in_set_conv_nth distinct_conv_nth)

lemma final_set:
  assumes "transfers_ok m" and "row < length (m_transfers m)"
    and "ft_id (info t) = ft_id (info (m_transfers m ! row))"
    and "\<not> is_active (m_transfers m ! row) \<longrightarrow> ft_state (info t) = ft_state (info (m_transfers m ! row))"
  shows "final m (set_transfer row t m)"
  unfolding final_def
proof (intro ballI impI)
  fix u u' assume u: "u \<in> set (m_transfers m)" and u': "u' \<in> set (m_transfers (set_transfer row t m))"
    and id: "ft_id (info u) = ft_id (info u') \<and> \<not> is_active u"
  from u' consider "u' = t" | "u' \<in> set (m_transfers m)"
    using set_update_subset_insert [of "m_transfers m" row t] by (auto simp: set_transfer_def)
  then show "ft_state (info u') = ft_state (info u)"
  proof cases
    case 1
    with id assms(3) same_id [OF assms(1,2) u] have "u = m_transfers m ! row" by simp
    with 1 id assms(4) show ?thesis by simp
  next
    case 2
    then obtain k where "k < length (m_transfers m)" "u' = m_transfers m ! k" by (auto simp: in_set_conv_nth)
    with id same_id [OF assms(1) _ u] show ?thesis by simp
  qed
qed

lemma final_refl: "transfers_ok m \<Longrightarrow> set (m_transfers m') \<subseteq> set (m_transfers m) \<Longrightarrow> final m m'"
  unfolding final_def
proof (intro ballI impI)
  fix t t' assume ok: "transfers_ok m" "set (m_transfers m') \<subseteq> set (m_transfers m)" and t: "t \<in> set (m_transfers m)"
    "t' \<in> set (m_transfers m')" "ft_id (info t) = ft_id (info t') \<and> \<not> is_active t"
  then obtain k where "k < length (m_transfers m)" "t' = m_transfers m ! k" by (auto simp: in_set_conv_nth subset_iff)
  with same_id [OF ok(1) _ t(1)] t(3) show "ft_state (info t') = ft_state (info t)" by simp
qed

lemma view_changed:
  "set sg \<subseteq> {DataChanged i} \<Longrightarrow> i < length rows \<Longrightarrow> sg \<noteq> [] \<or> v = rows ! i \<Longrightarrow> view_led sg rows (rows[i := v])"
proof (induction sg arbitrary: rows)
  case (Cons s sg)
  have "view_led sg (rows[i := v]) ((rows[i := v])[i := v])" by (rule Cons.IH) (use Cons.prems in simp_all)
  with view_led_Cons [OF view_led_step(3) [OF Cons.prems(2), of v], of sg] Cons.prems(1) show ?case by simp
qed simp

lemma view_appended:
  "set sg \<subseteq> {DataChanged (length rows)} \<Longrightarrow> view_led (InsertRow (length rows) # sg) rows (rows @ [v])"
  using view_led_Cons [OF view_led_step(2)] view_changed [of sg "length rows" "rows @ [v]" v] by simp

lemma view_told:
  assumes "told row (info (m_transfers m ! row)) (info t) out" and "row < length (m_transfers m)"
  shows "view_led (rows_for role out) (shown_values e0 role m) (shown_values e0 role (set_transfer row t m))"
proof -
  have "shown_values e0 role (set_transfer row t m) = (shown_values e0 role m)[row := transfer_value e0 (info t) role]"
    by (simp add: shown_values_def set_transfer_def map_update)
  with assms show ?thesis by (auto simp: told_def shown_values_def intro!: view_changed)
qed

lemma count_emit: "TransferCountChanged \<in> set (emitActiveCountIfChanged n m) \<longleftrightarrow> activeTransferCount m \<noteq> n"
  by (simp add: emitActiveCountIfChanged_def)

lemma good_update:
  assumes "transfers_ok m" and "row < length (m_transfers m)"
    and "ft_id (info t) = ft_id (info (m_transfers m ! row))" and "transfer_ok t"
    and "\<not> is_active (m_transfers m ! row) \<longrightarrow> ft_state (info t) = ft_state (info (m_transfers m ! row))"
    and "told row (info (m_transfers m ! row)) (info t) out"
    and "activeTransferCount (set_transfer row t m) \<noteq> activeTransferCount m \<longrightarrow> TransferCountChanged \<in> set out"
  shows "good m (set_transfer row t m, out)"
  using transfers_ok_set [OF assms(1-4)] final_set [OF assms(1-3,5)] view_told [OF assms(6,2)] assms(7)
  by (simp add: good_def)

lemma good_same: "transfers_ok m \<Longrightarrow> good m (m, [])"
  by (simp add: good_def final_refl)

text \<open>A change that keeps the state of a transfer keeps the number of active ones.\<close>

lemma active_update:
  assumes "row < length (m_transfers m)"
  shows "activeTransferCount (set_transfer row t m) =
    activeTransferCount m - (if is_active (m_transfers m ! row) then 1 else 0) + (if is_active t then 1 else 0)"
    and "is_active (m_transfers m ! row) \<Longrightarrow> 0 < activeTransferCount m"
proof -
  have split: "m_transfers m = take row (m_transfers m) @ m_transfers m ! row # drop (Suc row) (m_transfers m)"
    using id_take_nth_drop [OF assms] .
  have upd: "m_transfers (set_transfer row t m) = take row (m_transfers m) @ t # drop (Suc row) (m_transfers m)"
    by (simp add: set_transfer_def upd_conv_take_nth_drop assms)
  have "activeTransferCount m = length (filter is_active (take row (m_transfers m))) +
      (if is_active (m_transfers m ! row) then 1 else 0) + length (filter is_active (drop (Suc row) (m_transfers m)))"
    by (subst (1) activeTransferCount_def, subst (1) split) simp
  moreover have "activeTransferCount (set_transfer row t m) = length (filter is_active (take row (m_transfers m))) +
      (if is_active t then 1 else 0) + length (filter is_active (drop (Suc row) (m_transfers m)))"
    by (simp add: activeTransferCount_def upd)
  ultimately show "activeTransferCount (set_transfer row t m) =
      activeTransferCount m - (if is_active (m_transfers m ! row) then 1 else 0) + (if is_active t then 1 else 0)"
    "is_active (m_transfers m ! row) \<Longrightarrow> 0 < activeTransferCount m" by auto
qed

lemma active_same:
  assumes "row < length (m_transfers m)" and "is_active t = is_active (m_transfers m ! row)"
  shows "activeTransferCount (set_transfer row t m) = activeTransferCount m"
  using active_update(1) [OF assms(1), of t] active_update(2) [OF assms(1)] assms(2) by (auto split: if_splits)

section \<open>The operations keep the invariant\<close>

lemma progress_line_keeps:
  "progress_line e row t line = (t', out) \<Longrightarrow>
     ft_id t' = ft_id t \<and> ft_state t' = ft_state t \<and> told row t t' out \<and> TransferCountChanged \<notin> set out"
  by (auto simp: progress_line_def Let_def told_def transfer_value_other split: if_splits option.splits)

lemma progress_lines_keep:
  "progress_lines e row t buf = (t', rest, out) \<Longrightarrow>
     ft_id t' = ft_id t \<and> ft_state t' = ft_state t \<and> told row t t' out \<and> TransferCountChanged \<notin> set out"
proof (induction e row t buf arbitrary: t' rest out rule: progress_lines.induct)
  case (1 e row t buf)
  show ?case
  proof (cases "separator buf")
    case None
    with "1.prems" show ?thesis by (simp add: progress_lines.simps [of e row t buf])
  next
    case (Some sep)
    obtain t1 out1 where l: "progress_line e row t (trimmed (take sep buf)) = (t1, out1)" by fastforce
    obtain t2 rest2 out2 where r: "progress_lines e row t1 (drop (Suc sep) buf) = (t2, rest2, out2)"
      by (metis prod_cases3)
    from "1.prems" Some l r have "t' = t2" "out = out1 @ out2" by (simp_all add: progress_lines.simps [of e row t buf])
    with "1.IH" [OF Some l [symmetric] r] progress_line_keeps [OF l] show ?thesis by (auto intro: told_trans)
  qed
qed

text \<open>Reading the output of a process changes neither the state of its transfer nor the process.\<close>

definition calmly :: "nat \<Rightarrow> FileTransferManager \<Rightarrow> transferred \<Rightarrow> bool" where
  "calmly row m r \<longleftrightarrow>
     (\<exists>t. fst r = set_transfer row t m \<and> told row (info (m_transfers m ! row)) (info t) (snd r) \<and> ft_id (info t) = ft_id (info (m_transfers m ! row)) \<and>
        ft_state (info t) = ft_state (info (m_transfers m ! row)) \<and> scp (m_transfers m ! row) \<noteq> None \<and> scp t \<noteq> None \<and>
        (scp t = scp (m_transfers m ! row) \<or> ft_state (info t) = X_Cancelled)) \<and>
     TransferCountChanged \<notin> set (snd r)"

lemma calmly_parse:
  assumes "rowForTransfer tid m = Some row" and "scp (m_transfers m ! row) \<noteq> None"
  shows "calmly row m (parseScpProgress e tid output m)"
proof -
  let ?t = "m_transfers m ! row"
  obtain i buf out where p: "progress_lines e row (info ?t) (stderrBuffer ?t @ output) = (i, buf, out)" by (metis prod_cases3)
  from progress_lines_keep [OF p] p assms show ?thesis
    by (auto simp: calmly_def parseScpProgress_def Let_def intro!: exI [of _ "?t\<lparr>info := i, stderrBuffer := buf\<rparr>"])
qed

lemma calmly_trans:
  assumes "calmly row m r" and "calmly row (fst r) r'" and "row < length (m_transfers m)"
  shows "calmly row m (fst r', snd r @ snd r')"
  using assms unfolding calmly_def by (elim conjE exE) (auto intro: told_trans)

lemma calmly_finished:
  assumes "rowForTransfer tid m = Some row" and "scp (m_transfers m ! row) \<noteq> None"
    and "ft_state (info (m_transfers m ! row)) = X_Cancelled"
  shows "calmly row m (scp_finished tid crashed code rest m)"
  using assms by (auto simp: calmly_def scp_finished_def Let_def intro!: exI [of _ "(m_transfers m ! row)\<lparr>scp := Some False\<rparr>"])

lemma calmly_keeps:
  assumes "calmly row m r" and "row < length (m_transfers m)"
  shows "rowForTransfer tid (fst r) = rowForTransfer tid m" and "scp (m_transfers (fst r) ! row) \<noteq> None"
    and "ft_state (info (m_transfers (fst r) ! row)) = ft_state (info (m_transfers m ! row))"
  using assms by (auto simp: calmly_def row_set_transfer)

lemma calmly_wait:
  assumes row: "rowForTransfer tid m = Some row" and s: "scp (m_transfers m ! row) \<noteq> None"
    and c: "ft_state (info (m_transfers m ! row)) = X_Cancelled"
  shows "calmly row m (wait_for_finished e tid w m)"
proof -
  note p = calmly_parse [OF row s, of e "fst w"]
  have r: "row < length (m_transfers m)" using row_Some [OF row] by simp
  note k = calmly_keeps [OF p r]
  have "calmly row (fst (parseScpProgress e tid (fst w) m))
      (scp_finished tid True 0 [] (fst (parseScpProgress e tid (fst w) m)))"
    by (rule calmly_finished) (use k row c in auto)
  from calmly_trans [OF p this r] p show ?thesis by (auto simp: wait_for_finished_def split: prod.split)
qed

lemma calmly_stop:
  assumes row: "rowForTransfer tid m = Some row" and s: "scp (m_transfers m ! row) \<noteq> None"
    and c: "ft_state (info (m_transfers m ! row)) = X_Cancelled"
  shows "calmly row m (stop_scp e tid w1 w2 m)"
proof -
  note p = calmly_wait [OF row s c, of e w1]
  have r: "row < length (m_transfers m)" using row_Some [OF row] by simp
  note k = calmly_keeps [OF p r]
  have q: "calmly row (fst (wait_for_finished e tid w1 m)) (wait_for_finished e tid w2 (fst (wait_for_finished e tid w1 m)))"
    by (rule calmly_wait) (use k row c in auto)
  show ?thesis
    using p calmly_trans [OF p q r]
    by (cases "wait_for_finished e tid w1 m"; cases "wait_for_finished e tid w2 (fst (wait_for_finished e tid w1 m))")
      (auto simp: stop_scp_def calmly_def)
qed

lemma good_calmly:
  assumes ok: "transfers_ok m" and r: "row < length (m_transfers m)" and c: "calmly row m rr"
  shows "good m rr"
proof -
  obtain m' out where rr: "rr = (m', out)" by fastforce
  from c rr obtain t where t: "m' = set_transfer row t m" "ft_id (info t) = ft_id (info (m_transfers m ! row))"
    "ft_state (info t) = ft_state (info (m_transfers m ! row))"
    "scp t = scp (m_transfers m ! row) \<or> ft_state (info t) = X_Cancelled" "scp t \<noteq> None"
    "told row (info (m_transfers m ! row)) (info t) out" by (auto simp: calmly_def)
  have "transfer_ok (m_transfers m ! row)" using ok r by (simp add: transfers_ok_def)
  then have "transfer_ok t" using t(3-5) by (auto simp: transfer_ok_def split: FileTransferState.splits)
  moreover have "is_active t = is_active (m_transfers m ! row)" using t(3) by (simp add: is_active_def)
  ultimately show ?thesis using good_update [OF ok r t(2) _ _ t(6)] t(1,3) active_same [OF r, of t] rr by auto
qed

lemma good_parse:
  assumes ok: "transfers_ok m"
  shows "good m (parseScpProgress e tid output m)"
proof (cases "rowForTransfer tid m")
  case None
  then show ?thesis using good_same [OF ok] by (simp add: parseScpProgress_def)
next
  case (Some row)
  then have r: "row < length (m_transfers m)" using row_Some by blast
  then have "scp (m_transfers m ! row) \<noteq> None" using ok by (simp add: transfers_ok_def transfer_ok_def)
  from good_calmly [OF ok r calmly_parse [OF Some this]] show ?thesis .
qed

lemma good_failed:
  assumes ok: "transfers_ok m" and row: "rowForTransfer tid m = Some row"
    and s: "ft_state (info (m_transfers m ! row)) \<in> {X_Running, X_Cancelled}"
  shows "good m (scp_failed_to_start tid m)"
proof -
  have r: "row < length (m_transfers m)" using row_Some [OF row] by simp
  from s show ?thesis
    using row count_emit active_same [OF r, of "(m_transfers m ! row)\<lparr>scp := Some False\<rparr>"]
    by (auto simp: scp_failed_to_start_def Let_def told_def transfer_value_other transfer_ok_def set_state_def set_error_def is_active_def
        intro!: good_update [OF ok r])
qed

lemma good_finished:
  assumes ok: "transfers_ok m" and row: "rowForTransfer tid m = Some row"
    and s: "ft_state (info (m_transfers m ! row)) \<in> {X_Running, X_Cancelled}"
  shows "good m (scp_finished tid crashed code rest m)"
proof -
  have r: "row < length (m_transfers m)" using row_Some [OF row] by simp
  from s show ?thesis
    using row count_emit active_same [OF r, of "(m_transfers m ! row)\<lparr>scp := Some False\<rparr>"]
    by (auto simp: scp_finished_def Let_def told_def transfer_value_other transfer_ok_def set_state_def set_error_def is_active_def
        intro!: good_update [OF ok r])
qed

lemma row_last:
  assumes "\<forall>u \<in> set ts. ft_id (info u) \<noteq> ft_id (info t)"
  shows "row_from (ft_id (info t)) i (ts @ [t]) = Some (i + length ts)"
  using assms by (induction ts arbitrary: i) auto

text \<open>A transfer with a new identifier is appended; it runs, or has failed if it could not be started.\<close>

lemma good_add:
  assumes ok: "transfers_ok m" and new: "ft_id t = m_nextId m"
  shows "good m (add_transfer e t (m\<lparr>m_nextId := m_nextId m + 1\<rparr>))"
proof -
  let ?n = "length (m_transfers m)"
  let ?T = "\<lambda>s err run. \<lparr>info = t\<lparr>ft_state := s, errorMessage := err\<rparr>, scp = Some run, stderrBuffer = []\<rparr>"
  let ?M = "\<lambda>x. m\<lparr>m_nextId := m_nextId m + 1, m_transfers := m_transfers m @ [x]\<rparr>"
  have ids: "\<forall>u \<in> set (m_transfers m). ft_id (info u) \<noteq> m_nextId m" using ok by (auto simp: transfers_ok_def)
  have row: "rowForTransfer (m_nextId m) (?M x) = Some ?n" if "ft_id (info x) = m_nextId m" for x
    using row_last [of "m_transfers m" x 0] ids that by (simp add: rowForTransfer_def)
  have start: "startScpProcess e ?n (?M \<lparr>info = t, scp = None, stderrBuffer = []\<rparr>) =
     (if fork_fails e then ?M (?T X_Failed ''Failed to start scp process'' False) else ?M (?T X_Running (errorMessage t) True),
      [Row_changed ?n [X_StateRole], Scp (m_nextId m) (scp_args (t\<lparr>ft_state := X_Running\<rparr>))] @
      (if fork_fails e then [Row_changed ?n [X_StateRole, X_ErrorMessageRole],
           TransferFailed (m_nextId m) ''Failed to start scp process'', TransferCountChanged] else []) @
      [TransferStarted (m_nextId m)])"
    using row new
    by (simp add: startScpProcess_def set_transfer_def set_state_def set_error_def scp_failed_to_start_def
        emitActiveCountIfChanged_def activeTransferCount_def is_active_def Let_def)
  have ok': "transfers_ok (?M x)" if "ft_id (info x) = m_nextId m" "transfer_ok x" for x
    using ok ids that by (force simp: transfers_ok_def)
  have fin: "final m (?M x)" if x: "ft_id (info x) = m_nextId m" for x
    unfolding final_def
  proof (intro ballI impI)
    fix u u' assume u: "u \<in> set (m_transfers m)" "u' \<in> set (m_transfers (?M x))"
      "ft_id (info u) = ft_id (info u') \<and> \<not> is_active u"
    have "u' \<noteq> x" using u x ids by auto
    with u have "u' \<in> set (m_transfers m)" by simp
    with final_refl [OF ok, of m] u show "ft_state (info u') = ft_state (info u)" unfolding final_def by blast
  qed
  have oks: "transfers_ok (?M (?T X_Failed err False))" 
    "transfers_ok (?M (\<lparr>info = t\<lparr>ft_state := X_Running\<rparr>, scp = Some True, stderrBuffer = []\<rparr>))" for err
    by (rule ok'; simp add: new transfer_ok_def)+
  have sh: "shown_values e0 role (?M x) = shown_values e0 role m @ [transfer_value e0 (info x) role]" for e0 role x
    by (simp add: shown_values_def)
  have view: "view_led (InsertRow ?n # sg) (shown_values e0 role m) (shown_values e0 role (?M x))"
    if "set sg \<subseteq> {DataChanged ?n}" for sg e0 role x
    using view_appended [of sg "shown_values e0 role m"] that unfolding sh by (simp add: shown_values_def)
  show ?thesis
    using start oks fin new view
    by (cases "fork_fails e")
      (simp_all add: good_def add_transfer_def Let_def emitActiveCountIfChanged_def activeTransferCount_def is_active_def)
qed

lemma good_cancel:
  assumes ok: "transfers_ok m"
  shows "good m (cancelTransfer e w1 w2 tid m)"
proof (cases "rowForTransfer tid m")
  case None
  then show ?thesis using good_same [OF ok] by (simp add: cancelTransfer_def)
next
  case (Some row)
  let ?t = "m_transfers m ! row" let ?c = "set_transfer row (set_state X_Cancelled ?t) m"
  have r: "row < length (m_transfers m)" using row_Some [OF Some] by simp
  then have t: "transfer_ok ?t" using ok by (simp add: transfers_ok_def)
  show ?thesis
  proof (cases "ft_state (info ?t) \<in> {X_Completed, X_Failed, X_Cancelled}")
    case True
    with good_same [OF ok] Some show ?thesis by (simp add: cancelTransfer_def Let_def)
  next
    case False
    with t have run: "ft_state (info ?t) = X_Running" "scp ?t = Some True"
      by (auto simp: transfer_ok_def split: FileTransferState.splits)
    have row: "rowForTransfer tid ?c = Some row" using Some by (simp add: row_set_transfer set_state_def)
    have c: "calmly row ?c (stop_scp e tid w1 w2 ?c)"
      by (rule calmly_stop) (use row r run in \<open>simp_all add: set_state_def\<close>)
    obtain m' out where s: "stop_scp e tid w1 w2 ?c = (m', out)" by fastforce
    with c r obtain u where u: "m' = set_transfer row u m" "ft_id (info u) = ft_id (info ?t)"
      "ft_state (info u) = X_Cancelled" "scp u \<noteq> None" "told row ((info ?t)\<lparr>ft_state := X_Cancelled\<rparr>) (info u) out"
      by (auto simp: calmly_def set_state_def)
    have row': "rowForTransfer tid m' = Some row" using Some u(1,2) by (simp add: row_set_transfer)
    have told: "told row (info ?t) (info u) (out @ [Row_changed row [X_StateRole], TransferCancelled tid] @
        emitActiveCountIfChanged (activeTransferCount m) (set_transfer row u m))"
      using u(5) by (auto simp: told_def transfer_value_other)
    have "good m (set_transfer row u m, out @ [Row_changed row [X_StateRole], TransferCancelled tid] @
        emitActiveCountIfChanged (activeTransferCount m) (set_transfer row u m))"
      by (rule good_update [OF ok r u(2)])
        (use u run told in \<open>auto simp: transfer_ok_def is_active_def count_emit split: option.split\<close>)
    then show ?thesis using Some False run s u(1) row' by (simp add: cancelTransfer_def Let_def)
  qed
qed

lemma filter_removed:
  "i < length ts \<Longrightarrow> \<not> P (ts ! i) \<Longrightarrow> filter P (take i ts @ drop (Suc i) ts) = filter P ts"
  by (subst (3) id_take_nth_drop [of i ts]) simp_all

lemma subseq_distinct: "subseq xs ys \<Longrightarrow> distinct ys \<Longrightarrow> distinct xs \<and> set xs \<subseteq> set ys"
  by (induction xs ys rule: list_emb.induct) auto

lemma ok_subseq:
  assumes "transfers_ok m" and "subseq ts (m_transfers m)"
  shows "transfers_ok (m\<lparr>m_transfers := ts\<rparr>)"
proof -
  have "subseq (map (\<lambda>t. ft_id (info t)) ts) (ids m)" using assms(2) by (rule subseq_map)
  then have "distinct (map (\<lambda>t. ft_id (info t)) ts)"
    using assms(1) by (auto simp: transfers_ok_def dest: subseq_distinct)
  moreover have "set ts \<subseteq> set (m_transfers m)"
    using assms(2) list_emb_set [of "(=)" ts "m_transfers m"] by blast
  ultimately show ?thesis using assms(1) by (auto simp: transfers_ok_def)
qed

lemma subseq_without: "subseq (take i ts @ drop (Suc i) ts) ts"
proof (cases "i < length ts")
  case True
  have "subseq (take i ts @ drop (Suc i) ts) (take i ts @ ts ! i # drop (Suc i) ts)"
    by (intro subseq_append_iff [THEN iffD2] list_emb_append_mono) auto
  then show ?thesis using id_take_nth_drop [OF True] by simp
qed simp

lemma good_remove:
  assumes ok: "transfers_ok m"
  shows "good m (removeTransfer tid m)"
proof (cases "rowForTransfer tid m")
  case None
  then show ?thesis using good_same [OF ok] by (simp add: removeTransfer_def)
next
  case (Some row)
  then have r: "row < length (m_transfers m)" using row_Some by blast
  have sub: "subseq (take row (m_transfers m) @ drop (Suc row) (m_transfers m)) (m_transfers m)" by (rule subseq_without)
  show ?thesis
  proof (cases "is_active (m_transfers m ! row)")
    case True
    with Some good_same [OF ok] show ?thesis by (simp add: removeTransfer_def)
  next
    case False
    have "view_led [RemoveRow row] (shown_values e0 role m)
        (shown_values e0 role (m\<lparr>m_transfers := take row (m_transfers m) @ drop (Suc row) (m_transfers m)\<rparr>))" for e0 role
      using view_led_step(1) [of row "shown_values e0 role m"] r by (simp add: shown_values_def take_map drop_map)
    with False Some r ok_subseq [OF ok sub] show ?thesis
      by (auto simp: removeTransfer_def good_def intro!: final_refl [OF ok] dest: in_set_takeD in_set_dropD)
  qed
qed

lemma purge_from_spec:
  "purge_from k i ts = (ts', out) \<Longrightarrow>
     filter is_active ts' = filter is_active ts \<and>
     filter (\<lambda>t. \<not> is_active t) ts' = drop k (filter (\<lambda>t. \<not> is_active t) ts) \<and> subseq ts' ts \<and>
     (\<forall>role pre. length pre = i \<longrightarrow> view_led (rows_for role out) (pre @ map (f role) ts) (pre @ map (f role) ts')) \<and>
     TransferCountChanged \<notin> set out \<and>
     (out = [] \<longleftrightarrow> ts' = ts)"
proof (induction k i ts arbitrary: ts' out rule: purge_from.induct)
  case (3 k i t ts)
  show ?case
  proof (cases "is_active t")
    case True
    obtain us out' where p: "purge_from (Suc k) (Suc i) ts = (us, out')" by fastforce
    note IH = "3.IH"(2) [OF _ p]
    have "view_led (rows_for role out') (pre @ f role t # map (f role) ts) (pre @ f role t # map (f role) us)"
      if "length pre = i" for role pre
      using IH True that by (auto dest!: spec [of _ role] spec [of _ "pre @ [f role t]"])
    with IH "3.prems" True p show ?thesis by auto
  next
    case False
    obtain us out' where p: "purge_from k i ts = (us, out')" by fastforce
    from "3.IH"(1) [OF False p] have IH: "filter is_active us = filter is_active ts"
      "filter (\<lambda>t. \<not> is_active t) us = drop k (filter (\<lambda>t. \<not> is_active t) ts)" "subseq us ts"
      "\<And>role pre. length pre = i \<Longrightarrow> view_led (rows_for role out') (pre @ map (f role) ts) (pre @ map (f role) us)"
      "TransferCountChanged \<notin> set out'" by auto
    have "length us \<le> length ts" using IH(3) by (rule list_emb_length)
    moreover have "view_led (RemoveRow i # rows_for role out') (pre @ f role t # map (f role) ts) (pre @ map (f role) us)"
      if "length pre = i" for role pre
      using view_led_Cons [of "RemoveRow i", OF _ IH(4) [OF that]] that
        view_led_step(1) [of i "pre @ f role t # map (f role) ts"] by simp
    ultimately show ?thesis using IH(1-3,5) "3.prems" False p by auto
  qed
qed auto

lemma good_purge:
  assumes ok: "transfers_ok m"
  shows "good m (purgeOldFinishedTransfers m)"
proof (cases "length (filter (\<lambda>t. \<not> is_active t) (m_transfers m)) \<le> kMaxFinishedTransfers")
  case True
  with good_same [OF ok] show ?thesis by (simp add: purgeOldFinishedTransfers_def)
next
  case False
  obtain ts out where p: "purge_from (length (filter (\<lambda>t. \<not> is_active t) (m_transfers m)) - kMaxFinishedTransfers)
      0 (m_transfers m) = (ts, out)" by fastforce
  have sp: "filter is_active ts = filter is_active (m_transfers m)" "subseq ts (m_transfers m)"
      "TransferCountChanged \<notin> set out" "out = [] \<longleftrightarrow> ts = m_transfers m"
    using purge_from_spec [OF p] by blast+
  have view: "view_led (rows_for role out) (shown_values e0 role m) (shown_values e0 role (m\<lparr>m_transfers := ts\<rparr>))" for e0 role
    using purge_from_spec [OF p, of "\<lambda>role t. transfer_value e0 (info t) role"] by (simp add: shown_values_def)
  have "set ts \<subseteq> set (m_transfers m)" using sp list_emb_set [of "(=)" ts "m_transfers m"] by blast
  then have fin: "final m (m\<lparr>m_transfers := ts\<rparr>)" by (intro final_refl [OF ok]) simp
  have "transfers_ok (m\<lparr>m_transfers := ts\<rparr>)" using ok_subseq [OF ok] sp by blast
  with False p sp fin view show ?thesis
    by (auto simp: purgeOldFinishedTransfers_def good_def activeTransferCount_def shown_values_def)
qed

lemma good_step:
  assumes ok: "transfers_ok m"
  shows "good m (transfer_step (e, ev) m)"
proof -
  have row: "\<exists>row. rowForTransfer tid m = Some row \<and> ft_state (info (m_transfers m ! row)) \<in> {X_Running, X_Cancelled}"
    if "scp_runs tid m" for tid
  proof -
    from that obtain t where t: "t \<in> set (m_transfers m)" "ft_id (info t) = tid" "scp t = Some True"
      by (auto simp: scp_runs_def)
    with row_None [of tid m] obtain row where r: "rowForTransfer tid m = Some row" by fastforce
    from row_Some [OF r] same_id [OF ok _ t(1)] t(2) have "t = m_transfers m ! row" by simp
    moreover have "transfer_ok t" using ok t(1) by (simp add: transfers_ok_def)
    ultimately have "ft_state (info (m_transfers m ! row)) \<in> {X_Running, X_Cancelled}"
      using t(3) by (auto simp: transfer_ok_def split: FileTransferState.splits)
    with r show ?thesis by blast
  qed
  show ?thesis
  proof (cases ev)
    case (Scp_finished tid crashed code rest)
    with row [of tid] good_finished [OF ok] good_same [OF ok] show ?thesis by auto
  next
    case (Scp_not_started tid)
    with row [of tid] good_failed [OF ok] good_same [OF ok] show ?thesis by auto
  qed (use good_same [OF ok] good_parse [OF ok] good_cancel [OF ok] good_remove [OF ok] good_purge [OF ok]
      good_add [OF ok] in \<open>simp_all add: download_def upload_def Let_def\<close>)
qed

lemma good_run:
  assumes "transfers_ok m" and "transfer_run evs m = (m', out)"
  shows "transfers_ok m' \<and> (\<forall>e0 role. view_led (rows_for role out) (shown_values e0 role m) (shown_values e0 role m'))"
proof (rule transfers.composed [where I = transfers_ok and E = "\<lambda>_. True", OF assms])
  fix ev m m' out
  assume "transfers_ok m" "transfer_step ev m = (m', out)"
  with good_step [of m "fst ev" "snd ev"] show "transfers_ok m' \<and>
    (\<forall>e0 role. view_led (rows_for role out) (shown_values e0 role m) (shown_values e0 role m'))" by (simp add: good_def)
next
  fix m m1 m2 out1 out2
  assume "\<forall>e0 role. view_led (rows_for role out1) (shown_values e0 role m) (shown_values e0 role m1)"
    and "\<forall>e0 role. view_led (rows_for role out2) (shown_values e0 role m1) (shown_values e0 role m2)"
  then show "\<forall>e0 role. view_led (rows_for role (out1 @ out2)) (shown_values e0 role m) (shown_values e0 role m2)"
    by (simp, blast intro: view_led_trans)
qed simp_all

lemma transfers_ok_new: "transfers_ok new_FileTransferManager"
  by (simp add: transfers_ok_def new_FileTransferManager_def)

text \<open>Only a request takes an identifier.\<close>

lemma nextId_simps [simp]:
  "m_nextId (fst (scp_failed_to_start tid m)) = m_nextId m"
  "m_nextId (fst (scp_finished tid crashed code rest m)) = m_nextId m"
  "m_nextId (fst (parseScpProgress e tid output m)) = m_nextId m"
  by (simp_all add: scp_failed_to_start_def scp_finished_def parseScpProgress_def Let_def split: option.split prod.split)

lemma nextId_wait [simp]: "m_nextId (fst (wait_for_finished e tid w m)) = m_nextId m"
  by (simp add: wait_for_finished_def case_prod_beta)

lemma nextId_stop [simp]: "m_nextId (fst (stop_scp e tid w1 w2 m)) = m_nextId m"
  by (simp add: stop_scp_def case_prod_beta)

lemma nextId_ops:
  "m_nextId (fst (startScpProcess e i m)) = m_nextId m"
  "m_nextId (fst (cancelTransfer e w1 w2 tid m)) = m_nextId m"
  "m_nextId (fst (removeTransfer tid m)) = m_nextId m"
  "m_nextId (fst (purgeOldFinishedTransfers m)) = m_nextId m"
  by (simp_all add: startScpProcess_def cancelTransfer_def removeTransfer_def purgeOldFinishedTransfers_def Let_def
      case_prod_beta split: option.split)

lemma nextId_step: "m_nextId (fst (transfer_step (e, ev) m)) \<le> m_nextId m + 1"
  by (cases ev) (simp_all add: download_def upload_def add_transfer_def Let_def case_prod_beta nextId_ops)

lemma nextId_run: "transfer_run evs m = (m', out) \<Longrightarrow> m_nextId m' \<le> m_nextId m + int (length evs)"
proof (induction evs arbitrary: m m' out)
  case (Cons ev evs)
  obtain m1 out1 where s: "transfer_step ev m = (m1, out1)" by fastforce
  obtain m2 out2 where r: "transfer_run evs m1 = (m2, out2)" by fastforce
  from Cons.IH [OF r] nextId_step [of "fst ev" "snd ev" m] s r Cons.prems show ?case by simp
qed simp

section \<open>Output in pieces\<close>

text \<open>No line that has ended is left in the buffer.\<close>

lemma progress_lines_rest: "progress_lines e row t buf = (t', rest, out) \<Longrightarrow> separator rest = None"
proof (induction e row t buf arbitrary: t' rest out rule: progress_lines.induct)
  case (1 e row t buf)
  show ?case
  proof (cases "separator buf")
    case None
    with "1.prems" show ?thesis by (simp add: progress_lines.simps [of e row t buf])
  next
    case (Some sep)
    obtain t1 out1 where l: "progress_line e row t (trimmed (take sep buf)) = (t1, out1)" by fastforce
    obtain t2 rest2 out2 where r: "progress_lines e row t1 (drop (Suc sep) buf) = (t2, rest2, out2)"
      by (metis prod_cases3)
    from "1.prems" Some l r have "rest = rest2" by (simp add: progress_lines.simps [of e row t buf])
    with "1.IH" [OF Some l [symmetric] r] show ?thesis by simp
  qed
qed

text \<open>
  With one kind of line end only, more output does not change where the first line ends. (With both
  it may: a carriage return is looked for first.)
\<close>

definition one_line_end :: "string \<Rightarrow> bool" where
  "one_line_end s \<longleftrightarrow> CHR 0x0D \<notin> set s \<or> CHR 0x0A \<notin> set s"

lemma index_of_append: "index_of c s = Some i \<Longrightarrow> index_of c (s @ x) = Some i"
  by (auto simp: index_of_def split: if_splits)

lemma separator_append:
  assumes "one_line_end (s @ x)" and "separator s = Some i"
  shows "separator (s @ x) = Some i"
proof (cases "CHR 0x0D \<in> set s")
  case True
  then have "index_of (CHR 0x0D) s = Some i" using assms(2) by (auto simp: separator_def index_of_def)
  then show ?thesis by (simp add: separator_def index_of_append)
next
  case False
  then have lf: "index_of (CHR 0x0A) s = Some i" using assms(2) by (simp add: separator_def index_of_def)
  then have "CHR 0x0A \<in> set s" by (auto simp: index_of_def split: if_splits)
  then have "index_of (CHR 0x0D) (s @ x) = None" using assms(1) False by (auto simp: one_line_end_def index_of_def)
  with lf show ?thesis by (simp add: separator_def index_of_append)
qed

lemma progress_lines_append:
  "progress_lines e row t buf = (t1, rest, out1) \<Longrightarrow> progress_lines e row t1 (rest @ x) = (t2, rest2, out2) \<Longrightarrow>
     one_line_end (buf @ x) \<Longrightarrow> progress_lines e row t (buf @ x) = (t2, rest2, out1 @ out2)"
proof (induction e row t buf arbitrary: t1 rest out1 rule: progress_lines.induct)
  case (1 e row t buf)
  show ?case
  proof (cases "separator buf")
    case None
    with "1.prems"(1,2) show ?thesis by (simp add: progress_lines.simps [of e row t buf])
  next
    case (Some sep)
    obtain u out where l: "progress_line e row t (trimmed (take sep buf)) = (u, out)" by fastforce
    obtain u' rest' out' where r: "progress_lines e row u (drop (Suc sep) buf) = (u', rest', out')" by (metis prod_cases3)
    from "1.prems"(1) Some l r have eq: "t1 = u'" "rest = rest'" "out1 = out @ out'"
      by (simp_all add: progress_lines.simps [of e row t buf])
    have "one_line_end (drop (Suc sep) buf @ x)"
      using "1.prems"(3) by (auto simp: one_line_end_def dest: in_set_dropD)
    from "1.IH" [OF Some l [symmetric] r _ this] "1.prems"(2) eq
    have "progress_lines e row u (drop (Suc sep) buf @ x) = (t2, rest2, out' @ out2)" by simp
    moreover have "separator (buf @ x) = Some sep" by (rule separator_append [OF "1.prems"(3) Some])
    ultimately show ?thesis using l eq separator_less [OF Some] by (simp add: progress_lines.simps [of e row t "buf @ x"])
  qed
qed

section \<open>Properties\<close>

text \<open>C15. After any requests, output, process ends and timers, whatever happens next: every transfer has
  an identifier of its own, positive and below the next one to be given, which grows by at most one with each event (so
  that for less than \<open>2 ^ 31 - 2\<close> events it is in the range of the \<^verbatim>\<open>int\<close> it is kept in);
  none is left queued; one is running only as long as its process is, and has completed or failed only when its process
  has ended; a finished transfer stays as it ended. A view of any role is led from what it should show before
  to what it should show after: each signal refers to a row the view has, and a row whose value for the role has changed is
  one the view was told of, with that role among those named. The signal of the counts is sent whenever the number of
  rows or of active transfers changes.\<close>

theorem transfers_safe:
  assumes "transfer_run evs new_FileTransferManager = (m, out)" and "transfer_step (e, ev) m = (m', out')"
  shows "distinct (map (\<lambda>t. ft_id (info t)) (m_transfers m')) \<and>
    m_nextId m' \<le> int (length evs) + 2 \<and>
    (\<forall>t \<in> set (m_transfers m'). 0 < ft_id (info t) \<and> ft_id (info t) < m_nextId m' \<and>
       ft_state (info t) \<noteq> X_Queued \<and> (ft_state (info t) = X_Running \<longrightarrow> scp t = Some True) \<and>
       (ft_state (info t) \<in> {X_Completed, X_Failed} \<longrightarrow> scp t = Some False)) \<and>
    (\<forall>t \<in> set (m_transfers m). \<forall>t' \<in> set (m_transfers m').
       ft_id (info t) = ft_id (info t') \<and> ft_state (info t) \<in> {X_Completed, X_Failed, X_Cancelled} \<longrightarrow>
       ft_state (info t') = ft_state (info t)) \<and>
    (\<forall>e0 role. view_led (rows_for role out') (shown_values e0 role m) (shown_values e0 role m')) \<and>
    (length (m_transfers m') \<noteq> length (m_transfers m) \<or> activeTransferCount m' \<noteq> activeTransferCount m \<longrightarrow>
       TransferCountChanged \<in> set out')"
proof -
  have "transfers_ok m" using good_run [OF transfers_ok_new assms(1)] by simp
  from good_step [OF this, of e ev] assms(2) have g: "good m (m', out')" by simp
  have "ft_state (info t) \<in> {X_Completed, X_Failed, X_Cancelled} \<Longrightarrow> \<not> is_active t" for t
    by (auto simp: is_active_def)
  moreover have "m_nextId m' \<le> int (length evs) + 2"
    using nextId_run [OF assms(1)] nextId_step [of e ev m] assms(2) by (simp add: new_FileTransferManager_def)
  ultimately show ?thesis
    using g by (auto simp: good_def transfers_ok_def final_def transfer_ok_def split: FileTransferState.splits)
qed

text \<open>C26. The clean-up of the list: the active transfers stay, of the finished ones exactly the last
  fifty, all in their order; a view of any role is told of each row that goes and so ends with what it should show; and the signal of the count is
  sent exactly when something was removed.\<close>

theorem purge_keeps_newest:
  "filter is_active (m_transfers (fst (purgeOldFinishedTransfers m))) = filter is_active (m_transfers m) \<and>
   filter (\<lambda>t. \<not> is_active t) (m_transfers (fst (purgeOldFinishedTransfers m))) =
     drop (length (filter (\<lambda>t. \<not> is_active t) (m_transfers m)) - 50) (filter (\<lambda>t. \<not> is_active t) (m_transfers m)) \<and>
   subseq (m_transfers (fst (purgeOldFinishedTransfers m))) (m_transfers m) \<and>
   (\<forall>e0 role. view_led (rows_for role (snd (purgeOldFinishedTransfers m)))
      (shown_values e0 role m) (shown_values e0 role (fst (purgeOldFinishedTransfers m)))) \<and>
   (TransferCountChanged \<in> set (snd (purgeOldFinishedTransfers m))) =
     (m_transfers (fst (purgeOldFinishedTransfers m)) \<noteq> m_transfers m)"
proof -
  obtain ts out where p: "purge_from (length (filter (\<lambda>t. \<not> is_active t) (m_transfers m)) - kMaxFinishedTransfers)
      0 (m_transfers m) = (ts, out)" by fastforce
  have "view_led (rows_for role out) (shown_values e0 role m) (shown_values e0 role (m\<lparr>m_transfers := ts\<rparr>))" for e0 role
    using purge_from_spec [OF p, of "\<lambda>role t. transfer_value e0 (info t) role"] by (simp add: shown_values_def)
  with purge_from_spec [OF p] p show ?thesis
    by (auto simp: purgeOldFinishedTransfers_def kMaxFinishedTransfers_def Let_def)
qed

text \<open>C40. The progress shown does not depend on how the output of \<^verbatim>\<open>scp\<close> arrives: with one
  kind of line end, output read in two pieces has the same effects and leaves the same transfer as
  read at once, and no complete line is kept back.\<close>

theorem progress_in_pieces:
  assumes "rowForTransfer tid m = Some row"
    and "one_line_end (stderrBuffer (m_transfers m ! row) @ a @ b)"
    and "parseScpProgress e tid a m = (m1, out1)" and "parseScpProgress e tid b m1 = (m2, out2)"
  shows "parseScpProgress e tid (a @ b) m = (m2, out1 @ out2) \<and>
    separator (stderrBuffer (m_transfers m2 ! row)) = None"
proof -
  let ?t = "m_transfers m ! row"
  have r: "row < length (m_transfers m)" using row_Some [OF assms(1)] by simp
  obtain i1 r1 o1 where p: "progress_lines e row (info ?t) (stderrBuffer ?t @ a) = (i1, r1, o1)" by (metis prod_cases3)
  obtain i2 r2 o2 where q: "progress_lines e row i1 (r1 @ b) = (i2, r2, o2)" by (metis prod_cases3)
  let ?u = "?t\<lparr>info := i1, stderrBuffer := r1\<rparr>"
  have m1: "m1 = set_transfer row ?u m" "out1 = o1" using assms(1,3) p by (simp_all add: parseScpProgress_def)
  have "rowForTransfer tid m1 = Some row"
    using progress_lines_keep [OF p] assms(1) m1 by (simp add: row_set_transfer)
  then have m2: "m2 = set_transfer row (?t\<lparr>info := i2, stderrBuffer := r2\<rparr>) m" "out2 = o2"
    using assms(4) m1 q r by (simp_all add: parseScpProgress_def)
  have "progress_lines e row (info ?t) (stderrBuffer ?t @ a @ b) = (i2, r2, o1 @ o2)"
    using progress_lines_append [OF p q] assms(2) by simp
  with m1 m2 assms(1) r progress_lines_rest [OF q] show ?thesis by (simp add: parseScpProgress_def)
qed

section \<open>Examples\<close>

definition demo_transfer_env :: transfer_env where
  "demo_transfer_env =
     \<lparr>quotient = (\<lambda>_ _. 0), scaled = (\<lambda>s f. digits_value s * f), file_size = (\<lambda>_. Some 1000), fork_fails = False\<rparr>"

definition demo_upload :: FileTransferManager where
  "demo_upload = fst (transfer_step (demo_transfer_env, Upload ''dev'' ''/f'' ''/g'') new_FileTransferManager)"

lemma demo_upload_state:
  "demo_upload =
     \<lparr>m_nextId = 2, m_transfers =
       [\<lparr>info = \<lparr>ft_id = 1, agentHostname = ''dev'', ft_localPath = ''/f'', ft_remotePath = ''/g'', isUpload = True,
           bytesTransferred = 0, bytesTotal = 1000, ft_state = X_Running, errorMessage = []\<rparr>,
         scp = Some True, stderrBuffer = []\<rparr>]\<rparr>"
  by (simp add: demo_upload_def new_FileTransferManager_def upload_def add_transfer_def startScpProcess_def
      set_transfer_def set_state_def demo_transfer_env_def Let_def)

text \<open>
  What was transferred after output for the example. The first two show that a line feed before a
  carriage return is only seen when they are read apart; the third that a size rounded up to its unit
  exceeds the size of the file, so that the progress exceeds one.
\<close>

definition moved_after :: "string list \<Rightarrow> int list" where
  "moved_after pieces =
     map (\<lambda>t. bytesTransferred (info t))
       (m_transfers (fold (\<lambda>p m. fst (parseScpProgress demo_transfer_env 1 p m)) pieces
         \<lparr>m_nextId = 2, m_transfers =
           [\<lparr>info = \<lparr>ft_id = 1, agentHostname = ''dev'', ft_localPath = ''/f'', ft_remotePath = ''/g'', isUpload = True,
               bytesTransferred = 0, bytesTotal = 1000, ft_state = X_Running, errorMessage = []\<rparr>,
             scp = Some True, stderrBuffer = []\<rparr>]\<rparr>))"

lemma mixed_line_ends:
  "moved_after [''f  10%  1KB x'' @ [CHR 0x0A] @ ''f  20%  2KB x'' @ [CHR 0x0D]] = [1024]"
  "moved_after [''f  10%  1KB x'' @ [CHR 0x0A], ''f  20%  2KB x'' @ [CHR 0x0D]] = [2048]"
  by code_simp+

lemma progress_exceeds_one: "moved_after [''f 100%  1KB x'' @ [CHR 0x0D]] = [1024] \<and> (1000::int) < 1024"
  by code_simp

theorem transfers_safe_witness:
  "\<exists>m' out'. transfer_step (demo_transfer_env, Scp_finished 1 False 0 []) demo_upload = (m', out') \<and>
    map (\<lambda>t. ft_state (info t)) (m_transfers m') = [X_Completed] \<and> TransferCountChanged \<in> set out' \<and>
    (\<forall>t \<in> set (m_transfers m'). ft_id (info t) < m_nextId m')"
proof -
  have "transfer_run [(demo_transfer_env, Upload ''dev'' ''/f'' ''/g'')] new_FileTransferManager =
      (demo_upload, snd (transfer_run [(demo_transfer_env, Upload ''dev'' ''/f'' ''/g'')] new_FileTransferManager))"
    by (simp add: demo_upload_def split: prod.split)
  moreover obtain m' out' where s: "transfer_step (demo_transfer_env, Scp_finished 1 False 0 []) demo_upload = (m', out')"
    by fastforce
  ultimately have "\<forall>t \<in> set (m_transfers m'). ft_id (info t) < m_nextId m'" "activeTransferCount m' \<noteq> activeTransferCount demo_upload \<longrightarrow>
       TransferCountChanged \<in> set out'" using transfers_safe by blast+
  moreover have "map (\<lambda>t. ft_state (info t)) (m_transfers m') = [X_Completed] \<and> activeTransferCount m' = 0 \<and>
      activeTransferCount demo_upload = 1"
    using s by (auto simp: demo_upload_state scp_runs_def scp_finished_def rowForTransfer_def set_transfer_def set_state_def
        activeTransferCount_def is_active_def Let_def)
  ultimately show ?thesis using s by simp
qed

theorem progress_in_pieces_witness:
  "\<exists>m1 out1 m2 out2. parseScpProgress demo_transfer_env 1 ''f  45%'' demo_upload = (m1, out1) \<and>
    parseScpProgress demo_transfer_env 1 (''  1KB x'' @ [CHR 0x0D]) m1 = (m2, out2) \<and>
    parseScpProgress demo_transfer_env 1 (''f  45%'' @ ''  1KB x'' @ [CHR 0x0D]) demo_upload = (m2, out1 @ out2)"
proof -
  obtain m1 out1 where p: "parseScpProgress demo_transfer_env 1 ''f  45%'' demo_upload = (m1, out1)" by fastforce
  obtain m2 out2 where q: "parseScpProgress demo_transfer_env 1 (''  1KB x'' @ [CHR 0x0D]) m1 = (m2, out2)" by fastforce
  have row: "rowForTransfer 1 demo_upload = Some 0" by (simp add: demo_upload_state rowForTransfer_def)
  have "one_line_end (stderrBuffer (m_transfers demo_upload ! 0) @ ''f  45%'' @ ''  1KB x'' @ [CHR 0x0D])"
    by (simp add: one_line_end_def demo_upload_state)
  from progress_in_pieces [OF row this p q] p q show ?thesis by blast
qed

end
