(* ===== verification/Settings.thy ===== *)
theory Settings
  imports Machine Dto
begin

text \<open>
  The settings in their three layers (\<^verbatim>\<open>src/app/src/settings\<close>): the policy of the
  administrator, the preferences of the user, the compiled defaults. Log output is left out.
\<close>

section \<open>Values\<close>

text \<open>
  A \<^verbatim>\<open>QVariant\<close>: invalid, the null of JSON (which is a valid variant), or a value.
\<close>

datatype variant =
  V_Invalid | V_Null | V_Bool bool | V_Int int | V_Number double | V_String string | V_Strings "string list"
| V_List "json list" | V_Map json_object

fun isValid :: "variant \<Rightarrow> bool" where
  "isValid V_Invalid = False" | "isValid _ = True"

text \<open>\<^verbatim>\<open>QJsonValue::toVariant\<close>; a missing value is undefined.\<close>

fun toVariant :: "json option \<Rightarrow> variant" where
  "toVariant None = V_Invalid"
| "toVariant (Some JNull) = V_Null"
| "toVariant (Some (JBool b)) = V_Bool b"
| "toVariant (Some (JNumber d)) = V_Number d"
| "toVariant (Some (JString s)) = V_String s"
| "toVariant (Some (JArray xs)) = V_List xs"
| "toVariant (Some (JObject obj)) = V_Map obj"

section \<open>The policy of the administrator\<close>

text \<open>
  What reading the policy file gives: no file, a file that cannot be opened, or its text; and Qt's
  JSON parser (\<^term>\<open>None\<close> is a parse error) with its conversion to an integer.
\<close>

datatype policy_file = No_file | Unreadable | Text string

record mdm_env =
  policy_text :: policy_file
  parse_json :: "string \<Rightarrow> json option"
  json_int :: "json \<Rightarrow> int"

record MdmConfigManager =
  m_enabled :: bool
  m_settings :: json_object

definition mdm_off :: MdmConfigManager where
  "mdm_off = \<lparr>m_enabled = False, m_settings = []\<rparr>"

definition mdm_parse :: "mdm_env \<Rightarrow> MdmConfigManager \<Rightarrow> MdmConfigManager" where
  "mdm_parse e m =
     (case policy_text e of
        No_file \<Rightarrow> m
      | Unreadable \<Rightarrow> m
      | Text txt \<Rightarrow>
          (case parse_json e txt of
             None \<Rightarrow> m
           | Some (JObject root) \<Rightarrow>
               if json_int e (value_of root ''version'') \<noteq> 1 then m
               else (case value_of root ''settings'' of
                       JObject obj \<Rightarrow> m\<lparr>m_settings := obj, m_enabled := True\<rparr>
                     | _ \<Rightarrow> m)
           | Some _ \<Rightarrow> m))"

definition new_MdmConfigManager :: "mdm_env \<Rightarrow> MdmConfigManager" where
  "new_MdmConfigManager e = mdm_parse e mdm_off"

definition mdm_reload :: "mdm_env \<Rightarrow> MdmConfigManager \<Rightarrow> MdmConfigManager" where
  "mdm_reload e m = mdm_parse e (m\<lparr>m_enabled := False, m_settings := []\<rparr>)"

definition mdm_value :: "MdmConfigManager \<Rightarrow> string \<Rightarrow> variant" where
  "mdm_value m k =
     (if \<not> m_enabled m then V_Invalid
      else case map_of (m_settings m) k of
        Some (JObject entry) \<Rightarrow> toVariant (map_of entry ''value'')
      | _ \<Rightarrow> V_Invalid)"

definition mdm_isLocked :: "MdmConfigManager \<Rightarrow> string \<Rightarrow> bool" where
  "mdm_isLocked m k =
     (if \<not> m_enabled m then False
      else case map_of (m_settings m) k of
        Some (JObject entry) \<Rightarrow> toBool (value_of entry ''locked'')
      | _ \<Rightarrow> False)"

section \<open>The settings\<close>

text \<open>The table of compiled defaults.\<close>

definition kDefaults :: "(string \<times> variant) list" where
  "kDefaults =
     [(''deploymentUrl'', V_String []), (''allowedDeployments'', V_Strings []),
      (''disableMultiDeployment'', V_Bool False), (''requireVpn'', V_Bool False),
      (''autoConnectVpn'', V_Bool False), (''dlpEnabled'', V_Bool False),
      (''dlpClipboardBlock'', V_Bool False), (''dlpScreenshotBlock'', V_Bool False),
      (''dlpFileSandbox'', V_Bool False), (''dlpNetworkSandbox'', V_Bool False),
      (''dlpForceInAppBrowser'', V_Bool False), (''dlpDisableExternalBrowser'', V_Bool False),
      (''dlpWatermark'', V_Bool False), (''dlpDbusFilter'', V_Bool False),
      (''dlpDbusAllowedNames'', V_Strings []), (''disableFileUpload'', V_Bool False),
      (''disableFileDownload'', V_Bool False), (''theme'', V_String ''system''),
      (''notificationsEnabled'', V_Bool True), (''checkForUpdates'', V_Bool True),
      (''logLevel'', V_String ''info''), (''refreshIntervalSec'', V_Int 10),
      (''disableDataCache'', V_Bool False)]"

definition compiledDefault :: "string \<Rightarrow> variant" where
  "compiledDefault k = (case map_of kDefaults k of Some v \<Rightarrow> v | None \<Rightarrow> V_Invalid)"

text \<open>The user's settings are a map; \<^verbatim>\<open>QSettings\<close> stores them.\<close>

record SettingsManager =
  m_mdm :: MdmConfigManager
  m_userSettings :: "string \<rightharpoonup> variant"

text \<open>
  The constructor, with the directories it makes. What the policy file and an INI file at a path hold are
  arguments, as is the platform's configuration directory.
\<close>

definition new_SettingsManager ::
    "string \<Rightarrow> (string \<Rightarrow> mdm_env) \<Rightarrow> (string \<Rightarrow> string \<rightharpoonup> variant) \<Rightarrow> string \<Rightarrow> string \<Rightarrow> SettingsManager \<times> string list" where
  "new_SettingsManager configLocation policy_file ini_file mdmPolicyPath userSettingsPath =
     (let mdmPath = (if mdmPolicyPath = [] then ''/etc/coder-desktop/policy.json'' else mdmPolicyPath);
          mdm = new_MdmConfigManager (policy_file mdmPath) in
      if userSettingsPath = []
      then let configDir = configLocation @ ''/coder-desktop'' in
           (\<lparr>m_mdm = mdm, m_userSettings = ini_file (configDir @ ''/settings.json'')\<rparr>, [configDir])
      else (\<lparr>m_mdm = mdm, m_userSettings = ini_file userSettingsPath\<rparr>, []))"

datatype settings_effect = Sync_file | SettingsChanged

type_synonym set_out = "SettingsManager \<times> settings_effect list"

definition resolve :: "SettingsManager \<Rightarrow> string \<Rightarrow> variant \<Rightarrow> variant" where
  "resolve s k compiled =
     (if m_enabled (m_mdm s) \<and> isValid (mdm_value (m_mdm s) k) then mdm_value (m_mdm s) k
      else case m_userSettings s k of Some v \<Rightarrow> v | None \<Rightarrow> compiled)"

datatype source = Source_Default | Source_User | Source_Mdm

fun source_int :: "source \<Rightarrow> int" where
  "source_int Source_Default = 0" | "source_int Source_User = 1" | "source_int Source_Mdm = 2"

definition settingSource :: "SettingsManager \<Rightarrow> string \<Rightarrow> int" where
  "settingSource s k =
     (if m_enabled (m_mdm s) \<and> isValid (mdm_value (m_mdm s) k) then source_int Source_Mdm
      else if m_userSettings s k \<noteq> None then source_int Source_User
      else source_int Source_Default)"

definition setting_isLocked :: "SettingsManager \<Rightarrow> string \<Rightarrow> bool" where
  "setting_isLocked s k = mdm_isLocked (m_mdm s) k"

definition mdmEnabled :: "SettingsManager \<Rightarrow> bool" where
  "mdmEnabled s = m_enabled (m_mdm s)"

definition setUserPreference :: "string \<Rightarrow> variant \<Rightarrow> SettingsManager \<Rightarrow> set_out" where
  "setUserPreference k v s =
     (if mdm_isLocked (m_mdm s) k then (s, [])
      else (s\<lparr>m_userSettings := (m_userSettings s)(k \<mapsto> v)\<rparr>, [Sync_file, SettingsChanged]))"

text \<open>The loop over the table; the flag says whether something was removed.\<close>

fun reset_loop :: "(string \<times> variant) list \<Rightarrow> SettingsManager \<Rightarrow> bool \<Rightarrow> SettingsManager \<times> bool" where
  "reset_loop [] s changed = (s, changed)"
| "reset_loop ((k, v) # ds) s changed =
     (if mdm_isLocked (m_mdm s) k then reset_loop ds s changed
      else if m_userSettings s k \<noteq> None
      then reset_loop ds (s\<lparr>m_userSettings := (m_userSettings s)(k := None)\<rparr>) True
      else reset_loop ds s changed)"

definition resetToDefaults :: "SettingsManager \<Rightarrow> set_out" where
  "resetToDefaults s =
     (let (s', changed) = reset_loop kDefaults s False in
      (s', if changed then [Sync_file, SettingsChanged] else []))"

section \<open>The getters\<close>

text \<open>
  One getter for every setting, of the type of its compiled default; the conversions of a variant
  are Qt's.
\<close>

record conversions =
  as_bool :: "variant \<Rightarrow> bool"
  as_int :: "variant \<Rightarrow> int"
  as_string :: "variant \<Rightarrow> string"
  as_strings :: "variant \<Rightarrow> string list"

type_synonym 'a getter = "conversions \<Rightarrow> SettingsManager \<Rightarrow> 'a"

definition get_bool :: "string \<Rightarrow> bool \<Rightarrow> bool getter" where
  "get_bool k d c s = as_bool c (resolve s k (V_Bool d))"

definition get_string :: "string \<Rightarrow> string \<Rightarrow> string getter" where
  "get_string k d c s = as_string c (resolve s k (V_String d))"

definition deploymentUrl :: "string getter" where
  "deploymentUrl = get_string ''deploymentUrl'' []"

definition allowedDeployments :: "string list getter" where
  "allowedDeployments c s = as_strings c (resolve s ''allowedDeployments'' (V_Strings []))"

definition disableMultiDeployment :: "bool getter" where
  "disableMultiDeployment = get_bool ''disableMultiDeployment'' False"

definition requireVpn :: "bool getter" where
  "requireVpn = get_bool ''requireVpn'' False"

definition autoConnectVpn :: "bool getter" where
  "autoConnectVpn = get_bool ''autoConnectVpn'' False"

definition dlpEnabled :: "bool getter" where
  "dlpEnabled = get_bool ''dlpEnabled'' False"

definition dlpClipboardBlock :: "bool getter" where
  "dlpClipboardBlock = get_bool ''dlpClipboardBlock'' False"

definition dlpScreenshotBlock :: "bool getter" where
  "dlpScreenshotBlock = get_bool ''dlpScreenshotBlock'' False"

definition dlpFileSandbox :: "bool getter" where
  "dlpFileSandbox = get_bool ''dlpFileSandbox'' False"

definition dlpNetworkSandbox :: "bool getter" where
  "dlpNetworkSandbox = get_bool ''dlpNetworkSandbox'' False"

definition dlpForceInAppBrowser :: "bool getter" where
  "dlpForceInAppBrowser = get_bool ''dlpForceInAppBrowser'' False"

definition dlpDisableExternalBrowser :: "bool getter" where
  "dlpDisableExternalBrowser = get_bool ''dlpDisableExternalBrowser'' False"

definition dlpWatermark :: "bool getter" where
  "dlpWatermark = get_bool ''dlpWatermark'' False"

definition dlpDbusFilter :: "bool getter" where
  "dlpDbusFilter = get_bool ''dlpDbusFilter'' False"

text \<open>The INI format may give a string back for a list.\<close>

definition dlpDbusAllowedNames :: "string list getter" where
  "dlpDbusAllowedNames c s =
     (let v = resolve s ''dlpDbusAllowedNames'' (V_Strings []) in
      case v of V_String _ \<Rightarrow> let s = as_string c v in if s = [] then [] else [s]
      | _ \<Rightarrow> as_strings c v)"

definition externalBrowserAllowed :: "bool getter" where
  "externalBrowserAllowed c s \<longleftrightarrow> \<not> dlpForceInAppBrowser c s \<and> \<not> dlpDisableExternalBrowser c s"

definition set_disableFileUpload :: "bool getter" where
  "set_disableFileUpload = get_bool ''disableFileUpload'' False"

definition set_disableFileDownload :: "bool getter" where
  "set_disableFileDownload = get_bool ''disableFileDownload'' False"

definition theme :: "string getter" where
  "theme = get_string ''theme'' ''system''"

definition set_notificationsEnabled :: "bool getter" where
  "set_notificationsEnabled = get_bool ''notificationsEnabled'' True"

definition checkForUpdates :: "bool getter" where
  "checkForUpdates = get_bool ''checkForUpdates'' True"

definition logLevel :: "string getter" where
  "logLevel = get_string ''logLevel'' ''info''"

definition set_refreshIntervalSec :: "int getter" where
  "set_refreshIntervalSec c s = as_int c (resolve s ''refreshIntervalSec'' (V_Int 10))"

definition set_disableDataCache :: "bool getter" where
  "set_disableDataCache = get_bool ''disableDataCache'' False"

text \<open>The locked getters are \<^verbatim>\<open>isLocked\<close> at the keys of the table, in its order except the last two.\<close>

definition locked_keys :: "string list" where
  "locked_keys =
     [''deploymentUrl'', ''allowedDeployments'', ''disableMultiDeployment'', ''requireVpn'', ''autoConnectVpn'',
      ''dlpEnabled'', ''dlpClipboardBlock'', ''dlpScreenshotBlock'', ''dlpFileSandbox'', ''dlpNetworkSandbox'',
      ''dlpForceInAppBrowser'', ''dlpDisableExternalBrowser'', ''dlpWatermark'', ''dlpDbusFilter'',
      ''dlpDbusAllowedNames'', ''disableFileUpload'', ''disableFileDownload'', ''theme'', ''notificationsEnabled'',
      ''checkForUpdates'', ''refreshIntervalSec'', ''disableDataCache'', ''logLevel'']"

definition locked_getters :: "SettingsManager \<Rightarrow> (string \<times> bool) list" where
  "locked_getters s = map (\<lambda>k. (k, mdm_isLocked (m_mdm s) k)) locked_keys"

text \<open>What a user can do, in any order.\<close>

datatype user_op = Set_preference string variant | Reset

fun user_step :: "user_op \<Rightarrow> SettingsManager \<Rightarrow> set_out" where
  "user_step (Set_preference k v) s = setUserPreference k v s"
| "user_step Reset s = resetToDefaults s"

fun user_run :: "user_op list \<Rightarrow> SettingsManager \<Rightarrow> set_out" where
  "user_run [] s = (s, [])"
| "user_run (op # ops) s =
     (case user_step op s of (s, out) \<Rightarrow> case user_run ops s of (s, out') \<Rightarrow> (s, out @ out'))"

interpretation preferences: machine user_step user_run
  by unfold_locales simp_all

section \<open>Lemmas\<close>

text \<open>The getters use the defaults of the table, and every setting has an entry and a locked getter.\<close>

lemma defaults_distinct: "distinct (map fst kDefaults)"
  by (simp add: kDefaults_def)

lemma locked_keys_table: "set locked_keys = fst ` set kDefaults \<and> distinct locked_keys"
  by (simp add: kDefaults_def locked_keys_def) auto

definition without :: "string set \<Rightarrow> SettingsManager \<Rightarrow> SettingsManager" where
  "without ks s =
     s\<lparr>m_userSettings := (\<lambda>k. if k \<in> ks \<and> \<not> mdm_isLocked (m_mdm s) k then None else m_userSettings s k)\<rparr>"

lemma without_insert:
  "without (insert k ks) s =
     (if mdm_isLocked (m_mdm s) k \<or> m_userSettings s k = None then without ks s
      else without ks (s\<lparr>m_userSettings := (m_userSettings s)(k := None)\<rparr>))"
proof -
  have "(\<lambda>j. if j \<in> insert k ks \<and> \<not> mdm_isLocked (m_mdm s) j then None else m_userSettings s j) =
      (\<lambda>j. if j \<in> ks \<and> \<not> mdm_isLocked (m_mdm s) j then None else m_userSettings s j)"
    if "mdm_isLocked (m_mdm s) k \<or> m_userSettings s k = None"
    using that by (intro ext) auto
  moreover have "(\<lambda>j. if j \<in> insert k ks \<and> \<not> mdm_isLocked (m_mdm s) j then None else m_userSettings s j) =
      (\<lambda>j. if j \<in> ks \<and> \<not> mdm_isLocked (m_mdm s) j then None else ((m_userSettings s)(k := None)) j)"
    if "\<not> mdm_isLocked (m_mdm s) k"
    using that by (intro ext) auto
  ultimately show ?thesis by (cases "m_userSettings s k"; cases "mdm_isLocked (m_mdm s) k") (simp_all add: without_def cong: if_cong)
qed

lemma reset_loop_spec:
  "reset_loop ds s changed =
     (without (fst ` set ds) s,
      changed \<or> (\<exists>k \<in> fst ` set ds. \<not> mdm_isLocked (m_mdm s) k \<and> m_userSettings s k \<noteq> None))"
proof (induction ds arbitrary: s changed)
  case Nil
  show ?case by (simp add: without_def)
next
  case (Cons d ds)
  obtain k v where d: "d = (k, v)" by (cases d)
  show ?case using Cons.IH by (auto simp: d without_insert)
qed

lemma without_simps [simp]:
  "m_mdm (without ks s) = m_mdm s"
  "m_userSettings (without ks s) k = (if k \<in> ks \<and> \<not> mdm_isLocked (m_mdm s) k then None else m_userSettings s k)"
  by (simp_all add: without_def)

lemma step_locked:
  "mdm_isLocked (m_mdm s) k \<Longrightarrow> user_step op s = (s', out) \<Longrightarrow>
     m_mdm s' = m_mdm s \<and> m_userSettings s' k = m_userSettings s k"
proof (cases op)
  case (Set_preference k' v)
  then show "mdm_isLocked (m_mdm s) k \<Longrightarrow> user_step op s = (s', out) \<Longrightarrow> ?thesis"
    by (cases "mdm_isLocked (m_mdm s) k'"; cases "k' = k") (auto simp: setUserPreference_def)
next
  case Reset
  then show "mdm_isLocked (m_mdm s) k \<Longrightarrow> user_step op s = (s', out) \<Longrightarrow> ?thesis"
    by (simp add: resetToDefaults_def reset_loop_spec) (elim conjE, hypsubst, simp)
qed

lemma run_locked:
  assumes "mdm_isLocked (m_mdm s) k" "user_run ops s = (s', out)"
  shows "m_mdm s' = m_mdm s \<and> m_userSettings s' k = m_userSettings s k"
proof -
  let ?I = "\<lambda>t. m_mdm t = m_mdm s \<and> m_userSettings t k = m_userSettings s k"
  have "?I (fst (user_step op t))" if "?I t" for op t
    using that assms(1) step_locked [of t k op] by (cases "user_step op t") simp
  then have "?I (fst (user_run ops s))" by (intro preferences.preserved [where I = ?I]) simp_all
  with assms(2) show ?thesis by simp
qed

lemma step_mdm: "m_mdm (fst (user_step op s)) = m_mdm s"
  by (cases op) (simp_all add: setUserPreference_def resetToDefaults_def reset_loop_spec)

lemma run_mdm: "m_mdm (fst (user_run ops s)) = m_mdm s"
  by (rule preferences.preserved [where I = "\<lambda>t. m_mdm t = m_mdm s"]) (simp_all add: step_mdm)

section \<open>Properties\<close>

text \<open>C22. What the administrator fixes stays fixed: a setting that the policy locks, or gives a value for
  (locked or not), has the same value and the same source after anything the user does, and a locked
  one stays locked.\<close>

theorem fixed_settings:
  assumes "setting_isLocked s k \<or> settingSource s k = 2" and "user_run ops s = (s', out)"
  shows "resolve s' k d = resolve s k d \<and> settingSource s' k = settingSource s k \<and>
    setting_isLocked s' k = setting_isLocked s k"
proof -
  note m = run_mdm [of ops s, unfolded assms(2) fst_conv]
  show ?thesis
  proof (cases "setting_isLocked s k")
    case True
    then have "m_userSettings s' k = m_userSettings s k"
      using run_locked [OF _ assms(2), of k] by (simp add: setting_isLocked_def)
    with m show ?thesis by (simp add: resolve_def settingSource_def setting_isLocked_def)
  next
    case False
    with assms(1) have "m_enabled (m_mdm s) \<and> isValid (mdm_value (m_mdm s) k)"
      by (simp add: settingSource_def split: if_splits)
    with m show ?thesis by (simp add: resolve_def settingSource_def setting_isLocked_def)
  qed
qed

text \<open>Resetting gives every setting of the table that is not locked its compiled default, unless the
  administrator gives it a value; everything else keeps its value; and the views are told exactly when
  some preference was removed.\<close>

lemma reset_spec:
  "resolve (fst (resetToDefaults s)) k d =
     (if settingSource s k \<noteq> 2 \<and> k \<in> fst ` set kDefaults \<and> \<not> setting_isLocked s k then d else resolve s k d) \<and>
   (SettingsChanged \<in> set (snd (resetToDefaults s))) =
     (m_userSettings (fst (resetToDefaults s)) \<noteq> m_userSettings s)"
proof
  show "resolve (fst (resetToDefaults s)) k d =
      (if settingSource s k \<noteq> 2 \<and> k \<in> fst ` set kDefaults \<and> \<not> setting_isLocked s k then d else resolve s k d)"
    by (simp add: resetToDefaults_def reset_loop_spec resolve_def settingSource_def setting_isLocked_def del: split_paired_Ex)
  have "m_userSettings (without ks s) \<noteq> m_userSettings s \<longleftrightarrow>
      (\<exists>k \<in> ks. \<not> mdm_isLocked (m_mdm s) k \<and> m_userSettings s k \<noteq> None)" for ks
  proof
    assume "m_userSettings (without ks s) \<noteq> m_userSettings s"
    then obtain k where "m_userSettings (without ks s) k \<noteq> m_userSettings s k" by blast
    then show "\<exists>k \<in> ks. \<not> mdm_isLocked (m_mdm s) k \<and> m_userSettings s k \<noteq> None"
      by (intro bexI [of _ k]) (auto split: if_splits simp: eq_commute [of None])
  next
    assume "\<exists>k \<in> ks. \<not> mdm_isLocked (m_mdm s) k \<and> m_userSettings s k \<noteq> None"
    then obtain k where "k \<in> ks" "\<not> mdm_isLocked (m_mdm s) k" "m_userSettings s k \<noteq> None" by blast
    moreover have "m_userSettings (without ks s) k = None" using calculation by simp
    ultimately show "m_userSettings (without ks s) \<noteq> m_userSettings s" by force
  qed
  from this [of "fst ` set kDefaults"]
  show "(SettingsChanged \<in> set (snd (resetToDefaults s))) =
      (m_userSettings (fst (resetToDefaults s)) \<noteq> m_userSettings s)"
    by (simp add: resetToDefaults_def reset_loop_spec)
qed

section \<open>An example\<close>

definition demo_mdm :: mdm_env where
  "demo_mdm =
     \<lparr>policy_text = Text ''policy'',
      parse_json = (\<lambda>_. Some (JObject
        [(''version'', JNumber 1),
         (''settings'', JObject
           [(''dlpWatermark'', JObject [(''value'', JBool True), (''locked'', JBool True)]),
            (''theme'', JObject [(''value'', JString ''dark'')])])])),
      json_int = (\<lambda>j. case j of JNumber d \<Rightarrow> 1 | _ \<Rightarrow> 0)\<rparr>"

definition demo_settings :: SettingsManager where
  "demo_settings = \<lparr>m_mdm = new_MdmConfigManager demo_mdm, m_userSettings = Map.empty\<rparr>"

lemma demo_settings_state:
  "setting_isLocked demo_settings ''dlpWatermark''" "resolve demo_settings ''dlpWatermark'' d = V_Bool True"
  "settingSource demo_settings ''theme'' = 2" "\<not> setting_isLocked demo_settings ''theme''"
  by (simp_all add: demo_settings_def demo_mdm_def new_MdmConfigManager_def mdm_parse_def mdm_off_def value_of_def
      setting_isLocked_def mdm_isLocked_def mdm_value_def resolve_def settingSource_def)

theorem fixed_settings_witness:
  "resolve (fst (user_run [Set_preference ''dlpWatermark'' (V_Bool False), Reset] demo_settings)) ''dlpWatermark'' (V_Bool False)
     = V_Bool True"
proof -
  obtain s' out where r: "user_run [Set_preference ''dlpWatermark'' (V_Bool False), Reset] demo_settings = (s', out)"
    by fastforce
  from fixed_settings [OF _ r, of "''dlpWatermark''" "V_Bool False"] demo_settings_state(1,2) r show ?thesis by simp
qed

end
