(* ===== verification/Api_Client.thy ===== *)
theory Api_Client
  imports Web_Socket Dto
begin

text \<open>
  The HTTP client of the Coder API (\<^verbatim>\<open>src/app/src/api/CoderApiClient.cpp\<close>): the requests it
  builds and what its answers become. The network is Qt's; a request is a value, an answer an event.
  Log output is left out.
\<close>

section \<open>Requests\<close>

record CoderApiClient =
  ac_baseUrl :: string
  ac_sessionToken :: string

datatype http_method = GET | POST | PUT | DELETE

record http_request =
  hr_method :: http_method
  hr_url :: string
  hr_headers :: "(string \<times> string) list"
  hr_body :: "json_object option"

datatype api_signal =
  BaseUrlChanged | ApiAuthChanged | RequestFailed string int string
| WorkspacesReceived "json list" | TasksReceived "json list" | WorkspaceDetailReceived json_object
| WorkspaceActionCompleted

type_synonym api_out = "CoderApiClient \<times> api_signal list"

definition new_CoderApiClient :: CoderApiClient where
  "new_CoderApiClient = \<lparr>ac_baseUrl = [], ac_sessionToken = []\<rparr>"

definition api_isAuthenticated :: "CoderApiClient \<Rightarrow> bool" where
  "api_isAuthenticated c \<longleftrightarrow> ac_sessionToken c \<noteq> []"

definition api_setBaseUrl :: "string \<Rightarrow> CoderApiClient \<Rightarrow> api_out" where
  "api_setBaseUrl url c =
     (let normalised = chop_slashes url in
      if ac_baseUrl c \<noteq> normalised then (c\<lparr>ac_baseUrl := normalised\<rparr>, [BaseUrlChanged]) else (c, []))"

definition api_setSessionToken :: "string \<Rightarrow> CoderApiClient \<Rightarrow> api_out" where
  "api_setSessionToken token c =
     (let wasAuth = api_isAuthenticated c; c = c\<lparr>ac_sessionToken := token\<rparr> in
      (c, if wasAuth \<noteq> api_isAuthenticated c then [ApiAuthChanged] else []))"

definition buildRequest :: "http_method \<Rightarrow> string \<Rightarrow> json_object option \<Rightarrow> CoderApiClient \<Rightarrow> http_request" where
  "buildRequest meth path body c =
     \<lparr>hr_method = meth, hr_url = ac_baseUrl c @ path,
      hr_headers = [(''Content-Type'', ''application/json'')] @
        (if ac_sessionToken c \<noteq> [] then [(''Coder-Session-Token'', ac_sessionToken c)] else []),
      hr_body = body\<rparr>"

definition api_get :: "string \<Rightarrow> CoderApiClient \<Rightarrow> http_request" where
  "api_get path c = buildRequest GET path None c"

definition api_post :: "string \<Rightarrow> json_object \<Rightarrow> CoderApiClient \<Rightarrow> http_request" where
  "api_post path body c = buildRequest POST path (Some body) c"

definition api_put :: "string \<Rightarrow> json_object \<Rightarrow> CoderApiClient \<Rightarrow> http_request" where
  "api_put path body c = buildRequest PUT path (Some body) c"

definition api_del :: "string \<Rightarrow> CoderApiClient \<Rightarrow> http_request" where
  "api_del path c = buildRequest DELETE path None c"

section \<open>The endpoints\<close>

definition users_me :: string where
  "users_me = ''/api/v2/users/me''"

definition getAuthenticatedUser :: "CoderApiClient \<Rightarrow> http_request" where
  "getAuthenticatedUser c = api_get users_me c"

text \<open>\<open>encode_query\<close> is \<^verbatim>\<open>QUrlQuery\<close> with the one item \<^verbatim>\<open>q\<close>, fully encoded.\<close>

definition workspaces_path :: "(string \<Rightarrow> string) \<Rightarrow> string \<Rightarrow> string" where
  "workspaces_path encode_query query =
     (if query \<noteq> [] then ''/api/v2/workspaces'' @ ''?'' @ encode_query query else ''/api/v2/workspaces'')"

definition listWorkspaces :: "(string \<Rightarrow> string) \<Rightarrow> string \<Rightarrow> CoderApiClient \<Rightarrow> http_request" where
  "listWorkspaces encode_query query c = api_get (workspaces_path encode_query query) c"

definition workspace_path :: "string \<Rightarrow> string" where
  "workspace_path wid = ''/api/v2/workspaces/'' @ wid"

definition getWorkspace :: "string \<Rightarrow> CoderApiClient \<Rightarrow> http_request" where
  "getWorkspace wid c = api_get (workspace_path wid) c"

definition build_body :: "string \<Rightarrow> string \<Rightarrow> json_object" where
  "build_body transition templateVersionId =
     [(''transition'', JString transition)] @
     (if templateVersionId \<noteq> [] then [(''template_version_id'', JString templateVersionId)] else [])"

definition createWorkspaceBuild :: "string \<Rightarrow> string \<Rightarrow> string \<Rightarrow> CoderApiClient \<Rightarrow> http_request" where
  "createWorkspaceBuild wid transition templateVersionId c =
     api_post (workspace_path wid @ ''/builds'') (build_body transition templateVersionId) c"

definition deleteWorkspace :: "string \<Rightarrow> CoderApiClient \<Rightarrow> http_request" where
  "deleteWorkspace wid c = api_del (workspace_path wid) c"

definition favoriteWorkspace :: "string \<Rightarrow> CoderApiClient \<Rightarrow> http_request" where
  "favoriteWorkspace wid c = api_put (workspace_path wid @ ''/favorite'') [] c"

definition unfavoriteWorkspace :: "string \<Rightarrow> CoderApiClient \<Rightarrow> http_request" where
  "unfavoriteWorkspace wid c = api_del (workspace_path wid @ ''/favorite'') c"

definition listTemplates :: "CoderApiClient \<Rightarrow> http_request" where
  "listTemplates c = api_get ''/api/v2/templates'' c"

definition listTasks :: "CoderApiClient \<Rightarrow> http_request" where
  "listTasks c = api_get ''/api/v2/tasks'' c"

definition getBuildInfo :: "CoderApiClient \<Rightarrow> http_request" where
  "getBuildInfo c = api_get ''/api/v2/buildinfo'' c"

section \<open>Answers\<close>

text \<open>An answer: whether it is an error (with Qt's text), the HTTP status, the body.\<close>

record http_reply =
  rp_error :: bool
  rp_errorString :: string
  rp_status :: int
  rp_body :: string

text \<open>The handler every request has; it comes before that of the request itself.\<close>

definition error_handler :: "string \<Rightarrow> http_reply \<Rightarrow> api_signal list" where
  "error_handler endpoint r =
     (if rp_error r then [RequestFailed endpoint (rp_status r) (rp_errorString r)] else [])"

text \<open>\<open>doc\<close> is Qt's parser; \<^verbatim>\<open>object()\<close> of anything else is the empty object.\<close>

definition on_workspaces :: "(string \<Rightarrow> json) \<Rightarrow> http_reply \<Rightarrow> api_signal list" where
  "on_workspaces doc r =
     error_handler (workspaces_path id []) r @
     (if rp_error r then []
      else [WorkspacesReceived (toArray (value_of (toObject (doc (rp_body r))) ''workspaces''))])"

definition on_tasks :: "(string \<Rightarrow> json) \<Rightarrow> http_reply \<Rightarrow> api_signal list" where
  "on_tasks doc r =
     error_handler ''/api/v2/tasks'' r @
     (if rp_error r then []
      else [TasksReceived
        (case doc (rp_body r) of
           JArray arr \<Rightarrow> arr
         | j \<Rightarrow> toArray (value_of (toObject j) ''tasks''))])"

definition on_workspace_detail :: "string \<Rightarrow> (string \<Rightarrow> json) \<Rightarrow> http_reply \<Rightarrow> api_signal list" where
  "on_workspace_detail wid doc r =
     error_handler (workspace_path wid) r @
     (if rp_error r then [] else [WorkspaceDetailReceived (toObject (doc (rp_body r)))])"

definition on_workspace_action :: "string \<Rightarrow> http_reply \<Rightarrow> api_signal list" where
  "on_workspace_action wid r =
     error_handler (workspace_path wid @ ''/builds'') r @
     (if rp_error r then [] else [WorkspaceActionCompleted])"

text \<open>The requests of the calls that have these handlers.\<close>

definition fetchWorkspaces :: "(string \<Rightarrow> string) \<Rightarrow> CoderApiClient \<Rightarrow> http_request" where
  "fetchWorkspaces encode_query c = listWorkspaces encode_query [] c"

definition fetchTasks :: "CoderApiClient \<Rightarrow> http_request" where
  "fetchTasks c = listTasks c"

definition fetchWorkspaceDetail :: "string \<Rightarrow> CoderApiClient \<Rightarrow> http_request" where
  "fetchWorkspaceDetail wid c = getWorkspace wid c"

definition startWorkspace :: "string \<Rightarrow> CoderApiClient \<Rightarrow> http_request" where
  "startWorkspace wid c = createWorkspaceBuild wid ''start'' [] c"

definition stopWorkspace :: "string \<Rightarrow> CoderApiClient \<Rightarrow> http_request" where
  "stopWorkspace wid c = createWorkspaceBuild wid ''stop'' [] c"

definition updateWorkspace_request :: "string \<Rightarrow> CoderApiClient \<Rightarrow> http_request" where
  "updateWorkspace_request wid c = startWorkspace wid c"

text \<open>A request carries the token of the client exactly if it has one, and nothing else does.\<close>

lemma token_header:
  "(''Coder-Session-Token'', tok) \<in> set (hr_headers (buildRequest meth path body c)) \<longleftrightarrow>
     tok = ac_sessionToken c \<and> tok \<noteq> []"
  by (auto simp: buildRequest_def)

end
