(* ===== verification/Secure_Storage.thy ===== *)
theory Secure_Storage
  imports Prelude
begin

text \<open>
  Where session tokens are kept (\<^verbatim>\<open>src/app/src/data/SecureStorage.cpp\<close>): the keyring of the
  desktop, reached through libsecret, and a JSON file as a fallback and as the list of the URLs. Log
  output is left out.
\<close>

section \<open>State and surroundings\<close>

datatype Backend = LibSecret | EncryptedFile | No_backend

text \<open>The keyring and the object in the fallback file, from deployment URLs to strings.\<close>

record SecureStorage =
  m_backend :: Backend
  keyring :: "string \<rightharpoonup> string"
  fallback :: "string \<rightharpoonup> string"

text \<open>
  What an operation is answered: whether libsecret is compiled in and reachable, which of its calls
  succeed, whether the file can be read and written; Base64 of Qt, decoding being lenient.
\<close>

record storage_env =
  HAS_LIBSECRET :: bool
  probe_ok :: bool
  keyring_store_ok :: bool
  keyring_lookup_ok :: bool
  keyring_clear_ok :: bool
  file_read_ok :: bool
  file_write_ok :: bool
  toBase64 :: "string \<Rightarrow> string"
  fromBase64 :: "string \<Rightarrow> string"

definition detectBackend :: "storage_env \<Rightarrow> Backend" where
  "detectBackend e = (if HAS_LIBSECRET e \<and> probe_ok e then LibSecret else EncryptedFile)"

definition new_SecureStorage :: "storage_env \<Rightarrow> (string \<rightharpoonup> string) \<Rightarrow> (string \<rightharpoonup> string) \<Rightarrow> SecureStorage" where
  "new_SecureStorage e ring file = \<lparr>m_backend = detectBackend e, keyring = ring, fallback = file\<rparr>"

definition isSecureBackendAvailable :: "SecureStorage \<Rightarrow> bool" where
  "isSecureBackendAvailable s \<longleftrightarrow> m_backend s = LibSecret"

section \<open>The keyring\<close>

definition libsecretStore :: "storage_env \<Rightarrow> string \<Rightarrow> string \<Rightarrow> SecureStorage \<Rightarrow> bool \<times> SecureStorage" where
  "libsecretStore e k v s =
     (if keyring_store_ok e then (True, s\<lparr>keyring := (keyring s)(k \<mapsto> v)\<rparr>) else (False, s))"

definition libsecretRetrieve :: "storage_env \<Rightarrow> string \<Rightarrow> SecureStorage \<Rightarrow> string" where
  "libsecretRetrieve e k s =
     (if keyring_lookup_ok e then (case keyring s k of None \<Rightarrow> [] | Some v \<Rightarrow> v) else [])"

definition libsecretRemove :: "storage_env \<Rightarrow> string \<Rightarrow> SecureStorage \<Rightarrow> bool \<times> SecureStorage" where
  "libsecretRemove e k s =
     (if keyring_clear_ok e then (keyring s k \<noteq> None, s\<lparr>keyring := (keyring s)(k := None)\<rparr>) else (False, s))"

section \<open>The file\<close>

text \<open>A file that cannot be read is an empty object.\<close>

definition loadFallbackFile :: "storage_env \<Rightarrow> SecureStorage \<Rightarrow> string \<rightharpoonup> string" where
  "loadFallbackFile e s = (if file_read_ok e then fallback s else Map.empty)"

definition saveFallbackFile :: "storage_env \<Rightarrow> (string \<rightharpoonup> string) \<Rightarrow> SecureStorage \<Rightarrow> bool \<times> SecureStorage" where
  "saveFallbackFile e obj s = (if file_write_ok e then (True, s\<lparr>fallback := obj\<rparr>) else (False, s))"

definition fileStore :: "storage_env \<Rightarrow> string \<Rightarrow> string \<Rightarrow> SecureStorage \<Rightarrow> bool \<times> SecureStorage" where
  "fileStore e k v s = saveFallbackFile e ((loadFallbackFile e s)(k \<mapsto> toBase64 e v)) s"

definition fileRetrieve :: "storage_env \<Rightarrow> string \<Rightarrow> SecureStorage \<Rightarrow> string" where
  "fileRetrieve e k s =
     (let encoded = (case loadFallbackFile e s k of None \<Rightarrow> [] | Some x \<Rightarrow> x) in
      if encoded = [] then [] else fromBase64 e encoded)"

definition fileRemove :: "storage_env \<Rightarrow> string \<Rightarrow> SecureStorage \<Rightarrow> bool \<times> SecureStorage" where
  "fileRemove e k s =
     (let root = loadFallbackFile e s in
      if root k = None then (False, s) else saveFallbackFile e (root(k := None)) s)"

definition fileListKeys :: "storage_env \<Rightarrow> SecureStorage \<Rightarrow> string set" where
  "fileListKeys e s = dom (loadFallbackFile e s)"

section \<open>The public operations\<close>

text \<open>The marker of a URL whose token is in the keyring.\<close>

definition mirror :: string where
  "mirror = ''libsecret''"

definition storeToken :: "storage_env \<Rightarrow> string \<Rightarrow> string \<Rightarrow> SecureStorage \<Rightarrow> bool \<times> SecureStorage" where
  "storeToken e url token s =
     (if HAS_LIBSECRET e \<and> m_backend s = LibSecret
      then (case libsecretStore e url token s of
              (True, s) \<Rightarrow> (True, snd (saveFallbackFile e ((loadFallbackFile e s)(url \<mapsto> mirror)) s))
            | (False, s) \<Rightarrow> fileStore e url token s)
      else fileStore e url token s)"

definition retrieveToken :: "storage_env \<Rightarrow> string \<Rightarrow> SecureStorage \<Rightarrow> string" where
  "retrieveToken e url s =
     (if HAS_LIBSECRET e \<and> m_backend s = LibSecret \<and> libsecretRetrieve e url s \<noteq> []
      then libsecretRetrieve e url s
      else fileRetrieve e url s)"

definition removeToken :: "storage_env \<Rightarrow> string \<Rightarrow> SecureStorage \<Rightarrow> bool \<times> SecureStorage" where
  "removeToken e url s =
     (if HAS_LIBSECRET e \<and> m_backend s = LibSecret
      then (case libsecretRemove e url s of
              (removed, s) \<Rightarrow> (removed, snd (saveFallbackFile e ((loadFallbackFile e s)(url := None)) s)))
      else fileRemove e url s)"

definition libsecretListKeys :: "storage_env \<Rightarrow> SecureStorage \<Rightarrow> string set" where
  "libsecretListKeys e s = fileListKeys e s"

definition storedDeploymentUrls :: "storage_env \<Rightarrow> SecureStorage \<Rightarrow> string set" where
  "storedDeploymentUrls e s =
     (if HAS_LIBSECRET e \<and> m_backend s = LibSecret then libsecretListKeys e s else fileListKeys e s)"

section \<open>When it works\<close>

text \<open>Everything works: the calls of the keyring succeed and the file can be read and written.\<close>

definition storage_works :: "storage_env \<Rightarrow> bool" where
  "storage_works e \<longleftrightarrow>
     keyring_store_ok e \<and> keyring_lookup_ok e \<and> keyring_clear_ok e \<and> file_read_ok e \<and> file_write_ok e"

text \<open>Tokens that Base64 gives back; only the file needs it.\<close>

definition usable_token :: "storage_env \<Rightarrow> string \<Rightarrow> bool" where
  "usable_token e token \<longleftrightarrow> token \<noteq> [] \<and> toBase64 e token \<noteq> [] \<and> fromBase64 e (toBase64 e token) = token"

section \<open>The contract of a token store\<close>

text \<open>
  What the session relies on: while the store works, a token that is stored is the one that is retrieved, a
  removed one is not, and other keys are not touched. Where the tokens are is not part of it, nor is
  what a store does that does not work.
\<close>

locale token_store =
  fixes works :: "'e \<Rightarrow> bool"
    and usable :: "'e \<Rightarrow> 'v \<Rightarrow> bool"
    and nothing :: 'v
    and store :: "'e \<Rightarrow> 'k \<Rightarrow> 'v \<Rightarrow> 's \<Rightarrow> bool \<times> 's"
    and retrieve :: "'e \<Rightarrow> 'k \<Rightarrow> 's \<Rightarrow> 'v"
    and remove :: "'e \<Rightarrow> 'k \<Rightarrow> 's \<Rightarrow> bool \<times> 's"
  assumes store_ok: "works e \<Longrightarrow> usable e v \<Longrightarrow> fst (store e k v s)"
    and retrieve_store: "works e \<Longrightarrow> usable e v \<Longrightarrow>
      retrieve e k' (snd (store e k v s)) = (if k' = k then v else retrieve e k' s)"
    and retrieve_remove: "works e \<Longrightarrow> retrieve e k' (snd (remove e k s)) = (if k' = k then nothing else retrieve e k' s)"
begin

text \<open>Stores and removals in sequence implement the updates of a map.\<close>

fun store_run :: "'e \<Rightarrow> ('k \<times> 'v option) list \<Rightarrow> 's \<Rightarrow> 's" where
  "store_run e [] s = s"
| "store_run e ((k, Some v) # ops) s = store_run e ops (snd (store e k v s))"
| "store_run e ((k, None) # ops) s = store_run e ops (snd (remove e k s))"

definition contents :: "'e \<Rightarrow> 's \<Rightarrow> 'k \<Rightarrow> 'v" where
  "contents e s = (\<lambda>k. retrieve e k s)"

lemma store_run_refines:
  assumes "works e" and "\<forall>(k, v) \<in> set ops. \<forall>x. v = Some x \<longrightarrow> usable e x"
  shows "contents e (store_run e ops s) =
    fold (\<lambda>(k, v) m. m(k := (case v of None \<Rightarrow> nothing | Some x \<Rightarrow> x))) ops (contents e s)"
  using assms(2)
proof (induction ops arbitrary: s)
  case (Cons op ops)
  obtain k v where op: "op = (k, v)" by (cases op)
  have c: "contents e (store_run e [(k, v)] s) = (contents e s)(k := (case v of None \<Rightarrow> nothing | Some x \<Rightarrow> x))"
    using Cons.prems op assms(1) by (cases v) (auto simp: contents_def retrieve_store retrieve_remove)
  have r: "store_run e (op # ops) s = store_run e ops (store_run e [(k, v)] s)" unfolding op by (cases v) simp_all
  from Cons.IH [of "store_run e [(k, v)] s"] Cons.prems c show ?case unfolding r by (simp add: op)
qed simp

end

interpretation tokens: token_store storage_works usable_token "[] :: string" storeToken retrieveToken removeToken
proof unfold_locales
  fix e v k k' and s :: SecureStorage
  assume w: "storage_works e" "usable_token e v"
  then show "fst (storeToken e k v s)"
    by (simp add: storage_works_def storeToken_def libsecretStore_def fileStore_def saveFallbackFile_def)
  from w show "retrieveToken e k' (snd (storeToken e k v s)) = (if k' = k then v else retrieveToken e k' s)"
    by (auto simp: storage_works_def usable_token_def storeToken_def libsecretStore_def fileStore_def saveFallbackFile_def
        loadFallbackFile_def retrieveToken_def libsecretRetrieve_def fileRetrieve_def Let_def)
next
  fix e k k' and s :: SecureStorage
  assume "storage_works e"
  then show "retrieveToken e k' (snd (removeToken e k s)) = (if k' = k then [] else retrieveToken e k' s)"
    by (auto simp: storage_works_def removeToken_def libsecretRemove_def fileRemove_def saveFallbackFile_def
        loadFallbackFile_def retrieveToken_def libsecretRetrieve_def fileRetrieve_def Let_def)
qed

section \<open>Properties\<close>

text \<open>C20. As long as keyring and file work, a token that is stored is retrieved, whichever of the two
  keeps it, until it is removed; its URL is listed in between; the tokens of other deployments are
  not touched. Base64 is only used through its documented inverse.\<close>

theorem token_roundtrip:
  assumes "storage_works e" and "token \<noteq> []" and "toBase64 e token \<noteq> []"
    and "fromBase64 e (toBase64 e token) = token"
    and "storeToken e url token s = (ok, s')" and "removeToken e url s' = (removed, s'')"
  shows "ok \<and> retrieveToken e url s' = token \<and> url \<in> storedDeploymentUrls e s' \<and>
    removed \<and> retrieveToken e url s'' = [] \<and> url \<notin> storedDeploymentUrls e s'' \<and>
    (\<forall>url'. url' \<noteq> url \<longrightarrow> retrieveToken e url' s' = retrieveToken e url' s \<and>
       retrieveToken e url' s'' = retrieveToken e url' s)"
proof -
  have w: "keyring_store_ok e" "keyring_lookup_ok e" "keyring_clear_ok e" "file_read_ok e" "file_write_ok e"
    using assms(1) by (simp_all add: storage_works_def)
  note defs = storeToken_def removeToken_def retrieveToken_def storedDeploymentUrls_def libsecretStore_def
    libsecretRetrieve_def libsecretRemove_def loadFallbackFile_def saveFallbackFile_def fileStore_def fileRetrieve_def
    fileRemove_def fileListKeys_def libsecretListKeys_def
  show ?thesis
  proof (cases "HAS_LIBSECRET e \<and> m_backend s = LibSecret")
    case True
    with assms(5) w have s': "ok" "s' = s\<lparr>keyring := (keyring s)(url \<mapsto> token), fallback := (fallback s)(url \<mapsto> mirror)\<rparr>"
      by (simp_all add: storeToken_def libsecretStore_def loadFallbackFile_def saveFallbackFile_def)
    with assms(6) w True have "removed" "s'' = s\<lparr>keyring := (keyring s)(url := None), fallback := (fallback s)(url := None)\<rparr>"
      by (simp_all add: removeToken_def libsecretRemove_def loadFallbackFile_def saveFallbackFile_def)
    with s' w True assms(2) show ?thesis
      by (simp add: retrieveToken_def libsecretRetrieve_def fileRetrieve_def loadFallbackFile_def storedDeploymentUrls_def
          libsecretListKeys_def fileListKeys_def)
  next
    case False
    with assms(5) w have s': "ok" "s' = s\<lparr>fallback := (fallback s)(url \<mapsto> toBase64 e token)\<rparr>"
      by (simp_all add: storeToken_def fileStore_def loadFallbackFile_def saveFallbackFile_def)
    with assms(6) w False have "removed" "s'' = s\<lparr>fallback := (fallback s)(url := None)\<rparr>"
      by (simp_all add: removeToken_def fileRemove_def loadFallbackFile_def saveFallbackFile_def split: if_splits)
    with s' w False assms(3,4) show ?thesis
      by (auto simp: retrieveToken_def fileRetrieve_def loadFallbackFile_def storedDeploymentUrls_def fileListKeys_def)
  qed
qed

text \<open>C39. What a keyring that fails does. After a token was stored in it, a failing lookup does not give
  the empty string but the decoded marker of the file, which is sent as a token; and when a newer
  token could only be stored in the file, the keyring, once it answers again, gives the older one.\<close>

theorem keyring_failures:
  assumes "HAS_LIBSECRET e" and "m_backend s = LibSecret" and "storage_works e" and "old \<noteq> []"
    and "fromBase64 e mirror \<noteq> []"
    and "storeToken e url old s = (ok, s')"
    and "storeToken (e\<lparr>keyring_store_ok := False\<rparr>) url new s' = (ok', s'')"
  shows "ok \<and> ok' \<and>
    retrieveToken (e\<lparr>keyring_lookup_ok := False\<rparr>) url s' = fromBase64 e mirror \<and>
    retrieveToken (e\<lparr>keyring_lookup_ok := False\<rparr>) url s' \<noteq> [] \<and>
    retrieveToken e url s'' = old"
proof -
  have w: "keyring_store_ok e" "keyring_lookup_ok e" "keyring_clear_ok e" "file_read_ok e" "file_write_ok e"
    using assms(3) by (simp_all add: storage_works_def)
  have s': "ok" "s' = s\<lparr>keyring := (keyring s)(url \<mapsto> old), fallback := (fallback s)(url \<mapsto> mirror)\<rparr>"
    using assms(1,2,6) w by (simp_all add: storeToken_def libsecretStore_def loadFallbackFile_def saveFallbackFile_def)
  have s'': "ok'" "keyring s'' url = Some old" "m_backend s'' = LibSecret"
    using assms(1,2,7) s' w
    by (auto simp: storeToken_def libsecretStore_def loadFallbackFile_def saveFallbackFile_def fileStore_def)
  from s' s'' assms(1,2,4,5) w show ?thesis
    by (simp add: retrieveToken_def libsecretRetrieve_def fileRetrieve_def loadFallbackFile_def mirror_def)
qed

section \<open>Examples\<close>

text \<open>An encoding with an inverse stands for Base64.\<close>

definition demo_storage_env :: storage_env where
  "demo_storage_env =
     \<lparr>HAS_LIBSECRET = True, probe_ok = True, keyring_store_ok = True, keyring_lookup_ok = True, keyring_clear_ok = True,
      file_read_ok = True, file_write_ok = True, toBase64 = (\<lambda>t. CHR ''x'' # t), fromBase64 = drop 1\<rparr>"

definition demo_storage :: SecureStorage where
  "demo_storage = new_SecureStorage demo_storage_env Map.empty Map.empty"

lemma demo_storage_ok:
  "storage_works demo_storage_env" "HAS_LIBSECRET demo_storage_env" "m_backend demo_storage = LibSecret"
  by (simp_all add: demo_storage_env_def storage_works_def demo_storage_def new_SecureStorage_def detectBackend_def)

theorem token_roundtrip_witness:
  "retrieveToken demo_storage_env ''u'' (snd (storeToken demo_storage_env ''u'' ''tok'' demo_storage)) = ''tok''"
proof -
  obtain ok s' where s: "storeToken demo_storage_env ''u'' ''tok'' demo_storage = (ok, s')" by fastforce
  obtain removed s'' where r: "removeToken demo_storage_env ''u'' s' = (removed, s'')" by fastforce
  have "toBase64 demo_storage_env ''tok'' \<noteq> []" "fromBase64 demo_storage_env (toBase64 demo_storage_env ''tok'') = ''tok''"
    by (simp_all add: demo_storage_env_def)
  from token_roundtrip [OF demo_storage_ok(1) _ this s r] s show ?thesis by simp
qed

theorem keyring_failures_witness:
  "retrieveToken (demo_storage_env\<lparr>keyring_lookup_ok := False\<rparr>) ''u''
     (snd (storeToken demo_storage_env ''u'' ''tok'' demo_storage)) = ''ibsecret''"
proof -
  obtain ok s' where s: "storeToken demo_storage_env ''u'' ''tok'' demo_storage = (ok, s')" by fastforce
  obtain ok' s'' where r: "storeToken (demo_storage_env\<lparr>keyring_store_ok := False\<rparr>) ''u'' ''new'' s' = (ok', s'')"
    by fastforce
  have b: "fromBase64 demo_storage_env mirror = ''ibsecret''" by (simp add: demo_storage_env_def mirror_def)
  from keyring_failures [OF demo_storage_ok(2,3,1) _ _ s r] b s show ?thesis by simp
qed

end
