(* ===== verification/Session.thy ===== *)
theory Session
  imports Machine Api_Client Secure_Storage
begin

text \<open>
  Signing in and out of deployments (\<^verbatim>\<open>src/app/src/data/SessionManager.cpp\<close>): the API client with
  its credentials, the stored tokens, the list of deployments and what of it is saved. The answers
  to its requests are events; log output is left out.
\<close>

section \<open>State\<close>

record Deployment =
  dep_id :: string
  dep_name :: string
  dep_url :: string
  dep_username :: string
  dep_avatarUrl :: string
  dep_isActive :: bool
  dep_addedAt :: date

definition no_deployment :: Deployment where
  "no_deployment =
     \<lparr>dep_id = [], dep_name = [], dep_url = [], dep_username = [], dep_avatarUrl = [], dep_isActive = False,
      dep_addedAt = None\<rparr>"

record User =
  us_id :: string
  us_username :: string
  us_email :: string
  us_avatarUrl :: string

definition user_fromJson :: "json_object \<Rightarrow> User" where
  "user_fromJson obj =
     \<lparr>us_id = str obj ''id'', us_username = str obj ''username'', us_email = str obj ''email'',
      us_avatarUrl = str obj ''avatar_url''\<rparr>"

text \<open>The requests that are not answered yet, with what their handlers have captured.\<close>

datatype session_request = Login_request string string | Validate_request

record SessionManager =
  m_apiClient :: CoderApiClient
  m_storage :: SecureStorage
  m_activeDeployment :: Deployment
  m_deployments :: "Deployment list"
  tokenValidator :: bool
  saved_deployments :: string
  pending :: "session_request list"

datatype session_effect =
  AuthStateChanged | TokenExpired | LoginSucceeded string | LoginFailed string | Api "api_signal list" | Request http_request

type_synonym session_out = "SessionManager \<times> session_effect list"

text \<open>Qt's formats: JSON text and ISO dates.\<close>

record format_env =
  json_text :: "json \<Rightarrow> string"
  json_of :: "string \<Rightarrow> json"
  iso_text :: "date \<Rightarrow> string"
  iso_of :: "string \<Rightarrow> date"

section \<open>Saving and loading\<close>

text \<open>An object of Qt keeps its keys in their order.\<close>

definition json_of_deployment :: "format_env \<Rightarrow> Deployment \<Rightarrow> json" where
  "json_of_deployment f d =
     JObject [(''addedAt'', JString (iso_text f (dep_addedAt d))), (''avatarUrl'', JString (dep_avatarUrl d)),
       (''id'', JString (dep_id d)), (''isActive'', JBool (dep_isActive d)), (''name'', JString (dep_name d)),
       (''url'', JString (dep_url d)), (''username'', JString (dep_username d))]"

definition saveDeployments :: "format_env \<Rightarrow> SessionManager \<Rightarrow> SessionManager" where
  "saveDeployments f s =
     s\<lparr>saved_deployments := json_text f (JArray (map (json_of_deployment f) (m_deployments s)))\<rparr>"

definition deployment_of_json :: "format_env \<Rightarrow> json \<Rightarrow> Deployment" where
  "deployment_of_json f val =
     (let obj = toObject val in
      \<lparr>dep_id = str obj ''id'', dep_name = str obj ''name'', dep_url = str obj ''url'',
       dep_username = str obj ''username'', dep_avatarUrl = str obj ''avatarUrl'',
       dep_isActive = toBool (value_of obj ''isActive''), dep_addedAt = iso_of f (str obj ''addedAt'')\<rparr>)"

fun load_loop :: "format_env \<Rightarrow> json list \<Rightarrow> SessionManager \<Rightarrow> SessionManager" where
  "load_loop f [] s = s"
| "load_loop f (val # vals) s =
     (let d = deployment_of_json f val; s = s\<lparr>m_deployments := m_deployments s @ [d]\<rparr> in
      load_loop f vals (if dep_isActive d then s\<lparr>m_activeDeployment := d\<rparr> else s))"

definition loadDeployments :: "format_env \<Rightarrow> SessionManager \<Rightarrow> SessionManager" where
  "loadDeployments f s =
     (if saved_deployments s = [] then s
      else case json_of f (saved_deployments s) of
        JArray arr \<Rightarrow> load_loop f arr s
      | _ \<Rightarrow> s)"

section \<open>Credentials\<close>

definition set_credentials :: "string \<Rightarrow> string \<Rightarrow> SessionManager \<Rightarrow> session_out" where
  "set_credentials url token s =
     (case api_setBaseUrl url (m_apiClient s) of (c, out) \<Rightarrow>
        case api_setSessionToken token c of (c, out') \<Rightarrow> (s\<lparr>m_apiClient := c\<rparr>, [Api (out @ out')]))"

definition clear_token :: "SessionManager \<Rightarrow> session_out" where
  "clear_token s = (case api_setSessionToken [] (m_apiClient s) of (c, out) \<Rightarrow> (s\<lparr>m_apiClient := c\<rparr>, [Api out]))"

text \<open>Signing out clears the token first, then the URL.\<close>

definition clear_credentials :: "SessionManager \<Rightarrow> session_out" where
  "clear_credentials s =
     (case api_setSessionToken [] (m_apiClient s) of (c, out) \<Rightarrow>
        case api_setBaseUrl [] c of (c, out') \<Rightarrow> (s\<lparr>m_apiClient := c\<rparr>, [Api (out @ out')]))"

definition startTokenValidation :: "SessionManager \<Rightarrow> SessionManager" where
  "startTokenValidation s = s\<lparr>tokenValidator := True\<rparr>"

definition new_SessionManager ::
    "format_env \<Rightarrow> storage_env \<Rightarrow> CoderApiClient \<Rightarrow> SecureStorage \<Rightarrow> string \<Rightarrow> session_out" where
  "new_SessionManager f e c st saved =
     (let s = loadDeployments f
            \<lparr>m_apiClient = c, m_storage = st, m_activeDeployment = no_deployment, m_deployments = [],
             tokenValidator = False, saved_deployments = saved, pending = []\<rparr>;
          url = dep_url (m_activeDeployment s); token = retrieveToken e url (m_storage s) in
      if url \<noteq> [] \<and> token \<noteq> []
      then (case set_credentials url token s of (s, out) \<Rightarrow> (startTokenValidation s, out))
      else (s, []))"

section \<open>Properties of the session\<close>

definition isAuthenticated :: "SessionManager \<Rightarrow> bool" where
  "isAuthenticated s \<longleftrightarrow> api_isAuthenticated (m_apiClient s)"

definition currentUrl :: "SessionManager \<Rightarrow> string" where
  "currentUrl s = dep_url (m_activeDeployment s)"

definition currentUsername :: "SessionManager \<Rightarrow> string" where
  "currentUsername s = dep_username (m_activeDeployment s)"

definition sessionToken :: "storage_env \<Rightarrow> SessionManager \<Rightarrow> string" where
  "sessionToken e s =
     (if dep_url (m_activeDeployment s) = [] then []
      else retrieveToken e (dep_url (m_activeDeployment s)) (m_storage s))"

section \<open>Login and logout\<close>

definition inactive :: "Deployment \<Rightarrow> Deployment" where
  "inactive d = d\<lparr>dep_isActive := False\<rparr>"

text \<open>The first entry with the URL is replaced; \<open>dep\<close> is appended if there is none.\<close>

fun put_deployment :: "Deployment \<Rightarrow> Deployment list \<Rightarrow> Deployment list" where
  "put_deployment dep [] = [dep]"
| "put_deployment dep (d # ds) = (if dep_url d = dep_url dep then dep # ds else d # put_deployment dep ds)"

definition login :: "string \<Rightarrow> string \<Rightarrow> SessionManager \<Rightarrow> session_out" where
  "login url token s =
     (case set_credentials url token s of (s, out) \<Rightarrow>
        (s\<lparr>pending := pending s @ [Login_request url token]\<rparr>, out @ [Request (getAuthenticatedUser (m_apiClient s))]))"

text \<open>The answer to a login, at the time \<open>now\<close>. That the token could not be stored is logged only.\<close>

definition login_answered ::
    "format_env \<Rightarrow> storage_env \<Rightarrow> date \<Rightarrow> string \<Rightarrow> string \<Rightarrow> http_reply \<Rightarrow> SessionManager \<Rightarrow> session_out" where
  "login_answered f e now url token r s =
     (if rp_error r
      then (case clear_token s of (s, out) \<Rightarrow> (s, out @ [LoginFailed (rp_errorString r)]))
      else
        let user = user_fromJson (toObject (json_of f (rp_body r)));
            s = s\<lparr>m_storage := snd (storeToken e url token (m_storage s))\<rparr>;
            dep = \<lparr>dep_id = us_id user, dep_name = url, dep_url = url, dep_username = us_username user,
                   dep_avatarUrl = us_avatarUrl user, dep_isActive = True, dep_addedAt = now\<rparr>;
            s = s\<lparr>m_deployments := put_deployment dep (map inactive (m_deployments s)), m_activeDeployment := dep\<rparr>;
            s = startTokenValidation (saveDeployments f s) in
        (s, [AuthStateChanged, LoginSucceeded (us_username user)]))"

definition logout :: "format_env \<Rightarrow> storage_env \<Rightarrow> SessionManager \<Rightarrow> session_out" where
  "logout f e s =
     (let url = dep_url (m_activeDeployment s);
          s = (if url \<noteq> [] then s\<lparr>m_storage := snd (removeToken e url (m_storage s))\<rparr> else s);
          (s, out) = clear_credentials s;
          s = s\<lparr>m_deployments := map (\<lambda>d. if dep_url d = url then inactive d else d) (m_deployments s),
                m_activeDeployment := no_deployment\<rparr>;
          s = (saveDeployments f s)\<lparr>tokenValidator := False\<rparr> in
      (s, out @ [AuthStateChanged]))"

section \<open>Validation\<close>

definition validateToken :: "SessionManager \<Rightarrow> session_out" where
  "validateToken s =
     (if \<not> isAuthenticated s then (s, [])
      else (s\<lparr>pending := pending s @ [Validate_request]\<rparr>, [Request (getAuthenticatedUser (m_apiClient s))]))"

definition validation_answered :: "http_reply \<Rightarrow> SessionManager \<Rightarrow> session_out" where
  "validation_answered r s = (if rp_status r = 401 then (s\<lparr>tokenValidator := False\<rparr>, [TokenExpired]) else (s, []))"

section \<open>Several deployments\<close>

fun find_deployment :: "string \<Rightarrow> Deployment list \<Rightarrow> Deployment option" where
  "find_deployment url [] = None"
| "find_deployment url (d # ds) = (if dep_url d = url then Some d else find_deployment url ds)"

definition deployments :: "format_env \<Rightarrow> SessionManager \<Rightarrow> (string \<times> json) list list" where
  "deployments f s = map (\<lambda>d. toObject (json_of_deployment f d)) (m_deployments s)"

definition switchDeployment :: "format_env \<Rightarrow> storage_env \<Rightarrow> string \<Rightarrow> SessionManager \<Rightarrow> session_out" where
  "switchDeployment f e url s =
     (case find_deployment url (m_deployments s) of
        None \<Rightarrow> (s, [])
      | Some d \<Rightarrow>
          let token = retrieveToken e url (m_storage s) in
          if token = [] then (s, [LoginFailed (''No stored token for '' @ url)])
          else
            let target = (inactive d)\<lparr>dep_isActive := True\<rparr>;
                s = s\<lparr>m_deployments := put_deployment target (map inactive (m_deployments s)),
                      m_activeDeployment := target\<rparr>;
                (s, out) = set_credentials url token s;
                s = startTokenValidation (saveDeployments f s) in
            (s, out @ [AuthStateChanged]))"

definition removeDeployment :: "format_env \<Rightarrow> storage_env \<Rightarrow> string \<Rightarrow> SessionManager \<Rightarrow> session_out" where
  "removeDeployment f e url s =
     (let s = s\<lparr>m_storage := snd (removeToken e url (m_storage s)),
                m_deployments := filter (\<lambda>d. dep_url d \<noteq> url) (m_deployments s)\<rparr>;
          (s, out) =
            (if dep_url (m_activeDeployment s) = url
             then (case clear_credentials (s\<lparr>m_activeDeployment := no_deployment\<rparr>) of
                     (s, out) \<Rightarrow> (s\<lparr>tokenValidator := False\<rparr>, out @ [AuthStateChanged]))
             else (s, [])) in
      (saveDeployments f s, out))"

section \<open>Everything that happens to the session\<close>

text \<open>Requests of the user, the timer, and the answer to a request that is pending.\<close>

datatype session_event =
  Login string string | Logout | Validate | Switch string | Remove string | Answer nat date http_reply

fun session_step :: "format_env \<Rightarrow> storage_env \<times> session_event \<Rightarrow> SessionManager \<Rightarrow> session_out" where
  "session_step f (e, Login url token) s = login url token s"
| "session_step f (e, Logout) s = logout f e s"
| "session_step f (e, Validate) s = validateToken s"
| "session_step f (e, Switch url) s = switchDeployment f e url s"
| "session_step f (e, Remove url) s = removeDeployment f e url s"
| "session_step f (e, Answer i now r) s =
     (if i < length (pending s)
      then
        let q = pending s ! i; s = s\<lparr>pending := take i (pending s) @ drop (Suc i) (pending s)\<rparr>;
            (s, out) = (case q of
              Login_request url token \<Rightarrow> login_answered f e now url token r s
            | Validate_request \<Rightarrow> validation_answered r s) in
        (s, Api (error_handler users_me r) # out)
      else (s, []))"

fun session_run :: "format_env \<Rightarrow> (storage_env \<times> session_event) list \<Rightarrow> SessionManager \<Rightarrow> session_out" where
  "session_run f [] s = (s, [])"
| "session_run f (ev # evs) s =
     (case session_step f ev s of (s, out) \<Rightarrow> case session_run f evs s of (s, out') \<Rightarrow> (s, out @ out'))"

interpretation sessions: machine "session_step f" "session_run f" for f
  by unfold_locales simp_all

section \<open>The deployments\<close>

abbreviation urls :: "SessionManager \<Rightarrow> string list" where
  "urls s \<equiv> map dep_url (m_deployments s)"

text \<open>The list and the active deployment agree.\<close>

definition active_ok :: "SessionManager \<Rightarrow> bool" where
  "active_ok s \<longleftrightarrow>
     distinct (urls s) \<and>
     (m_activeDeployment s = no_deployment \<and> filter dep_isActive (m_deployments s) = [] \<or>
      dep_isActive (m_activeDeployment s) \<and> filter dep_isActive (m_deployments s) = [m_activeDeployment s])"

text \<open>What is saved describes the list.\<close>

definition saved_ok :: "format_env \<Rightarrow> SessionManager \<Rightarrow> bool" where
  "saved_ok f s \<longleftrightarrow>
     saved_deployments s = [] \<and> m_deployments s = [] \<or>
     saved_deployments s = json_text f (JArray (map (json_of_deployment f) (m_deployments s)))"

lemma inactive_simps [simp]:
  "dep_isActive (inactive d) = False" "dep_url (inactive d) = dep_url d" "dep_addedAt (inactive d) = dep_addedAt d"
  by (simp_all add: inactive_def)

lemma inactive_same [simp]: "\<not> dep_isActive d \<Longrightarrow> inactive d = d"
  by (simp add: inactive_def)

lemma no_deployment_simps [simp]: "dep_isActive no_deployment = False" "dep_url no_deployment = []"
  by (simp_all add: no_deployment_def)

lemma urls_put: "map dep_url (put_deployment dep ds) =
    (if dep_url dep \<in> dep_url ` set ds then map dep_url ds else map dep_url ds @ [dep_url dep])"
  by (induction ds) auto

lemma active_put:
  "dep_isActive dep \<Longrightarrow> filter dep_isActive (put_deployment dep (map inactive ds)) = [dep]"
proof (induction ds)
  case (Cons d ds)
  have "filter dep_isActive (map inactive ds) = []" for ds by (simp add: filter_empty_conv)
  with Cons show ?case by simp
qed simp

lemma set_put: "set (put_deployment dep ds) \<subseteq> insert dep (set ds)"
  by (induction ds) auto

lemma active_ok_put:
  assumes "distinct (urls s)" and "dep_isActive dep"
  shows "active_ok (s\<lparr>m_deployments := put_deployment dep (map inactive (m_deployments s)), m_activeDeployment := dep\<rparr>)"
proof -
  have u: "map dep_url (map inactive ds) = map dep_url ds" for ds by (induction ds) auto
  have "distinct (map dep_url (put_deployment dep (map inactive (m_deployments s))))"
    using assms(1) unfolding urls_put u by (auto simp: image_iff)
  with active_put [OF assms(2)] assms(2) show ?thesis by (simp add: active_ok_def)
qed

text \<open>Most operations change neither the list nor the active deployment.\<close>

definition same_deployments :: "SessionManager \<Rightarrow> SessionManager \<Rightarrow> bool" where
  "same_deployments s s' \<longleftrightarrow>
     m_deployments s' = m_deployments s \<and> m_activeDeployment s' = m_activeDeployment s \<and>
     saved_deployments s' = saved_deployments s"

lemma same_ok: "same_deployments s s' \<Longrightarrow> active_ok s' = active_ok s \<and> saved_ok f s' = saved_ok f s"
  by (simp add: same_deployments_def active_ok_def saved_ok_def)

lemma same_credentials:
  "set_credentials url token s = (s', out) \<Longrightarrow> same_deployments s s' \<and> pending s' = pending s \<and> m_storage s' = m_storage s"
  "clear_token s = (s', out) \<Longrightarrow> same_deployments s s' \<and> pending s' = pending s \<and> m_storage s' = m_storage s"
  "clear_credentials s = (s', out) \<Longrightarrow> same_deployments s s' \<and> pending s' = pending s \<and> m_storage s' = m_storage s"
  by (auto simp: set_credentials_def clear_token_def clear_credentials_def same_deployments_def split: prod.splits)

lemma active_ok_save [simp]: "active_ok (saveDeployments f s) = active_ok s"
  "active_ok (startTokenValidation s) = active_ok s" "active_ok (s\<lparr>tokenValidator := b\<rparr>) = active_ok s"
  "active_ok (s\<lparr>pending := ps\<rparr>) = active_ok s" "active_ok (s\<lparr>m_storage := st\<rparr>) = active_ok s"
  "active_ok (s\<lparr>m_apiClient := c\<rparr>) = active_ok s"
  by (simp_all add: active_ok_def saveDeployments_def startTokenValidation_def)

lemma saved_ok_save [simp]: "saved_ok f (saveDeployments f s)"
  "saved_ok f (startTokenValidation s) = saved_ok f s" "saved_ok f (s\<lparr>tokenValidator := b\<rparr>) = saved_ok f s"
  "saved_ok f (s\<lparr>pending := ps\<rparr>) = saved_ok f s" "saved_ok f (s\<lparr>m_storage := st\<rparr>) = saved_ok f s"
  by (simp_all add: saved_ok_def saveDeployments_def startTokenValidation_def)

definition session_ok :: "format_env \<Rightarrow> SessionManager \<Rightarrow> bool" where
  "session_ok f s \<longleftrightarrow> active_ok s \<and> saved_ok f s"

lemma ok_login:
  "session_ok f s \<Longrightarrow> session_ok f (fst (login url token s))"
  using same_credentials(1) [of url token s] same_ok
  by (auto simp: login_def session_ok_def split: prod.split)

lemma ok_login_answered:
  assumes "session_ok f s"
  shows "session_ok f (fst (login_answered f e now url token r s))"
proof (cases "rp_error r")
  case True
  with assms same_credentials(2) [of s] same_ok show ?thesis
    by (auto simp: login_answered_def session_ok_def split: prod.split)
next
  case False
  let ?s = "s\<lparr>m_storage := snd (storeToken e url token (m_storage s))\<rparr>"
  from assms have "distinct (urls ?s)" by (simp add: session_ok_def active_ok_def)
  from active_ok_put [OF this] False show ?thesis
    by (simp add: login_answered_def Let_def session_ok_def)
qed

lemma find_deployment_Some: "find_deployment url ds = Some d \<Longrightarrow> d \<in> set ds \<and> dep_url d = url"
  by (induction ds) (auto split: if_splits)

lemma ok_switch:
  assumes "session_ok f s"
  shows "session_ok f (fst (switchDeployment f e url s))"
proof (cases "find_deployment url (m_deployments s)")
  case None
  with assms show ?thesis by (simp add: switchDeployment_def)
next
  case (Some d)
  let ?t = "(inactive d)\<lparr>dep_isActive := True\<rparr>"
  let ?s = "s\<lparr>m_deployments := put_deployment ?t (map inactive (m_deployments s)), m_activeDeployment := ?t\<rparr>"
  obtain s1 out where c: "set_credentials url (retrieveToken e url (m_storage s)) ?s = (s1, out)" by fastforce
  have "active_ok ?s" using assms by (intro active_ok_put) (simp_all add: session_ok_def active_ok_def)
  then have "active_ok s1" using same_credentials(1) [OF c] same_ok by blast
  with Some c assms show ?thesis by (simp add: switchDeployment_def Let_def session_ok_def)
qed

lemma filter_map_logout:
  assumes "distinct (map dep_url ds)" and "filter dep_isActive ds = (if dep_isActive a then [a] else [])"
    and "\<not> dep_isActive a \<Longrightarrow> filter dep_isActive ds = []"
  shows "filter dep_isActive (map (\<lambda>d. if dep_url d = dep_url a then inactive d else d) ds) = []"
proof -
  have "\<not> dep_isActive d \<or> d = a" if "d \<in> set ds" for d
  proof (rule ccontr)
    assume n: "\<not> (\<not> dep_isActive d \<or> d = a)"
    then have "d \<in> set (filter dep_isActive ds)" using that by simp
    with assms(2) n show False by (auto split: if_splits)
  qed
  then show ?thesis by (auto simp: filter_empty_conv)
qed

lemma ok_logout:
  assumes "session_ok f s"
  shows "session_ok f (fst (logout f e s))"
proof -
  let ?url = "dep_url (m_activeDeployment s)"
  let ?s = "if ?url \<noteq> [] then s\<lparr>m_storage := snd (removeToken e ?url (m_storage s))\<rparr> else s"
  obtain s1 out where c: "clear_credentials ?s = (s1, out)" by fastforce
  from same_credentials(3) [OF c] have d: "m_deployments s1 = m_deployments s"
    by (auto simp: same_deployments_def split: if_splits)
  from assms have a: "active_ok s" by (simp add: session_ok_def)
  let ?ds = "map (\<lambda>d. if dep_url d = ?url then inactive d else d) (m_deployments s)"
  have "filter dep_isActive ?ds = []"
    by (rule filter_map_logout) (use a in \<open>auto simp: active_ok_def\<close>)
  moreover have "map dep_url ?ds = urls s" by (simp add: o_def)
  then have "distinct (map dep_url ?ds)" using a by (simp only: active_ok_def)
  ultimately show ?thesis using c d
    by (simp add: logout_def Let_def session_ok_def del: map_map) (simp add: active_ok_def del: map_map)
qed

lemma ok_remove:
  assumes "session_ok f s"
  shows "session_ok f (fst (removeDeployment f e url s))"
proof -
  from assms have a: "active_ok s" by (simp add: session_ok_def)
  let ?s = "s\<lparr>m_storage := snd (removeToken e url (m_storage s)), m_deployments := filter (\<lambda>d. dep_url d \<noteq> url) (m_deployments s)\<rparr>"
  have dist: "distinct (map dep_url (filter (\<lambda>d. dep_url d \<noteq> url) (m_deployments s)))"
    using a by (simp add: active_ok_def distinct_map_filter)
  have fa: "filter dep_isActive (filter (\<lambda>d. dep_url d \<noteq> url) ds) = filter (\<lambda>d. dep_url d \<noteq> url) (filter dep_isActive ds)" for ds
    by (simp add: conj_commute)
  show ?thesis
  proof (cases "dep_url (m_activeDeployment s) = url")
    case True
    obtain s1 out where c: "clear_credentials (?s\<lparr>m_activeDeployment := no_deployment\<rparr>) = (s1, out)" by fastforce
    have "filter dep_isActive (filter (\<lambda>d. dep_url d \<noteq> url) (m_deployments s)) = []"
      using fa [of "m_deployments s"] a True by (auto simp only: active_ok_def filter.simps simp_thms if_True if_False)
    then have "active_ok (?s\<lparr>m_activeDeployment := no_deployment\<rparr>)" using dist by (simp add: active_ok_def)
    with same_credentials(3) [OF c] same_ok have "active_ok s1" by blast
    with True c show ?thesis by (simp add: removeDeployment_def Let_def session_ok_def)
  next
    case False
    have "filter dep_isActive (filter (\<lambda>d. dep_url d \<noteq> url) (m_deployments s)) = filter dep_isActive (m_deployments s)"
      using fa [of "m_deployments s"] a False by (auto simp only: active_ok_def filter.simps simp_thms if_True if_False)
    then have "active_ok ?s" using dist a by (simp add: active_ok_def)
    with False show ?thesis by (simp add: removeDeployment_def Let_def session_ok_def)
  qed
qed

lemma ok_answer:
  assumes ok: "session_ok f s"
  shows "session_ok f (fst (session_step f (e, Answer i now r) s))"
proof (cases "i < length (pending s)")
  case True
  let ?s = "s\<lparr>pending := take i (pending s) @ drop (Suc i) (pending s)\<rparr>"
  have p: "session_ok f ?s" using ok by (simp add: session_ok_def)
  show ?thesis
  proof (cases "pending s ! i")
    case (Login_request url token)
    obtain s1 out where l: "login_answered f e now url token r ?s = (s1, out)" by fastforce
    from ok_login_answered [OF p, of e now url token r] l True Login_request show ?thesis by (simp add: Let_def)
  next
    case Validate_request
    with p True show ?thesis by (simp add: Let_def validation_answered_def session_ok_def)
  qed
qed (use ok in simp)

lemma ok_step:
  assumes "session_ok f s"
  shows "session_ok f (fst (session_step f (e, ev) s))"
proof (cases ev)
  case Validate
  then show ?thesis using assms by (simp add: validateToken_def session_ok_def)
qed (use ok_login [OF assms] ok_logout [OF assms] ok_switch [OF assms] ok_remove [OF assms] ok_answer [OF assms] in
    \<open>simp_all del: session_step.simps(6)\<close>)

lemma ok_run: "session_ok f s \<Longrightarrow> session_ok f (fst (session_run f evs s))"
  by (erule sessions.preserved) (metis ok_step prod.collapse)

section \<open>Credentials of the client\<close>

definition credentials :: "string \<Rightarrow> string \<Rightarrow> SessionManager \<Rightarrow> SessionManager" where
  "credentials url token s =
     s\<lparr>m_apiClient := (m_apiClient s)\<lparr>ac_baseUrl := chop_slashes url, ac_sessionToken := token\<rparr>\<rparr>"

lemma set_credentials_spec: "\<exists>o1. set_credentials url token s = (credentials url token s, [Api o1])"
  by (simp add: set_credentials_def api_setBaseUrl_def api_setSessionToken_def credentials_def Let_def)

section \<open>Loading what was saved\<close>

text \<open>A deployment after a restart: the time loses what its text does not show.\<close>

definition reloaded :: "format_env \<Rightarrow> Deployment \<Rightarrow> Deployment" where
  "reloaded f d = d\<lparr>dep_addedAt := iso_of f (iso_text f (dep_addedAt d))\<rparr>"

lemma reloaded_simps [simp]: "dep_url (reloaded f d) = dep_url d" "dep_isActive (reloaded f d) = dep_isActive d"
  by (simp_all add: reloaded_def)

lemma deployment_of_json_of: "deployment_of_json f (json_of_deployment f d) = reloaded f d"
  by (simp add: deployment_of_json_def json_of_deployment_def reloaded_def Let_def value_of_def)

lemma load_loop_run:
  "load_loop f (map (json_of_deployment f) ds) s =
     s\<lparr>m_deployments := m_deployments s @ map (reloaded f) ds,
       m_activeDeployment := last (m_activeDeployment s # filter dep_isActive (map (reloaded f) ds))\<rparr>"
proof (induction ds arbitrary: s)
  case (Cons d ds)
  then show ?case by (simp add: deployment_of_json_of Let_def)
qed simp

lemma ok_fresh: "session_ok f (fst (new_SessionManager f e c st []))"
  by (simp add: new_SessionManager_def loadDeployments_def Let_def session_ok_def active_ok_def saved_ok_def)

section \<open>Properties\<close>

text \<open>C13. Whatever logins, logouts, switches, removals, validations and answers happen in whatever order,
  starting with nothing saved: no URL is listed twice; there is no active deployment and no entry is
  marked active, or the active deployment is the one entry that is marked; and what is saved describes
  the list.\<close>

theorem session_deployments:
  assumes "session_run f evs (fst (new_SessionManager f e c st [])) = (s, out)"
  shows "distinct (urls s) \<and>
    (m_activeDeployment s = no_deployment \<and> filter dep_isActive (m_deployments s) = [] \<or>
     dep_isActive (m_activeDeployment s) \<and> filter dep_isActive (m_deployments s) = [m_activeDeployment s]) \<and>
    (saved_deployments s = [] \<and> m_deployments s = [] \<or>
     saved_deployments s = json_text f (JArray (map (json_of_deployment f) (m_deployments s))))"
  using ok_run [OF ok_fresh, of f evs e c st] assms by (simp add: session_ok_def active_ok_def saved_ok_def)

lemma restart:
  assumes ok: "session_ok f s"
    and json: "json_of f (json_text f (JArray (map (json_of_deployment f) (m_deployments s)))) =
        JArray (map (json_of_deployment f) (m_deployments s))"
      "json_text f (JArray (map (json_of_deployment f) (m_deployments s))) \<noteq> []"
    and s0: "m_deployments s0 = []" "m_activeDeployment s0 = no_deployment" "saved_deployments s0 = saved_deployments s"
  shows "loadDeployments f s0 =
    s0\<lparr>m_deployments := map (reloaded f) (m_deployments s),
      m_activeDeployment := (if dep_isActive (m_activeDeployment s) then reloaded f (m_activeDeployment s) else no_deployment)\<rparr>"
proof -
  have r: "filter dep_isActive (map (reloaded f) ds) = map (reloaded f) (filter dep_isActive ds)" for ds
    by (simp add: filter_map o_def)
  from ok have "last (no_deployment # filter dep_isActive (map (reloaded f) (m_deployments s))) =
      (if dep_isActive (m_activeDeployment s) then reloaded f (m_activeDeployment s) else no_deployment)"
    unfolding r by (auto simp: session_ok_def active_ok_def)
  with ok json json(2) [symmetric] s0 show ?thesis
    by (auto simp: session_ok_def saved_ok_def loadDeployments_def load_loop_run active_ok_def
        intro: SessionManager.equality)
qed

lemma restart_spec:
  assumes "session_ok f s"
    and "json_of f (json_text f (JArray (map (json_of_deployment f) (m_deployments s)))) =
      JArray (map (json_of_deployment f) (m_deployments s))"
    and "json_text f (JArray (map (json_of_deployment f) (m_deployments s))) \<noteq> []"
    and "new_SessionManager f e c st (saved_deployments s) = (s', out)"
  shows "m_deployments s' = map (reloaded f) (m_deployments s) \<and>
    currentUrl s' = currentUrl s \<and> currentUsername s' = currentUsername s \<and>
    (let token = retrieveToken e (currentUrl s) st in
     if currentUrl s \<noteq> [] \<and> token \<noteq> []
     then ac_baseUrl (m_apiClient s') = chop_slashes (currentUrl s) \<and> ac_sessionToken (m_apiClient s') = token \<and>
       tokenValidator s'
     else m_apiClient s' = c \<and> \<not> tokenValidator s')"
proof -
  note ok = assms(1)
  let ?r = "\<lparr>m_apiClient = c, m_storage = st, m_activeDeployment = no_deployment, m_deployments = [],
    tokenValidator = False, saved_deployments = saved_deployments s, pending = []\<rparr>"
  obtain act where act: "act = (if dep_isActive (m_activeDeployment s) then reloaded f (m_activeDeployment s) else no_deployment)"
    by simp
  let ?s = "?r\<lparr>m_deployments := map (reloaded f) (m_deployments s), m_activeDeployment := act\<rparr>"
  have l: "loadDeployments f ?r = ?s" 
    using restart [OF ok assms(2,3), of ?r] by (simp add: act)
  have a: "dep_url act = dep_url (m_activeDeployment s)" "dep_username act = dep_username (m_activeDeployment s)"
    using ok by (auto simp: act session_ok_def active_ok_def currentUrl_def currentUsername_def reloaded_def)
  show ?thesis
  proof (cases "currentUrl s \<noteq> [] \<and> retrieveToken e (currentUrl s) st \<noteq> []")
    case True
    let ?token = "retrieveToken e (currentUrl s) st"
    obtain o1 where "set_credentials (currentUrl s) ?token ?s = (credentials (currentUrl s) ?token ?s, [Api o1])"
      using set_credentials_spec by blast
    with True assms(4) l a have "s' = startTokenValidation (credentials (currentUrl s) ?token ?s)"
      by (simp add: new_SessionManager_def Let_def currentUrl_def)
    with True a show ?thesis
      by (simp add: credentials_def startTokenValidation_def currentUrl_def currentUsername_def)
  next
    case False
    then have "\<not> (dep_url act \<noteq> [] \<and> retrieveToken e (dep_url act) st \<noteq> [])" using a by (simp add: currentUrl_def)
    with assms(4) l have "s' = ?s" by (simp add: new_SessionManager_def Let_def)
    with False a show ?thesis by (auto simp: currentUrl_def currentUsername_def Let_def)
  qed
qed

text \<open>C19. A restart of the application keeps the deployments. After any run, a session that is created
  from what was saved lists the same deployments in the same order, with the same one active; when the
  stored token of the active one is found, the client speaks to its URL with this token and the token
  is validated from time to time, and otherwise the client is left alone. JSON text is only used
  through its documented inverse; of the dates only what their text shows is kept.\<close>

theorem session_survives_restart:
  assumes "session_run f evs (fst (new_SessionManager f e0 c0 st0 [])) = (s, out0)"
    and "json_of f (json_text f (JArray (map (json_of_deployment f) (m_deployments s)))) =
      JArray (map (json_of_deployment f) (m_deployments s))"
    and "json_text f (JArray (map (json_of_deployment f) (m_deployments s))) \<noteq> []"
    and "new_SessionManager f e c st (saved_deployments s) = (s', out)"
  shows "m_deployments s' = map (reloaded f) (m_deployments s) \<and>
    currentUrl s' = currentUrl s \<and> currentUsername s' = currentUsername s \<and>
    (let token = retrieveToken e (currentUrl s) st in
     if currentUrl s \<noteq> [] \<and> token \<noteq> []
     then ac_baseUrl (m_apiClient s') = chop_slashes (currentUrl s) \<and> ac_sessionToken (m_apiClient s') = token \<and>
       tokenValidator s'
     else m_apiClient s' = c \<and> \<not> tokenValidator s')"
  using restart_spec [OF _ assms(2-4)] ok_run [OF ok_fresh, of f evs e0 c0 st0] assms(1) by simp

text \<open>The keyring and the file are chosen once.\<close>

lemma backend_kept [simp]:
  "m_backend (snd (storeToken e url token st)) = m_backend st" "m_backend (snd (removeToken e url st)) = m_backend st"
  by (auto simp: storeToken_def removeToken_def libsecretStore_def libsecretRemove_def fileStore_def fileRemove_def
      saveFallbackFile_def Let_def)

lemma set_credentials_storage [simp]: "m_storage (fst (set_credentials url token s)) = m_storage s"
  "m_storage (fst (clear_token s)) = m_storage s" "m_storage (fst (clear_credentials s)) = m_storage s"
  by (simp_all add: set_credentials_def clear_token_def clear_credentials_def split: prod.split)

lemma backend_step: "m_backend (m_storage (fst (session_step f ev s))) = m_backend (m_storage s)"
proof -
  obtain e x where ev: "ev = (e, x)" by (cases ev)
  show ?thesis
  proof (cases x)
    case (Answer i now r)
    have "m_backend (m_storage (fst (login_answered f e now url token r t))) = m_backend (m_storage t)" for url token t
      by (simp add: login_answered_def startTokenValidation_def saveDeployments_def Let_def case_prod_beta)
    then show ?thesis
      by (simp add: ev Answer validation_answered_def Let_def case_prod_beta split: session_request.split)
  qed (simp_all add: ev login_def logout_def validateToken_def switchDeployment_def removeDeployment_def
      startTokenValidation_def saveDeployments_def Let_def case_prod_beta split: option.split)
qed

lemma backend_run: "m_backend (m_storage (fst (session_run f evs s))) = m_backend (m_storage s)"
  by (rule sessions.preserved [where I = "\<lambda>t. m_backend (m_storage t) = m_backend (m_storage s)"]) (simp_all add: backend_step)

lemma load_loop_storage: "m_storage (load_loop f vals s) = m_storage s"
  by (induction f vals s rule: load_loop.induct) (simp_all add: Let_def)

lemma new_storage: "m_storage (fst (new_SessionManager f e c st saved)) = st"
  by (simp add: new_SessionManager_def loadDeployments_def load_loop_storage startTokenValidation_def Let_def case_prod_beta
      split: json.split)

text \<open>C18. A login survives a restart. After any run, when a login is answered without an error while keyring and file
  work, the application that is started afterwards, with whatever client, from what is in keyring, file and settings
  then, is signed in: at the same URL, as the same user, with the token of that login, which is validated
  from time to time.\<close>

theorem login_survives_restart:
  assumes "session_run f evs (fst (new_SessionManager f e0 c0 (new_SecureStorage e ring file) [])) = (s, out0)"
    and "login_answered f e now url token r s = (s1, out1)" and "\<not> rp_error r" and "url \<noteq> []"
    and "storage_works e" and "usable_token e token"
    and "json_of f (json_text f (JArray (map (json_of_deployment f) (m_deployments s1)))) =
      JArray (map (json_of_deployment f) (m_deployments s1))"
    and "json_text f (JArray (map (json_of_deployment f) (m_deployments s1))) \<noteq> []"
    and "new_SessionManager f e c (new_SecureStorage e (keyring (m_storage s1)) (fallback (m_storage s1)))
      (saved_deployments s1) = (s2, out2)"
  shows "isAuthenticated s2 \<and> currentUrl s2 = url \<and> currentUsername s2 = currentUsername s1 \<and>
    ac_baseUrl (m_apiClient s2) = chop_slashes url \<and> ac_sessionToken (m_apiClient s2) = token \<and> tokenValidator s2 \<and>
    m_deployments s2 = map (reloaded f) (m_deployments s1)"
proof -
  have "session_ok f s" using ok_run [OF ok_fresh, of f evs e0 c0] assms(1) by (metis fst_conv)
  from ok_login_answered [OF this, of e now url token r] have ok: "session_ok f s1" using assms(2) by simp
  have b: "m_backend (m_storage s) = detectBackend e"
    using backend_run [of f evs "fst (new_SessionManager f e0 c0 (new_SecureStorage e ring file) [])"] assms(1)
    by (simp add: new_storage new_SecureStorage_def)
  have s1: "m_storage s1 = snd (storeToken e url token (m_storage s))" "currentUrl s1 = url"
    using assms(2,3) by (auto simp: login_answered_def startTokenValidation_def saveDeployments_def currentUrl_def Let_def)
  have "new_SecureStorage e (keyring (m_storage s1)) (fallback (m_storage s1)) = m_storage s1"
    using b by (simp add: new_SecureStorage_def s1(1))
  moreover have "retrieveToken e url (m_storage s1) = token"
    using tokens.retrieve_store [OF assms(5,6)] by (simp add: s1(1))
  moreover have "token \<noteq> []" using assms(6) by (simp add: usable_token_def)
  ultimately show ?thesis
    using restart_spec [OF ok assms(7-9)] assms(4) s1(2)
    by (simp add: isAuthenticated_def api_isAuthenticated_def)
qed

lemma login_spec:
  "\<exists>o1. login url token s =
     (credentials url token s\<lparr>pending := pending s @ [Login_request url token]\<rparr>,
      [Api o1, Request (getAuthenticatedUser (m_apiClient (credentials url token s)))])"
  using set_credentials_spec [of url token s] by (auto simp: login_def credentials_def)

text \<open>Two logins at the same time. When the login at \<open>A\<close> is answered after a login at \<open>B\<close> was
  started, the session takes \<open>A\<close> for its deployment and announces it, and the token of \<open>A\<close> is
  validated, but every request goes to \<open>B\<close> with the token of \<open>B\<close>.\<close>

lemma login_race:
  assumes "pending s = []" and "\<not> rp_error r"
    and "session_run f [(e1, Login A ta), (e2, Login B tb), (e3, Answer 0 now r)] s = (s', out)"
  shows "currentUrl s' = A \<and> dep_isActive (m_activeDeployment s') \<and> tokenValidator s' \<and> AuthStateChanged \<in> set out \<and>
    ac_baseUrl (m_apiClient s') = chop_slashes B \<and> ac_sessionToken (m_apiClient s') = tb \<and>
    hr_url (getAuthenticatedUser (m_apiClient s')) = chop_slashes B @ users_me"
proof -
  obtain o1 where 1: "session_step f (e1, Login A ta) s = (credentials A ta s\<lparr>pending := [Login_request A ta]\<rparr>, o1)"
    using login_spec [of A ta s] assms(1) by auto
  obtain o2 where 2: "session_step f (e2, Login B tb) (credentials A ta s\<lparr>pending := [Login_request A ta]\<rparr>) =
      (credentials B tb s\<lparr>pending := [Login_request A ta, Login_request B tb]\<rparr>, o2)"
    using login_spec [of B tb "credentials A ta s\<lparr>pending := [Login_request A ta]\<rparr>"] by (auto simp: credentials_def)
  from assms(2,3) show ?thesis
    by (auto simp only: session_run.simps 1 2 prod.case fst_conv snd_conv Pair_inject)
      (auto simp: Let_def login_answered_def credentials_def startTokenValidation_def saveDeployments_def
        currentUrl_def getAuthenticatedUser_def api_get_def buildRequest_def)
qed

text \<open>A login that fails signs the session out without saying so. Signed in at \<open>A\<close>, a login at \<open>B\<close> that is
  answered with an error leaves \<open>A\<close> the current deployment, in memory and on disk, but the client
  has no token any more and the URL of \<open>B\<close>; that the state of authentication changed is not
  announced by the session.\<close>

lemma failed_login:
  assumes "pending s = []" and "rp_error r"
    and "session_run f [(e1, Login B tb), (e2, Answer 0 now r)] s = (s', out)"
  shows "m_activeDeployment s' = m_activeDeployment s \<and> m_deployments s' = m_deployments s \<and>
    saved_deployments s' = saved_deployments s \<and> tokenValidator s' = tokenValidator s \<and>
    \<not> isAuthenticated s' \<and> ac_baseUrl (m_apiClient s') = chop_slashes B \<and>
    LoginFailed (rp_errorString r) \<in> set out \<and> AuthStateChanged \<notin> set out"
proof -
  obtain o1 where 1: "session_step f (e1, Login B tb) s = (credentials B tb s\<lparr>pending := [Login_request B tb]\<rparr>, [Api o1, Request (getAuthenticatedUser (m_apiClient (credentials B tb s)))])"
    using login_spec [of B tb s] assms(1) by auto
  from assms(2,3) show ?thesis
    by (auto simp only: session_run.simps 1 prod.case fst_conv snd_conv Pair_inject)
      (auto simp: Let_def login_answered_def clear_token_def api_setSessionToken_def credentials_def
        isAuthenticated_def api_isAuthenticated_def)
qed

section \<open>Examples\<close>

text \<open>One deployment, and the two texts of the formats that the example needs.\<close>

definition demo_deployment :: Deployment where
  "demo_deployment =
     \<lparr>dep_id = ''1'', dep_name = ''https://a'', dep_url = ''https://a'', dep_username = ''me'', dep_avatarUrl = [],
      dep_isActive = True, dep_addedAt = Some 7\<rparr>"

definition demo_array :: json where
  "demo_array = JArray [JObject [(''addedAt'', JString ''7''), (''avatarUrl'', JString []), (''id'', JString ''1''),
     (''isActive'', JBool True), (''name'', JString ''https://a''), (''url'', JString ''https://a''),
     (''username'', JString ''me'')]]"

definition demo_format :: format_env where
  "demo_format =
     \<lparr>json_text = (\<lambda>j. if j = demo_array then ''[a]'' else ''[]''),
      json_of = (\<lambda>t. if t = ''[a]'' then demo_array
        else if t = ''user'' then JObject [(''id'', JString ''1''), (''username'', JString ''me'')] else JArray []),
      iso_text = (\<lambda>d. if d = Some 7 then ''7'' else []), iso_of = (\<lambda>t. if t = ''7'' then Some 7 else None)\<rparr>"

definition demo_reply :: http_reply where
  "demo_reply = \<lparr>rp_error = False, rp_errorString = [], rp_status = 200, rp_body = ''user''\<rparr>"

definition demo_events :: "(storage_env \<times> session_event) list" where
  "demo_events =
     [(demo_storage_env, Login ''https://a'' ''tok''), (demo_storage_env, Answer 0 (Some 7) demo_reply)]"

definition demo_session :: SessionManager where
  "demo_session = fst (new_SessionManager demo_format demo_storage_env new_CoderApiClient demo_storage [])"

definition demo_signed_in :: SessionManager where
  "demo_signed_in =
     \<lparr>m_apiClient = \<lparr>ac_baseUrl = ''https://a'', ac_sessionToken = ''tok''\<rparr>,
      m_storage = snd (storeToken demo_storage_env ''https://a'' ''tok'' demo_storage),
      m_activeDeployment = demo_deployment, m_deployments = [demo_deployment], tokenValidator = True,
      saved_deployments = ''[a]'', pending = []\<rparr>"

lemma demo_array: "JArray (map (json_of_deployment demo_format) [demo_deployment]) = demo_array"
  by (simp add: json_of_deployment_def demo_deployment_def demo_format_def demo_array_def)

lemma demo_run: "fst (session_run demo_format demo_events demo_session) = demo_signed_in"
proof -
  have s: "demo_session =
      \<lparr>m_apiClient = new_CoderApiClient, m_storage = demo_storage, m_activeDeployment = no_deployment, m_deployments = [],
       tokenValidator = False, saved_deployments = [], pending = []\<rparr>"
    by (simp add: demo_session_def new_SessionManager_def loadDeployments_def Let_def)
  have c: "chop_slashes ''https://a'' = ''https://a''" by code_simp
  let ?w = "\<lparr>m_apiClient = \<lparr>ac_baseUrl = ''https://a'', ac_sessionToken = ''tok''\<rparr>, m_storage = demo_storage,
      m_activeDeployment = no_deployment, m_deployments = [], tokenValidator = False, saved_deployments = [],
      pending = [Login_request ''https://a'' ''tok'']\<rparr>"
  have w: "credentials ''https://a'' ''tok'' demo_session\<lparr>pending := [Login_request ''https://a'' ''tok'']\<rparr> = ?w"
    by (simp add: s c credentials_def new_CoderApiClient_def)
  have p: "pending demo_session @ [Login_request ''https://a'' ''tok''] = [Login_request ''https://a'' ''tok'']"
    by (simp add: s)
  obtain o1 where 1: "login ''https://a'' ''tok'' demo_session = (?w, o1)"
    using login_spec [of "''https://a''" "''tok''" demo_session] unfolding p w by blast
  have u: "user_fromJson (toObject (json_of demo_format ''user'')) =
      \<lparr>us_id = ''1'', us_username = ''me'', us_email = [], us_avatarUrl = []\<rparr>"
    by (simp add: user_fromJson_def demo_format_def value_of_def)
  have j: "json_text demo_format (JArray [json_of_deployment demo_format demo_deployment]) = ''[a]''"
    using demo_array by (simp add: demo_format_def)
  have d: "\<lparr>dep_id = ''1'', dep_name = ''https://a'', dep_url = ''https://a'', dep_username = ''me'', dep_avatarUrl = [],
      dep_isActive = True, dep_addedAt = Some 7\<rparr> = demo_deployment"
    by (simp add: demo_deployment_def)
  have "fst (session_step demo_format (demo_storage_env, Answer 0 (Some 7) demo_reply) ?w) = demo_signed_in"
    by (simp add: Let_def login_answered_def demo_reply_def u d saveDeployments_def j startTokenValidation_def
        demo_signed_in_def)
  then show ?thesis
    by (auto simp: demo_events_def 1 split: prod.split simp del: session_step.simps(6))
qed

theorem session_deployments_witness:
  "distinct (urls demo_signed_in) \<and> filter dep_isActive (m_deployments demo_signed_in) = [m_activeDeployment demo_signed_in]"
proof -
  obtain out where "session_run demo_format demo_events demo_session = (demo_signed_in, out)"
    using demo_run by (metis prod.collapse)
  from session_deployments [OF this [unfolded demo_session_def]] show ?thesis
    by (simp add: demo_signed_in_def demo_deployment_def)
qed

theorem session_survives_restart_witness:
  "ac_sessionToken (m_apiClient (fst (new_SessionManager demo_format demo_storage_env new_CoderApiClient
     (m_storage demo_signed_in) (saved_deployments demo_signed_in)))) = ''tok''"
proof -
  obtain out0 where r: "session_run demo_format demo_events demo_session = (demo_signed_in, out0)"
    using demo_run by (metis prod.collapse)
  obtain s' out where n: "new_SessionManager demo_format demo_storage_env new_CoderApiClient
     (m_storage demo_signed_in) (saved_deployments demo_signed_in) = (s', out)" by fastforce
  have d: "m_deployments demo_signed_in = [demo_deployment]" by (simp add: demo_signed_in_def)
  have "json_of demo_format (json_text demo_format demo_array) = demo_array" "json_text demo_format demo_array \<noteq> []"
    by (simp_all add: demo_format_def)
  note h = this [folded demo_array, folded d]
  have t: "retrieveToken demo_storage_env ''https://a'' (m_storage demo_signed_in) = ''tok''"
    by (simp add: demo_signed_in_def storeToken_def demo_storage_env_def demo_storage_def new_SecureStorage_def
        detectBackend_def libsecretStore_def saveFallbackFile_def retrieveToken_def libsecretRetrieve_def)
  have "currentUrl demo_signed_in = ''https://a''" by (simp add: demo_signed_in_def currentUrl_def demo_deployment_def)
  with session_survives_restart [OF r [unfolded demo_session_def] h n] t n show ?thesis by simp
qed

theorem login_survives_restart_witness:
  "\<exists>s1 out1. login_answered demo_format demo_storage_env (Some 7) ''https://a'' ''tok'' demo_reply demo_session = (s1, out1) \<and>
    isAuthenticated (fst (new_SessionManager demo_format demo_storage_env new_CoderApiClient
      (new_SecureStorage demo_storage_env (keyring (m_storage s1)) (fallback (m_storage s1))) (saved_deployments s1)))"
proof -
  have r: "session_run demo_format [] demo_session = (demo_session, [])" by simp
  obtain s1 out1 where l: "login_answered demo_format demo_storage_env (Some 7) ''https://a'' ''tok'' demo_reply demo_session = (s1, out1)"
    by fastforce
  have u: "user_fromJson (toObject (json_of demo_format ''user'')) =
      \<lparr>us_id = ''1'', us_username = ''me'', us_email = [], us_avatarUrl = []\<rparr>"
    by (simp add: user_fromJson_def demo_format_def value_of_def)
  have "m_deployments demo_session = []"
    by (simp add: demo_session_def new_SessionManager_def loadDeployments_def Let_def)
  with l u have d: "m_deployments s1 = [demo_deployment]"
    by (auto simp: login_answered_def demo_reply_def startTokenValidation_def saveDeployments_def demo_deployment_def Let_def)
  have "json_of demo_format (json_text demo_format demo_array) = demo_array" "json_text demo_format demo_array \<noteq> []"
    by (simp_all add: demo_format_def)
  note h = this [folded demo_array, folded d]
  have t: "\<not> rp_error demo_reply" "''https://a'' \<noteq> []" "usable_token demo_storage_env ''tok''"
    by (simp_all add: demo_reply_def usable_token_def demo_storage_env_def)
  obtain s2 out2 where n: "new_SessionManager demo_format demo_storage_env new_CoderApiClient
      (new_SecureStorage demo_storage_env (keyring (m_storage s1)) (fallback (m_storage s1))) (saved_deployments s1) = (s2, out2)"
    by fastforce
  from login_survives_restart [OF r [unfolded demo_session_def demo_storage_def] l [unfolded demo_session_def demo_storage_def]
      t(1,2) demo_storage_ok(1) t(3) h n] l n show ?thesis by auto
qed

end
