(* ===== verification/Login_Flow.thy ===== *)
theory Login_Flow
  imports Machine Session
begin

text \<open>
  Signing in through a browser (\<^verbatim>\<open>src/app/src/auth/LoginFlowController.cpp\<close>): the scheme of the
  deployment is found by probing, the embedded browser is watched for the session cookie, and the token
  is handed to the session. The answers to probes, the cookies and the result of the JavaScript are
  events; the build without WebEngine is a parameter. Log output is left out.
\<close>

section \<open>State\<close>

datatype network_error =
  NoError | AuthenticationRequiredError | ContentAccessDenied | ContentNotFoundError | InternalServerError
| Other_error string

text \<open>A probe that is not answered, with the URL that was asked.\<close>

datatype scheme_probe = Https_probe string | Http_probe string

record LoginFlowController =
  m_sessionManager :: SessionManager
  m_deploymentUrl :: string
  m_loginUrl :: string
  m_pendingHost :: string
  m_flowActive :: bool
  m_probing :: bool
  probes :: "scheme_probe list"

datatype login_effect =
  ProbingChanged | LoginUrlChanged | FlowActiveChanged | TokenObtained string string | ExternalBrowserOpened string
| ProbeFailed string | Get string | OpenUrl string | ClearCookies | Session "session_effect list"

type_synonym login_out = "LoginFlowController \<times> login_effect list"

definition new_LoginFlowController :: "SessionManager \<Rightarrow> LoginFlowController" where
  "new_LoginFlowController s =
     \<lparr>m_sessionManager = s, m_deploymentUrl = [], m_loginUrl = [], m_pendingHost = [], m_flowActive = False,
      m_probing = False, probes = []\<rparr>"

definition isFlowActive :: "LoginFlowController \<Rightarrow> bool" where
  "isFlowActive c \<longleftrightarrow> m_flowActive c"

definition isProbing :: "LoginFlowController \<Rightarrow> bool" where
  "isProbing c \<longleftrightarrow> m_probing c"

definition loginUrl :: "LoginFlowController \<Rightarrow> string" where
  "loginUrl c = m_loginUrl c"

definition isWebEngineAvailable :: "bool \<Rightarrow> bool" where
  "isWebEngineAvailable HAS_WEBENGINE = (if HAS_WEBENGINE then True else False)"

definition kSessionCookieName :: string where
  "kSessionCookieName = ''coder_session_token''"

definition kProbeEndpoint :: string where
  "kProbeEndpoint = ''/api/v2/buildinfo''"

section \<open>Starting and cancelling\<close>

definition has_scheme :: "string \<Rightarrow> bool" where
  "has_scheme url \<longleftrightarrow> prefix ''http://'' url \<or> prefix ''https://'' url"

text \<open>The errors that are an answer of an HTTP server.\<close>

definition http_reachable :: "network_error \<Rightarrow> bool" where
  "http_reachable err \<longleftrightarrow>
     err = NoError \<or> err = AuthenticationRequiredError \<or> err = ContentAccessDenied \<or> err = ContentNotFoundError \<or>
     err = InternalServerError"

definition clearCookies :: "bool \<Rightarrow> login_effect list" where
  "clearCookies HAS_WEBENGINE = (if HAS_WEBENGINE then [ClearCookies] else [])"

definition openExternalCliAuth :: "string \<Rightarrow> login_effect list" where
  "openExternalCliAuth deploymentUrl =
     (let base = chop_slashes deploymentUrl;
          base = (if \<not> prefix ''http://'' base \<and> \<not> prefix ''https://'' base then ''https://'' @ base else base);
          cliAuthUrl = base @ ''/cli-auth'' in
      [OpenUrl cliAuthUrl, ExternalBrowserOpened cliAuthUrl])"

definition continueStartFlow :: "bool \<Rightarrow> string \<Rightarrow> LoginFlowController \<Rightarrow> login_out" where
  "continueStartFlow HAS_WEBENGINE resolvedBaseUrl c =
     (let c = c\<lparr>m_deploymentUrl := resolvedBaseUrl\<rparr> in
      if HAS_WEBENGINE
      then (c\<lparr>m_loginUrl := resolvedBaseUrl @ ''/login'', m_flowActive := True\<rparr>,
            clearCookies HAS_WEBENGINE @ [LoginUrlChanged, FlowActiveChanged])
      else (c, openExternalCliAuth resolvedBaseUrl))"

definition probeScheme :: "string \<Rightarrow> LoginFlowController \<Rightarrow> login_out" where
  "probeScheme hostWithoutScheme c =
     (let url = ''https://'' @ hostWithoutScheme @ kProbeEndpoint in
      (c\<lparr>m_pendingHost := hostWithoutScheme, m_probing := True, probes := probes c @ [Https_probe url]\<rparr>,
       [ProbingChanged, Get url]))"

definition startFlow :: "bool \<Rightarrow> string \<Rightarrow> LoginFlowController \<Rightarrow> login_out" where
  "startFlow HAS_WEBENGINE deploymentUrl c =
     (let base = chop_slashes deploymentUrl in
      if base = [] then (c, [])
      else if has_scheme base then continueStartFlow HAS_WEBENGINE base c
      else probeScheme base c)"

text \<open>The answer to the probe of https, and to that of http.\<close>

definition https_answered :: "bool \<Rightarrow> network_error \<Rightarrow> LoginFlowController \<Rightarrow> login_out" where
  "https_answered HAS_WEBENGINE err c =
     (if \<not> m_probing c then (c, [])
      else if http_reachable err
      then (case continueStartFlow HAS_WEBENGINE (''https://'' @ m_pendingHost c) (c\<lparr>m_probing := False\<rparr>) of
              (c, out) \<Rightarrow> (c, ProbingChanged # out))
      else
        let url = ''http://'' @ m_pendingHost c @ kProbeEndpoint in
        (c\<lparr>probes := probes c @ [Http_probe url]\<rparr>, [Get url]))"

definition http_answered :: "bool \<Rightarrow> network_error \<Rightarrow> LoginFlowController \<Rightarrow> login_out" where
  "http_answered HAS_WEBENGINE err c =
     (if \<not> m_probing c then (c, [])
      else
        let c = c\<lparr>m_probing := False\<rparr> in
        if http_reachable err
        then (case continueStartFlow HAS_WEBENGINE (''http://'' @ m_pendingHost c) c of (c, out) \<Rightarrow> (c, ProbingChanged # out))
        else (c, [ProbingChanged, ProbeFailed ''Could not reach server. Check the URL and try again.'']))"

definition cancelFlow :: "bool \<Rightarrow> LoginFlowController \<Rightarrow> login_out" where
  "cancelFlow HAS_WEBENGINE c =
     (let c = c\<lparr>m_flowActive := False, m_loginUrl := [], m_deploymentUrl := []\<rparr>;
          (c, out) = (if m_probing c then (c\<lparr>m_probing := False, m_pendingHost := []\<rparr>, [ProbingChanged]) else (c, [])) in
      (c, out @ clearCookies HAS_WEBENGINE @ [LoginUrlChanged, FlowActiveChanged]))"

section \<open>The token\<close>

definition captured :: "bool \<Rightarrow> string \<Rightarrow> LoginFlowController \<Rightarrow> login_out" where
  "captured HAS_WEBENGINE token c =
     (case login (m_deploymentUrl c) token (m_sessionManager c) of
        (s, out) \<Rightarrow>
          (c\<lparr>m_sessionManager := s, m_flowActive := False, m_loginUrl := []\<rparr>,
           [Session out, LoginUrlChanged, FlowActiveChanged, TokenObtained (m_deploymentUrl c) token] @
             clearCookies HAS_WEBENGINE))"

definition handleJsTokenResult :: "bool \<Rightarrow> string \<Rightarrow> LoginFlowController \<Rightarrow> login_out" where
  "handleJsTokenResult HAS_WEBENGINE token c =
     (if \<not> m_flowActive c then (c, []) else if token = [] then (c, []) else captured HAS_WEBENGINE token c)"

definition cookieAdded :: "string \<Rightarrow> string \<Rightarrow> LoginFlowController \<Rightarrow> login_out" where
  "cookieAdded name val c =
     (if \<not> m_flowActive c then (c, [])
      else if name \<noteq> kSessionCookieName then (c, [])
      else if val = [] then (c, [])
      else captured True val c)"

section \<open>Everything that happens to a login flow\<close>

datatype login_event =
  StartFlow string | CancelFlow | JsToken string | Cookie string string | OpenExternal string
| ProbeAnswered nat network_error

fun login_step :: "bool \<Rightarrow> login_event \<Rightarrow> LoginFlowController \<Rightarrow> login_out" where
  "login_step web (StartFlow url) c = startFlow web url c"
| "login_step web CancelFlow c = cancelFlow web c"
| "login_step web (JsToken token) c = handleJsTokenResult web token c"
| "login_step web (Cookie name val) c = (if web then cookieAdded name val c else (c, []))"
| "login_step web (OpenExternal url) c = (c, openExternalCliAuth url)"
| "login_step web (ProbeAnswered i err) c =
     (if i < length (probes c)
      then
        let p = probes c ! i; c = c\<lparr>probes := take i (probes c) @ drop (Suc i) (probes c)\<rparr> in
        case p of Https_probe url \<Rightarrow> https_answered web err c | Http_probe url \<Rightarrow> http_answered web err c
      else (c, []))"

fun login_run :: "bool \<Rightarrow> login_event list \<Rightarrow> LoginFlowController \<Rightarrow> login_out" where
  "login_run web [] c = (c, [])"
| "login_run web (ev # evs) c =
     (case login_step web ev c of (c, out) \<Rightarrow> case login_run web evs c of (c, out') \<Rightarrow> (c, out @ out'))"

interpretation logins: machine "login_step web" "login_run web" for web
  by unfold_locales simp_all

section \<open>Properties\<close>

lemma start_probe:
  assumes "chop_slashes url = host" and "host \<noteq> []" and "\<not> has_scheme host"
  shows "login_step web (StartFlow url) c = probeScheme host c"
  using assms by (simp add: startFlow_def Let_def)

text \<open>Which scheme is chosen. A URL without one, whose slashes at the end are dropped, is asked
  over https; if any HTTP server answers, the browser is pointed at the https login page. Only
  otherwise, the same host is asked over http, and that login page opened if it answers. If neither
  does, no page is opened, no flow is active and the failure is reported.\<close>

lemma login_scheme:
  assumes "chop_slashes url = host" and "host \<noteq> []" and "\<not> has_scheme host"
    and "probes c = []" and "\<not> m_flowActive c"
    and "login_run True [StartFlow url, ProbeAnswered 0 err, ProbeAnswered 0 err'] c = (c', out)"
  shows "m_deploymentUrl c' =
      (if http_reachable err then ''https://'' @ host else if http_reachable err' then ''http://'' @ host else m_deploymentUrl c) \<and>
    m_flowActive c' = (http_reachable err \<or> http_reachable err') \<and>
    (if m_flowActive c' then m_loginUrl c' = m_deploymentUrl c' @ ''/login'' else m_loginUrl c' = m_loginUrl c) \<and>
    [u. Get u \<leftarrow> out] = (''https://'' @ host @ kProbeEndpoint) #
      (if http_reachable err then [] else [''http://'' @ host @ kProbeEndpoint]) \<and>
    \<not> m_probing c' \<and> m_sessionManager c' = m_sessionManager c"
proof -
  note s = start_probe [OF assms(1-3)]
  show ?thesis
  proof (cases "http_reachable err")
    case True
    with assms(4-6) s show ?thesis
      by (auto simp: probeScheme_def https_answered_def continueStartFlow_def clearCookies_def Let_def)
  next
    case False
    with assms(4-6) s show ?thesis
      by (auto simp: probeScheme_def https_answered_def http_answered_def continueStartFlow_def clearCookies_def Let_def
          split: if_splits)
  qed
qed

text \<open>The answer to an earlier probe counts for a later host. When a second flow is started while the first
  host is still being asked, the failed https answer of the first makes the second be asked over http
  at once; if it answers there, the login page of the second host is opened over plain http, although its
  https probe is not answered yet, and the captured token is sent to that address.\<close>

lemma stale_probe_downgrade:
  assumes "chop_slashes urlA = hostA" "hostA \<noteq> []" "\<not> has_scheme hostA"
    and "chop_slashes urlB = hostB" "hostB \<noteq> []" "\<not> has_scheme hostB"
    and "probes c = []" and "\<not> http_reachable err" and "http_reachable err'" and "token \<noteq> []"
    and "login_run True [StartFlow urlA, StartFlow urlB, ProbeAnswered 0 err, ProbeAnswered 1 err',
      Cookie kSessionCookieName token] c = (c', out)"
  shows "Https_probe (''https://'' @ hostB @ kProbeEndpoint) \<in> set (probes c') \<and>
    m_deploymentUrl c' = ''http://'' @ hostB \<and> TokenObtained (''http://'' @ hostB) token \<in> set out \<and>
    m_sessionManager c' = fst (login (''http://'' @ hostB) token (m_sessionManager c))"
proof -
  note a = start_probe [OF assms(1-3)] and b = start_probe [OF assms(4-6)]
  obtain s1 o1 where l: "login (''http://'' @ hostB) token (m_sessionManager c) = (s1, o1)" by fastforce
  from assms(7-11) a b l show ?thesis
    by (auto simp: probeScheme_def https_answered_def http_answered_def continueStartFlow_def cookieAdded_def
        captured_def Let_def)
qed

lemma ended_step:
  assumes "\<not> m_flowActive c" "\<not> m_probing c" "\<forall>url. ev \<noteq> StartFlow url" "login_step web ev c = (c', out)"
  shows "\<not> m_flowActive c' \<and> \<not> m_probing c' \<and> m_sessionManager c' = m_sessionManager c \<and>
    (\<forall>url token. TokenObtained url token \<notin> set out) \<and> (\<forall>o1. Session o1 \<notin> set out)"
  using assms
  by (cases ev) (auto simp: cancelFlow_def handleJsTokenResult_def cookieAdded_def openExternalCliAuth_def
      https_answered_def http_answered_def clearCookies_def Let_def split: if_splits scheme_probe.splits)

lemma ended_run:
  assumes "\<not> m_flowActive c" "\<not> m_probing c" "\<forall>url. StartFlow url \<notin> set evs" "login_run web evs c = (c', out)"
  shows "\<not> m_flowActive c' \<and> m_sessionManager c' = m_sessionManager c \<and>
    (\<forall>url token. TokenObtained url token \<notin> set out) \<and> (\<forall>o1. Session o1 \<notin> set out)"
proof -
  let ?I = "\<lambda>t. \<not> m_flowActive t \<and> \<not> m_probing t \<and> m_sessionManager t = m_sessionManager c"
  let ?P = "\<lambda>x. (\<forall>url token. x \<noteq> TokenObtained url token) \<and> (\<forall>o1. x \<noteq> Session o1)"
  have "?I c" "\<forall>ev \<in> set evs. \<forall>url. ev \<noteq> StartFlow url" using assms(1-3) by auto
  moreover have "?I t1 \<and> (\<forall>x \<in> set o1. ?P x)" if "?I t" "\<forall>url. ev \<noteq> StartFlow url" "login_step web ev t = (t1, o1)" for ev t t1 o1
  proof -
    from that(1) have "\<not> m_flowActive t" "\<not> m_probing t" by simp_all
    from ended_step [OF this that(2,3)] that(1) show ?thesis by simp blast
  qed
  ultimately have "?I c' \<and> (\<forall>x \<in> set out. ?P x)" by (rule logins.state_invariant [where I = ?I, OF _ assms(4)])
  then show ?thesis by blast
qed

text \<open>A cancelled flow is over. Whatever cookies are set, tokens are extracted, pages are opened and late
  answers of probes come in after it, in whatever order and with whatever state before, until another
  flow is started: nothing is sent to the session and no token is reported.\<close>

lemma cancelled_flow_is_over:
  assumes "\<forall>url. StartFlow url \<notin> set evs" and "login_run web (CancelFlow # evs) c = (c', out)"
  shows "\<not> m_flowActive c' \<and> m_sessionManager c' = m_sessionManager c \<and>
    (\<forall>url token. TokenObtained url token \<notin> set out) \<and> (\<forall>o1. Session o1 \<notin> set out)"
proof -
  obtain c1 o1 where st: "login_step web CancelFlow c = (c1, o1)" by fastforce
  obtain c2 o2 where r: "login_run web evs c1 = (c2, o2)" by fastforce
  from st have "\<not> m_flowActive c1" "\<not> m_probing c1" "m_sessionManager c1 = m_sessionManager c"
    "(\<forall>url token. TokenObtained url token \<notin> set o1) \<and> (\<forall>o1'. Session o1' \<notin> set o1)"
    by (auto simp: cancelFlow_def clearCookies_def Let_def split: if_splits)
  with ended_run [OF _ _ assms(1) r] assms(2) st r show ?thesis by auto
qed

section \<open>Examples\<close>

definition demo_flow :: LoginFlowController where
  "demo_flow = new_LoginFlowController demo_session"

lemma demo_flow: "probes demo_flow = []" "\<not> m_flowActive demo_flow"
  by (simp_all add: demo_flow_def new_LoginFlowController_def)

lemma demo_hosts:
  "chop_slashes ''a/'' = ''a''" "chop_slashes ''b'' = ''b''" "\<not> has_scheme ''a''" "\<not> has_scheme ''b''"
  "chop_slashes ''http://b'' = ''http://b''"
  by code_simp+

end
