(* ===== verification/Vpn_Bridge.thy ===== *)
theory Vpn_Bridge
  imports Machine Models
begin

text \<open>
  The client of the VPN helper (\<^verbatim>\<open>src/app/src/vpn/VpnBridge.cpp\<close>) and the list of the peers it reports
  (\<^verbatim>\<open>src/app/src/models/PeerModel.cpp\<close>). The helper is another process: its signals and the answers
  to the D-Bus calls are events. Log output is left out.
\<close>

section \<open>The bridge\<close>

datatype helper_call = Start_call string string | Stop_call | GetStatus_call

text \<open>An answer of D-Bus: an error with its message, or success, for \<open>GetStatus\<close> with the state.\<close>

datatype helper_reply = Reply_error string | Reply_ok string

record VpnBridge =
  m_state :: string
  calls :: "helper_call list"

datatype vpn_effect =
  Vpn_stateChanged | Vpn_errorOccurred string | Vpn_peerUpdated string string string int int bool | Vpn_call helper_call

type_synonym vpn_out = "VpnBridge \<times> vpn_effect list"

definition vpn_call :: "helper_call \<Rightarrow> VpnBridge \<Rightarrow> vpn_out" where
  "vpn_call call v = (v\<lparr>calls := calls v @ [call]\<rparr>, [Vpn_call call])"

definition new_VpnBridge :: vpn_out where
  "new_VpnBridge = vpn_call GetStatus_call \<lparr>m_state = ''disconnected'', calls = []\<rparr>"

definition vpn_isRunning :: "VpnBridge \<Rightarrow> bool" where
  "vpn_isRunning v \<longleftrightarrow> m_state v = ''connected''"

definition vpn_start :: "string \<Rightarrow> string \<Rightarrow> VpnBridge \<Rightarrow> vpn_out" where
  "vpn_start url token v =
     (if m_state v \<noteq> ''disconnected'' then (v, [])
      else case vpn_call (Start_call url token) (v\<lparr>m_state := ''connecting''\<rparr>) of
        (v, out) \<Rightarrow> (v, Vpn_stateChanged # out))"

definition vpn_stop :: "VpnBridge \<Rightarrow> vpn_out" where
  "vpn_stop v =
     (if m_state v = ''disconnected'' \<or> m_state v = ''disconnecting'' then (v, [])
      else case vpn_call Stop_call (v\<lparr>m_state := ''disconnecting''\<rparr>) of (v, out) \<Rightarrow> (v, Vpn_stateChanged # out))"

definition onStateChanged :: "string \<Rightarrow> string \<Rightarrow> VpnBridge \<Rightarrow> vpn_out" where
  "onStateChanged newState errorMessage v =
     (if m_state v = newState then (v, [])
      else (v\<lparr>m_state := newState\<rparr>,
            Vpn_stateChanged # (if errorMessage \<noteq> [] then [Vpn_errorOccurred errorMessage] else [])))"

definition onPeerUpdated :: "string \<Rightarrow> string \<Rightarrow> string \<Rightarrow> int \<Rightarrow> int \<Rightarrow> bool \<Rightarrow> VpnBridge \<Rightarrow> vpn_out" where
  "onPeerUpdated workspace agent hostname status lastPingMs isP2P v =
     (v, [Vpn_peerUpdated workspace agent hostname status lastPingMs isP2P])"

fun onStartFinished :: "helper_reply \<Rightarrow> VpnBridge \<Rightarrow> vpn_out" where
  "onStartFinished (Reply_error msg) v = (v\<lparr>m_state := ''disconnected''\<rparr>, [Vpn_stateChanged, Vpn_errorOccurred msg])"
| "onStartFinished (Reply_ok _) v = (v, [])"

fun onStopFinished :: "helper_reply \<Rightarrow> VpnBridge \<Rightarrow> vpn_out" where
  "onStopFinished (Reply_error msg) v = (v, [Vpn_errorOccurred msg])"
| "onStopFinished (Reply_ok _) v = (v, [])"

fun onGetStatusFinished :: "helper_reply \<Rightarrow> VpnBridge \<Rightarrow> vpn_out" where
  "onGetStatusFinished (Reply_error msg) v = (v, [])"
| "onGetStatusFinished (Reply_ok st) v = (if m_state v \<noteq> st then (v\<lparr>m_state := st\<rparr>, [Vpn_stateChanged]) else (v, []))"

text \<open>What happens to the bridge: requests of the user, signals of the helper, the answer to a call.\<close>

datatype vpn_event =
  Vpn_start string string | Vpn_stop | Helper_state string string
| Helper_peer string string string int int bool | Call_finished nat helper_reply

fun vpn_step :: "vpn_event \<Rightarrow> VpnBridge \<Rightarrow> vpn_out" where
  "vpn_step (Vpn_start url token) v = vpn_start url token v"
| "vpn_step Vpn_stop v = vpn_stop v"
| "vpn_step (Helper_state st msg) v = onStateChanged st msg v"
| "vpn_step (Helper_peer w a h st ping p2p) v = onPeerUpdated w a h st ping p2p v"
| "vpn_step (Call_finished i r) v =
     (if i < length (calls v)
      then
        let call = calls v ! i; v = v\<lparr>calls := take i (calls v) @ drop (Suc i) (calls v)\<rparr> in
        (case call of
           Start_call url token \<Rightarrow> onStartFinished r v
         | Stop_call \<Rightarrow> onStopFinished r v
         | GetStatus_call \<Rightarrow> onGetStatusFinished r v)
      else (v, []))"

fun vpn_run :: "vpn_event list \<Rightarrow> VpnBridge \<Rightarrow> vpn_out" where
  "vpn_run [] v = (v, [])"
| "vpn_run (ev # evs) v =
     (case vpn_step ev v of (v, out) \<Rightarrow> case vpn_run evs v of (v, out') \<Rightarrow> (v, out @ out'))"

interpretation bridge: machine vpn_step vpn_run
  by unfold_locales simp_all

section \<open>The peers\<close>

record PeerInfo =
  pi_workspaceName :: string
  pi_agentName :: string
  pi_hostname :: string
  pi_status :: int
  pi_lastPingMs :: int
  pi_isP2P :: bool

definition peer_statusToString :: "int \<Rightarrow> string" where
  "peer_statusToString status =
     (if status = 0 then ''Disconnected'' else if status = 1 then ''Connecting'' else if status = 2 then ''Connected''
      else ''Unknown'')"

datatype PeerRole =
  P_WorkspaceNameRole | P_AgentNameRole | P_HostnameRole | P_StatusRole | P_StatusStringRole | P_LastPingMsRole
| P_IsP2PRole | P_ConnectionTypeRole | P_OtherRole int

fun peer_value :: "PeerInfo \<Rightarrow> PeerRole \<Rightarrow> qvariant" where
  "peer_value peer P_WorkspaceNameRole = QString (pi_workspaceName peer)"
| "peer_value peer P_AgentNameRole = QString (pi_agentName peer)"
| "peer_value peer P_HostnameRole = QString (pi_hostname peer)"
| "peer_value peer P_StatusRole = QInt (pi_status peer)"
| "peer_value peer P_StatusStringRole = QString (peer_statusToString (pi_status peer))"
| "peer_value peer P_LastPingMsRole = QInt (pi_lastPingMs peer)"
| "peer_value peer P_IsP2PRole = QBool (pi_isP2P peer)"
| "peer_value peer P_ConnectionTypeRole = QString (if pi_isP2P peer then ''P2P'' else ''Relayed'')"
| "peer_value peer (P_OtherRole r) = QInvalid"

definition peer_roleNames :: "(PeerRole \<times> string) list" where
  "peer_roleNames =
     [(P_WorkspaceNameRole, ''workspaceName''), (P_AgentNameRole, ''agentName''), (P_HostnameRole, ''hostname''),
      (P_StatusRole, ''status''), (P_StatusStringRole, ''statusString''), (P_LastPingMsRole, ''lastPingMs''),
      (P_IsP2PRole, ''isP2P''), (P_ConnectionTypeRole, ''connectionType'')]"

type_synonym PeerModel = "PeerInfo list"

definition peer_rowCount :: "bool \<Rightarrow> PeerModel \<Rightarrow> nat" where
  "peer_rowCount parent_valid m_peers = (if parent_valid then 0 else length m_peers)"

definition peer_data :: "PeerModel \<Rightarrow> row_index \<Rightarrow> PeerRole \<Rightarrow> qvariant" where
  "peer_data m_peers idx role = (case row_at m_peers idx of None \<Rightarrow> QInvalid | Some peer \<Rightarrow> peer_value peer role)"

definition setPeers :: "PeerInfo list \<Rightarrow> PeerModel \<Rightarrow> PeerModel \<times> row_signal list" where
  "setPeers peers m_peers = (peers, [ResetModel, CountChanged])"

definition updatePeer :: "PeerInfo \<Rightarrow> PeerModel \<Rightarrow> (PeerModel \<times> row_signal list) option" where
  "updatePeer peer m_peers = update_row pi_hostname peer m_peers"

definition peer_clear :: "PeerModel \<Rightarrow> PeerModel \<times> row_signal list" where
  "peer_clear m_peers = clear_rows m_peers"

section \<open>Properties\<close>

definition user_event :: "vpn_event \<Rightarrow> bool" where
  "user_event ev \<longleftrightarrow> (case ev of Vpn_start _ _ \<Rightarrow> True | Vpn_stop \<Rightarrow> True | _ \<Rightarrow> False)"

lemma stuck_run:
  assumes "m_state v = ''disconnecting''" "\<forall>ev\<in>set evs. user_event ev"
  shows "vpn_run evs v = (v, [])"
proof -
  obtain v' out where r: "vpn_run evs v = (v', out)" by fastforce
  have "v1 = v \<and> (\<forall>x \<in> set o1. False)" if "t = v" "user_event ev" "vpn_step ev t = (v1, o1)" for ev t v1 o1
    using that assms(1) by (cases ev) (simp_all add: user_event_def vpn_start_def vpn_stop_def)
  then have "v' = v \<and> (\<forall>x \<in> set out. False)"
    by (intro bridge.state_invariant [where I = "\<lambda>t. t = v" and E = user_event, OF refl r assms(2)])
  with r show ?thesis by simp
qed

text \<open>A refused disconnection blocks the bridge. When the helper answers the call that stops a connected VPN with
  an error (its authorisation is denied), the error is reported, but the bridge stays in the state
  ``disconnecting'': from then on, however often the user starts or stops the VPN, no call is made and
  nothing changes, although the tunnel is up.\<close>

lemma refused_stop_blocks:
  assumes "m_state v = ''connected''" and "calls v = []" and "\<forall>ev\<in>set evs. user_event ev"
    and "vpn_run ([Vpn_stop, Call_finished 0 (Reply_error msg)] @ evs) v = (v', out)"
  shows "m_state v' = ''disconnecting'' \<and> calls v' = [] \<and> \<not> vpn_isRunning v' \<and>
    out = [Vpn_stateChanged, Vpn_call Stop_call, Vpn_errorOccurred msg]"
proof -
  let ?v = "v\<lparr>m_state := ''disconnecting'', calls := []\<rparr>"
  have "vpn_run evs ?v = (?v, [])" using assms(3) by (intro stuck_run) simp_all
  with assms(1,2,4) show ?thesis by (auto simp: vpn_stop_def vpn_call_def vpn_isRunning_def Let_def)
qed

section \<open>The peers show the last report\<close>

interpretation peers: keyed_rows pi_hostname "\<lambda>ps. ps" updatePeer
  by unfold_locales (use update_row_put [of pi_hostname] in \<open>auto simp: updatePeer_def\<close>)

text \<open>However the helper reports its peers, starting with the empty list of a disconnected VPN, every update
  succeeds, no hostname has two rows, and for every hostname the list shows the last report about it, and
  a row only if there was a report.\<close>

lemma peers_show_last_report:
  "\<exists>ps. peers.set_ones reports [] = Some ps \<and> distinct (map pi_hostname ps) \<and>
    (\<forall>h. find (\<lambda>p. pi_hostname p = h) ps = find (\<lambda>p. pi_hostname p = h) (rev reports))"
  using peers.last_report [of "[]" reports] by simp

end
