(* ===== verification/Notifications.thy ===== *)
theory Notifications
  imports Prelude
begin

text \<open>
  Notifications of the desktop (\<^verbatim>\<open>src/app/src/notifications/NotificationManager.cpp\<close>). Times are
  milliseconds; the clock is read twice by a notification, and both readings are arguments. A
  \<^verbatim>\<open>QHash\<close> is a map. The icon of the tray is Qt's: it is there or not.
\<close>

record NotificationManager =
  m_enabled :: bool
  m_trayIcon :: bool
  m_suppressMs :: int
  m_recentNotifications :: "string \<rightharpoonup> int"
  m_lastCategory :: string

datatype notification_effect =
  ShowMessage string string | EnabledChanged | NotificationClicked string

type_synonym notification_out = "NotificationManager \<times> notification_effect list"

definition new_NotificationManager :: NotificationManager where
  "new_NotificationManager =
     \<lparr>m_enabled = True, m_trayIcon = False, m_suppressMs = 5000, m_recentNotifications = Map.empty, m_lastCategory = []\<rparr>"

definition cleanupRecent :: "int \<Rightarrow> NotificationManager \<Rightarrow> NotificationManager" where
  "cleanupRecent now n =
     n\<lparr>m_recentNotifications := (\<lambda>k. case m_recentNotifications n k of
         None \<Rightarrow> None | Some t \<Rightarrow> if now - t \<ge> m_suppressMs n then None else Some t)\<rparr>"

definition sendViaTray :: "string \<Rightarrow> string \<Rightarrow> NotificationManager \<Rightarrow> notification_effect list" where
  "sendViaTray title message n = (if \<not> m_trayIcon n then [] else [ShowMessage title message])"

definition notification_key :: "string \<Rightarrow> string \<Rightarrow> string" where
  "notification_key title message = title @ [CHR 0x0A] @ message"

text \<open>\<open>now\<close> is read by \<^verbatim>\<open>notify\<close>, \<open>now'\<close> by \<^verbatim>\<open>cleanupRecent\<close> after it.\<close>

definition notify :: "int \<Rightarrow> int \<Rightarrow> string \<Rightarrow> string \<Rightarrow> string \<Rightarrow> NotificationManager \<Rightarrow> notification_out" where
  "notify now now' title message category n =
     (if \<not> m_enabled n then (n, [])
      else
        let key = notification_key title message; n = cleanupRecent now' n in
        if (case m_recentNotifications n key of None \<Rightarrow> False | Some t \<Rightarrow> now - t < m_suppressMs n) then (n, [])
        else
          let n = n\<lparr>m_recentNotifications := (m_recentNotifications n)(key \<mapsto> now), m_lastCategory := category\<rparr> in
          (n, sendViaTray title message n))"

definition setEnabled :: "bool \<Rightarrow> NotificationManager \<Rightarrow> notification_out" where
  "setEnabled en n = (if m_enabled n = en then (n, []) else (n\<lparr>m_enabled := en\<rparr>, [EnabledChanged]))"

definition setTrayIcon :: "bool \<Rightarrow> NotificationManager \<Rightarrow> NotificationManager" where
  "setTrayIcon tray n = n\<lparr>m_trayIcon := tray\<rparr>"

definition messageClicked :: "NotificationManager \<Rightarrow> notification_effect list" where
  "messageClicked n = (if m_trayIcon n then [NotificationClicked (m_lastCategory n)] else [])"

definition setSuppressDuplicateMs :: "int \<Rightarrow> NotificationManager \<Rightarrow> NotificationManager" where
  "setSuppressDuplicateMs ms n = n\<lparr>m_suppressMs := ms\<rparr>"

section \<open>Runs\<close>

datatype notification_event =
  Notify int int string string string | Set_enabled bool | Set_tray bool | Clicked

fun notification_step :: "notification_event \<Rightarrow> NotificationManager \<Rightarrow> notification_out" where
  "notification_step (Notify now now' title message category) n = notify now now' title message category n"
| "notification_step (Set_enabled en) n = setEnabled en n"
| "notification_step (Set_tray tray) n = (setTrayIcon tray n, [])"
| "notification_step Clicked n = (n, messageClicked n)"

text \<open>The messages that are shown, with the two times of their notification.\<close>

fun shown_by :: "notification_event \<Rightarrow> notification_effect list \<Rightarrow> (int \<times> int \<times> string \<times> string) list" where
  "shown_by (Notify now now' _ _ _) [ShowMessage title message] = [(now, now', title, message)]"
| "shown_by ev out = []"

fun shown :: "notification_event list \<Rightarrow> NotificationManager \<Rightarrow> (int \<times> int \<times> string \<times> string) list" where
  "shown [] n = []"
| "shown (ev # evs) n = (case notification_step ev n of (n, out) \<Rightarrow> shown_by ev out @ shown evs n)"

text \<open>The clock does not go back.\<close>

fun clock_ok :: "int \<Rightarrow> notification_event list \<Rightarrow> bool" where
  "clock_ok t [] = True"
| "clock_ok t (Notify now now' _ _ _ # evs) = (t \<le> now \<and> now \<le> now' \<and> clock_ok now' evs)"
| "clock_ok t (_ # evs) = clock_ok t evs"

section \<open>Properties\<close>

lemma shown_by_notify:
  assumes "notification_step ev n = (n', out)" and "x \<in> set (shown_by ev out)"
  obtains now now' title message category where "ev = Notify now now' title message category"
    "x = (now, now', title, message)" "shown_by ev out = [x]"
    "m_recentNotifications n' (notification_key title message) = Some now"
    "case m_recentNotifications n (notification_key title message) of None \<Rightarrow> True | Some t \<Rightarrow>
       now - t \<ge> m_suppressMs n \<or> now' - t \<ge> m_suppressMs n"
  using assms
  by (cases ev) (auto simp: notify_def cleanupRecent_def sendViaTray_def Let_def split: if_splits option.splits)

lemma suppress_kept: "notification_step ev n = (n', out) \<Longrightarrow> m_suppressMs n' = m_suppressMs n"
  by (cases ev) (auto simp: notify_def setEnabled_def setTrayIcon_def cleanupRecent_def Let_def split: if_splits option.splits)

text \<open>What was shown at \<open>t0\<close> is either remembered or older than the window.\<close>

definition remembered :: "int \<Rightarrow> int \<Rightarrow> string \<Rightarrow> NotificationManager \<Rightarrow> bool" where
  "remembered now t0 key n \<longleftrightarrow>
     (\<exists>t. m_recentNotifications n key = Some t \<and> t0 \<le> t) \<or> now - t0 \<ge> m_suppressMs n"

lemma remembered_step:
  assumes "notification_step (Notify now1 now2 ti me ca) n = (n', out)" and "remembered now t0 key n"
    and "now \<le> now1" and "now1 \<le> now2"
  shows "remembered now2 t0 key n'"
  using assms
  by (auto simp: notify_def cleanupRecent_def remembered_def Let_def split: if_splits option.splits)

lemma shown_gap:
  "\<lbrakk>clock_ok now evs; remembered now t0 (notification_key title message) n; (t, t', title, message) \<in> set (shown evs n)\<rbrakk> \<Longrightarrow>
    t' - t0 \<ge> m_suppressMs n"
proof (induction evs arbitrary: n now)
  case (Cons ev evs)
  obtain n' out where st: "notification_step ev n = (n', out)" by fastforce
  show ?case
  proof (cases ev)
    case (Notify now1 now2 ti me ca)
    from Cons.prems(1) Notify have c: "now \<le> now1" "now1 \<le> now2" "clock_ok now2 evs" by simp_all
    have r: "remembered now2 t0 (notification_key title message) n'"
      by (rule remembered_step [OF st [unfolded Notify] Cons.prems(2) c(1,2)])
    from Cons.prems(3) st consider "(t, t', title, message) \<in> set (shown evs n')"
      | "(t, t', title, message) \<in> set (shown_by ev out)" by auto
    then show ?thesis
    proof cases
      case 1
      from Cons.IH [OF c(3) r 1] suppress_kept [OF st] show ?thesis by simp
    next
      case 2
      then show ?thesis
        by (rule shown_by_notify [OF st])
          (use Cons.prems(2) c(1,2) Notify in \<open>auto simp: remembered_def split: option.splits\<close>)
    qed
  next
    case (Set_enabled en)
    with st have "remembered now t0 (notification_key title message) n'" "shown_by ev out = []"
      using Cons.prems(2) by (auto simp: setEnabled_def remembered_def split: if_splits)
    with Cons.IH [of now n'] Cons.prems(1,3) st Set_enabled suppress_kept [OF st] show ?thesis by simp
  next
    case (Set_tray tray)
    with st have "remembered now t0 (notification_key title message) n'" "shown_by ev out = []"
      using Cons.prems(2) by (auto simp: setTrayIcon_def remembered_def)
    with Cons.IH [of now n'] Cons.prems(1,3) st Set_tray suppress_kept [OF st] show ?thesis by simp
  next
    case Clicked
    with Cons st show ?thesis by simp
  qed
qed simp

lemma clock_later:
  assumes "clock_ok now (ev # evs)" and "notification_step ev n = (n', out)"
  shows "\<exists>now'. clock_ok now' evs \<and> (\<forall>title message t t'. (t, t', title, message) \<in> set (shown_by ev out) \<longrightarrow>
    remembered now' t (notification_key title message) n')"
proof (cases ev)
  case (Notify now1 now2 ti me ca)
  with assms(1) have "clock_ok now2 evs" by simp
  moreover have "remembered now2 t (notification_key title message) n'"
    if x: "(t, t', title, message) \<in> set (shown_by ev out)" for title message t t'
    using shown_by_notify [OF assms(2) x] by (metis order_refl prod.inject remembered_def)
  ultimately show ?thesis by blast
qed (use assms(1) in auto)

text \<open>C29. The same notification is not shown twice within the window. In any run in which the clock does
  not go back, between the first showing of a title and message and any later one of the same at
  least the suppression time passes, whatever other notifications, clicks and changes of the
  settings come in between. It is measured from the earlier reading of the clock in the first to the
  later reading in the second.\<close>

theorem no_duplicate_notifications:
  assumes "clock_ok now evs" and "i < j" and "j < length (shown evs n)"
    and "shown evs n ! i = (t0, t0', title, message)" and "shown evs n ! j = (t1, t1', title, message)"
  shows "t1' - t0 \<ge> m_suppressMs n"
  using assms
proof (induction evs arbitrary: n i j now)
  case (Cons ev evs)
  obtain n' out where st: "notification_step ev n = (n', out)" by fastforce
  obtain now' where c: "clock_ok now' evs" "\<forall>title message t t'. (t, t', title, message) \<in> set (shown_by ev out) \<longrightarrow>
      remembered now' t (notification_key title message) n'"
    using clock_later [OF Cons.prems(1) st] by blast
  have s: "shown (ev # evs) n = shown_by ev out @ shown evs n'" using st by simp
  let ?k = "length (shown_by ev out)"
  have k: "?k \<le> 1" by (cases "(ev, out)" rule: shown_by.cases) simp_all
  with Cons.prems(2,3) s have j: "?k \<le> j" "j - ?k < length (shown evs n')" by simp_all
  with Cons.prems(5) s have nj: "shown evs n' ! (j - ?k) = (t1, t1', title, message)" by (simp add: nth_append)
  have "t1' - t0 \<ge> m_suppressMs n'"
  proof (cases "i < ?k")
    case True
    with Cons.prems(4) s have "(t0, t0', title, message) \<in> set (shown_by ev out)" by (metis nth_append nth_mem)
    with c(2) have "remembered now' t0 (notification_key title message) n'" by blast
    from shown_gap [OF c(1) this] nj j(2) show ?thesis by (metis nth_mem)
  next
    case False
    with Cons.prems(2,4) s j have "i - ?k < j - ?k" "shown evs n' ! (i - ?k) = (t0, t0', title, message)"
      by (simp_all add: nth_append)
    from Cons.IH [OF c(1) this(1) j(2) this(2) nj] show ?thesis .
  qed
  with suppress_kept [OF st] show ?case by simp
qed simp

definition demo_notifications :: "notification_event list" where
  "demo_notifications =
     [Set_tray True, Notify 0 1 ''a'' ''b'' [], Notify 3000 3000 ''a'' ''b'' [], Notify 4000 4000 ''c'' ''d'' [],
      Notify 5000 5001 ''a'' ''b'' []]"

theorem no_duplicate_notifications_witness:
  "shown demo_notifications new_NotificationManager =
     [(0, 1, ''a'', ''b''), (4000, 4000, ''c'', ''d''), (5000, 5001, ''a'', ''b'')] \<and> (5001 :: int) - 0 \<ge> 5000"
proof -
  have s: "shown demo_notifications new_NotificationManager =
     [(0, 1, ''a'', ''b''), (4000, 4000, ''c'', ''d''), (5000, 5001, ''a'', ''b'')]"
    by (simp add: demo_notifications_def new_NotificationManager_def setTrayIcon_def notify_def cleanupRecent_def
        sendViaTray_def notification_key_def Let_def)
  have "clock_ok 0 demo_notifications" by (simp add: demo_notifications_def)
  from no_duplicate_notifications [OF this, of 0 2 new_NotificationManager 0 1 "''a''" "''b''" 5000 5001] s
  show ?thesis by (simp add: new_NotificationManager_def)
qed

end
