(* ===== verification/App_Catalogue.thy ===== *)
theory App_Catalogue
  imports Machine File_Transfer Running_Apps Web_Socket Dbus_Proxy "HOL-Library.Multiset"
begin

text \<open>
  Which applications can be launched: the search for desktop files and known programs
  (\<^verbatim>\<open>src/app/src/apps/AppDiscovery.cpp\<close>) and the list the views show of it (\<^verbatim>\<open>AppModel.cpp\<close>). The
  file system is what the search is answered; the scan runs in another thread, its end is an event.
\<close>

section \<open>Entries\<close>

record AppEntry =
  ae_id :: string
  ae_name :: string
  ae_exec :: string
  ae_iconName :: string
  ae_iconPath :: string
  ae_category :: string
  ae_desktopFile :: string
  fromDesktopFile :: bool

definition no_app :: AppEntry where
  "no_app =
     \<lparr>ae_id = [], ae_name = [], ae_exec = [], ae_iconName = [], ae_iconPath = [], ae_category = [],
      ae_desktopFile = [], fromDesktopFile = False\<rparr>"

text \<open>The known programs: binary, name, category.\<close>

definition kKnownBinaries :: "(string \<times> string \<times> string) list" where
  "kKnownBinaries =
     [(''code'', ''Visual Studio Code'', ''IDE''),
      (''code-insiders'', ''VS Code Insiders'', ''IDE''),
      (''cursor'', ''Cursor'', ''IDE''),
      (''codium'', ''VSCodium'', ''IDE''),
      (''idea'', ''IntelliJ IDEA'', ''IDE''),
      (''goland'', ''GoLand'', ''IDE''),
      (''pycharm'', ''PyCharm'', ''IDE''),
      (''webstorm'', ''WebStorm'', ''IDE''),
      (''clion'', ''CLion'', ''IDE''),
      (''phpstorm'', ''PhpStorm'', ''IDE''),
      (''rider'', ''Rider'', ''IDE''),
      (''rubymine'', ''RubyMine'', ''IDE''),
      (''datagrip'', ''DataGrip'', ''IDE''),
      (''fleet'', ''Fleet'', ''IDE''),
      (''zed'', ''Zed'', ''IDE''),
      (''lapce'', ''Lapce'', ''IDE''),
      (''antigravity'', ''Antigravity'', ''IDE''),
      (''firefox'', ''Firefox'', ''Browser''),
      (''google-chrome'', ''Google Chrome'', ''Browser''),
      (''google-chrome-stable'', ''Google Chrome'', ''Browser''),
      (''chromium'', ''Chromium'', ''Browser''),
      (''chromium-browser'', ''Chromium'', ''Browser''),
      (''brave-browser'', ''Brave'', ''Browser''),
      (''vivaldi'', ''Vivaldi'', ''Browser''),
      (''zen-browser'', ''Zen Browser'', ''Browser''),
      (''microsoft-edge'', ''Microsoft Edge'', ''Browser''),
      (''gedit'', ''gedit'', ''Editor''),
      (''kate'', ''Kate'', ''Editor''),
      (''kwrite'', ''KWrite'', ''Editor''),
      (''mousepad'', ''Mousepad'', ''Editor''),
      (''xed'', ''Xed'', ''Editor''),
      (''pluma'', ''Pluma'', ''Editor''),
      (''sublime_text'', ''Sublime Text'', ''Editor''),
      (''subl'', ''Sublime Text'', ''Editor''),
      (''emacs'', ''Emacs'', ''Editor''),
      (''gvim'', ''GVim'', ''Editor''),
      (''neovide'', ''Neovide'', ''Editor''),
      (''claude'', ''Claude'', ''AI Tool''),
      (''aider'', ''Aider'', ''AI Tool''),
      (''continue'', ''Continue'', ''AI Tool''),
      (''alacritty'', ''Alacritty'', ''Terminal''),
      (''kitty'', ''Kitty'', ''Terminal''),
      (''wezterm'', ''WezTerm'', ''Terminal''),
      (''foot'', ''Foot'', ''Terminal''),
      (''gnome-terminal'', ''GNOME Terminal'', ''Terminal''),
      (''konsole'', ''Konsole'', ''Terminal''),
      (''xfce4-terminal'', ''Xfce Terminal'', ''Terminal''),
      (''tilix'', ''Tilix'', ''Terminal'')]"

text \<open>
  The file system: the snaps that have a directory of desktop files, the desktop files of a directory in
  the order of the iteration, the lines of a file that can be opened, the icons of the theme, the
  programs in the path.
\<close>

record scan_env =
  home_path :: string
  gui_snaps :: "string list"
  desktop_files :: "string \<Rightarrow> string list"
  file_lines :: "string \<Rightarrow> string list option"
  hasThemeIcon :: "string \<Rightarrow> bool"
  findExecutable :: "string \<Rightarrow> string"

definition desktopFileDirs :: "scan_env \<Rightarrow> string list" where
  "desktopFileDirs e =
     [''/usr/share/applications'', ''/usr/local/share/applications'',
      home_path e @ ''/.local/share/applications'', ''/var/lib/flatpak/exports/share/applications'',
      home_path e @ ''/.local/share/flatpak/exports/share/applications''] @
     map (\<lambda>snap. ''/snap/'' @ snap @ ''/current/meta/gui'') (gui_snaps e)"

section \<open>Exec lines and categories\<close>

definition field_codes :: string where
  "field_codes = ''uUfFickdDnNvm''"

definition is_word_char :: "char \<Rightarrow> bool" where
  "is_word_char c \<longleftrightarrow> c \<in> set ''abcdefghijklmnopqrstuvwxyzABCDEFGHIJKLMNOPQRSTUVWXYZ0123456789_''"

text \<open>\<^verbatim>\<open>\s+%[uUfFickdDnNvm]\b\<close> is removed everywhere.\<close>

fun after_code :: "string \<Rightarrow> string option" where
  "after_code (p # c # r) =
     (if p = CHR ''%'' \<and> c \<in> set field_codes \<and> (r = [] \<or> \<not> is_word_char (hd r)) then Some r else None)"
| "after_code _ = None"

lemma after_code_length: "after_code s = Some r \<Longrightarrow> length r < length s"
  by (cases s rule: after_code.cases) (auto split: if_splits)

function remove_codes :: "string \<Rightarrow> string" where
  "remove_codes [] = []"
| "remove_codes (c # s) =
     (if is_space c
      then let rest = dropWhile is_space s in
           case after_code rest of
             Some r \<Rightarrow> remove_codes r
           | None \<Rightarrow> c # takeWhile is_space s @ remove_codes rest
      else c # remove_codes s)"
  by pat_completeness auto

termination
proof (relation "measure length")
  fix c :: char and s rest r
  assume "rest = dropWhile is_space s" "after_code rest = Some r"
  with after_code_length [of rest r] length_dropWhile_le [of is_space s]
  show "(r, c # s) \<in> measure length" by simp
qed (auto simp: length_dropWhile_le less_Suc_eq_le)

definition cleanExecLine :: "string \<Rightarrow> string" where
  "cleanExecLine exec = trimmed (remove_codes exec)"

definition after_last_slash :: "string \<Rightarrow> string" where
  "after_last_slash s = (if CHR ''/'' \<in> set s then rev (takeWhile (\<lambda>c. c \<noteq> CHR ''/'') (rev s)) else s)"

definition binaryNameFromExec :: "string \<Rightarrow> string" where
  "binaryNameFromExec exec =
     (let firstToken = takeWhile (\<lambda>c. c \<noteq> CHR '' '') exec;
          firstToken =
            (if firstToken = ''env''
             then (case find (\<lambda>w. CHR ''='' \<notin> set w) (tl (strtok_all (CHR '' '') exec)) of
                     Some w \<Rightarrow> w | None \<Rightarrow> firstToken)
             else firstToken) in
      after_last_slash firstToken)"

definition categorizeFromDesktopCategories :: "string \<Rightarrow> string" where
  "categorizeFromDesktopCategories categories =
     (if categories = [] then ''Other''
      else
        let parts = map trimmed (strtok_all (CHR '';'') categories) in
        if list_ex (\<lambda>p. p = ''IDE'' \<or> p = ''Development'') parts then ''IDE''
        else if list_ex (\<lambda>p. p = ''WebBrowser'') parts then ''Browser''
        else if list_ex (\<lambda>p. p = ''TextEditor'') parts then ''Editor''
        else if list_ex (\<lambda>p. p = ''TerminalEmulator'') parts then ''Terminal''
        else ''Other'')"

section \<open>Desktop files\<close>

record desktop_keys =
  inDesktopEntry :: bool
  k_name :: string
  k_exec :: string
  k_icon :: string
  k_categories :: string
  k_type :: string
  k_noDisplay :: bool
  k_hidden :: bool

definition no_keys :: desktop_keys where
  "no_keys =
     \<lparr>inDesktopEntry = False, k_name = [], k_exec = [], k_icon = [], k_categories = [], k_type = [],
      k_noDisplay = False, k_hidden = False\<rparr>"

definition is_true :: "string \<Rightarrow> bool" where
  "is_true val \<longleftrightarrow> map lower_char val = ''true''"

definition set_key :: "string \<Rightarrow> string \<Rightarrow> desktop_keys \<Rightarrow> desktop_keys" where
  "set_key k v ks =
     (if k = ''Name'' then ks\<lparr>k_name := v\<rparr>
      else if k = ''Exec'' then ks\<lparr>k_exec := v\<rparr>
      else if k = ''Icon'' then ks\<lparr>k_icon := v\<rparr>
      else if k = ''Categories'' then ks\<lparr>k_categories := v\<rparr>
      else if k = ''Type'' then ks\<lparr>k_type := v\<rparr>
      else if k = ''NoDisplay'' then ks\<lparr>k_noDisplay := is_true v\<rparr>
      else if k = ''Hidden'' then ks\<lparr>k_hidden := is_true v\<rparr>
      else ks)"

definition is_header :: "string \<Rightarrow> bool" where
  "is_header line \<longleftrightarrow> prefix ''['' line \<and> suffix '']'' line"

fun parse_lines :: "string list \<Rightarrow> desktop_keys \<Rightarrow> desktop_keys" where
  "parse_lines [] ks = ks"
| "parse_lines (raw # ls) ks =
     (let line = trimmed raw in
      if is_header line
      then (if line = ''[Desktop Entry]'' then parse_lines ls (ks\<lparr>inDesktopEntry := True\<rparr>)
            else if inDesktopEntry ks then ks
            else parse_lines ls ks)
      else if \<not> inDesktopEntry ks then parse_lines ls ks
      else
        let k = takeWhile (\<lambda>c. c \<noteq> CHR ''='') line in
        if k = line \<or> k = [] then parse_lines ls ks
        else parse_lines ls (set_key (trimmed k) (trimmed (drop (length k + 1) line)) ks))"

definition parseDesktopFile :: "scan_env \<Rightarrow> string \<Rightarrow> AppEntry option" where
  "parseDesktopFile e filePath =
     (case file_lines e filePath of
        None \<Rightarrow> None
      | Some ls \<Rightarrow>
          let ks = parse_lines ls no_keys in
          if k_type ks \<noteq> ''Application'' \<or> k_noDisplay ks \<or> k_hidden ks then None
          else if k_name ks = [] \<or> k_exec ks = [] then None
          else
            let exec = cleanExecLine (k_exec ks); icon = k_icon ks;
                entry = \<lparr>ae_id = binaryNameFromExec exec, ae_name = k_name ks, ae_exec = exec, ae_iconName = [],
                         ae_iconPath = [], ae_category = categorizeFromDesktopCategories (k_categories ks),
                         ae_desktopFile = filePath, fromDesktopFile = True\<rparr> in
            Some (if icon = [] then entry
                  else if prefix ''/'' icon then entry\<lparr>ae_iconPath := icon, ae_iconName := icon\<rparr>
                  else if hasThemeIcon e icon then entry\<lparr>ae_iconName := icon\<rparr>
                  else entry))"

section \<open>The scan\<close>

text \<open>All desktop files in the order they are met; the identifiers that were seen.\<close>

fun scan_files :: "scan_env \<Rightarrow> string list \<Rightarrow> string set \<Rightarrow> AppEntry list" where
  "scan_files e [] seenIds = []"
| "scan_files e (path # paths) seenIds =
     (case parseDesktopFile e path of
        None \<Rightarrow> scan_files e paths seenIds
      | Some entry \<Rightarrow>
          if ae_id entry \<in> seenIds then scan_files e paths seenIds
          else entry # scan_files e paths (insert (ae_id entry) seenIds))"

definition scanDesktopFiles :: "scan_env \<Rightarrow> AppEntry list" where
  "scanDesktopFiles e = scan_files e (concat (map (desktop_files e) (desktopFileDirs e))) {}"

definition scanPathBinaries :: "scan_env \<Rightarrow> AppEntry list \<Rightarrow> AppEntry list" where
  "scanPathBinaries e existing =
     [no_app\<lparr>ae_id := binary, ae_name := displayName, ae_exec := binary, ae_category := category\<rparr>.
        (binary, displayName, category) \<leftarrow> kKnownBinaries,
        binary \<notin> ae_id ` set existing \<and> findExecutable e binary \<noteq> []]"

definition scan :: "scan_env \<Rightarrow> AppEntry list" where
  "scan e = (let apps = scanDesktopFiles e in apps @ scanPathBinaries e apps)"

section \<open>The list of the views\<close>

datatype AppRole =
  A_NameRole | A_ExecRole | A_IconNameRole | A_IconPathRole | A_CategoryRole | A_IdRole | A_FromDesktopFileRole
| A_OtherRole int

record AppModel =
  m_allApps :: "AppEntry list"
  m_filteredApps :: "AppEntry list"
  m_searchQuery :: string
  m_categoryFilter :: string
  am_loading :: bool

datatype app_signal =
  App_reset | SearchQueryChanged | CategoryFilterChanged | App_loadingChanged | TotalCountChanged | Scan_async

type_synonym app_out = "AppModel \<times> app_signal list"

definition new_AppModel :: AppModel where
  "new_AppModel = \<lparr>m_allApps = [], m_filteredApps = [], m_searchQuery = [], m_categoryFilter = [], am_loading = False\<rparr>"

fun app_value :: "AppEntry \<Rightarrow> AppRole \<Rightarrow> qvariant" where
  "app_value app A_NameRole = QString (ae_name app)"
| "app_value app A_ExecRole = QString (ae_exec app)"
| "app_value app A_IconNameRole = QString (ae_iconName app)"
| "app_value app A_IconPathRole = QString (ae_iconPath app)"
| "app_value app A_CategoryRole = QString (ae_category app)"
| "app_value app A_IdRole = QString (ae_id app)"
| "app_value app A_FromDesktopFileRole = QBool (fromDesktopFile app)"
| "app_value app (A_OtherRole r) = QInvalid"

definition app_rowCount :: "bool \<Rightarrow> AppModel \<Rightarrow> nat" where
  "app_rowCount parent_valid m = (if parent_valid then 0 else length (m_filteredApps m))"

definition app_data :: "AppModel \<Rightarrow> row_index \<Rightarrow> AppRole \<Rightarrow> qvariant" where
  "app_data m idx role = (case row_at (m_filteredApps m) idx of None \<Rightarrow> QInvalid | Some app \<Rightarrow> app_value app role)"

definition app_roleNames :: "(AppRole \<times> string) list" where
  "app_roleNames =
     [(A_NameRole, ''name''), (A_ExecRole, ''exec''), (A_IconNameRole, ''iconName''), (A_IconPathRole, ''iconPath''),
      (A_CategoryRole, ''category''), (A_IdRole, ''appId''), (A_FromDesktopFileRole, ''fromDesktopFile'')]"

definition totalCount :: "AppModel \<Rightarrow> nat" where
  "totalCount m = length (m_allApps m)"

text \<open>Substring and order without regard to case, over ASCII.\<close>

definition contains_text :: "string \<Rightarrow> string \<Rightarrow> bool" where
  "contains_text p s \<longleftrightarrow> list_ex (prefix p) (suffixes s)"

definition contains_insensitive :: "string \<Rightarrow> string \<Rightarrow> bool" where
  "contains_insensitive p s \<longleftrightarrow> contains_text (map lower_char p) (map lower_char s)"

fun text_less :: "string \<Rightarrow> string \<Rightarrow> bool" where
  "text_less s [] = False"
| "text_less [] (d # t) = True"
| "text_less (c # s) (d # t) =
     ((of_char c :: nat) < of_char d \<or> (c = d \<and> text_less s t))"

definition less_insensitive :: "string \<Rightarrow> string \<Rightarrow> bool" where
  "less_insensitive a b \<longleftrightarrow> text_less (map lower_char a) (map lower_char b)"

definition app_less :: "AppEntry \<Rightarrow> AppEntry \<Rightarrow> bool" where
  "app_less a b =
     (if map lower_char (ae_category a) \<noteq> map lower_char (ae_category b)
      then less_insensitive (ae_category a) (ae_category b)
      else less_insensitive (ae_name a) (ae_name b))"

definition app_matches :: "string \<Rightarrow> string \<Rightarrow> AppEntry \<Rightarrow> bool" where
  "app_matches categoryFilter searchQuery app \<longleftrightarrow>
     \<not> (categoryFilter \<noteq> [] \<and> ae_category app \<noteq> categoryFilter) \<and>
     (searchQuery \<noteq> [] \<longrightarrow>
        contains_insensitive searchQuery (ae_name app) \<or> contains_insensitive searchQuery (ae_exec app) \<or>
        contains_insensitive searchQuery (ae_category app))"

definition applyFilters :: "AppModel \<Rightarrow> app_out" where
  "applyFilters m =
     (m\<lparr>m_filteredApps := filter (app_matches (m_categoryFilter m) (m_searchQuery m)) (m_allApps m)\<rparr>, [App_reset])"

text \<open>\<open>sort_apps\<close> is \<^verbatim>\<open>std::sort\<close> with the comparison above.\<close>

definition scanComplete :: "(AppEntry list \<Rightarrow> AppEntry list) \<Rightarrow> AppEntry list \<Rightarrow> AppModel \<Rightarrow> app_out" where
  "scanComplete sort_apps apps m =
     (case applyFilters (m\<lparr>m_allApps := sort_apps apps\<rparr>) of
        (m, out) \<Rightarrow> (m\<lparr>am_loading := False\<rparr>, out @ [App_loadingChanged, TotalCountChanged]))"

definition setSearchQuery :: "string \<Rightarrow> AppModel \<Rightarrow> app_out" where
  "setSearchQuery query m =
     (if m_searchQuery m = query then (m, [])
      else case applyFilters (m\<lparr>m_searchQuery := query\<rparr>) of (m, out) \<Rightarrow> (m, SearchQueryChanged # out))"

definition setCategoryFilter :: "string \<Rightarrow> AppModel \<Rightarrow> app_out" where
  "setCategoryFilter category m =
     (if m_categoryFilter m = category then (m, [])
      else case applyFilters (m\<lparr>m_categoryFilter := category\<rparr>) of (m, out) \<Rightarrow> (m, CategoryFilterChanged # out))"

definition app_refresh :: "AppModel \<Rightarrow> app_out" where
  "app_refresh m = (m\<lparr>am_loading := True\<rparr>, [App_loadingChanged, Scan_async])"

datatype app_event = Scanned "AppEntry list" | Search string | Category string | Refresh_apps

fun app_step :: "(AppEntry list \<Rightarrow> AppEntry list) \<Rightarrow> app_event \<Rightarrow> AppModel \<Rightarrow> app_out" where
  "app_step sort_apps (Scanned apps) m = scanComplete sort_apps apps m"
| "app_step sort_apps (Search query) m = setSearchQuery query m"
| "app_step sort_apps (Category category) m = setCategoryFilter category m"
| "app_step sort_apps Refresh_apps m = app_refresh m"

fun app_run :: "(AppEntry list \<Rightarrow> AppEntry list) \<Rightarrow> app_event list \<Rightarrow> AppModel \<Rightarrow> app_out" where
  "app_run sort_apps [] m = (m, [])"
| "app_run sort_apps (ev # evs) m =
     (case app_step sort_apps ev m of (m, out) \<Rightarrow> case app_run sort_apps evs m of (m, out') \<Rightarrow> (m, out @ out'))"

interpretation catalogue: machine "app_step sort_apps" "app_run sort_apps" for sort_apps
  by unfold_locales simp_all

section \<open>Properties\<close>

lemma parse_entry:
  assumes "parseDesktopFile e path = Some app"
  shows "ae_id app = binaryNameFromExec (ae_exec app) \<and> ae_desktopFile app = path \<and> fromDesktopFile app"
  using assms by (auto simp: parseDesktopFile_def Let_def split: option.splits if_splits)

lemma scan_files_ids:
  "ae_id ` set (scan_files e paths seen) =
     {x. x \<notin> seen \<and> (\<exists>path \<in> set paths. \<exists>app. parseDesktopFile e path = Some app \<and> ae_id app = x)}"
  by (induction paths arbitrary: seen) (auto split: option.splits)

lemma scan_files_distinct: "distinct (map ae_id (scan_files e paths seen))"
proof (induction paths arbitrary: seen)
  case (Cons path paths)
  have "x \<notin> ae_id ` set (scan_files e paths (insert x seen))" for x by (simp add: scan_files_ids)
  with Cons show ?case by (auto split: option.split)
qed simp

lemma path_binaries_ids:
  "map ae_id (scanPathBinaries e apps) =
     filter (\<lambda>b. b \<notin> ae_id ` set apps \<and> findExecutable e b \<noteq> []) (map fst kKnownBinaries)"
proof -
  have "map ae_id (concat (map (\<lambda>(b, d, c). if b \<notin> ae_id ` set apps \<and> findExecutable e b \<noteq> []
      then [no_app\<lparr>ae_id := b, ae_name := d, ae_exec := b, ae_category := c\<rparr>] else []) ks)) =
    filter (\<lambda>b. b \<notin> ae_id ` set apps \<and> findExecutable e b \<noteq> []) (map fst ks)" for ks
    by (induction ks) auto
  then show ?thesis by (simp add: scanPathBinaries_def)
qed

lemma known_binaries: "distinct (map fst kKnownBinaries) \<and> list_all hasProfile (map fst kKnownBinaries)"
  by (simp add: kKnownBinaries_def hasProfile_def profileRegistry_apply isolated_apps_def jetbrains_ides_def
      electron_ides_def browsers_def)

lemma scan_distinct: "distinct (map ae_id (scan e))"
proof -
  have "set (map ae_id (scanPathBinaries e apps)) \<inter> ae_id ` set apps = {}" for apps
    unfolding path_binaries_ids by auto
  moreover have "distinct (map ae_id (scanPathBinaries e apps))" for apps
    unfolding path_binaries_ids using known_binaries by simp
  ultimately show ?thesis
    using scan_files_distinct [of e "concat (map (desktop_files e) (desktopFileDirs e))" "{}"]
    by (auto simp: scan_def scanDesktopFiles_def Let_def)
qed

text \<open>The scan finds every application once. Its identifiers are distinct; an identifier is listed exactly if some
  desktop file in one of the directories shows an application with it, or it is a known program in the
  path; and the programs that are known have a launch profile.\<close>

lemma scan_finds_once:
  "distinct (map ae_id (scan e)) \<and>
   ae_id ` set (scan e) =
     {x. (\<exists>dir \<in> set (desktopFileDirs e). \<exists>path \<in> set (desktop_files e dir). \<exists>app.
            parseDesktopFile e path = Some app \<and> ae_id app = x) \<or>
         x \<in> fst ` set kKnownBinaries \<and> findExecutable e x \<noteq> []} \<and>
   (\<forall>x \<in> fst ` set kKnownBinaries. hasProfile x)"
proof -
  have p: "ae_id ` set (scanPathBinaries e apps) =
      {b. b \<in> fst ` set kKnownBinaries \<and> b \<notin> ae_id ` set apps \<and> findExecutable e b \<noteq> []}" for apps
    using arg_cong [OF path_binaries_ids [of e apps], of set] by auto
  have s: "ae_id ` set (scan e) =
      ae_id ` set (scanDesktopFiles e) \<union> ae_id ` set (scanPathBinaries e (scanDesktopFiles e))"
    by (simp add: scan_def Let_def image_Un)
  have "ae_id ` set (scan e) = ae_id ` set (scanDesktopFiles e) \<union>
      {b. b \<in> fst ` set kKnownBinaries \<and> findExecutable e b \<noteq> []}"
    unfolding s p by blast
  moreover have "ae_id ` set (scanDesktopFiles e) =
      {x. \<exists>dir \<in> set (desktopFileDirs e). \<exists>path \<in> set (desktop_files e dir). \<exists>app.
         parseDesktopFile e path = Some app \<and> ae_id app = x}"
    by (auto simp: scanDesktopFiles_def scan_files_ids)
  moreover have "\<forall>x \<in> fst ` set kKnownBinaries. hasProfile x"
    using known_binaries unfolding list_all_iff set_map by blast
  ultimately show ?thesis using scan_distinct [of e] by (simp only: Un_def mem_Collect_eq simp_thms)
qed

text \<open>Applications that are started through another program are lost. The desktop files that Flatpak installs start
  every application with the one program \<^verbatim>\<open>flatpak\<close>, which becomes the identifier of all of them; so of
  any two, at most one is listed, although their directories are searched.\<close>

lemma flatpak_collapses:
  assumes "parseDesktopFile e p = Some a" and "parseDesktopFile e q = Some b" and "p \<noteq> q"
    and "prefix ''/usr/bin/flatpak run '' (ae_exec a)" and "prefix ''/usr/bin/flatpak run '' (ae_exec b)"
  shows "ae_id a = ''flatpak'' \<and> ae_id b = ''flatpak'' \<and> \<not> (a \<in> set (scan e) \<and> b \<in> set (scan e))"
proof -
  have f: "binaryNameFromExec x = ''flatpak''" if "prefix ''/usr/bin/flatpak run '' x" for x
    using that by (auto simp: prefix_def binaryNameFromExec_def after_last_slash_def Let_def)
  note pa = parse_entry [OF assms(1)] and pb = parse_entry [OF assms(2)]
  have ids: "ae_id a = ''flatpak''" "ae_id b = ''flatpak''" using pa pb f [OF assms(4)] f [OF assms(5)] by simp_all
  have "a \<noteq> b" using pa pb assms(3) by auto
  moreover have "inj_on ae_id (set (scan e))" using scan_distinct [of e] by (simp add: distinct_map)
  ultimately have "\<not> (a \<in> set (scan e) \<and> b \<in> set (scan e))" using inj_onD [of ae_id _ a b] ids by auto
  with ids show ?thesis by simp
qed

lemma app_step_filtered:
  assumes "m_filteredApps m = filter (app_matches (m_categoryFilter m) (m_searchQuery m)) (m_allApps m)"
  shows "case fst (app_step sort_apps ev m) of m' \<Rightarrow>
    m_filteredApps m' = filter (app_matches (m_categoryFilter m') (m_searchQuery m')) (m_allApps m') \<and>
    m_allApps m' = (case ev of Scanned apps \<Rightarrow> sort_apps apps | _ \<Rightarrow> m_allApps m)"
  using assms
  by (cases ev) (auto simp: scanComplete_def setSearchQuery_def setCategoryFilter_def app_refresh_def applyFilters_def)

fun last_scan :: "app_event list \<Rightarrow> AppEntry list \<Rightarrow> AppEntry list" where
  "last_scan [] apps = apps"
| "last_scan (Scanned apps' # evs) apps = last_scan evs apps'"
| "last_scan (ev # evs) apps = last_scan evs apps"

definition sorted_scan :: "AppEntry list \<Rightarrow> AppEntry list \<Rightarrow> bool" where
  "sorted_scan apps apps' \<longleftrightarrow> mset apps' = mset apps \<and> sorted_wrt (\<lambda>a b. \<not> app_less b a) apps'"

lemma app_run_shows:
  "\<lbrakk>m_filteredApps m = filter (app_matches (m_categoryFilter m) (m_searchQuery m)) (m_allApps m);
    sorted_scan apps (m_allApps m); \<forall>as. Scanned as \<in> set evs \<longrightarrow> sorted_scan as (sort_apps as);
    app_run sort_apps evs m = (m', out)\<rbrakk> \<Longrightarrow>
    m_filteredApps m' = filter (app_matches (m_categoryFilter m') (m_searchQuery m')) (m_allApps m') \<and>
    sorted_scan (last_scan evs apps) (m_allApps m')"
proof (induction evs arbitrary: m apps out)
  case (Cons ev evs)
  obtain m1 o1 where 1: "app_step sort_apps ev m = (m1, o1)" by fastforce
  obtain m2 o2 where 2: "app_run sort_apps evs m1 = (m2, o2)" by fastforce
  from app_step_filtered [OF Cons.prems(1), of sort_apps ev] 1 have
    f: "m_filteredApps m1 = filter (app_matches (m_categoryFilter m1) (m_searchQuery m1)) (m_allApps m1)"
    and a: "m_allApps m1 = (case ev of Scanned apps \<Rightarrow> sort_apps apps | _ \<Rightarrow> m_allApps m)" by simp_all
  from 1 2 Cons.prems(4) have r: "app_run sort_apps evs m1 = (m', o2)" by simp
  have "\<exists>apps1. sorted_scan apps1 (m_allApps m1) \<and> last_scan (ev # evs) apps = last_scan evs apps1"
    using a Cons.prems(2,3) by (cases ev) auto
  then obtain apps1 where "sorted_scan apps1 (m_allApps m1)" "last_scan (ev # evs) apps = last_scan evs apps1" by blast
  with Cons.IH [OF f _ _ r] Cons.prems(3) show ?case by simp
qed simp

text \<open>C36. What the views list. After any sequence of scans, searches, choices of a category and refreshes, the
  rows are the applications of the last scan that match the current category and search, each as often
  as the scan found it, ordered by category and name. Of the sorting function only its specification is
  used.\<close>

theorem app_list_shows_matching:
  assumes "\<forall>as. Scanned as \<in> set evs \<longrightarrow> sorted_scan as (sort_apps as)"
    and "app_run sort_apps evs new_AppModel = (m, out)"
  shows "mset (m_filteredApps m) =
      filter_mset (app_matches (m_categoryFilter m) (m_searchQuery m)) (mset (last_scan evs [])) \<and>
    sorted_wrt (\<lambda>a b. \<not> app_less b a) (m_filteredApps m)"
proof -
  have "m_filteredApps new_AppModel =
      filter (app_matches (m_categoryFilter new_AppModel) (m_searchQuery new_AppModel)) (m_allApps new_AppModel)"
    "sorted_scan [] (m_allApps new_AppModel)" by (simp_all add: new_AppModel_def sorted_scan_def)
  from app_run_shows [OF this assms] show ?thesis
    by (auto simp: sorted_scan_def mset_filter sorted_wrt_filter)
qed

section \<open>Examples\<close>

definition demo_app :: "string \<Rightarrow> string \<Rightarrow> string \<Rightarrow> string \<Rightarrow> string \<Rightarrow> AppEntry" where
  "demo_app name exec icon category path =
     \<lparr>ae_id = ''flatpak'', ae_name = name, ae_exec = exec, ae_iconName = icon, ae_iconPath = icon,
      ae_category = category, ae_desktopFile = path, fromDesktopFile = True\<rparr>"

theorem app_list_shows_matching_witness:
  "mset (m_filteredApps (fst (app_run id [Scanned [demo_app ''A'' ''x'' [] ''Other'' ''a''], Category ''IDE'', Category ''Other'', Search ''a'']
     new_AppModel))) = {#demo_app ''A'' ''x'' [] ''Other'' ''a''#}"
proof -
  let ?a = "demo_app ''A'' ''x'' [] ''Other'' ''a''"
  let ?evs = "[Scanned [?a], Category ''IDE'', Category ''Other'', Search ''a'']"
  obtain m out where r: "app_run id ?evs new_AppModel = (m, out)" by fastforce
  have "m_categoryFilter m = ''Other'' \<and> m_searchQuery m = ''a''"
    using r by (auto simp: scanComplete_def setSearchQuery_def setCategoryFilter_def applyFilters_def new_AppModel_def)
  moreover have "app_matches ''Other'' ''a'' ?a" by code_simp
  moreover have "\<forall>as. Scanned as \<in> set ?evs \<longrightarrow> sorted_scan as (id as)" by (simp add: sorted_scan_def)
  ultimately show ?thesis using app_list_shows_matching [OF _ r] r by simp
qed

end
