(* ===== verification/Sockets.thy ===== *)
theory Sockets
  imports Machine Web_Socket Dto
begin

text \<open>
  The connections over a WebSocket: watching a workspace
  (\<^verbatim>\<open>src/app/src/api/TaskWatchWebSocket.cpp\<close>), the log of a build (\<^verbatim>\<open>BuildLogWebSocket.cpp\<close>), and
  the terminal (\<^verbatim>\<open>TerminalWebSocket.cpp\<close>, \<^verbatim>\<open>src/app/src/terminal/TerminalBridge.cpp\<close>). A string is
  its UTF-8 bytes; JSON text, dates, Base64 and the new session identifier are what Qt answers.
\<close>

record socket_env =
  se_ws :: ws_env
  se_json :: "string \<Rightarrow> json option"
  se_text :: "json_object \<Rightarrow> string"
  se_date :: "string \<Rightarrow> date"
  se_int :: "json \<Rightarrow> int"
  se_base64 :: "string \<Rightarrow> string"
  se_utf8 :: "string \<Rightarrow> string"
  se_uuid :: string

section \<open>Watching a workspace\<close>

record TaskWatchWebSocket =
  tw_base :: WebSocketBase
  tw_workspaceId :: string

datatype watch_effect = Watch_ws "ws_effect list" | WorkspaceChanged json_object | TaskUpdated TaskStatus TaskStateEntry

type_synonym watch_out = "TaskWatchWebSocket \<times> watch_effect list"

definition watchWorkspace :: "socket_env \<Rightarrow> string \<Rightarrow> TaskWatchWebSocket \<Rightarrow> watch_out" where
  "watchWorkspace e workspaceId t =
     (let path = ''/api/v2/workspaces/'' @ workspaceId @ ''/watch-ws'' in
      case connectToEndpoint (se_ws e) path (tw_base t) of
        (w, out) \<Rightarrow> (t\<lparr>tw_workspaceId := workspaceId, tw_base := w\<rparr>, [Watch_ws out]))"

definition stopWatching :: "socket_env \<Rightarrow> TaskWatchWebSocket \<Rightarrow> watch_out" where
  "stopWatching e t =
     (case disconnect (se_ws e) (tw_base t) of (w, out) \<Rightarrow> (t\<lparr>tw_workspaceId := [], tw_base := w\<rparr>, [Watch_ws out]))"

definition deriveTaskStatus :: "json_object \<Rightarrow> TaskStatus" where
  "deriveTaskStatus ws =
     (let latestBuild = toObject (value_of ws ''latest_build'');
          buildStatus = str latestBuild ''status'';
          transition = str latestBuild ''transition'' in
      if buildStatus = ''pending'' then TS_Pending
      else if buildStatus = ''starting'' then TS_Initializing
      else if buildStatus = ''running''
      then (if transition = ''stop'' \<or> transition = ''delete'' then TS_Paused else TS_Active)
      else if buildStatus = ''stopping'' \<or> buildStatus = ''canceling'' \<or> buildStatus = ''deleting'' then TS_Paused
      else if buildStatus = ''stopped'' \<or> buildStatus = ''canceled'' \<or> buildStatus = ''deleted'' then TS_Paused
      else if buildStatus = ''failed'' then TS_Error
      else TS_Unknown)"

definition state_of_build :: "socket_env \<Rightarrow> json_object \<Rightarrow> TaskStateEntry" where
  "state_of_build e ws =
     (let latestBuild = toObject (value_of ws ''latest_build'');
          buildStatus = str latestBuild ''status'' in
      \<lparr>se_timestamp = date_of (se_date e) (str latestBuild ''updated_at''),
       se_state =
         (if buildStatus = ''running'' then St_Working
          else if buildStatus = ''failed'' then St_Failed
          else if buildStatus = ''stopped'' \<or> buildStatus = ''canceled'' \<or> buildStatus = ''deleted'' then St_Complete
          else St_Idle),
       se_message = buildStatus, se_uri = []\<rparr>)"

definition watch_onTextMessage :: "socket_env \<Rightarrow> string \<Rightarrow> watch_effect list" where
  "watch_onTextMessage e message =
     (if HAS_WEBSOCKETS (se_ws e)
      then (case se_json e message of
              Some (JObject root) \<Rightarrow>
                if str root ''type'' \<noteq> ''data'' then []
                else
                  let ws = toObject (value_of root ''data'') in
                  if ws = [] then [] else [WorkspaceChanged ws, TaskUpdated (deriveTaskStatus ws) (state_of_build e ws)]
            | _ \<Rightarrow> [])
      else [])"

section \<open>The log of a build\<close>

record BuildLogWebSocket =
  bl_base :: WebSocketBase
  m_buildId :: string

datatype build_effect = Build_ws "ws_effect list" | BuildComplete | LogReceived int string string string date

type_synonym build_out = "BuildLogWebSocket \<times> build_effect list"

definition new_BuildLogWebSocket :: BuildLogWebSocket where
  "new_BuildLogWebSocket = \<lparr>bl_base = new_WebSocket, m_buildId = []\<rparr>"

definition connectToBuildLogs :: "socket_env \<Rightarrow> string \<Rightarrow> BuildLogWebSocket \<Rightarrow> build_out" where
  "connectToBuildLogs e buildId b =
     (let path = ''/api/v2/workspacebuilds/'' @ buildId @ ''/logs?follow=true&after=0'' in
      case connectToEndpoint (se_ws e) path (bl_base b) of
        (w, out) \<Rightarrow> (b\<lparr>m_buildId := buildId, bl_base := w\<rparr>, [Build_ws out]))"

definition build_onTextMessage :: "socket_env \<Rightarrow> string \<Rightarrow> build_effect list" where
  "build_onTextMessage e message =
     (case se_json e message of
        None \<Rightarrow> []
      | Some doc \<Rightarrow>
          let obj = toObject doc in
          [LogReceived (se_int e (value_of obj ''id'')) (str obj ''output'') (str obj ''level'') (str obj ''stage'')
             (se_date e (str obj ''created_at''))])"

text \<open>The end of the connection is the end of the log.\<close>

datatype build_event = Connect_logs string | Build_socket ws_event

fun build_step :: "socket_env \<Rightarrow> build_event \<Rightarrow> BuildLogWebSocket \<Rightarrow> build_out" where
  "build_step e (Connect_logs buildId) b = connectToBuildLogs e buildId b"
| "build_step e (Build_socket (Text_message s)) b = (b, build_onTextMessage e s)"
| "build_step e (Build_socket ev) b =
     (case ws_step (se_ws e) ev (bl_base b) of
        (w, out) \<Rightarrow> (b\<lparr>bl_base := w\<rparr>, Build_ws out # (if Emit_disconnected \<in> set out then [BuildComplete] else [])))"

fun build_run :: "socket_env \<Rightarrow> build_event list \<Rightarrow> BuildLogWebSocket \<Rightarrow> build_out" where
  "build_run e [] b = (b, [])"
| "build_run e (ev # evs) b =
     (case build_step e ev b of (b, out) \<Rightarrow> case build_run e evs b of (b, out') \<Rightarrow> (b, out @ out'))"

interpretation builds: machine "build_step e" "build_run e" for e
  by unfold_locales simp_all

section \<open>The terminal\<close>

record TerminalWebSocket =
  tm_base :: WebSocketBase
  tm_agentId :: string
  tm_sessionId :: string
  m_cols :: int
  m_rows :: int

record TerminalBridge =
  m_ws :: TerminalWebSocket
  m_agentId :: string
  m_jsReady :: bool
  m_hasPendingResize :: bool
  m_pendingCols :: int
  m_pendingRows :: int

datatype terminal_effect = Term_ws ws_effect | OutputReceived string | ConnectionChanged

type_synonym terminal_out = "TerminalBridge \<times> terminal_effect list"

definition new_TerminalBridge :: TerminalBridge where
  "new_TerminalBridge =
     \<lparr>m_ws = \<lparr>tm_base = new_WebSocket, tm_agentId = [], tm_sessionId = [], m_cols = 80, m_rows = 24\<rparr>,
      m_agentId = [], m_jsReady = False, m_hasPendingResize = False, m_pendingCols = 80, m_pendingRows = 24\<rparr>"

definition pty_path :: "string \<Rightarrow> string \<Rightarrow> int \<Rightarrow> int \<Rightarrow> string" where
  "pty_path agentId sessionId cols rows =
     ''/api/v2/workspaceagents/'' @ agentId @ ''/pty?reconnect='' @ sessionId @ ''&width='' @ number cols @
     ''&height='' @ number rows"

definition connectToPty ::
    "socket_env \<Rightarrow> string \<Rightarrow> int \<Rightarrow> int \<Rightarrow> TerminalWebSocket \<Rightarrow> TerminalWebSocket \<times> ws_effect list" where
  "connectToPty e agentId cols rows t =
     (let sid = (if tm_sessionId t = [] then se_uuid e else tm_sessionId t) in
      case connectToEndpoint (se_ws e) (pty_path agentId sid cols rows) (tm_base t) of
        (w, out) \<Rightarrow>
          (t\<lparr>tm_agentId := agentId, m_cols := cols, m_rows := rows, tm_sessionId := sid, tm_base := w\<rparr>, out))"

definition term_sendInput :: "socket_env \<Rightarrow> string \<Rightarrow> TerminalWebSocket \<Rightarrow> TerminalWebSocket \<times> ws_effect list" where
  "term_sendInput e data t =
     (case sendBinaryMessage (se_ws e) (se_text e [(''data'', JString data)]) (tm_base t) of
        (w, out) \<Rightarrow> (t\<lparr>tm_base := w\<rparr>, out))"

definition size_message :: "int \<Rightarrow> int \<Rightarrow> json_object" where
  "size_message cols rows = [(''height'', JNumber (of_int rows)), (''width'', JNumber (of_int cols))]"

definition term_resize :: "socket_env \<Rightarrow> int \<Rightarrow> int \<Rightarrow> TerminalWebSocket \<Rightarrow> TerminalWebSocket \<times> ws_effect list" where
  "term_resize e cols rows t =
     (case sendBinaryMessage (se_ws e) (se_text e (size_message cols rows)) (tm_base t) of
        (w, out) \<Rightarrow> (t\<lparr>m_cols := cols, m_rows := rows, tm_base := w\<rparr>, out))"

definition bridge_isConnected :: "socket_env \<Rightarrow> TerminalBridge \<Rightarrow> bool" where
  "bridge_isConnected e b = isConnected (se_ws e) (tm_base (m_ws b))"

definition with_ws :: "TerminalBridge \<Rightarrow> TerminalWebSocket \<times> ws_effect list \<Rightarrow> terminal_out" where
  "with_ws b r = (case r of (t, out) \<Rightarrow> (b\<lparr>m_ws := t\<rparr>, map Term_ws out))"

definition tryConnect :: "socket_env \<Rightarrow> TerminalBridge \<Rightarrow> terminal_out" where
  "tryConnect e b =
     (if m_jsReady b \<and> m_agentId b \<noteq> []
      then with_ws b (connectToPty e (m_agentId b) (m_pendingCols b) (m_pendingRows b) (m_ws b))
      else (b, []))"

definition setCredentials :: "string \<Rightarrow> string \<Rightarrow> TerminalBridge \<Rightarrow> TerminalBridge" where
  "setCredentials url token b =
     b\<lparr>m_ws := (m_ws b)\<lparr>tm_base := setSessionToken token (setBaseUrl url (tm_base (m_ws b)))\<rparr>\<rparr>"

definition setAgentId :: "socket_env \<Rightarrow> string \<Rightarrow> TerminalBridge \<Rightarrow> terminal_out" where
  "setAgentId e agentId b = tryConnect e (b\<lparr>m_agentId := agentId\<rparr>)"

definition notifyReady :: "socket_env \<Rightarrow> int \<Rightarrow> int \<Rightarrow> TerminalBridge \<Rightarrow> terminal_out" where
  "notifyReady e cols rows b = tryConnect e (b\<lparr>m_jsReady := True, m_pendingCols := cols, m_pendingRows := rows\<rparr>)"

definition bridge_sendInput :: "socket_env \<Rightarrow> string \<Rightarrow> TerminalBridge \<Rightarrow> terminal_out" where
  "bridge_sendInput e data b = (if bridge_isConnected e b then with_ws b (term_sendInput e data (m_ws b)) else (b, []))"

definition bridge_resize :: "socket_env \<Rightarrow> int \<Rightarrow> int \<Rightarrow> TerminalBridge \<Rightarrow> terminal_out" where
  "bridge_resize e cols rows b =
     (let b = b\<lparr>m_pendingCols := cols, m_pendingRows := rows\<rparr> in
      if bridge_isConnected e b then with_ws b (term_resize e cols rows (m_ws b))
      else (b\<lparr>m_hasPendingResize := True\<rparr>, []))"

definition disconnectFromPty :: "socket_env \<Rightarrow> TerminalBridge \<Rightarrow> terminal_out" where
  "disconnectFromPty e b =
     (case disconnect (se_ws e) (tm_base (m_ws b)) of
        (w, out) \<Rightarrow> (b\<lparr>m_ws := (m_ws b)\<lparr>tm_base := w\<rparr>\<rparr>, map Term_ws out))"

text \<open>The slot of the change of the connection.\<close>

definition flush_resize :: "socket_env \<Rightarrow> TerminalBridge \<Rightarrow> terminal_out" where
  "flush_resize e b =
     (if bridge_isConnected e b \<and> m_hasPendingResize b
      then with_ws (b\<lparr>m_hasPendingResize := False\<rparr>) (term_resize e (m_pendingCols b) (m_pendingRows b) (m_ws b))
      else (b, []))"

datatype terminal_event =
  Set_credentials string string | Set_agent string | Ready int int | Input string | Resize_to int int | Leave
| Term_socket ws_event

fun terminal_step :: "socket_env \<Rightarrow> terminal_event \<Rightarrow> TerminalBridge \<Rightarrow> terminal_out" where
  "terminal_step e (Set_credentials url token) b = (setCredentials url token b, [])"
| "terminal_step e (Set_agent agentId) b = setAgentId e agentId b"
| "terminal_step e (Ready cols rows) b = notifyReady e cols rows b"
| "terminal_step e (Input data) b = bridge_sendInput e data b"
| "terminal_step e (Resize_to cols rows) b = bridge_resize e cols rows b"
| "terminal_step e Leave b = disconnectFromPty e b"
| "terminal_step e (Term_socket (Text_message s)) b = (b, [OutputReceived (se_base64 e s)])"
| "terminal_step e (Term_socket (Binary_message s)) b = (b, [OutputReceived (se_base64 e (se_utf8 e s))])"
| "terminal_step e (Term_socket ev) b =
     (case ws_step (se_ws e) ev (tm_base (m_ws b)) of
        (w, out) \<Rightarrow>
          let b = b\<lparr>m_ws := (m_ws b)\<lparr>tm_base := w\<rparr>\<rparr> in
          if Emit_connectionStateChanged \<in> set out
          then (case flush_resize e b of (b, out') \<Rightarrow> (b, map Term_ws out @ ConnectionChanged # out'))
          else (b, map Term_ws out))"

fun terminal_run :: "socket_env \<Rightarrow> terminal_event list \<Rightarrow> TerminalBridge \<Rightarrow> terminal_out" where
  "terminal_run e [] b = (b, [])"
| "terminal_run e (ev # evs) b =
     (case terminal_step e ev b of (b, out) \<Rightarrow> case terminal_run e evs b of (b, out') \<Rightarrow> (b, out @ out'))"

section \<open>Properties\<close>

text \<open>A socket that was opened and is not yet connected, with reconnection as it is by default.\<close>

definition opened :: "socket_env \<Rightarrow> string \<Rightarrow> WebSocketBase \<Rightarrow> bool" where
  "opened e path w \<longleftrightarrow>
     m_lastPath w = path \<and> m_autoReconnect w \<and> m_maxReconnectAttempts w = 5 \<and> url_valid (se_ws e) (buildWsUrl path w)"

definition count_complete :: "build_effect list \<Rightarrow> nat" where
  "count_complete out = count_list out BuildComplete"

fun build_opens :: "build_effect list \<Rightarrow> nat" where
  "build_opens [] = 0"
| "build_opens (Build_ws out # rest) = opens out + build_opens rest"
| "build_opens (_ # rest) = build_opens rest"

lemma build_opens_append [simp]: "build_opens (xs @ ys) = build_opens xs + build_opens ys"
  by (induction xs rule: build_opens.induct) simp_all

definition build_cycle :: "build_event list" where
  "build_cycle = [Build_socket Socket_connected, Build_socket Socket_disconnected, Build_socket Timeout]"

lemma buildWsUrl_same: "m_baseUrl w' = m_baseUrl w \<Longrightarrow> buildWsUrl path w' = buildWsUrl path w"
  by (simp add: buildWsUrl_def)

lemma buildWsUrl_updates [simp]:
  "buildWsUrl path (w\<lparr>m_socket := s\<rparr>) = buildWsUrl path w" "buildWsUrl path (w\<lparr>m_lastPath := p\<rparr>) = buildWsUrl path w"
  "buildWsUrl path (w\<lparr>m_reconnectAttempt := n\<rparr>) = buildWsUrl path w"
  "buildWsUrl path (w\<lparr>m_reconnectTimer := tm\<rparr>) = buildWsUrl path w"
  by (simp_all add: buildWsUrl_def)

lemma build_cycle_again:
  assumes "HAS_WEBSOCKETS (se_ws e)" and "path \<noteq> []" and "opened e path (bl_base b)"
  shows "\<exists>b' out. build_run e build_cycle b = (b', out) \<and> opened e path (bl_base b') \<and>
    build_opens out = 1 \<and> count_complete out = 1"
proof -
  let ?w = "bl_base b"
  have w: "m_lastPath ?w = path" "m_autoReconnect ?w" "m_maxReconnectAttempts ?w = 5"
    "url_valid (se_ws e) (buildWsUrl path ?w)"
    using assms(3) by (simp_all add: opened_def)
  from assms(1,2) w show ?thesis
    by (simp add: build_cycle_def onConnected_def onDisconnected_def attemptReconnect_def connectToEndpoint_def Let_def
        opened_def opens_def count_complete_def)
qed

text \<open>The log of a build never ends. The server closes the connection when the log is complete, and that is taken
  for the end of the build; but the reconnection of the base class is on, and every successful
  connection gives it all its attempts back. So however often the server has delivered the whole log and closed,
  the log is fetched once more, from the beginning, and its end announced again.\<close>

lemma build_log_repeats:
  assumes "HAS_WEBSOCKETS (se_ws e)" and "\<And>url. url_valid (se_ws e) url"
    and "build_run e (Connect_logs buildId # concat (replicate n build_cycle)) new_BuildLogWebSocket = (b, out)"
  shows "build_opens out = n + 1 \<and> count_complete out = n \<and> m_socket (bl_base b) \<noteq> ConnectedState"
proof -
  let ?path = "''/api/v2/workspacebuilds/'' @ buildId @ ''/logs?follow=true&after=0''"
  obtain b1 o1 where c: "connectToBuildLogs e buildId new_BuildLogWebSocket = (b1, o1)" by fastforce
  with assms(1,2) have b1: "opened e ?path (bl_base b1)" "build_opens o1 = 1" "count_complete o1 = 0"
    "m_socket (bl_base b1) \<noteq> ConnectedState"
    by (auto simp: connectToBuildLogs_def connectToEndpoint_def new_BuildLogWebSocket_def new_WebSocket_def Let_def
        opened_def opens_def count_complete_def)
  have "\<exists>b2 o2. build_run e (concat (replicate n build_cycle)) b0 = (b2, o2) \<and> build_opens o2 = n \<and> count_complete o2 = n \<and>
      m_socket (bl_base b2) \<noteq> ConnectedState"
    if "opened e ?path (bl_base b0)" "m_socket (bl_base b0) \<noteq> ConnectedState" for b0
    using that
  proof (induction n arbitrary: b0)
    case 0
    then show ?case by (simp add: count_complete_def)
  next
    case (Suc n)
    obtain b' out where r: "build_run e build_cycle b0 = (b', out)" "opened e ?path (bl_base b')" "build_opens out = 1"
      "count_complete out = 1" using build_cycle_again [OF assms(1) _ Suc.prems(1)] by auto
    have "m_socket (bl_base b') \<noteq> ConnectedState"
      using r(1) by (auto simp: build_cycle_def onConnected_def onDisconnected_def attemptReconnect_def
          connectToEndpoint_def Let_def split: if_splits prod.splits)
    from Suc.IH [OF r(2) this] r show ?case by (auto simp: builds.run_append count_complete_def)
  qed
  from this [OF b1(1,4)] b1 c assms(3) show ?thesis by (auto simp: count_complete_def)
qed

text \<open>What goes to the server.\<close>

definition wire :: "terminal_effect list \<Rightarrow> ws_effect list" where
  "wire out = [x. Term_ws x \<leftarrow> out, (case x of Open u t \<Rightarrow> True | SendBinary d \<Rightarrow> True | SendText d \<Rightarrow> True | _ \<Rightarrow> False)]"

text \<open>A reconnection opens the terminal with the size of the first connection. When the user resizes the terminal and
  the connection is lost and found again, the path that is opened again still has the old
  size, and nothing tells the server the new one, although the application knows it.\<close>

lemma reconnect_forgets_size:
  assumes "HAS_WEBSOCKETS (se_ws e)" and "\<And>url. url_valid (se_ws e) url" and "agentId \<noteq> []" and "se_uuid e \<noteq> []"
    and "terminal_run e [Set_credentials base token, Set_agent agentId, Ready c r, Term_socket Socket_connected, Resize_to c' r',
      Term_socket Socket_disconnected, Term_socket Timeout, Term_socket Socket_connected] new_TerminalBridge = (b, out)"
  shows "\<exists>url t. suffix (pty_path agentId (se_uuid e) c r) url \<and>
    wire out = [Open url t, SendBinary (se_text e (size_message c' r')), Open url t] \<and>
    bridge_isConnected e b \<and> m_cols (m_ws b) = c' \<and> m_rows (m_ws b) = r' \<and> \<not> m_hasPendingResize b"
proof -
  let ?path = "pty_path agentId (se_uuid e) c r"
  have p: "?path \<noteq> []" by (simp add: pty_path_def)
  let ?W0 = "setSessionToken token (setBaseUrl base new_WebSocket)" and ?t = "if token \<noteq> [] then Some token else None"
  obtain url where url: "url = buildWsUrl ?path ?W0" by blast
  have u: "buildWsUrl ?path w = url" if "m_baseUrl w = m_baseUrl ?W0" for w
    using buildWsUrl_same [OF that] url by simp
  have s: "suffix ?path url" by (simp add: url buildWsUrl_def suffix_def Let_def)
  have W0: "m_autoReconnect ?W0" "m_maxReconnectAttempts ?W0 = 5" "m_sessionToken ?W0 = token" "m_reconnectAttempt ?W0 = 0"
    "m_reconnectTimer ?W0 = None" "m_socket ?W0 = UnconnectedState"
    by (simp_all add: setSessionToken_def setBaseUrl_def new_WebSocket_def)
  define W where "W s n tm lp = ?W0\<lparr>m_socket := s, m_reconnectAttempt := n, m_reconnectTimer := tm, m_lastPath := lp\<rparr>"
    for s n tm lp
  define B where "B w sid cc rr ready pc pr =
      \<lparr>m_ws = \<lparr>tm_base = w, tm_agentId = (if sid = [] then [] else agentId), tm_sessionId = sid, m_cols = cc, m_rows = rr\<rparr>,
       m_agentId = agentId, m_jsReady = ready, m_hasPendingResize = False, m_pendingCols = pc, m_pendingRows = pr\<rparr>"
    for w :: WebSocketBase and sid cc rr ready pc pr
  have W: "buildWsUrl ?path (W s n tm lp) = url" "m_socket (W s n tm lp) = s" for s n tm lp
    by (simp_all add: u W_def W0)
  have ws: "ws_step (se_ws e) Socket_connected (W s n tm ?path) =
      (W ConnectedState 0 tm ?path, [Emit_connected, Emit_connectionStateChanged])"
    "ws_step (se_ws e) Socket_disconnected (W s 0 tm ?path) =
      (W UnconnectedState 0 (Some 1000) ?path, [Emit_disconnected, Emit_connectionStateChanged])"
    "ws_step (se_ws e) Timeout (W s 0 (Some d) ?path) = (W ConnectingState 1 None ?path, [Open url ?t])" for s n tm d
    using assms(1,2) p u
    by (simp_all add: onConnected_def onDisconnected_def attemptReconnect_def connectToEndpoint_def Let_def W_def W0)
  have s0: "terminal_step e (Set_credentials base token) new_TerminalBridge = (setCredentials base token new_TerminalBridge, [])"
    by simp
  have s1: "terminal_step e (Set_agent agentId) (setCredentials base token new_TerminalBridge) = (B ?W0 [] 80 24 False 80 24, [])"
    by (simp add: setAgentId_def tryConnect_def B_def new_TerminalBridge_def setCredentials_def)
  have s2: "terminal_step e (Ready c r) (B ?W0 [] 80 24 False 80 24) =
      (B (W ConnectingState 0 None ?path) (se_uuid e) c r True c r, [Term_ws (Open url ?t)])"
    using assms(1-4) u
    by (simp add: notifyReady_def tryConnect_def with_ws_def connectToPty_def connectToEndpoint_def Let_def B_def W_def
        W0)
  have s3: "terminal_step e (Term_socket Socket_connected) (B (W s n tm ?path) sid cc rr True pc pr) =
      (B (W ConnectedState 0 tm ?path) sid cc rr True pc pr,
       [Term_ws Emit_connected, Term_ws Emit_connectionStateChanged, ConnectionChanged])" for s n tm sid cc rr pc pr
    using ws(1) [of s n tm] by (simp add: B_def flush_resize_def del: ws_step.simps)
  have s4: "terminal_step e (Resize_to c' r') (B (W ConnectedState n tm ?path) sid cc rr True pc pr) =
      (B (W ConnectedState n tm ?path) sid c' r' True c' r', [Term_ws (SendBinary (se_text e (size_message c' r')))])"
    for n tm sid cc rr pc pr
    using assms(1) W(2)
    by (simp add: bridge_resize_def bridge_isConnected_def isConnected_def with_ws_def term_resize_def
        sendBinaryMessage_def B_def Let_def)
  have s5: "terminal_step e (Term_socket Socket_disconnected) (B (W s 0 tm ?path) sid cc rr True pc pr) =
      (B (W UnconnectedState 0 (Some 1000) ?path) sid cc rr True pc pr,
       [Term_ws Emit_disconnected, Term_ws Emit_connectionStateChanged, ConnectionChanged])" for s tm sid cc rr pc pr
    using ws(2) [of s tm] by (simp add: B_def flush_resize_def del: ws_step.simps)
  have s6: "terminal_step e (Term_socket Timeout) (B (W s 0 (Some d) ?path) sid cc rr True pc pr) =
      (B (W ConnectingState 1 None ?path) sid cc rr True pc pr, [Term_ws (Open url ?t)])" for s d sid cc rr pc pr
    using ws(3) [of s d] by (simp add: B_def del: ws_step.simps)
  from assms(5) have "b = B (W ConnectedState 0 None ?path) (se_uuid e) c' r' True c' r'"
    "wire out = [Open url ?t, SendBinary (se_text e (size_message c' r')), Open url ?t]"
    by (auto simp: s0 s1 s2 s3 s4 s5 s6 wire_def simp del: terminal_step.simps)
  with s assms(1) W(2) show ?thesis by (auto simp: B_def bridge_isConnected_def isConnected_def)
qed

section \<open>Examples\<close>

definition demo_socket :: socket_env where
  "demo_socket =
     \<lparr>se_ws = \<lparr>HAS_WEBSOCKETS = True, url_valid = (\<lambda>_. True)\<rparr>, se_json = (\<lambda>_. None), se_text = (\<lambda>_. ''{}''),
      se_date = (\<lambda>_. None), se_int = (\<lambda>_. 0), se_base64 = (\<lambda>s. s), se_utf8 = (\<lambda>s. s), se_uuid = ''7''\<rparr>"

lemma demo_socket: "HAS_WEBSOCKETS (se_ws demo_socket)" "\<And>url. url_valid (se_ws demo_socket) url" "se_uuid demo_socket \<noteq> []"
  by (simp_all add: demo_socket_def)

end
