(* ===== verification/Clients.thy ===== *)
theory Clients
  imports Machine Settings Api_Client App_Catalogue
begin

text \<open>
  The smaller clients of the network: the search for updates
  (\<^verbatim>\<open>src/app/src/updater/AutoUpdater.cpp\<close>), the directories of an agent
  (\<^verbatim>\<open>src/app/src/api/AgentApiClient.cpp\<close>), and the addresses of workspace applications
  (\<^verbatim>\<open>src/app/src/webview/AppBrowserWidget.cpp\<close>). Requests are values, answers events; log output is
  left out.
\<close>

section \<open>Version numbers\<close>

text \<open>The pattern \<^verbatim>\<open>^v?(\d+)\.(\d+)\.(\d+)\<close>; what follows does not matter.\<close>

definition take_number :: "string \<Rightarrow> (string \<times> string) option" where
  "take_number s = (let ds = takeWhile is_digit s in if ds = [] then None else Some (ds, drop (length ds) s))"

definition take_dot :: "string \<Rightarrow> string option" where
  "take_dot s = (case s of c # r \<Rightarrow> if c = CHR ''.'' then Some r else None | [] \<Rightarrow> None)"

definition parseSemver :: "string \<Rightarrow> (int \<times> int \<times> int) option" where
  "parseSemver tag = do {
     let s = (if prefix ''v'' tag then tl tag else tag);
     (major, s) \<leftarrow> take_number s;
     s \<leftarrow> take_dot s;
     (minor, s) \<leftarrow> take_number s;
     s \<leftarrow> take_dot s;
     (patch, s) \<leftarrow> take_number s;
     Some (toInt major, toInt minor, toInt patch)
   }"

definition isNewerVersion :: "string \<Rightarrow> string \<Rightarrow> bool" where
  "isNewerVersion local remote =
     (case (parseSemver local, parseSemver remote) of
        (Some (lMaj, lMin, lPat), Some (rMaj, rMin, rPat)) \<Rightarrow>
          if rMaj \<noteq> lMaj then rMaj > lMaj
          else if rMin \<noteq> lMin then rMin > lMin
          else rPat > lPat
      | _ \<Rightarrow> text_less local remote)"

section \<open>The updater\<close>

record AutoUpdater =
  m_currentVersion :: string
  m_latestVersion :: string
  m_downloadUrl :: string
  m_updateReady :: bool
  timer_ms :: int
  timer_on :: bool

datatype update_effect =
  Get_release string "(string \<times> string) list" | CheckFinished | UpdateAvailable string string | First_check_after int

type_synonym update_out = "AutoUpdater \<times> update_effect list"

definition kReleasesUrl :: string where
  "kReleasesUrl = ''https://api.github.com/repos/coder/coder-desktop-linux/releases/latest''"

definition new_AutoUpdater :: "string \<Rightarrow> update_out" where
  "new_AutoUpdater version =
     (\<lparr>m_currentVersion = version, m_latestVersion = [], m_downloadUrl = [], m_updateReady = False,
       timer_ms = 24 * 60 * 60 * 1000, timer_on = False\<rparr>, [First_check_after 5000])"

text \<open>The settings may be missing.\<close>

definition checkNow :: "conversions \<Rightarrow> SettingsManager option \<Rightarrow> AutoUpdater \<Rightarrow> update_out" where
  "checkNow c settings u =
     (if (case settings of None \<Rightarrow> False | Some s \<Rightarrow> \<not> checkForUpdates c s) then (u, [CheckFinished])
      else (u, [Get_release kReleasesUrl
        [(''User-Agent'', ''CoderDesktop/'' @ m_currentVersion u), (''Accept'', ''application/vnd.github.v3+json'')]]))"

definition setCheckInterval :: "int \<Rightarrow> AutoUpdater \<Rightarrow> AutoUpdater" where
  "setCheckInterval interval u =
     (if interval \<le> 0 then u\<lparr>timer_on := False\<rparr> else u\<lparr>timer_ms := interval, timer_on := True\<rparr>)"

text \<open>An error of the network, or what Qt parsed (\<^term>\<open>JNull\<close> stands for any document that is no object).\<close>

definition onReplyFinished :: "json option \<Rightarrow> AutoUpdater \<Rightarrow> update_out" where
  "onReplyFinished reply u =
     (case reply of
        Some (JObject root) \<Rightarrow>
          let tagName = str root ''tag_name'' in
          if tagName = [] then (u, [CheckFinished])
          else
            let assets = toArray (value_of root ''assets'');
                assetUrl = (if assets \<noteq> [] then str (toObject (hd assets)) ''browser_download_url'' else []);
                assetUrl = (if assetUrl = [] then str root ''html_url'' else assetUrl) in
            if isNewerVersion (m_currentVersion u) tagName
            then (u\<lparr>m_latestVersion := tagName, m_downloadUrl := assetUrl, m_updateReady := True\<rparr>,
                  [UpdateAvailable tagName assetUrl])
            else (u, [CheckFinished])
      | _ \<Rightarrow> (u, [CheckFinished]))"

text \<open>The first check, a request of the user, the timer if it runs, an answer.\<close>

datatype update_event = Check "SettingsManager option" | Timer_fires "SettingsManager option" | Set_interval int | Release "json option"

fun update_step :: "conversions \<Rightarrow> update_event \<Rightarrow> AutoUpdater \<Rightarrow> update_out" where
  "update_step c (Check s) u = checkNow c s u"
| "update_step c (Timer_fires s) u = (if timer_on u then checkNow c s u else (u, []))"
| "update_step c (Set_interval ms) u = (setCheckInterval ms u, [])"
| "update_step c (Release reply) u = onReplyFinished reply u"

fun update_run :: "conversions \<Rightarrow> update_event list \<Rightarrow> AutoUpdater \<Rightarrow> update_out" where
  "update_run c [] u = (u, [])"
| "update_run c (ev # evs) u =
     (case update_step c ev u of (u, out) \<Rightarrow> case update_run c evs u of (u, out') \<Rightarrow> (u, out @ out'))"

interpretation updates: machine "update_step c" "update_run c" for c
  by unfold_locales simp_all

section \<open>Directories of an agent\<close>

record DirectoryEntry =
  dr_name :: string
  dr_absolutePathString :: string
  dr_isDir :: bool

record DirectoryListing =
  dl_absolutePath :: "string list"
  dl_absolutePathString :: string
  dl_contents :: "DirectoryEntry list"

definition entry_fromJson :: "json_object \<Rightarrow> DirectoryEntry" where
  "entry_fromJson obj =
     \<lparr>dr_name = str obj ''name'', dr_absolutePathString = str obj ''absolute_path_string'',
      dr_isDir = toBool (value_of obj ''is_dir'')\<rparr>"

definition listing_fromJson :: "json_object \<Rightarrow> DirectoryListing" where
  "listing_fromJson obj =
     \<lparr>dl_absolutePath = map toString (toArray (value_of obj ''absolute_path'')),
      dl_absolutePathString = str obj ''absolute_path_string'',
      dl_contents = map (entry_fromJson \<circ> toObject) (toArray (value_of obj ''contents''))\<rparr>"

definition list_body :: "string list \<Rightarrow> string \<Rightarrow> json_object" where
  "list_body path relativity = [(''path'', JArray (map JString path)), (''relativity'', JString relativity)]"

definition buildAgentUrl :: "string \<Rightarrow> string \<Rightarrow> string" where
  "buildAgentUrl host path = ''http://'' @ host @ '':4'' @ path"

definition listDirectory :: "string \<Rightarrow> string list \<Rightarrow> string \<Rightarrow> http_request" where
  "listDirectory host path relativity =
     \<lparr>hr_method = POST, hr_url = buildAgentUrl host ''/api/v0/list-directory'',
      hr_headers = [(''Content-Type'', ''application/json'')], hr_body = Some (list_body path relativity)\<rparr>"

datatype agent_signal = ListDirectoryError string string | DirectoryListed string DirectoryListing

text \<open>What Qt's parser says of the body: the text of an error or the document.\<close>

definition list_answered :: "(string \<Rightarrow> string + json) \<Rightarrow> string \<Rightarrow> http_reply \<Rightarrow> agent_signal" where
  "list_answered parse host r =
     (if rp_error r
      then ListDirectoryError host
        (''Network error listing directory on '' @ host @ '': '' @ rp_errorString r)
      else if rp_status r < 200 \<or> rp_status r \<ge> 300
      then ListDirectoryError host
        (''Agent API on '' @ host @ '' returned HTTP '' @ number (rp_status r) @ '': '' @ take 512 (rp_body r))
      else case parse (rp_body r) of
        Inl msg \<Rightarrow> ListDirectoryError host
          (''Failed to parse list-directory response from '' @ host @ '': '' @ msg)
      | Inr (JObject obj) \<Rightarrow> DirectoryListed host (listing_fromJson obj)
      | Inr _ \<Rightarrow> ListDirectoryError host
          (''Unexpected JSON type in list-directory response from '' @ host))"

section \<open>Addresses of workspace applications\<close>

text \<open>What \<^verbatim>\<open>QUrl\<close> does: whether an address is valid, its scheme and host, the address with another host or path.\<close>

record url_env =
  ue_valid :: "string \<Rightarrow> bool"
  ue_scheme :: "string \<Rightarrow> string"
  ue_host :: "string \<Rightarrow> string"
  ue_with_host :: "string \<Rightarrow> string \<Rightarrow> string"
  ue_with_path :: "string \<Rightarrow> string \<Rightarrow> string"

definition buildAppUrl ::
    "url_env \<Rightarrow> string \<Rightarrow> string \<Rightarrow> string \<Rightarrow> string \<Rightarrow> string \<Rightarrow> string \<Rightarrow> bool \<Rightarrow> bool \<Rightarrow> string" where
  "buildAppUrl e deployment appUrl appSlug workspaceName ownerName agentName vpnActive isExternal =
     (if isExternal then appUrl
      else if vpnActive \<and> appUrl \<noteq> [] \<and> ue_valid e appUrl
      then ue_with_host e (agentName @ ''.'' @ workspaceName @ ''.me.coder'') appUrl
      else if \<not> ue_valid e deployment \<or> ue_scheme e deployment = [] then []
      else ue_with_path e (''/@'' @ ownerName @ ''/'' @ workspaceName @ ''/apps/'' @ appSlug) deployment)"

record AppBrowserWidget =
  ab_currentUrl :: string
  ab_loading :: bool

datatype browser_signal = UrlChanged | Browser_loadingChanged

definition setCurrentUrl :: "string \<Rightarrow> AppBrowserWidget \<Rightarrow> AppBrowserWidget \<times> browser_signal list" where
  "setCurrentUrl url b = (if ab_currentUrl b \<noteq> url then (b\<lparr>ab_currentUrl := url\<rparr>, [UrlChanged]) else (b, []))"

definition setLoading :: "bool \<Rightarrow> AppBrowserWidget \<Rightarrow> AppBrowserWidget \<times> browser_signal list" where
  "setLoading l b = (if ab_loading b \<noteq> l then (b\<lparr>ab_loading := l\<rparr>, [Browser_loadingChanged]) else (b, []))"

definition buildSessionCookie :: "string \<Rightarrow> string" where
  "buildSessionCookie token = token"

text \<open>The cookie that signs the embedded browser in; without the web engine there is nothing to set it in.\<close>

record session_cookie =
  ck_name :: string
  ck_value :: string
  ck_domain :: string
  ck_path :: string
  ck_secure :: bool
  ck_httpOnly :: bool

definition injectSessionCookie :: "bool \<Rightarrow> url_env \<Rightarrow> string \<Rightarrow> string \<Rightarrow> session_cookie option" where
  "injectSessionCookie has_webengine e deployment token =
     (if token = [] \<or> deployment = [] then None
      else if has_webengine
      then (if \<not> ue_valid e deployment then None
            else Some \<lparr>ck_name = ''coder_session_token'', ck_value = token, ck_domain = ue_host e deployment,
                       ck_path = ''/'', ck_secure = (ue_scheme e deployment = ''https''), ck_httpOnly = True\<rparr>)
      else None)"

section \<open>Properties\<close>

lemma digits_value_snoc: "digits_value (s @ [c]) = 10 * digits_value s + digit_value c"
  by (simp add: digits_value_def)

lemma digit_char: "n < 10 \<Longrightarrow> digit_value (char_of (48 + n)) = int n"
  by (simp add: digit_value_def of_char_of)

lemma decimal_value: "digits_value (decimal n) = int n"
proof (induction n rule: decimal.induct)
  case (1 n)
  show ?case
  proof (cases "n < 10")
    case True
    then show ?thesis by (simp add: decimal.simps [of n] digits_value_def digit_char)
  next
    case False
    have e: "10 * int (n div 10) + int (n mod 10) = int n"
      by (metis mult_div_mod_eq of_nat_add of_nat_mult of_nat_numeral)
    from False have "decimal n = decimal (n div 10) @ [char_of (48 + n mod 10)]" by (simp add: decimal.simps [of n])
    then have "digits_value (decimal n) = 10 * digits_value (decimal (n div 10)) + int (n mod 10)"
      by (simp only: digits_value_snoc digit_char [of "n mod 10"] mod_less_divisor zero_less_numeral)
    with 1 False e show ?thesis by simp
  qed
qed

lemma decimal_digits: "decimal n \<noteq> [] \<and> list_all is_digit (decimal n)"
proof (induction n rule: decimal.induct)
  case (1 n)
  have "\<forall>d\<in>{0..<10::nat}. is_digit (char_of (48 + d))"
    by code_simp
  then have "is_digit (char_of (48 + d))" if "d < 10" for d :: nat
    using that by simp
  then have d: "is_digit (char_of (48 + n mod 10))" by simp
  show ?case
  proof (cases "n < 10")
    case True
    with d show ?thesis by (simp add: decimal.simps [of n])
  next
    case False
    with 1 d show ?thesis by (subst (1 2) decimal.simps) simp
  qed
qed


lemma take_number_decimal:
  assumes "rest = [] \<or> \<not> is_digit (hd rest)"
  shows "take_number (decimal n @ rest) = Some (decimal n, rest)"
proof -
  have t: "takeWhile is_digit rest = []" using assms by (cases rest) auto
  have "takeWhile is_digit (decimal n @ rest) = decimal n @ takeWhile is_digit rest"
    using decimal_digits [of n] by (intro takeWhile_append2) (auto simp: list_all_iff)
  with t decimal_digits [of n] show ?thesis by (simp add: take_number_def Let_def)
qed

lemma dot_no_digit [simp]: "\<not> is_digit CHR ''.''"
  by (simp add: is_digit_def)

lemma no_v_digit: "is_digit c \<Longrightarrow> c \<noteq> CHR ''v''"
  by (auto simp: is_digit_def)

lemma no_v_prefix: "\<not> prefix ''v'' (decimal n @ rest)"
proof -
  obtain c cs where "decimal n = c # cs" using decimal_digits [of n] by (cases "decimal n") auto
  with decimal_digits [of n] no_v_digit [of c] show ?thesis by auto
qed

lemma toInt_decimal: "n \<le> 2147483647 \<Longrightarrow> toInt (decimal n) = int n"
  by (simp add: toInt_def decimal_value)

lemma semver_read:
  assumes "pv = [] \<or> pv = ''v''" "suf = [] \<or> \<not> is_digit (hd suf)"
    and "a \<le> 2147483647" "b \<le> 2147483647" "c \<le> 2147483647"
  shows "parseSemver (pv @ decimal a @ ''.'' @ decimal b @ ''.'' @ decimal c @ suf) = Some (int a, int b, int c)"
proof -
  let ?r = "decimal a @ ''.'' @ decimal b @ ''.'' @ decimal c @ suf"
  have "(if prefix ''v'' (pv @ ?r) then tl (pv @ ?r) else pv @ ?r) = ?r"
    using assms(1) no_v_prefix [of a] by auto
  then show ?thesis
    unfolding parseSemver_def Let_def
    using assms take_number_decimal [of suf c]
    by (simp add: take_number_decimal take_dot_def toInt_decimal)
qed

text \<open>Versions are compared as numbers, major before minor before patch, with or without the
  leading v and whatever follows the third number (a pre-release tag of the local build does not count):
  the released version is newer exactly if its triple is lexicographically larger, so 1.10.0 follows 1.9.3.\<close>

lemma newer_versions:
  assumes "pv = [] \<or> pv = ''v''" "pw = [] \<or> pw = ''v''"
    and "suf = [] \<or> \<not> is_digit (hd suf)" "tail = [] \<or> \<not> is_digit (hd tail)"
    and "\<forall>n\<in>{a, b, c, x, y, z}. n \<le> 2147483647"
  shows "isNewerVersion (pv @ decimal a @ ''.'' @ decimal b @ ''.'' @ decimal c @ suf)
           (pw @ decimal x @ ''.'' @ decimal y @ ''.'' @ decimal z @ tail)
         \<longleftrightarrow> a < x \<or> a = x \<and> (b < y \<or> b = y \<and> c < z)"
proof -
  have "parseSemver (pv @ decimal a @ ''.'' @ decimal b @ ''.'' @ decimal c @ suf) = Some (int a, int b, int c)"
    "parseSemver (pw @ decimal x @ ''.'' @ decimal y @ ''.'' @ decimal z @ tail) = Some (int x, int y, int z)"
    using assms by (simp_all only: semver_read ball_simps insert_iff simp_thms)
  then show ?thesis by (simp add: isNewerVersion_def)
qed

text \<open>The timer of the periodic check only runs after \<^term>\<open>Set_interval\<close>, which nothing in the program sends:
  after the check that follows the start, updates are looked for only on request.\<close>

lemma update_step_timer:
  "(\<forall>ms. ev \<noteq> Set_interval ms) \<Longrightarrow> timer_on (fst (update_step c ev u)) = timer_on u"
  by (cases ev)
    (auto simp: checkNow_def onReplyFinished_def Let_def split: option.splits json.splits)

lemma no_periodic_check:
  assumes "\<forall>ms. Set_interval ms \<notin> set evs"
  shows "\<not> timer_on (fst (update_run c evs (fst (new_AutoUpdater v))))"
proof -
  let ?u = "fst (new_AutoUpdater v)"
  obtain u out where r: "update_run c evs ?u = (u, out)" by fastforce
  have e: "\<forall>ev \<in> set evs. \<forall>ms. ev \<noteq> Set_interval ms" using assms by auto
  have "\<not> timer_on u1 \<and> (\<forall>x \<in> set o1. True)"
    if "\<not> timer_on u" "\<forall>ms. ev \<noteq> Set_interval ms" "update_step c ev u = (u1, o1)" for ev u u1 o1
    using update_step_timer [OF that(2), of c u] that by simp
  from updates.state_invariant [where I = "\<lambda>u. \<not> timer_on u", OF _ r e this] r show ?thesis
    by (simp add: new_AutoUpdater_def)
qed

end
