(* ===== verification/Wiring.thy ===== *)
theory Wiring
  imports Machine Manager_Safety Polling File_Sync Settings Login_Flow Vpn_Bridge Notifications App_Catalogue
begin

text \<open>
  How the desktop application connects its parts (\<^verbatim>\<open>src/app/src/main.cpp\<close>): the settings with the
  policy of the compositors, the session with the polling and the watermark, the VPN with the peers
  and the file synchronisation. A slot runs where its signal is emitted; the slots of a signal in the
  order of the connections. What the polling controller is asked for is a request of its own theory.
\<close>

section \<open>The parts\<close>

record Desktop =
  d_settings :: SettingsManager
  d_session :: SessionManager
  d_dlp :: managed
  d_notifications :: NotificationManager
  d_vpn :: VpnBridge
  d_peers :: PeerModel
  d_sync :: FileSyncManager

text \<open>Qt's conversions and formats, and what polling and synchronisation are answered apart from the settings.\<close>

record wiring_env =
  we_conv :: conversions
  we_format :: format_env
  we_poll :: poll_env
  we_sync :: sync_env

datatype desktop_effect =
  From_settings "settings_effect list" | From_session "session_effect list" | From_dlp "mgr_effect list"
| From_notifications "notification_effect list" | From_vpn "vpn_effect list" | From_sync "sync_effect list"
| Peer_rows "row_signal list" | Poll poll_op

type_synonym desktop_out = "(Desktop \<times> desktop_effect list) option"

definition poll_env_of :: "wiring_env \<Rightarrow> Desktop \<Rightarrow> poll_env" where
  "poll_env_of e d =
     (we_poll e)\<lparr>notificationsEnabled := set_notificationsEnabled (we_conv e) (d_settings d),
       disableDataCache := set_disableDataCache (we_conv e) (d_settings d),
       refreshIntervalSec := set_refreshIntervalSec (we_conv e) (d_settings d),
       baseUrl := ac_baseUrl (m_apiClient (d_session d))\<rparr>"

definition sync_env_of :: "wiring_env \<Rightarrow> Desktop \<Rightarrow> sync_env" where
  "sync_env_of e d =
     (we_sync e)\<lparr>disableFileUpload := set_disableFileUpload (we_conv e) (d_settings d),
       disableFileDownload := set_disableFileDownload (we_conv e) (d_settings d)\<rparr>"

section \<open>The log level\<close>

text \<open>The command line wins over the setting.\<close>

definition configured_level :: "string option \<Rightarrow> conversions \<Rightarrow> SettingsManager \<Rightarrow> string" where
  "configured_level opt c s = (case opt of Some level \<Rightarrow> level | None \<Rightarrow> logLevel c s)"

definition filter_rules :: "string \<Rightarrow> string" where
  "filter_rules level =
     (if level = ''trace'' \<or> level = ''debug'' then ''*.debug=true''
      else if level = ''error'' then ''*.debug=false'' @ [CHR 0x0A] @ ''*.info=false'' @ [CHR 0x0A] @ ''*.warning=false''
      else if level = ''warn'' then ''*.debug=false'' @ [CHR 0x0A] @ ''*.info=false''
      else ''*.debug=false'')"

section \<open>The slots\<close>

text \<open>Settings: both directions of the clipboard, screenshots always.\<close>

definition policy_of :: "conversions \<Rightarrow> SettingsManager \<Rightarrow> coder_dlp_policy" where
  "policy_of c s =
     \<lparr>clipboard_block_outgoing = dlpClipboardBlock c s, clipboard_block_incoming = dlpClipboardBlock c s,
      screenshot_block = True, file_sandbox = dlpFileSandbox c s, network_sandbox = dlpNetworkSandbox c s,
      watermark_enabled = dlpWatermark c s\<rparr>"

definition dlp_settingsChanged :: "conversions \<Rightarrow> SettingsManager \<Rightarrow> managed \<Rightarrow> managed option" where
  "dlp_settingsChanged c s m = (if isRunning m then updatePolicy (policy_of c s) m else Some m)"

definition syncNotifEnabled :: "conversions \<Rightarrow> SettingsManager \<Rightarrow> NotificationManager \<Rightarrow> notification_out" where
  "syncNotifEnabled c s n = setEnabled (set_notificationsEnabled c s) n"

definition settings_slots :: "wiring_env \<Rightarrow> Desktop \<Rightarrow> desktop_out" where
  "settings_slots e d =
     (case sync_step (sync_env_of e d, Settings_changed) (d_sync d) of (sync, o1) \<Rightarrow>
      case syncNotifEnabled (we_conv e) (d_settings d) (d_notifications d) of (n, o2) \<Rightarrow>
      map_option
        (\<lambda>m. (d\<lparr>d_sync := sync, d_notifications := n, d_dlp := m\<rparr>,
           [From_sync o1, Poll (Settings (poll_env_of e d)), From_notifications o2]))
        (dlp_settingsChanged (we_conv e) (d_settings d) (d_dlp d)))"

text \<open>The session: polling, then the watermark.\<close>

definition auth_polling :: "wiring_env \<Rightarrow> Desktop \<Rightarrow> desktop_effect" where
  "auth_polling e d = Poll (if isAuthenticated (d_session d) then Start (poll_env_of e d) else Stop)"

definition updateWatermarkIdentity :: "SessionManager \<Rightarrow> managed \<Rightarrow> managed option" where
  "updateWatermarkIdentity s m =
     (if isAuthenticated s
      then let identity = currentUsername s @ ''@'' @ currentUrl s in setWatermarkIdentity identity m
      else Some m)"

fun session_slot :: "wiring_env \<Rightarrow> session_effect \<Rightarrow> Desktop \<Rightarrow> desktop_out" where
  "session_slot e AuthStateChanged d =
     map_option (\<lambda>m. (d\<lparr>d_dlp := m\<rparr>, [auth_polling e d])) (updateWatermarkIdentity (d_session d) (d_dlp d))"
| "session_slot e TokenExpired d = Some (d, [Poll Stop])"
| "session_slot e (Api signals) d = Some (d, if WorkspaceActionCompleted \<in> set signals then [Poll Refresh] else [])"
| "session_slot e _ d = Some (d, [])"

fun session_slots :: "wiring_env \<Rightarrow> session_effect list \<Rightarrow> Desktop \<Rightarrow> desktop_out" where
  "session_slots e [] d = Some (d, [])"
| "session_slots e (sg # sgs) d = do {
     (d, o1) \<leftarrow> session_slot e sg d;
     (d, o2) \<leftarrow> session_slots e sgs d;
     Some (d, o1 @ o2)
   }"

text \<open>The VPN: the peers are cleared by two slots, the second of which also tells the synchronisation.\<close>

definition clear_when :: "bool \<Rightarrow> Desktop \<Rightarrow> Desktop \<times> desktop_effect list" where
  "clear_when b d =
     (if b then case peer_clear (d_peers d) of (ps, sg) \<Rightarrow> (d\<lparr>d_peers := ps\<rparr>, [Peer_rows sg]) else (d, []))"

definition vpn_stateChanged :: "wiring_env \<Rightarrow> Desktop \<Rightarrow> Desktop \<times> desktop_effect list" where
  "vpn_stateChanged e d =
     (case clear_when (m_state (d_vpn d) = ''disconnected'') d of (d, o1) \<Rightarrow>
        let connected = (m_state (d_vpn d) = ''connected'') in
        case setVpnConnected (sync_env_of e d) connected (d_sync d) of (sync, o2) \<Rightarrow>
        case clear_when (\<not> connected) (d\<lparr>d_sync := sync\<rparr>) of (d, o3) \<Rightarrow>
          (d, o1 @ [From_sync o2] @ o3))"

text \<open>Every report of a peer is taken twice.\<close>

definition vpn_peerUpdated :: "PeerInfo \<Rightarrow> Desktop \<Rightarrow> desktop_out" where
  "vpn_peerUpdated peer d = do {
     (ps, s1) \<leftarrow> updatePeer peer (d_peers d);
     (ps, s2) \<leftarrow> updatePeer peer ps;
     Some (d\<lparr>d_peers := ps\<rparr>, [Peer_rows s1, Peer_rows s2])
   }"

fun vpn_slot :: "wiring_env \<Rightarrow> vpn_effect \<Rightarrow> Desktop \<Rightarrow> desktop_out" where
  "vpn_slot e Vpn_stateChanged d = Some (vpn_stateChanged e d)"
| "vpn_slot e (Vpn_peerUpdated ws ag host st ping p2p) d =
     vpn_peerUpdated \<lparr>pi_workspaceName = ws, pi_agentName = ag, pi_hostname = host, pi_status = st,
       pi_lastPingMs = ping, pi_isP2P = p2p\<rparr> d"
| "vpn_slot e _ d = Some (d, [])"

fun vpn_slots :: "wiring_env \<Rightarrow> vpn_effect list \<Rightarrow> Desktop \<Rightarrow> desktop_out" where
  "vpn_slots e [] d = Some (d, [])"
| "vpn_slots e (sg # sgs) d = do {
     (d, o1) \<leftarrow> vpn_slot e sg d;
     (d, o2) \<leftarrow> vpn_slots e sgs d;
     Some (d, o1 @ o2)
   }"

text \<open>A failed request of the workspaces or the tasks is shown by their model.\<close>

definition on_requestFailed :: "string \<Rightarrow> string \<Rightarrow> WorkspaceModel \<times> TaskModel \<Rightarrow> WorkspaceModel \<times> TaskModel" where
  "on_requestFailed endpoint msg models =
     (case models of (ws, ts) \<Rightarrow>
        (if contains_text ''workspaces'' endpoint
         then fst (workspace_setErrorMessage msg (fst (workspace_setLoading False ws))) else ws,
         if contains_text ''tasks'' endpoint then fst (task_setErrorMessage msg (fst (task_setLoading False ts))) else ts))"

section \<open>The whole\<close>

text \<open>
  At the start, after the settings were read and the session restored: the switch of the notifications
  and the identity of a restored session are applied; if it has a token, polling starts.
\<close>

definition new_Desktop ::
    "wiring_env \<Rightarrow> string option \<Rightarrow> SettingsManager \<Rightarrow> SessionManager \<Rightarrow> os \<Rightarrow> MutagenDaemon \<Rightarrow> desktop_out" where
  "new_Desktop e opt settings session s daemon = do {
     let (n, o1) = syncNotifEnabled (we_conv e) settings new_NotificationManager;
     m \<leftarrow> updateWatermarkIdentity session (setLogLevel (configured_level opt (we_conv e) settings) (initial s));
     let d = \<lparr>d_settings = settings, d_session = session, d_dlp = m, d_notifications = setTrayIcon True n,
              d_vpn = fst new_VpnBridge, d_peers = [], d_sync = new_FileSyncManager daemon\<rparr>;
     Some (d, [From_notifications o1, From_vpn (snd new_VpnBridge)] @
       (if isAuthenticated session then [Poll (Start (poll_env_of e d))] else []))
   }"

datatype desktop_event =
  Settings_event user_op | Session_event storage_env session_event | Dlp_event mgr_op | Vpn_event vpn_event
| Sync_event sync_event | Notification_event notification_event

fun desktop_step :: "wiring_env \<Rightarrow> desktop_event \<Rightarrow> Desktop \<Rightarrow> desktop_out" where
  "desktop_step e (Settings_event op) d =
     (case user_step op (d_settings d) of (s, out) \<Rightarrow>
        let d = d\<lparr>d_settings := s\<rparr> in
        if SettingsChanged \<in> set out
        then map_option (\<lambda>(d, o1). (d, From_settings out # o1)) (settings_slots e d)
        else Some (d, [From_settings out]))"
| "desktop_step e (Session_event se ev) d =
     (case session_step (we_format e) (se, ev) (d_session d) of (s, out) \<Rightarrow>
        map_option (\<lambda>(d, o1). (d, From_session out # o1)) (session_slots e out (d\<lparr>d_session := s\<rparr>)))"
| "desktop_step e (Dlp_event op) d = map_option (\<lambda>(m, out). (d\<lparr>d_dlp := m\<rparr>, [From_dlp out])) (op_step op (d_dlp d))"
| "desktop_step e (Vpn_event ev) d =
     (case vpn_step ev (d_vpn d) of (v, out) \<Rightarrow>
        map_option (\<lambda>(d, o1). (d, From_vpn out # o1)) (vpn_slots e out (d\<lparr>d_vpn := v\<rparr>)))"
| "desktop_step e (Sync_event ev) d =
     (case sync_step (sync_env_of e d, ev) (d_sync d) of (sync, out) \<Rightarrow> Some (d\<lparr>d_sync := sync\<rparr>, [From_sync out]))"
| "desktop_step e (Notification_event ev) d =
     (case notification_step ev (d_notifications d) of (n, out) \<Rightarrow>
        Some (d\<lparr>d_notifications := n\<rparr>, [From_notifications out]))"

fun desktop_run :: "wiring_env \<Rightarrow> desktop_event list \<Rightarrow> Desktop \<Rightarrow> desktop_out" where
  "desktop_run e [] d = Some (d, [])"
| "desktop_run e (ev # evs) d = do {
     (d, o1) \<leftarrow> desktop_step e ev d;
     (d, o2) \<leftarrow> desktop_run e evs d;
     Some (d, o1 @ o2)
   }"

interpretation desktop: partial_machine "desktop_step e" "desktop_run e" for e
  by unfold_locales simp_all

text \<open>
  What the views and the event loop ask of the manager; policy, identity and log level come from here
  alone. The state of the VPN and the change of the settings reach the synchronisation by the slots.
\<close>

fun desktop_event_ok :: "desktop_event \<Rightarrow> Desktop \<Rightarrow> bool" where
  "desktop_event_ok (Dlp_event op) d \<longleftrightarrow> op_ok op (d_dlp d) \<and>
     (case op of Update_policy _ \<Rightarrow> False | Set_identity _ \<Rightarrow> False | Set_log_level _ \<Rightarrow> False | _ \<Rightarrow> True)"
| "desktop_event_ok (Sync_event ev) d \<longleftrightarrow> (case ev of Vpn _ \<Rightarrow> False | Settings_changed \<Rightarrow> False | _ \<Rightarrow> True)"
| "desktop_event_ok _ d \<longleftrightarrow> True"

fun events_ok :: "wiring_env \<Rightarrow> desktop_event list \<Rightarrow> Desktop \<Rightarrow> bool" where
  "events_ok e [] d \<longleftrightarrow> True"
| "events_ok e (ev # evs) d \<longleftrightarrow>
     desktop_event_ok ev d \<and> (case desktop_step e ev d of None \<Rightarrow> True | Some (d', out) \<Rightarrow> events_ok e evs d')"

section \<open>The policy is the wiring's\<close>

text \<open>No operation of the manager but the one changes the policy.\<close>

lemma on_compositor_policy: "on_compositor p f m = Some m' \<Longrightarrow> m_currentPolicy m' = m_currentPolicy m"
  by (auto simp: on_compositor_def bind_eq_Some_conv split: option.splits)

lemma for_all_policy: "for_all_compositors f apps m = Some m' \<Longrightarrow> m_currentPolicy m' = m_currentPolicy m"
  by (induction apps arbitrary: m) (auto simp: bind_eq_Some_conv dest: on_compositor_policy)

lemma destroy_app_policy: "destroy_app e app m = Some (m', out) \<Longrightarrow> m_currentPolicy m' = m_currentPolicy m"
  by (auto simp: destroy_app_def Let_def bind_eq_Some_conv split: if_splits prod.splits)

lemma destroy_all_policy: "destroy_all e apps m = Some (m', out) \<Longrightarrow> m_currentPolicy m' = m_currentPolicy m"
  by (induction apps arbitrary: m out) (auto simp: bind_eq_Some_conv dest: destroy_app_policy)

lemma removeApp_policy: "removeApp e i m = Some (m', out) \<Longrightarrow> m_currentPolicy m' = m_currentPolicy m"
  by (auto simp: removeApp_def Let_def bind_eq_Some_conv dest: destroy_app_policy split: if_splits prod.splits)

lemma check_from_policy: "check_from e n m = Some (m', out) \<Longrightarrow> m_currentPolicy m' = m_currentPolicy m"
proof (induction n arbitrary: m out)
  case (Suc i)
  from Suc.prems obtain app where a: "load_at (m_apps m) i = Some app" by (auto simp: bind_eq_Some_conv)
  obtain r s where w: "sys_waitpid_nohang (me_exited e) (ra_pid app) (w_os m) = (r, s)" by fastforce
  let ?app = "if r > 0 then app\<lparr>bwrapExited := True\<rparr> else app"
  from Suc.prems a w obtain apps n where 1: "store_at (m_apps m) i ?app = Some apps"
    "comp_clients (ra_compositor ?app) (m\<lparr>m_apps := apps, w_os := s\<rparr>) = Some n"
    by (auto simp: bind_eq_Some_conv Let_def)
  let ?m = "m\<lparr>m_apps := apps, w_os := s\<rparr>"
  let ?r = "if bwrapExited ?app \<and> n = 0 then removeApp e (int i) ?m else Some (?m, [])"
  from Suc.prems a w 1 have "Option.bind ?r (\<lambda>(m, o1). Option.bind (check_from e i m) (\<lambda>(m, o2). Some (m, o1 @ o2))) = Some (m', out)"
    by (simp only: check_from.simps Let_def prod.case bind.bind_lunit)
  then obtain m1 o1 o2 where 2: "?r = Some (m1, o1)" "check_from e i m1 = Some (m', o2)"
    by (cases ?r) (auto simp: bind_eq_Some_conv)
  have "m_currentPolicy m1 = m_currentPolicy m" using 2(1) removeApp_policy [of e "int i" ?m m1 o1]
    by (auto split: if_splits)
  with Suc.IH [OF 2(2)] show ?case by simp
qed simp

lemma set_up_policy: "set_up_compositor e rq a m = Some (m', out) \<Longrightarrow> m_currentPolicy m' = m_currentPolicy m"
  by (auto simp: set_up_compositor_def Let_def bind_eq_Some_conv case_prod_beta dest!: on_compositor_policy split: if_splits)

lemma launchApp_policy: "launchApp e rq m = Some (pid, m', out) \<Longrightarrow> m_currentPolicy m' = m_currentPolicy m"
proof -
  assume l: "launchApp e rq m = Some (pid, m', out)"
  show ?thesis
  proof (cases "isAvailable e")
    case True
    with l obtain comp reg h calls where
      c: "coder_dlp_create (me_build e) (me_create e) (m_logLevel m) (w_reg m) (w_heap m) = Some (comp, reg, h, calls)"
      by (auto simp: launchApp_def bind_eq_Some_conv)
    show ?thesis
    proof (cases comp)
      case (Some a)
      with l c True obtain m1 o1 cc fd r m2 where
        1: "set_up_compositor e rq a (m\<lparr>w_reg := reg, w_heap := h\<rparr>) = Some (m1, o1)"
          "on_compositor (Some a) (\<lambda>_. cc) m1 = Some m2" and m': "m_currentPolicy m' = m_currentPolicy m2"
        by (auto simp: launchApp_def Let_def bind_eq_Some_conv simp del: on_compositor_def split: if_splits prod.splits)
      with set_up_policy [OF 1(1)] on_compositor_policy [OF 1(2)] show ?thesis by simp
    qed (use l c True in \<open>simp add: launchApp_def Let_def, auto\<close>)
  qed (use l in \<open>simp add: launchApp_def\<close>)
qed

lemma op_policy:
  assumes "op_step op m = Some (m', out)" and "\<And>pol. op \<noteq> Update_policy pol"
  shows "m_currentPolicy m' = m_currentPolicy m"
proof (cases op)
  case (Launch_app e rq)
  with assms(1) show ?thesis by (auto dest: launchApp_policy)
next
  case (Stop_app e pid)
  with assms(1) show ?thesis
    by (auto simp: stopApp_def bind_eq_Some_conv case_prod_beta dest!: removeApp_policy split: option.splits)
next
  case (Stop_all e)
  with assms(1) show ?thesis
    by (auto simp: stopAll_def Let_def bind_eq_Some_conv case_prod_beta dest!: destroy_all_policy)
next
  case (Set_identity identity)
  with assms(1) show ?thesis by (auto simp: setWatermarkIdentity_def Let_def dest!: for_all_policy)
next
  case (Check_children e)
  with assms(1) show ?thesis by (auto simp: checkChildProcesses_def dest: check_from_policy)
qed (use assms in \<open>auto simp: bind_eq_Some_conv setLogLevel_def\<close>)

section \<open>The manager in the desktop\<close>

definition dlp_ok :: "Desktop \<Rightarrow> bool" where
  "dlp_ok d \<longleftrightarrow> (\<exists>R E. mgr_ok R E (d_dlp d))"

lemma dlp_okI: "mgr_ok R E (d_dlp d) \<Longrightarrow> dlp_ok d"
  by (auto simp: dlp_ok_def)

lemma updateWatermarkIdentity_ok:
  assumes "mgr_ok R E m"
  shows "\<exists>m'. updateWatermarkIdentity s m = Some m' \<and> mgr_ok R E m' \<and> m_currentPolicy m' = m_currentPolicy m"
proof (cases "isAuthenticated s")
  case True
  from setWatermarkIdentity_ok [OF assms, of "currentUsername s @ ''@'' @ currentUrl s"] obtain m' where
    "setWatermarkIdentity (currentUsername s @ ''@'' @ currentUrl s) m = Some m'" "mgr_ok R E m'" by blast
  moreover from this(1) have "m_currentPolicy m' = m_currentPolicy m"
    by (auto simp: setWatermarkIdentity_def Let_def dest!: for_all_policy)
  ultimately show ?thesis using True by (simp add: updateWatermarkIdentity_def)
qed (use assms in \<open>simp add: updateWatermarkIdentity_def\<close>)

lemma session_slots_ok:
  "mgr_ok R E (d_dlp d) \<Longrightarrow> \<exists>d' out. session_slots e sgs d = Some (d', out) \<and> mgr_ok R E (d_dlp d') \<and>
    m_currentPolicy (d_dlp d') = m_currentPolicy (d_dlp d) \<and> d_settings d' = d_settings d \<and>
    d_vpn d' = d_vpn d \<and> d_sync d' = d_sync d"
proof (induction sgs arbitrary: d)
  case (Cons sg sgs)
  have "\<exists>d1 o1. session_slot e sg d = Some (d1, o1) \<and> mgr_ok R E (d_dlp d1) \<and>
    m_currentPolicy (d_dlp d1) = m_currentPolicy (d_dlp d) \<and> d_settings d1 = d_settings d \<and> d_vpn d1 = d_vpn d \<and>
    d_sync d1 = d_sync d"
    using updateWatermarkIdentity_ok [OF Cons.prems, of "d_session d"] Cons.prems by (cases sg) auto
  then obtain d1 o1 where 1: "session_slot e sg d = Some (d1, o1)" "mgr_ok R E (d_dlp d1)"
    "m_currentPolicy (d_dlp d1) = m_currentPolicy (d_dlp d)" "d_settings d1 = d_settings d" "d_vpn d1 = d_vpn d"
    "d_sync d1 = d_sync d"
    by blast
  from Cons.IH [OF 1(2)] 1 show ?case by auto
qed simp

lemma clear_when_kept: "clear_when b d = (d', out) \<Longrightarrow> d' = d\<lparr>d_peers := d_peers d'\<rparr>"
  by (auto simp: clear_when_def split: if_splits prod.splits)

lemma vpn_slots_ok:
  "\<exists>d' out. vpn_slots e sgs d = Some (d', out) \<and> d_dlp d' = d_dlp d \<and> d_settings d' = d_settings d \<and> d_vpn d' = d_vpn d"
proof (induction sgs arbitrary: d)
  case (Cons sg sgs)
  have "\<exists>d1 o1. vpn_slot e sg d = Some (d1, o1) \<and> d_dlp d1 = d_dlp d \<and> d_settings d1 = d_settings d \<and> d_vpn d1 = d_vpn d"
  proof (cases sg)
    case Vpn_stateChanged
    obtain d1 o1 where s: "vpn_stateChanged e d = (d1, o1)" by fastforce
    then have "d_dlp d1 = d_dlp d \<and> d_settings d1 = d_settings d \<and> d_vpn d1 = d_vpn d"
      by (auto simp: vpn_stateChanged_def clear_when_def Let_def split: if_splits prod.splits)
    with s Vpn_stateChanged show ?thesis by simp
  next
    case (Vpn_peerUpdated ws ag host st ping p2p)
    let ?p = "\<lparr>pi_workspaceName = ws, pi_agentName = ag, pi_hostname = host, pi_status = st, pi_lastPingMs = ping,
      pi_isP2P = p2p\<rparr>"
    obtain p1 s1 where "updatePeer ?p (d_peers d) = Some (p1, s1)" using peers.set_one_row by blast
    moreover obtain p2 s2 where "updatePeer ?p p1 = Some (p2, s2)" using peers.set_one_row by blast
    ultimately show ?thesis by (simp add: Vpn_peerUpdated vpn_peerUpdated_def)
  qed auto
  then obtain d1 o1 where 1: "vpn_slot e sg d = Some (d1, o1)" "d_dlp d1 = d_dlp d" "d_settings d1 = d_settings d"
    "d_vpn d1 = d_vpn d" by blast
  from Cons.IH [of d1] 1 show ?case by auto
qed simp

lemma settings_slots_ok:
  assumes "mgr_ok R E (d_dlp d)"
  shows "\<exists>d' out. settings_slots e d = Some (d', out) \<and> mgr_ok R E (d_dlp d') \<and> d_settings d' = d_settings d \<and>
    d_vpn d' = d_vpn d \<and> d_sync d' = d_sync d \<and> isRunning (d_dlp d') = isRunning (d_dlp d) \<and>
    m_currentPolicy (d_dlp d') =
      (if isRunning (d_dlp d) then policy_of (we_conv e) (d_settings d) else m_currentPolicy (d_dlp d))"
proof -
  obtain m' where m': "updatePolicy (policy_of (we_conv e) (d_settings d)) (d_dlp d) = Some m'" "mgr_ok R E m'"
    "m_apps m' = m_apps (d_dlp d)"
    using updatePolicy_ok [OF assms] by blast
  then have "m_currentPolicy m' = policy_of (we_conv e) (d_settings d)"
    by (auto simp: updatePolicy_def Let_def dest!: for_all_policy)
  with m' assms show ?thesis
    by (auto simp: settings_slots_def dlp_settingsChanged_def syncNotifEnabled_def isRunning_def split: prod.split)
qed

text \<open>The change of the policy by an event.\<close>

definition policy_after :: "wiring_env \<Rightarrow> desktop_event \<Rightarrow> Desktop \<Rightarrow> coder_dlp_policy \<Rightarrow> coder_dlp_policy" where
  "policy_after e ev d pol =
     (case ev of
        Settings_event op \<Rightarrow>
          (case user_step op (d_settings d) of (s, out) \<Rightarrow>
             if SettingsChanged \<in> set out \<and> isRunning (d_dlp d) then policy_of (we_conv e) s else pol)
      | _ \<Rightarrow> pol)"

text \<open>What an event of the desktop leaves in the system.\<close>

definition desktop_left :: "desktop_event \<Rightarrow> resource set" where
  "desktop_left ev = (case ev of Dlp_event op \<Rightarrow> op_left op | _ \<Rightarrow> {})"

lemma desktop_step_mgr:
  assumes m: "mgr_ok R E (d_dlp d)" and ev: "desktop_event_ok ev d"
  shows "\<exists>d' out. desktop_step e ev d = Some (d', out) \<and> mgr_ok R (desktop_left ev \<union> E) (d_dlp d') \<and>
    m_currentPolicy (d_dlp d') = policy_after e ev d (m_currentPolicy (d_dlp d))"
proof (cases ev)
  case (Settings_event op)
  obtain s out where u: "user_step op (d_settings d) = (s, out)" by fastforce
  have "mgr_ok R E (d_dlp (d\<lparr>d_settings := s\<rparr>))" using m by simp
  from settings_slots_ok [OF this, of e] u m Settings_event show ?thesis
    by (auto simp: policy_after_def desktop_left_def Let_def)
next
  case (Session_event se x)
  obtain s out where u: "session_step (we_format e) (se, x) (d_session d) = (s, out)" by fastforce
  have "mgr_ok R E (d_dlp (d\<lparr>d_session := s\<rparr>))" using m by simp
  from session_slots_ok [OF this, of e out] u Session_event show ?thesis
    by (auto simp: policy_after_def desktop_left_def)
next
  case (Dlp_event op)
  with ev have op: "op_ok op (d_dlp d)" "\<And>pol. op \<noteq> Update_policy pol" by auto
  from op_step_ok [OF m op(1)] obtain m' out where s: "op_step op (d_dlp d) = Some (m', out)"
    "mgr_ok R (op_left op \<union> E) m'" by blast
  from op_policy [OF s(1) op(2)] s Dlp_event show ?thesis by (auto simp: policy_after_def desktop_left_def)
next
  case (Vpn_event x)
  obtain v out where u: "vpn_step x (d_vpn d) = (v, out)" by fastforce
  obtain d' out' where d': "vpn_slots e out (d\<lparr>d_vpn := v\<rparr>) = Some (d', out')" "d_dlp d' = d_dlp d"
    using vpn_slots_ok [of e out "d\<lparr>d_vpn := v\<rparr>"] by auto
  with m u Vpn_event show ?thesis by (simp add: policy_after_def desktop_left_def)
qed (use m in \<open>auto simp: policy_after_def desktop_left_def split: prod.split\<close>)

lemma desktop_step_ok:
  assumes "dlp_ok d" and "desktop_event_ok ev d"
  shows "\<exists>d' out. desktop_step e ev d = Some (d', out) \<and> dlp_ok d' \<and>
    m_currentPolicy (d_dlp d') = policy_after e ev d (m_currentPolicy (d_dlp d))"
  using desktop_step_mgr [OF _ assms(2), of _ _ e] assms(1) unfolding dlp_ok_def by metis

fun policy_along :: "wiring_env \<Rightarrow> desktop_event list \<Rightarrow> Desktop \<Rightarrow> coder_dlp_policy \<Rightarrow> coder_dlp_policy" where
  "policy_along e [] d pol = pol"
| "policy_along e (ev # evs) d pol =
     (case desktop_step e ev d of
        None \<Rightarrow> pol
      | Some (d', out) \<Rightarrow> policy_along e evs d' (policy_after e ev d pol))"

lemma desktop_run_ok:
  assumes "dlp_ok d" "events_ok e evs d"
  shows "\<exists>d' out. desktop_run e evs d = Some (d', out) \<and> dlp_ok d' \<and>
    m_currentPolicy (d_dlp d') = policy_along e evs d (m_currentPolicy (d_dlp d))"
proof -
  let ?p = "policy_along e evs d (m_currentPolicy (d_dlp d))"
  let ?I = "\<lambda>evs d. dlp_ok d \<and> events_ok e evs d \<and> policy_along e evs d (m_currentPolicy (d_dlp d)) = ?p"
  have "\<exists>d1 o1. desktop_step e ev d = Some (d1, o1) \<and> ?I evs d1" if "?I (ev # evs) d" for ev evs d
    using desktop_step_ok [of d ev e] that by auto
  from desktop.total [where I = ?I, OF _ this] assms show ?thesis by auto
qed

lemma dlp_ok_policy: "dlp_ok d \<Longrightarrow> w_heap (d_dlp d) a = Some c \<Longrightarrow> policy c = m_currentPolicy (d_dlp d)"
  by (auto simp: dlp_ok_def mgr_ok_mem follows_def)

lemma new_Desktop_mgr:
  assumes "new_Desktop e opt settings session s daemon = Some (d, out)"
  shows "mgr_ok (resources s) {} (d_dlp d) \<and> m_currentPolicy (d_dlp d) = zero_policy"
proof -
  have "mgr_ok (resources s) {} (setLogLevel level (initial s))" for level
    by (rule mgr_ok_heap [OF mgr_ok_new [of s, folded initial_def], of "w_heap (initial s)"])
      (auto simp: heap_like_def setLogLevel_def initial_def new_manager_def follows_def)
  from updateWatermarkIdentity_ok [OF this, of session "configured_level opt (we_conv e) settings"] assms show ?thesis
    by (auto simp: new_Desktop_def setLogLevel_def initial_def new_manager_def Let_def case_prod_beta)
qed

lemma dlp_ok_new:
  "new_Desktop e opt settings session s daemon = Some (d, out) \<Longrightarrow> dlp_ok d \<and> m_currentPolicy (d_dlp d) = zero_policy"
  using new_Desktop_mgr unfolding dlp_ok_def by blast

section \<open>Properties\<close>

text \<open>C14. Which policy the compositors have. From the start of the application, whatever is launched and stopped, the
  compositors receive, the session, the VPN and the user do, in whatever order: everything completes,
  and every compositor has the policy of the settings as they were at the last change that was made
  while an application was running, and if there was none, the policy that allows everything.\<close>

theorem compositor_policies:
  assumes "new_Desktop e opt settings session s daemon = Some (d0, out0)" and "events_ok e evs d0"
  shows "\<exists>d out. desktop_run e evs d0 = Some (d, out) \<and>
    (\<forall>a c. w_heap (d_dlp d) a = Some c \<longrightarrow> policy c = policy_along e evs d0 zero_policy)"
  using desktop_run_ok [OF _ assms(2)] dlp_ok_new [OF assms(1)] dlp_ok_policy by metis

fun settings_idle :: "wiring_env \<Rightarrow> desktop_event list \<Rightarrow> Desktop \<Rightarrow> bool" where
  "settings_idle e [] d \<longleftrightarrow> True"
| "settings_idle e (ev # evs) d \<longleftrightarrow>
     (case ev of Settings_event op \<Rightarrow> \<not> isRunning (d_dlp d) | _ \<Rightarrow> True) \<and>
     (case desktop_step e ev d of None \<Rightarrow> True | Some (d', out) \<Rightarrow> settings_idle e evs d')"

lemma idle_policy: "settings_idle e evs d \<Longrightarrow> policy_along e evs d pol = pol"
  by (induction evs arbitrary: d) (auto simp: policy_after_def split: option.splits desktop_event.splits prod.splits)

text \<open>C31. The settings do not reach the compositors by themselves. However clipboard blocking, the watermark and the
  rest of the policy are set, by the administrator or by the user, at the start or while no application is
  running: the applications that are launched afterwards run without clipboard blocking, screenshot
  blocking and watermark, as long as no setting is changed while one of them is running.\<close>

theorem policy_waits:
  assumes "new_Desktop e opt settings session s daemon = Some (d0, out0)" and "events_ok e evs d0"
    and "settings_idle e evs d0"
  shows "\<exists>d out. desktop_run e evs d0 = Some (d, out) \<and>
    (\<forall>a c. w_heap (d_dlp d) a = Some c \<longrightarrow>
      \<not> clipboard_block_outgoing (policy c) \<and> \<not> clipboard_block_incoming (policy c) \<and>
      \<not> screenshot_block (policy c) \<and> \<not> watermark_enabled (policy c))"
  using desktop_run_ok [OF _ assms(2)] dlp_ok_new [OF assms(1)] dlp_ok_policy idle_policy [OF assms(3)]
  by (fastforce simp: zero_policy_def)

section \<open>The VPN and the synchronisation\<close>

lemma run_vpn: "runMutagenAsync p args m = (m', out) \<Longrightarrow> m_vpnConnected m' = m_vpnConnected m"
  by (auto simp: runMutagenAsync_def Let_def split: if_splits)

lemma refresh_vpn: "refreshSessions m = (m', out) \<Longrightarrow> m_vpnConnected m' = m_vpnConnected m"
  by (auto simp: refreshSessions_def dest: run_vpn split: if_splits)

lemma refresh_vpn_fst [simp]: "m_vpnConnected (fst (refreshSessions m)) = m_vpnConnected m"
  by (metis prod.collapse refresh_vpn)

lemma ensure_vpn: "ensure_daemon e m = (ok, m', out) \<Longrightarrow> m_vpnConnected m' = m_vpnConnected m"
  by (auto simp: ensure_daemon_def split: if_splits prod.splits)

lemma create_vpn: "createSession e local ws remote m = (m', out) \<Longrightarrow> m_vpnConnected m' = m_vpnConnected m"
  by (auto simp: createSession_def Let_def dest!: ensure_vpn run_vpn split: if_splits prod.splits)

lemma set_vpn: "m_vpnConnected (fst (setVpnConnected e b m)) = b"
proof (cases "ensure_daemon e (m\<lparr>m_vpnConnected := True\<rparr>)")
  case (fields ok m1 out)
  from ensure_vpn [OF this] fields show ?thesis
    by (auto simp: setVpnConnected_def Let_def case_prod_beta)
qed

lemma sync_vpn:
  assumes "sync_step (e, ev) m = (m', out)" and "\<And>b. ev \<noteq> Vpn b"
  shows "m_vpnConnected m' = m_vpnConnected m"
proof (cases ev)
  case (Command_finished i code ans)
  with assms(1) show ?thesis
    by (auto simp: command_finished_def run_callback_def updateModel_def drop_command_def Let_def case_prod_beta
        split: if_splits)
qed (use assms in \<open>auto simp: pauseSession_def resumeSession_def resetSession_def terminateSession_def
    command_failed_to_start_def drop_command_def dest: create_vpn run_vpn refresh_vpn split: if_splits prod.splits\<close>)

text \<open>The bridge announces every change of its state.\<close>

lemma vpn_announced:
  assumes "vpn_step ev v = (v', out)" and "Vpn_stateChanged \<notin> set out"
  shows "m_state v' = m_state v"
proof (cases ev)
  case (Call_finished i r)
  with assms show ?thesis
    by (cases r) (auto simp: Let_def split: if_splits helper_call.splits)
qed (use assms in \<open>auto simp: vpn_start_def vpn_stop_def onStateChanged_def onPeerUpdated_def vpn_call_def split: if_splits\<close>)

definition in_step :: "Desktop \<Rightarrow> bool" where
  "in_step d \<longleftrightarrow> m_vpnConnected (d_sync d) = (m_state (d_vpn d) = ''connected'')"

lemma stateChanged_in_step: "in_step (fst (vpn_stateChanged e d))"
  using set_vpn by (simp add: vpn_stateChanged_def clear_when_def in_step_def Let_def case_prod_beta)

lemma vpn_slots_in_step:
  "\<lbrakk>vpn_slots e sgs d = Some (d', out); in_step d \<or> Vpn_stateChanged \<in> set sgs\<rbrakk> \<Longrightarrow> in_step d'"
proof (induction sgs arbitrary: d out)
  case (Cons sg sgs)
  from Cons.prems(1) obtain d1 o1 o2 where 1: "vpn_slot e sg d = Some (d1, o1)" "vpn_slots e sgs d1 = Some (d', o2)"
    by (auto simp: bind_eq_Some_conv)
  have "in_step d1 \<or> Vpn_stateChanged \<in> set sgs"
    using 1(1) Cons.prems(2) stateChanged_in_step [of e d]
    by (cases sg) (auto simp: vpn_peerUpdated_def bind_eq_Some_conv in_step_def)
  from Cons.IH [OF 1(2) this] show ?case .
qed simp

lemma step_in_step:
  assumes s: "desktop_step e ev d = Some (d', out)" and "desktop_event_ok ev d" and "in_step d" and "dlp_ok d"
  shows "in_step d'"
proof (cases ev)
  case (Settings_event op)
  obtain st out1 where u: "user_step op (d_settings d) = (st, out1)" by fastforce
  obtain R E where "mgr_ok R E (d_dlp (d\<lparr>d_settings := st\<rparr>))" using assms(4) by (auto simp: dlp_ok_def)
  from settings_slots_ok [OF this, of e] s u Settings_event assms(3) show ?thesis
    by (auto simp: in_step_def Let_def split: if_splits)
next
  case (Session_event se x)
  obtain st out1 where u: "session_step (we_format e) (se, x) (d_session d) = (st, out1)" by fastforce
  obtain R E where "mgr_ok R E (d_dlp (d\<lparr>d_session := st\<rparr>))" using assms(4) by (auto simp: dlp_ok_def)
  from session_slots_ok [OF this, of e out1] s u Session_event assms(3) show ?thesis by (auto simp: in_step_def)
next
  case (Vpn_event x)
  obtain v out1 where u: "vpn_step x (d_vpn d) = (v, out1)" by fastforce
  with s Vpn_event obtain o1 where r: "vpn_slots e out1 (d\<lparr>d_vpn := v\<rparr>) = Some (d', o1)" by auto
  have "in_step (d\<lparr>d_vpn := v\<rparr>) \<or> Vpn_stateChanged \<in> set out1"
    using vpn_announced [OF u] assms(3) by (auto simp: in_step_def)
  from vpn_slots_in_step [OF r this] show ?thesis .
next
  case (Sync_event x)
  obtain m1 out1 where u: "sync_step (sync_env_of e d, x) (d_sync d) = (m1, out1)" by fastforce
  have "\<And>b. x \<noteq> Vpn b" using assms(2) Sync_event by auto
  from sync_vpn [OF u this] u s Sync_event assms(3) show ?thesis by (auto simp: in_step_def)
qed (use s assms(3) in \<open>auto simp: in_step_def split: prod.splits\<close>)

lemma run_in_step:
  assumes "dlp_ok d" "events_ok e evs d" "in_step d" "desktop_run e evs d = Some (d', out)"
  shows "in_step d'"
proof -
  let ?I = "\<lambda>evs d. dlp_ok d \<and> events_ok e evs d \<and> in_step d"
  have "?I evs d1 \<and> (\<forall>x \<in> set o1. True)" if "?I (ev # evs) d" "desktop_step e ev d = Some (d1, o1)" for ev evs d d1 o1
  proof -
    from that(1) have "dlp_ok d" "in_step d" "desktop_event_ok ev d" by simp_all
    with desktop_step_ok [of d ev e] step_in_step [OF that(2)] that show ?thesis by auto
  qed
  moreover have "?I evs d" using assms(1-3) by simp
  ultimately have "?I [] d' \<and> (\<forall>x \<in> set out. True)" by (intro desktop.invariant [where I = ?I, OF _ assms(4)])
  then show ?thesis by simp
qed

text \<open>The synchronisation always knows the state of the VPN: after whatever happened to the desktop, in whatever
  order, it takes the tunnel for connected exactly when the bridge is in the connected state.\<close>

lemma sync_follows_vpn:
  assumes "new_Desktop e opt settings session s daemon = Some (d0, out0)" and "events_ok e evs d0"
    and "desktop_run e evs d0 = Some (d, out)"
  shows "m_vpnConnected (d_sync d) = vpn_isRunning (d_vpn d)"
proof -
  from assms(1) have "in_step d0"
    by (auto simp: new_Desktop_def Let_def case_prod_beta bind_eq_Some_conv in_step_def new_FileSyncManager_def
        new_VpnBridge_def vpn_call_def)
  with run_in_step [OF _ assms(2) this assms(3)] dlp_ok_new [OF assms(1)] show ?thesis
    by (simp add: in_step_def vpn_isRunning_def)
qed

section \<open>An example\<close>

definition demo_conversions :: conversions where
  "demo_conversions =
     \<lparr>as_bool = (\<lambda>v. case v of V_Bool b \<Rightarrow> b | _ \<Rightarrow> False), as_int = (\<lambda>v. case v of V_Int i \<Rightarrow> i | _ \<Rightarrow> 0),
      as_string = (\<lambda>v. case v of V_String t \<Rightarrow> t | _ \<Rightarrow> []), as_strings = (\<lambda>v. case v of V_Strings ts \<Rightarrow> ts | _ \<Rightarrow> [])\<rparr>"

definition demo_wiring :: wiring_env where
  "demo_wiring =
     \<lparr>we_conv = demo_conversions, we_format = demo_format, we_poll = demo_poll, we_sync = demo_sync_env\<rparr>"

definition demo_daemon :: MutagenDaemon where
  "demo_daemon = new_MutagenDaemon ''/home'' ''/bin/mutagen''"

text \<open>The administrator fixes the watermark; a user is signed in; an application is launched.\<close>

definition demo_launch_event :: desktop_event where
  "demo_launch_event = Dlp_event (Launch_app demo_mgr demo_request)"

lemma demo_desktop:
  obtains d out where
    "new_Desktop demo_wiring (Some ''info'') demo_settings demo_signed_in demo_os demo_daemon = Some (d, out)"
    "events_ok demo_wiring [demo_launch_event] d" "settings_idle demo_wiring [demo_launch_event] d"
    "d_settings d = demo_settings" "d_vpn d = fst new_VpnBridge"
proof -
  let ?m = "(initial demo_os)\<lparr>m_logLevel := CODER_DLP_LOG_INFO, m_watermarkIdentity := ''me@https://a''\<rparr>"
  have w: "updateWatermarkIdentity demo_signed_in (setLogLevel ''info'' (initial demo_os)) = Some ?m"
    by (simp add: updateWatermarkIdentity_def isAuthenticated_def api_isAuthenticated_def demo_signed_in_def
        demo_deployment_def currentUsername_def currentUrl_def setWatermarkIdentity_def setLogLevel_def initial_def
        new_manager_def)
  then obtain d out where d: "new_Desktop demo_wiring (Some ''info'') demo_settings demo_signed_in demo_os demo_daemon = Some (d, out)"
    "d_dlp d = ?m" "d_settings d = demo_settings" "d_vpn d = fst new_VpnBridge"
    by (simp add: new_Desktop_def configured_level_def case_prod_beta Let_def)
  have "launch_allowed demo_mgr ?m"
    using demo_allowed by (simp add: launch_allowed_def demo_before_def)
  with d(2) have "desktop_event_ok demo_launch_event d" by (simp add: demo_launch_event_def)
  then have "events_ok demo_wiring [demo_launch_event] d" by (simp split: option.split)
  moreover have "settings_idle demo_wiring [demo_launch_event] d"
    by (simp add: demo_launch_event_def split: option.split)
  ultimately show thesis using that d by blast
qed

theorem compositor_policies_witness:
  "\<exists>d0 out0 d out. new_Desktop demo_wiring (Some ''info'') demo_settings demo_signed_in demo_os demo_daemon = Some (d0, out0) \<and>
    desktop_run demo_wiring [demo_launch_event] d0 = Some (d, out)"
proof -
  obtain d0 out0 where d: "new_Desktop demo_wiring (Some ''info'') demo_settings demo_signed_in demo_os demo_daemon = Some (d0, out0)"
    "events_ok demo_wiring [demo_launch_event] d0" by (rule demo_desktop)
  from compositor_policies [OF this] d(1) show ?thesis by blast
qed

theorem policy_waits_witness:
  "\<exists>d0 out0 d out. new_Desktop demo_wiring (Some ''info'') demo_settings demo_signed_in demo_os demo_daemon = Some (d0, out0) \<and>
    dlpWatermark demo_conversions (d_settings d0) \<and> desktop_run demo_wiring [demo_launch_event] d0 = Some (d, out) \<and>
    (\<forall>a c. w_heap (d_dlp d) a = Some c \<longrightarrow> \<not> watermark_enabled (policy c))"
proof -
  obtain d0 out0 where d: "new_Desktop demo_wiring (Some ''info'') demo_settings demo_signed_in demo_os demo_daemon = Some (d0, out0)"
    "events_ok demo_wiring [demo_launch_event] d0" "settings_idle demo_wiring [demo_launch_event] d0"
    "d_settings d0 = demo_settings" by (rule demo_desktop)
  have "dlpWatermark demo_conversions demo_settings"
    by (simp add: dlpWatermark_def get_bool_def demo_settings_state demo_conversions_def)
  with policy_waits [OF d(1-3)] d(1,4) show ?thesis by metis
qed

end
