(* ===== verification/Tray.thy ===== *)
theory Tray
  imports Machine Session Vpn_Bridge File_Sync
begin

text \<open>
  The icon in the system tray (\<^verbatim>\<open>src/app/src/tray/SystemTrayIcon.cpp\<close>): its menu and its tooltip follow
  the VPN and the file synchronisation. The drawing of the icon is left out.
\<close>

section \<open>The icon\<close>

record SystemTrayIcon =
  connect_visible :: bool
  disconnect_visible :: bool
  toolTip :: string

definition new_SystemTrayIcon :: SystemTrayIcon where
  "new_SystemTrayIcon = \<lparr>connect_visible = True, disconnect_visible = False, toolTip = ''Coder Desktop''\<rparr>"

definition tray_tip :: "VpnBridge \<Rightarrow> FileSyncManager option \<Rightarrow> string" where
  "tray_tip v fileSync =
     (let tip = ''Coder Desktop '' @ [CHR 0xE2, CHR 0x80, CHR 0x94] @ '' VPN '' @ m_state v in
      case fileSync of
        None \<Rightarrow> tip
      | Some m \<Rightarrow> if sessionCount m > 0 then tip @ [CHR 0x0A] @ ''File Sync: '' @ statusSummary m else tip)"

definition updateTooltip :: "VpnBridge \<Rightarrow> FileSyncManager option \<Rightarrow> SystemTrayIcon \<Rightarrow> SystemTrayIcon" where
  "updateTooltip v fileSync t = t\<lparr>toolTip := tray_tip v fileSync\<rparr>"

definition onVpnStateChanged :: "VpnBridge \<Rightarrow> FileSyncManager option \<Rightarrow> SystemTrayIcon \<Rightarrow> SystemTrayIcon" where
  "onVpnStateChanged v fileSync t =
     (let running = vpn_isRunning v in
      updateTooltip v fileSync (t\<lparr>connect_visible := \<not> running, disconnect_visible := running\<rparr>))"

datatype tray_effect = ShowWindowRequested | ShowSettingsRequested | Quit | Tray_vpn "vpn_effect list"

definition onConnectClicked ::
    "storage_env \<Rightarrow> SessionManager option \<Rightarrow> VpnBridge \<Rightarrow> VpnBridge \<times> tray_effect list" where
  "onConnectClicked e session v =
     (case session of
        None \<Rightarrow> (v, [ShowWindowRequested])
      | Some s \<Rightarrow>
          if \<not> isAuthenticated s then (v, [ShowWindowRequested])
          else case vpn_start (currentUrl s) (sessionToken e s) v of (v, out) \<Rightarrow> (v, [Tray_vpn out]))"

definition onDisconnectClicked :: "VpnBridge \<Rightarrow> VpnBridge \<times> tray_effect list" where
  "onDisconnectClicked v = (case vpn_stop v of (v, out) \<Rightarrow> (v, [Tray_vpn out]))"

section \<open>The icon among its parts\<close>

record tray_parts =
  tp_tray :: SystemTrayIcon
  tp_vpn :: VpnBridge
  tp_session :: SessionManager
  tp_sync :: FileSyncManager

datatype tray_event =
  Vpn_does vpn_event | Sync_does sync_env sync_event | Session_does format_env storage_env session_event
| Click_connect storage_env | Click_disconnect | Click_open | Click_settings | Click_quit

text \<open>The slots of the icon run after the part that sends the signal has changed.\<close>

definition vpn_slot_of :: "vpn_effect list \<Rightarrow> tray_parts \<Rightarrow> tray_parts" where
  "vpn_slot_of out p =
     (if Vpn_stateChanged \<in> set out
      then p\<lparr>tp_tray := onVpnStateChanged (tp_vpn p) (Some (tp_sync p)) (tp_tray p)\<rparr> else p)"

definition sync_slot_of :: "sync_effect list \<Rightarrow> tray_parts \<Rightarrow> tray_parts" where
  "sync_slot_of out p =
     (if SessionCountChanged \<in> set out \<or> StatusSummaryChanged \<in> set out
      then p\<lparr>tp_tray := updateTooltip (tp_vpn p) (Some (tp_sync p)) (tp_tray p)\<rparr> else p)"

definition clicked :: "VpnBridge \<times> tray_effect list \<Rightarrow> tray_parts \<Rightarrow> tray_parts \<times> tray_effect list" where
  "clicked r p =
     (let (v, out) = r in
      (vpn_slot_of (concat (map (\<lambda>x. case x of Tray_vpn sgs \<Rightarrow> sgs | _ \<Rightarrow> []) out)) (p\<lparr>tp_vpn := v\<rparr>), out))"

fun tray_step :: "tray_event \<Rightarrow> tray_parts \<Rightarrow> tray_parts \<times> tray_effect list" where
  "tray_step (Vpn_does ev) p =
     (case vpn_step ev (tp_vpn p) of (v, out) \<Rightarrow> (vpn_slot_of out (p\<lparr>tp_vpn := v\<rparr>), []))"
| "tray_step (Sync_does e ev) p =
     (case sync_step (e, ev) (tp_sync p) of (m, out) \<Rightarrow> (sync_slot_of out (p\<lparr>tp_sync := m\<rparr>), []))"
| "tray_step (Session_does f e ev) p =
     (case session_step f (e, ev) (tp_session p) of (s, out) \<Rightarrow> (p\<lparr>tp_session := s\<rparr>, []))"
| "tray_step (Click_connect e) p = clicked (onConnectClicked e (Some (tp_session p)) (tp_vpn p)) p"
| "tray_step Click_disconnect p = clicked (onDisconnectClicked (tp_vpn p)) p"
| "tray_step Click_open p = (p, [ShowWindowRequested])"
| "tray_step Click_settings p = (p, [ShowSettingsRequested])"
| "tray_step Click_quit p = (p, [Quit])"

fun tray_run :: "tray_event list \<Rightarrow> tray_parts \<Rightarrow> tray_parts \<times> tray_effect list" where
  "tray_run [] p = (p, [])"
| "tray_run (ev # evs) p =
     (case tray_step ev p of (p, out) \<Rightarrow> case tray_run evs p of (p, out') \<Rightarrow> (p, out @ out'))"

interpretation trays: machine tray_step tray_run
  by unfold_locales simp_all

definition new_parts :: "SessionManager \<Rightarrow> FileSyncManager \<Rightarrow> tray_parts" where
  "new_parts s m = \<lparr>tp_tray = new_SystemTrayIcon, tp_vpn = fst new_VpnBridge, tp_session = s, tp_sync = m\<rparr>"

section \<open>Properties\<close>

text \<open>A part that stays silent has not changed in what the icon shows of it.\<close>

lemma vpn_silent: "Vpn_stateChanged \<notin> set (snd (vpn_step ev v)) \<Longrightarrow> m_state (fst (vpn_step ev v)) = m_state v"
proof (cases ev)
  case (Call_finished i r)
  assume "Vpn_stateChanged \<notin> set (snd (vpn_step ev v))"
  with Call_finished show ?thesis by (cases r) (auto simp: Let_def split: helper_call.splits if_splits)
qed (auto simp: vpn_start_def vpn_stop_def vpn_call_def onStateChanged_def onPeerUpdated_def split: if_splits)

lemma sync_silent:
  assumes "SessionCountChanged \<notin> set (snd (sync_step (e, ev) m))" "StatusSummaryChanged \<notin> set (snd (sync_step (e, ev) m))"
  shows "sessionCount (fst (sync_step (e, ev) m)) = sessionCount m \<and>
    statusSummary (fst (sync_step (e, ev) m)) = statusSummary m"
proof -
  have same: "sessionCount n = sessionCount m \<and> statusSummary n = statusSummary m" if "m_sessions n = m_sessions m" for n
    using that by (simp add: statusSummary_def sessionCount_def Let_def)
  show ?thesis
  proof (cases "\<exists>i code ans. ev = Command_finished i code ans")
    case True
    then obtain i code ans where ev: "ev = Command_finished i code ans" by blast
    show ?thesis
    proof (cases "i < length (commands m) \<and> commands m ! i = On_list \<and> code = 0")
      case True
      let ?d = "(drop_command i m)\<lparr>m_pollInFlight := False\<rparr>"
      have d: "sessionCount ?d = sessionCount m \<and> statusSummary ?d = statusSummary m"
        by (rule same) (simp add: drop_command_def)
      from True ev have "sync_step (e, ev) m = updateModel (parseSessionList e ans) ?d"
        by (simp add: command_finished_def run_callback_def Let_def)
      with assms d show ?thesis by (auto simp: updateModel_def sessionCount_def Let_def split: if_splits)
    next
      case False
      have "m_sessions (fst (sync_step (e, ev) m)) = m_sessions m"
        using False ev polls_refresh [of "drop_command i m"]
        by (auto simp: command_finished_def run_callback_def drop_command_def polls_ok_def Let_def case_prod_beta)
      then show ?thesis by (rule same)
    qed
  next
    case False
    show ?thesis
    proof (cases "\<exists>i msg. ev = Command_failed i msg")
      case True
      then show ?thesis by (auto intro!: same simp: command_failed_to_start_def drop_command_def)
    next
      case False
      with \<open>\<nexists>i code ans. ev = Command_finished i code ans\<close> have "polls_ok m (sync_step (e, ev) m)"
        by (intro polls_step) auto
      then show ?thesis by (intro same) (simp add: polls_ok_def)
    qed
  qed
qed

definition shows_parts :: "FileSyncManager \<Rightarrow> tray_parts \<Rightarrow> bool" where
  "shows_parts m0 p \<longleftrightarrow>
     connect_visible (tp_tray p) = (\<not> vpn_isRunning (tp_vpn p)) \<and> disconnect_visible (tp_tray p) = vpn_isRunning (tp_vpn p) \<and>
     (toolTip (tp_tray p) = tray_tip (tp_vpn p) (Some (tp_sync p)) \<or>
      toolTip (tp_tray p) = ''Coder Desktop'' \<and> m_state (tp_vpn p) = ''disconnected'' \<and>
      sessionCount (tp_sync p) = sessionCount m0 \<and> statusSummary (tp_sync p) = statusSummary m0)"

lemma shows_vpn:
  assumes "shows_parts m0 p" and "Vpn_stateChanged \<notin> set out \<Longrightarrow> m_state v = m_state (tp_vpn p)"
  shows "shows_parts m0 (vpn_slot_of out (p\<lparr>tp_vpn := v\<rparr>))"
  using assms
  by (auto simp: shows_parts_def vpn_slot_of_def onVpnStateChanged_def updateTooltip_def vpn_isRunning_def tray_tip_def Let_def)

lemma shows_idle: "shows_parts m0 p \<Longrightarrow> shows_parts m0 (vpn_slot_of [] p)"
  by (simp add: vpn_slot_of_def)

lemma shows_step: "shows_parts m0 p \<Longrightarrow> shows_parts m0 (fst (tray_step ev p))"
proof (cases ev)
  case (Vpn_does vev)
  assume p: "shows_parts m0 p"
  from Vpn_does show ?thesis
    using shows_vpn [OF p, of "snd (vpn_step vev (tp_vpn p))" "fst (vpn_step vev (tp_vpn p))"] vpn_silent [of vev "tp_vpn p"]
    by (simp add: case_prod_beta)
next
  case (Sync_does e sev)
  assume p: "shows_parts m0 p"
  from Sync_does p sync_silent [of e sev "tp_sync p"] show ?thesis
    by (cases "sync_step (e, sev) (tp_sync p)")
      (auto simp: shows_parts_def sync_slot_of_def updateTooltip_def tray_tip_def Let_def)
next
  case (Click_connect e)
  assume p: "shows_parts m0 p"
  from Click_connect show ?thesis
    by (auto simp: clicked_def onConnectClicked_def case_prod_beta Let_def vpn_start_def vpn_call_def intro!: shows_vpn [OF p] shows_idle [OF p] split: if_splits)
next
  case Click_disconnect
  assume p: "shows_parts m0 p"
  from Click_disconnect show ?thesis
    by (auto simp: clicked_def onDisconnectClicked_def case_prod_beta Let_def vpn_stop_def vpn_call_def intro!: shows_vpn [OF p] shows_idle [OF p] split: if_splits)
qed (auto simp: shows_parts_def case_prod_beta)

text \<open>C38. Whatever the VPN, the synchronisation, the session and the user do, the menu of the tray offers exactly
  one of connecting and disconnecting, the latter exactly while the VPN is connected, and the tooltip names the
  current state of the VPN and the current summary of the synchronisation (before any of them has changed it
  still has the text of the start).\<close>

theorem tray_is_current:
  "let p = fst (tray_run evs (new_parts s m0)) in
     connect_visible (tp_tray p) = (m_state (tp_vpn p) \<noteq> ''connected'') \<and>
     disconnect_visible (tp_tray p) = (m_state (tp_vpn p) = ''connected'') \<and>
     (toolTip (tp_tray p) = tray_tip (tp_vpn p) (Some (tp_sync p)) \<or>
      toolTip (tp_tray p) = ''Coder Desktop'' \<and> m_state (tp_vpn p) = ''disconnected'' \<and>
      sessionCount (tp_sync p) = sessionCount m0 \<and> statusSummary (tp_sync p) = statusSummary m0)"
proof -
  have "shows_parts m0 (fst (tray_run evs p))" if "shows_parts m0 p" for p
    using that shows_step by (rule trays.preserved)
  from this [of "new_parts s m0"] have "shows_parts m0 (fst (tray_run evs (new_parts s m0)))"
    by (simp add: shows_parts_def new_parts_def new_SystemTrayIcon_def new_VpnBridge_def vpn_call_def vpn_isRunning_def)
  then show ?thesis by (simp add: shows_parts_def vpn_isRunning_def Let_def)
qed

text \<open>
  While the VPN is connecting or disconnecting, the menu offers to connect, and that click does nothing: a
  connection that does not come up cannot be stopped from the tray.
\<close>

lemma no_way_out:
  assumes "shows_parts m0 p" and "m_state (tp_vpn p) \<in> {''connecting'', ''disconnecting''}"
  shows "connect_visible (tp_tray p) \<and> \<not> disconnect_visible (tp_tray p) \<and>
    tp_vpn (fst (tray_step (Click_connect e) p)) = tp_vpn p"
  using assms
  by (auto simp: shows_parts_def vpn_isRunning_def clicked_def onConnectClicked_def vpn_start_def vpn_slot_of_def)

end
