(* ===== verification/Application.thy ===== *)
theory Application
  imports Machine Wiring Tray
begin

text \<open>
  The application (\<^verbatim>\<open>src/app/src/main.cpp\<close>): the desktop of the theory Wiring with polling and its requests
  on the network, the login flow, the transfers, the icon in the tray and the log, from the start to the
  destructors. A request is in flight until its answer comes, as an event with Qt's reading of the reply.
\<close>

section \<open>The parts\<close>

text \<open>The calls of the API client whose answers are signals; what a handler has captured.\<close>

datatype api_call = Fetch_workspaces | Fetch_tasks | Fetch_detail string | Workspace_action string

text \<open>The log: what went to the file, if it is open, and to the error output.\<close>

record Logging =
  s_logFile :: "string option"
  error_output :: string

record Application =
  ap_desktop :: Desktop
  ap_polling :: PollingController
  ap_calls :: "api_call list"
  ap_login :: LoginFlowController
  ap_transfers :: FileTransferManager
  ap_tray :: SystemTrayIcon
  ap_log :: Logging
  s_sigFd :: nat

record app_env =
  ae_wiring :: wiring_env
  ae_encode :: "string \<Rightarrow> string"
  ae_web :: bool

datatype window_call = Show_window nat | Raise_window nat | Activate_window nat

datatype app_effect =
  Send http_request | From_desktop desktop_effect | From_polling poll_effect | Shown "notification_effect list"
| From_login login_effect | From_transfers "transfer_effect list" | From_tray tray_effect
| Model_rows "row_signal list" | Window window_call | Leave int

type_synonym application_out = "(Application \<times> app_effect list) option"

definition client :: "Application \<Rightarrow> CoderApiClient" where
  "client ap = m_apiClient (d_session (ap_desktop ap))"

section \<open>The log\<close>

definition open_log :: "bool \<Rightarrow> string \<Rightarrow> Logging" where
  "open_log fopen_ok logFilePath =
     (if logFilePath \<noteq> []
      then if fopen_ok then \<lparr>s_logFile = Some [], error_output = []\<rparr>
           else \<lparr>s_logFile = None, error_output = ''Warning: could not open log file: '' @ logFilePath @ [CHR 0x0A]\<rparr>
      else \<lparr>s_logFile = None, error_output = []\<rparr>)"

definition message_handler :: "string \<Rightarrow> Logging \<Rightarrow> Logging" where
  "message_handler formatted l =
     (let line = formatted @ [CHR 0x0A]; l = l\<lparr>error_output := error_output l @ line\<rparr> in
      case s_logFile l of None \<Rightarrow> l | Some file \<Rightarrow> l\<lparr>s_logFile := Some (file @ line)\<rparr>)"

section \<open>Polling on the network\<close>

text \<open>
  The effects of the polling controller: its fetches go out with the credentials the client has then, its
  notifications to the manager of the notifications; \<open>clock k\<close> is what the clock shows to the \<open>k\<close>th of them.
\<close>

fun poll_slots ::
    "app_env \<Rightarrow> (nat \<Rightarrow> int \<times> int) \<Rightarrow> poll_effect list \<Rightarrow> Application \<Rightarrow> Application \<times> app_effect list" where
  "poll_slots e clock [] ap = (ap, [])"
| "poll_slots e clock (FetchWorkspaces # xs) ap =
     (case poll_slots e clock xs (ap\<lparr>ap_calls := ap_calls ap @ [Fetch_workspaces]\<rparr>) of
        (ap', out) \<Rightarrow> (ap', Send (fetchWorkspaces (ae_encode e) (client ap)) # out))"
| "poll_slots e clock (FetchTasks # xs) ap =
     (case poll_slots e clock xs (ap\<lparr>ap_calls := ap_calls ap @ [Fetch_tasks]\<rparr>) of
        (ap', out) \<Rightarrow> (ap', Send (fetchTasks (client ap)) # out))"
| "poll_slots e clock (poll_effect.Notify title message category # xs) ap =
     (case clock 0 of (now, now') \<Rightarrow>
      case notify now now' title message category (d_notifications (ap_desktop ap)) of (n, msgs) \<Rightarrow>
      case poll_slots e (\<lambda>k. clock (Suc k)) xs (ap\<lparr>ap_desktop := (ap_desktop ap)\<lparr>d_notifications := n\<rparr>\<rparr>) of
        (ap', out) \<Rightarrow> (ap', Shown msgs # out))"
| "poll_slots e clock (x # xs) ap = poll_slots e clock xs ap"

definition polls :: "app_env \<Rightarrow> (nat \<Rightarrow> int \<times> int) \<Rightarrow> poll_op \<Rightarrow> Application \<Rightarrow> application_out" where
  "polls e clock op ap = do {
     (p, out) \<leftarrow> poll_step op (ap_polling ap);
     let (ap, out') = poll_slots e clock out (ap\<lparr>ap_polling := p\<rparr>);
     Some (ap, map From_polling out @ out')
   }"

definition show_failure :: "string \<Rightarrow> string \<Rightarrow> Application \<Rightarrow> Application" where
  "show_failure endpoint msg ap =
     (case on_requestFailed endpoint msg (m_workspaceModel (ap_polling ap), m_taskModel (ap_polling ap)) of
        (ws, ts) \<Rightarrow> ap\<lparr>ap_polling := (ap_polling ap)\<lparr>m_workspaceModel := ws, m_taskModel := ts\<rparr>\<rparr>)"

text \<open>The slots of the API client.\<close>

fun api_slot :: "app_env \<Rightarrow> (nat \<Rightarrow> int \<times> int) \<Rightarrow> api_signal \<Rightarrow> Application \<Rightarrow> application_out" where
  "api_slot e clock (WorkspacesReceived arr) ap =
     polls e clock (Workspaces (poll_env_of (ae_wiring e) (ap_desktop ap)) arr) ap"
| "api_slot e clock (TasksReceived arr) ap =
     polls e clock (Tasks (poll_env_of (ae_wiring e) (ap_desktop ap)) arr) ap"
| "api_slot e clock WorkspaceActionCompleted ap = polls e clock Refresh ap"
| "api_slot e clock (RequestFailed endpoint code msg) ap = Some (show_failure endpoint msg ap, [])"
| "api_slot e clock _ ap = Some (ap, [])"

fun api_slots :: "app_env \<Rightarrow> (nat \<Rightarrow> int \<times> int) \<Rightarrow> api_signal list \<Rightarrow> Application \<Rightarrow> application_out" where
  "api_slots e clock [] ap = Some (ap, [])"
| "api_slots e clock (sg # sgs) ap = do {
     (ap, o1) \<leftarrow> api_slot e clock sg ap;
     (ap, o2) \<leftarrow> api_slots e clock sgs ap;
     Some (ap, o1 @ o2)
   }"

text \<open>What becomes of the answer to a call.\<close>

fun answered :: "(string \<Rightarrow> json) \<Rightarrow> api_call \<Rightarrow> http_reply \<Rightarrow> api_signal list" where
  "answered doc Fetch_workspaces r = on_workspaces doc r"
| "answered doc Fetch_tasks r = on_tasks doc r"
| "answered doc (Fetch_detail wid) r = on_workspace_detail wid doc r"
| "answered doc (Workspace_action wid) r = on_workspace_action wid r"

definition call_api :: "api_call \<Rightarrow> http_request \<Rightarrow> Application \<Rightarrow> application_out" where
  "call_api call rq ap = Some (ap\<lparr>ap_calls := ap_calls ap @ [call]\<rparr>, [Send rq])"

section \<open>The desktop\<close>

text \<open>The requests of the session, and the failures among its answers.\<close>

fun session_sends :: "session_effect \<Rightarrow> Application \<Rightarrow> Application \<times> app_effect list" where
  "session_sends (Request rq) ap = (ap, [Send rq])"
| "session_sends (Api sgs) ap =
     (fold (\<lambda>sg ap. case sg of RequestFailed endpoint code msg \<Rightarrow> show_failure endpoint msg ap | _ \<Rightarrow> ap) sgs ap, [])"
| "session_sends _ ap = (ap, [])"

fun session_effects :: "session_effect list \<Rightarrow> Application \<Rightarrow> Application \<times> app_effect list" where
  "session_effects [] ap = (ap, [])"
| "session_effects (x # xs) ap =
     (case session_sends x ap of (ap, o1) \<Rightarrow> case session_effects xs ap of (ap, o2) \<Rightarrow> (ap, o1 @ o2))"

fun desktop_slot :: "app_env \<Rightarrow> (nat \<Rightarrow> int \<times> int) \<Rightarrow> desktop_effect \<Rightarrow> Application \<Rightarrow> application_out" where
  "desktop_slot e clock (Poll op) ap = polls e clock op ap"
| "desktop_slot e clock (From_session out) ap = Some (session_effects out ap)"
| "desktop_slot e clock _ ap = Some (ap, [])"

fun desktop_slots :: "app_env \<Rightarrow> (nat \<Rightarrow> int \<times> int) \<Rightarrow> desktop_effect list \<Rightarrow> Application \<Rightarrow> application_out" where
  "desktop_slots e clock [] ap = Some (ap, [])"
| "desktop_slots e clock (x # xs) ap = do {
     (ap, o1) \<leftarrow> desktop_slot e clock x ap;
     (ap, o2) \<leftarrow> desktop_slots e clock xs ap;
     Some (ap, o1 @ o2)
   }"

text \<open>The slots of the tray, which are connected last.\<close>

definition tray_slots :: "desktop_effect list \<Rightarrow> Application \<Rightarrow> Application" where
  "tray_slots out ap =
     (let vpn = concat (map (\<lambda>x. case x of From_vpn sgs \<Rightarrow> sgs | _ \<Rightarrow> []) out);
          sync = concat (map (\<lambda>x. case x of From_sync sgs \<Rightarrow> sgs | _ \<Rightarrow> []) out); d = ap_desktop ap in
      if Vpn_stateChanged \<in> set vpn then ap\<lparr>ap_tray := onVpnStateChanged (d_vpn d) (Some (d_sync d)) (ap_tray ap)\<rparr>
      else if SessionCountChanged \<in> set sync \<or> StatusSummaryChanged \<in> set sync
      then ap\<lparr>ap_tray := updateTooltip (d_vpn d) (Some (d_sync d)) (ap_tray ap)\<rparr>
      else ap)"

definition desktop_does :: "app_env \<Rightarrow> (nat \<Rightarrow> int \<times> int) \<Rightarrow> desktop_out \<Rightarrow> Application \<Rightarrow> application_out" where
  "desktop_does e clock r ap = do {
     (d, out) \<leftarrow> r;
     (ap, out') \<leftarrow> desktop_slots e clock out (ap\<lparr>ap_desktop := d\<rparr>);
     Some (tray_slots out ap, map From_desktop out @ out')
   }"

text \<open>A login flow acts on the session of the desktop.\<close>

definition login_does :: "app_env \<Rightarrow> (nat \<Rightarrow> int \<times> int) \<Rightarrow> login_event \<Rightarrow> Application \<Rightarrow> application_out" where
  "login_does e clock ev ap =
     (let d = ap_desktop ap;
          (c, out) = login_step (ae_web e) ev ((ap_login ap)\<lparr>m_sessionManager := d_session d\<rparr>);
          sgs = concat (map (\<lambda>x. case x of Session sgs \<Rightarrow> sgs | _ \<Rightarrow> []) out) in
      map_option (\<lambda>(ap, o1). (ap, map From_login out @ o1))
        (desktop_does e clock
          (map_option (\<lambda>(d, o1). (d, From_session sgs # o1))
            (session_slots (ae_wiring e) sgs (d\<lparr>d_session := m_sessionManager c\<rparr>)))
          (ap\<lparr>ap_login := c\<rparr>)))"

text \<open>A click in the menu of the tray acts on the bridge of the desktop.\<close>

definition tray_does ::
    "app_env \<Rightarrow> (nat \<Rightarrow> int \<times> int) \<Rightarrow> VpnBridge \<times> tray_effect list \<Rightarrow> Application \<Rightarrow> application_out" where
  "tray_does e clock r ap =
     (case r of (v, out) \<Rightarrow>
        let sgs = concat (map (\<lambda>x. case x of Tray_vpn sgs \<Rightarrow> sgs | _ \<Rightarrow> []) out) in
        map_option (\<lambda>(ap, o1). (ap, map From_tray out @ o1))
          (desktop_does e clock
            (map_option (\<lambda>(d, o1). (d, From_vpn sgs # o1))
              (vpn_slots (ae_wiring e) sgs ((ap_desktop ap)\<lparr>d_vpn := v\<rparr>)))
            ap))"

text \<open>The first root object that is a window, among those of the QML engine.\<close>

datatype root_object = Quick_window nat | Other_object

fun show_window :: "root_object list \<Rightarrow> window_call list" where
  "show_window [] = []"
| "show_window (Quick_window w # objs) = [Show_window w, Raise_window w, Activate_window w]"
| "show_window (Other_object # objs) = show_window objs"

definition main_qml :: string where
  "main_qml = ''qrc:/CoderDesktop/qml/Main.qml''"

definition object_created :: "bool \<Rightarrow> string \<Rightarrow> app_effect list" where
  "object_created obj url = (if \<not> obj \<and> url = main_qml then [Leave (- 1)] else [])"

text \<open>The handler of SIGINT and SIGTERM writes one byte; the notifier reads one and quits.\<close>

definition unixSignalHandler :: "Application \<Rightarrow> Application" where
  "unixSignalHandler ap = ap\<lparr>s_sigFd := Suc (s_sigFd ap)\<rparr>"

definition signal_notified :: "Application \<Rightarrow> application_out" where
  "signal_notified ap = (if s_sigFd ap = 0 then Some (ap, []) else Some (ap\<lparr>s_sigFd := s_sigFd ap - 1\<rparr>, [Leave 0]))"

section \<open>The whole\<close>

definition new_Application ::
    "app_env \<Rightarrow> string option \<Rightarrow> SettingsManager \<Rightarrow> SessionManager \<Rightarrow> os \<Rightarrow> MutagenDaemon \<Rightarrow>
     (string \<rightharpoonup> string) \<Rightarrow> Logging \<Rightarrow> application_out" where
  "new_Application e opt settings session s daemon cached l = do {
     (d, out) \<leftarrow> new_Desktop (ae_wiring e) opt settings session s daemon;
     (ap, out') \<leftarrow> desktop_slots e (\<lambda>_. (0, 0)) out
       \<lparr>ap_desktop = d, ap_polling = new_PollingController empty_workspaces empty_tasks cached, ap_calls = [],
        ap_login = new_LoginFlowController session, ap_transfers = new_FileTransferManager,
        ap_tray = new_SystemTrayIcon, ap_log = l, s_sigFd = 0\<rparr>;
     Some (ap, map From_desktop out @ out')
   }"

datatype application_event =
  Desktop_does desktop_event | Login_does login_event | Poll_timer | Refresh_clicked | Interval_set int
| Api_answered nat http_reply | Start_workspace string | Stop_workspace string | Update_workspace string
| Open_workspace string | Transfer_does transfer_env transfer_event
| Tray_connect storage_env | Tray_disconnect | Tray_open "root_object list" | Tray_settings | Tray_quit
| Object_created bool string | Message string | Unix_signal | Signal_readable

fun application_step :: "app_env \<Rightarrow> (nat \<Rightarrow> int \<times> int) \<times> application_event \<Rightarrow> Application \<Rightarrow> application_out" where
  "application_step e (clock, Desktop_does ev) ap =
     desktop_does e clock (desktop_step (ae_wiring e) ev (ap_desktop ap)) ap"
| "application_step e (clock, Login_does ev) ap = login_does e clock ev ap"
| "application_step e (clock, Poll_timer) ap =
     (if timer_active (ap_polling ap) then polls e clock Refresh ap else Some (ap, []))"
| "application_step e (clock, Refresh_clicked) ap = polls e clock Refresh ap"
| "application_step e (clock, Interval_set sec) ap = polls e clock (Interval sec) ap"
| "application_step e (clock, Api_answered i r) ap =
     (if i < length (ap_calls ap)
      then api_slots e clock (answered (json_of (we_format (ae_wiring e))) (ap_calls ap ! i) r)
             (ap\<lparr>ap_calls := take i (ap_calls ap) @ drop (Suc i) (ap_calls ap)\<rparr>)
      else Some (ap, []))"
| "application_step e (clock, Start_workspace wid) ap = call_api (Workspace_action wid) (startWorkspace wid (client ap)) ap"
| "application_step e (clock, Stop_workspace wid) ap = call_api (Workspace_action wid) (stopWorkspace wid (client ap)) ap"
| "application_step e (clock, Update_workspace wid) ap =
     call_api (Workspace_action wid) (updateWorkspace_request wid (client ap)) ap"
| "application_step e (clock, Open_workspace wid) ap = call_api (Fetch_detail wid) (fetchWorkspaceDetail wid (client ap)) ap"
| "application_step e (clock, Transfer_does te ev) ap =
     (case transfer_step (te, ev) (ap_transfers ap) of (m, out) \<Rightarrow> Some (ap\<lparr>ap_transfers := m\<rparr>, [From_transfers out]))"
| "application_step e (clock, Tray_connect se) ap =
     tray_does e clock (onConnectClicked se (Some (d_session (ap_desktop ap))) (d_vpn (ap_desktop ap))) ap"
| "application_step e (clock, Tray_disconnect) ap = tray_does e clock (onDisconnectClicked (d_vpn (ap_desktop ap))) ap"
| "application_step e (clock, Tray_open objs) ap = Some (ap, From_tray ShowWindowRequested # map Window (show_window objs))"
| "application_step e (clock, Tray_settings) ap = Some (ap, [From_tray ShowSettingsRequested])"
| "application_step e (clock, Tray_quit) ap = Some (ap, [From_tray Quit, Leave 0])"
| "application_step e (clock, Object_created obj url) ap = Some (ap, object_created obj url)"
| "application_step e (clock, Message formatted) ap = Some (ap\<lparr>ap_log := message_handler formatted (ap_log ap)\<rparr>, [])"
| "application_step e (clock, Unix_signal) ap = Some (unixSignalHandler ap, [])"
| "application_step e (clock, Signal_readable) ap = signal_notified ap"

fun application_run :: "app_env \<Rightarrow> ((nat \<Rightarrow> int \<times> int) \<times> application_event) list \<Rightarrow> Application \<Rightarrow> application_out" where
  "application_run e [] ap = Some (ap, [])"
| "application_run e (ev # evs) ap = do {
     (ap, o1) \<leftarrow> application_step e ev ap;
     (ap, o2) \<leftarrow> application_run e evs ap;
     Some (ap, o1 @ o2)
   }"

interpretation application: partial_machine "application_step e" "application_run e" for e
  by unfold_locales simp_all

section \<open>The end\<close>

text \<open>
  What the destructors are answered: the system, and for each running transfer how its process ends within
  half a second of being killed, if it does; and how the synchronisation daemon stops.
\<close>

record quit_env =
  qe_mgr :: mgr_env
  qe_scp :: "int \<Rightarrow> (bool \<times> int \<times> string) option"
  qe_stop_done :: bool
  qe_graceful :: "proc_exit option"
  qe_killed :: "proc_exit option"

fun destroy_transfers ::
    "(int \<Rightarrow> (bool \<times> int \<times> string) option) \<Rightarrow> RunningTransfer list \<Rightarrow> FileTransferManager \<Rightarrow> transferred" where
  "destroy_transfers ends [] m = (m, [])"
| "destroy_transfers ends (t # ts) m =
     (let tid = ft_id (info t);
          (m, o1) =
            (if scp t = Some True
             then (case ends tid of
                     None \<Rightarrow> (m, [Kill_scp tid])
                   | Some (crashed, code, rest) \<Rightarrow>
                       (case scp_finished tid crashed code rest m of (m, out) \<Rightarrow> (m, Kill_scp tid # out)))
             else (m, []));
          (m, o2) = destroy_transfers ends ts m in
      (m, o1 @ o2))"

definition destroy_FileTransferManager ::
    "(int \<Rightarrow> (bool \<times> int \<times> string) option) \<Rightarrow> FileTransferManager \<Rightarrow> transferred" where
  "destroy_FileTransferManager ends m = destroy_transfers ends (m_transfers m) m"

definition destroy_FileSyncManager :: "FileSyncManager \<Rightarrow> FileSyncManager" where
  "destroy_FileSyncManager m = m\<lparr>pollTimer := False\<rparr>"

definition destroy_MutagenDaemon :: "quit_env \<Rightarrow> MutagenDaemon \<Rightarrow> MutagenDaemon \<times> daemon_effect list" where
  "destroy_MutagenDaemon q d = daemon_stop (qe_stop_done q) (qe_graceful q) (qe_killed q) d"

definition destroy_DlpCompositorManager :: "quit_env \<Rightarrow> managed \<Rightarrow> managing" where
  "destroy_DlpCompositorManager q m = stopAll (qe_mgr q) m"

text \<open>The locals of \<^verbatim>\<open>main\<close> are destroyed in the reverse order of their declaration.\<close>

definition leave_main :: "quit_env \<Rightarrow> Application \<Rightarrow> application_out" where
  "leave_main q ap = do {
     let d = ap_desktop ap;
     (m, o1) \<leftarrow> destroy_DlpCompositorManager q (d_dlp d);
     let (transfers, o2) = destroy_FileTransferManager (qe_scp q) (ap_transfers ap);
     let sync = destroy_FileSyncManager (d_sync d);
     let (daemon, o3) = destroy_MutagenDaemon q (m_daemon sync);
     Some (ap\<lparr>ap_desktop := d\<lparr>d_dlp := m, d_sync := sync\<lparr>m_daemon := daemon\<rparr>\<rparr>, ap_transfers := transfers\<rparr>,
       [From_desktop (From_dlp o1), From_transfers o2, From_desktop (From_sync [Daemon o3])])
   }"

section \<open>Polling always completes\<close>

lemma show_total:
  "\<exists>p' s. show_workspaces list p = Some (p', s)" "\<exists>p' s. show_tasks tlist p = Some (p', s)"
  using wsm.set_all_total [of list "m_workspaceModel p"] tkm.set_all_total [of tlist "m_taskModel p"]
  by (auto simp: show_workspaces_def show_tasks_def)

lemma load_total: "\<exists>p' s. loadCache e p = Some (p', s)"
proof -
  obtain p1 s1 where 1: "(case cached_array e (workspace_cache e) p of
      None \<Rightarrow> Some (p, []) | Some arr \<Rightarrow> show_workspaces (workspaces_of e arr) p) = Some (p1, s1)"
    using show_total(1) by (cases "cached_array e (workspace_cache e) p") fastforce+
  obtain p2 s2 where 2: "(case cached_array e (task_cache e) p1 of
      None \<Rightarrow> Some (p1, []) | Some arr \<Rightarrow> show_tasks (tasks_of e arr) p1) = Some (p2, s2)"
    using show_total(2) by (cases "cached_array e (task_cache e) p1") fastforce+
  show ?thesis by (simp add: loadCache_def 1 2)
qed

lemma poll_step_total: "\<exists>p' s. poll_step op p = Some (p', s)"
proof (cases op)
  case (Start e)
  obtain q s where "loadCache e (p\<lparr>m_firstFetch := True\<rparr>) = Some (q, s)" using load_total by blast
  with Start show ?thesis by (simp add: start_polling_def split_beta)
next
  case (Workspaces e arr)
  obtain q s where "show_workspaces (workspaces_of e arr) p = Some (q, s)" using show_total(1) by blast
  with Workspaces show ?thesis by (simp add: handleWorkspacesReceived_def split_beta Let_def)
next
  case (Tasks e arr)
  obtain q s where "show_tasks (tasks_of e arr) p = Some (q, s)" using show_total(2) by blast
  with Tasks show ?thesis by (simp add: handleTasksReceived_def split_beta Let_def)
qed auto

text \<open>What the slots of polling change: the requests in flight and the notifications.\<close>

definition calls_more :: "Application \<Rightarrow> Application \<Rightarrow> bool" where
  "calls_more ap ap' \<longleftrightarrow> prefix (ap_calls ap) (ap_calls ap')"

lemma calls_more_refl [simp]: "calls_more ap ap"
  by (simp add: calls_more_def)

lemma calls_more_trans: "calls_more ap ap' \<Longrightarrow> calls_more ap' ap'' \<Longrightarrow> calls_more ap ap''"
  by (auto simp: calls_more_def)

text \<open>Apart from the requests in flight and the polling, the same but for the notifications of the desktop.\<close>

definition kept_by_polls :: "Application \<Rightarrow> Application \<Rightarrow> bool" where
  "kept_by_polls ap ap' \<longleftrightarrow>
     (\<exists>n. ap_desktop ap' = (ap_desktop ap)\<lparr>d_notifications := n\<rparr>) \<and> ap_transfers ap' = ap_transfers ap \<and>
     ap_login ap' = ap_login ap \<and> ap_tray ap' = ap_tray ap \<and> ap_log ap' = ap_log ap \<and> calls_more ap ap'"

lemma kept_by_polls_refl [simp]: "kept_by_polls ap ap"
  by (auto simp: kept_by_polls_def intro!: exI [of _ "d_notifications (ap_desktop ap)"])

lemma kept_by_polls_trans: "kept_by_polls ap ap' \<Longrightarrow> kept_by_polls ap' ap'' \<Longrightarrow> kept_by_polls ap ap''"
  by (auto simp: kept_by_polls_def intro: calls_more_trans)

lemma kept_by_polls_simps:
  assumes "kept_by_polls ap ap'"
  shows "client ap' = client ap" "ap_transfers ap' = ap_transfers ap" "ap_login ap' = ap_login ap" "ap_tray ap' = ap_tray ap"
    "d_dlp (ap_desktop ap') = d_dlp (ap_desktop ap)" "d_session (ap_desktop ap') = d_session (ap_desktop ap)"
    "d_settings (ap_desktop ap') = d_settings (ap_desktop ap)" "d_vpn (ap_desktop ap') = d_vpn (ap_desktop ap)"
    "d_sync (ap_desktop ap') = d_sync (ap_desktop ap)" "calls_more ap ap'"
  using assms by (auto simp: kept_by_polls_def client_def)

lemma poll_slots_kept:
  "poll_slots e clock xs ap = (ap', out) \<Longrightarrow>
     kept_by_polls ap ap' \<and> ap_polling ap' = ap_polling ap \<and>
     (\<forall>rq. Send rq \<in> set out \<longrightarrow> rq = fetchWorkspaces (ae_encode e) (client ap) \<or> rq = fetchTasks (client ap))"
proof (induction e clock xs ap arbitrary: ap' out rule: poll_slots.induct)
  case (2 e clock xs ap)
  let ?a = "ap\<lparr>ap_calls := ap_calls ap @ [Fetch_workspaces]\<rparr>"
  obtain o1 where r: "poll_slots e clock xs ?a = (ap', o1)" "out = Send (fetchWorkspaces (ae_encode e) (client ap)) # o1"
    using 2(2) by (auto split: prod.splits)
  have "kept_by_polls ap ?a" by (auto simp: kept_by_polls_def calls_more_def intro!: exI [of _ "d_notifications (ap_desktop ap)"])
  with 2(1) [OF r(1)] r(2) kept_by_polls_trans [of ap ?a ap'] show ?case by (auto simp: client_def)
next
  case (3 e clock xs ap)
  let ?a = "ap\<lparr>ap_calls := ap_calls ap @ [Fetch_tasks]\<rparr>"
  obtain o1 where r: "poll_slots e clock xs ?a = (ap', o1)" "out = Send (fetchTasks (client ap)) # o1"
    using 3(2) by (auto split: prod.splits)
  have "kept_by_polls ap ?a" by (auto simp: kept_by_polls_def calls_more_def intro!: exI [of _ "d_notifications (ap_desktop ap)"])
  with 3(1) [OF r(1)] r(2) kept_by_polls_trans [of ap ?a ap'] show ?case by (auto simp: client_def)
next
  case (4 e clock title message category xs ap)
  obtain now now' where c: "clock 0 = (now, now')" by fastforce
  obtain n msgs where n: "notify now now' title message category (d_notifications (ap_desktop ap)) = (n, msgs)" by fastforce
  let ?a = "ap\<lparr>ap_desktop := (ap_desktop ap)\<lparr>d_notifications := n\<rparr>\<rparr>"
  obtain o1 where r: "poll_slots e (\<lambda>k. clock (Suc k)) xs ?a = (ap', o1)" "out = Shown msgs # o1"
    using 4(2) c n by (auto split: prod.splits)
  have "kept_by_polls ap ?a" by (auto simp: kept_by_polls_def calls_more_def)
  with 4(1) [OF c [symmetric] n [symmetric] r(1)] r(2) kept_by_polls_trans [of ap ?a ap'] show ?case by (auto simp: client_def)
qed auto

lemma polls_kept:
  "\<exists>s ap' out. poll_step op (ap_polling ap) = Some (ap_polling ap', s) \<and> polls e clock op ap = Some (ap', out) \<and>
    kept_by_polls ap ap' \<and>
    (\<forall>rq. Send rq \<in> set out \<longrightarrow> rq = fetchWorkspaces (ae_encode e) (client ap) \<or> rq = fetchTasks (client ap))"
proof -
  obtain p s where p: "poll_step op (ap_polling ap) = Some (p, s)" using poll_step_total by blast
  obtain ap' o1 where r: "poll_slots e clock s (ap\<lparr>ap_polling := p\<rparr>) = (ap', o1)" by fastforce
  note k = poll_slots_kept [OF r]
  have "kept_by_polls ap ap'" using k by (auto simp: kept_by_polls_def calls_more_def)
  moreover have "polls e clock op ap = Some (ap', map From_polling s @ o1)" using p r by (simp add: polls_def)
  ultimately show ?thesis using p k by (intro exI [of _ s] exI [of _ ap'] exI [of _ "map From_polling s @ o1"]) (auto simp: client_def)
qed

definition by_client :: "Application \<Rightarrow> http_request \<Rightarrow> bool" where
  "by_client ap rq \<longleftrightarrow> (\<exists>meth path body. rq = buildRequest meth path body (client ap))"

lemma by_client_fetch [simp]: "by_client ap (fetchWorkspaces enc (client ap))" "by_client ap (fetchTasks (client ap))"
  by (auto simp: by_client_def fetchWorkspaces_def fetchTasks_def listWorkspaces_def listTasks_def api_get_def)

text \<open>
  What the slots promise: they complete, touch nothing but polling, requests and notifications, send only
  the requests \<open>rqs\<close> and what the client builds, and start the timer only if \<open>start\<close>.
\<close>

definition polite :: "http_request set \<Rightarrow> bool \<Rightarrow> Application \<Rightarrow> application_out \<Rightarrow> bool" where
  "polite rqs start ap r \<longleftrightarrow>
     (\<exists>ap' out. r = Some (ap', out) \<and> kept_by_polls ap ap' \<and>
        (interval_ok (ap_polling ap) \<longrightarrow> interval_ok (ap_polling ap')) \<and>
        (timer_active (ap_polling ap') \<longrightarrow> timer_active (ap_polling ap) \<or> start) \<and>
        (\<forall>rq. Send rq \<in> set out \<longrightarrow> by_client ap rq \<or> rq \<in> rqs))"

lemma polite_mono: "polite rqs start ap r \<Longrightarrow> rqs \<subseteq> rqs' \<Longrightarrow> (start \<longrightarrow> start') \<Longrightarrow> polite rqs' start' ap r"
  unfolding polite_def by blast

lemma polite_same: "polite rqs start ap (Some (ap, []))"
  by (simp add: polite_def)

lemma polite_seq:
  assumes "polite rqs start ap r" and "\<And>ap' out. r = Some (ap', out) \<Longrightarrow> polite rqs start ap' (f ap')"
  shows "polite rqs start ap (do { (ap, o1) \<leftarrow> r; (ap, o2) \<leftarrow> f ap; Some (ap, o1 @ o2) })"
proof -
  from assms(1) obtain ap1 o1 where 1: "r = Some (ap1, o1)" "kept_by_polls ap ap1"
    "interval_ok (ap_polling ap) \<longrightarrow> interval_ok (ap_polling ap1)"
    "timer_active (ap_polling ap1) \<longrightarrow> timer_active (ap_polling ap) \<or> start"
    "\<forall>rq. Send rq \<in> set o1 \<longrightarrow> by_client ap rq \<or> rq \<in> rqs" by (auto simp: polite_def)
  from assms(2) [OF 1(1)] obtain ap2 o2 where 2: "f ap1 = Some (ap2, o2)" "kept_by_polls ap1 ap2"
    "interval_ok (ap_polling ap1) \<longrightarrow> interval_ok (ap_polling ap2)"
    "timer_active (ap_polling ap2) \<longrightarrow> timer_active (ap_polling ap1) \<or> start"
    "\<forall>rq. Send rq \<in> set o2 \<longrightarrow> by_client ap1 rq \<or> rq \<in> rqs" by (auto simp: polite_def)
  have "by_client ap1 = by_client ap" using kept_by_polls_simps(1) [OF 1(2)] by (simp add: by_client_def fun_eq_iff)
  with 1 2 kept_by_polls_trans [OF 1(2) 2(2)] show ?thesis by (auto simp: polite_def)
qed

lemma poll_step_timer:
  assumes "poll_step op p = Some (p', s)" and "\<forall>e. op \<noteq> Start e"
  shows "timer_active p' \<longrightarrow> timer_active p"
proof (cases op)
  case (Start e)
  with assms(2) show ?thesis by simp
next
  case (Workspaces e arr)
  with assms(1) obtain q t m where q: "show_workspaces (workspaces_of e arr) p = Some (q, t)"
    "p' = (saveWorkspaceCache e arr (q\<lparr>m_workspaceModel := m\<rparr>))\<lparr>m_firstFetch := False\<rparr>"
    by (auto simp: handleWorkspacesReceived_def bind_eq_Some_conv Let_def split_beta)
  then show ?thesis by (auto simp: show_workspaces_def bind_eq_Some_conv saveWorkspaceCache_def save_cache_def)
next
  case (Tasks e arr)
  with assms(1) obtain q t m where q: "show_tasks (tasks_of e arr) p = Some (q, t)"
    "p' = saveTaskCache e arr (q\<lparr>m_taskModel := m\<rparr>)"
    by (auto simp: handleTasksReceived_def bind_eq_Some_conv Let_def split_beta)
  then show ?thesis by (auto simp: show_tasks_def bind_eq_Some_conv saveTaskCache_def save_cache_def)
qed (use assms in \<open>auto simp: stop_def refreshNow_def settingsChanged_def setRefreshIntervalSec_def purgeCache_def
    purge_file_def Let_def split: if_splits\<close>)

lemma polite_polls: "polite {} (\<exists>env. op = Start env) ap (polls e clock op ap)"
proof -
  obtain s ap' out where r: "poll_step op (ap_polling ap) = Some (ap_polling ap', s)" "polls e clock op ap = Some (ap', out)"
    "kept_by_polls ap ap'"
    "\<forall>rq. Send rq \<in> set out \<longrightarrow> rq = fetchWorkspaces (ae_encode e) (client ap) \<or> rq = fetchTasks (client ap)"
    using polls_kept [of op ap e clock] by blast
  from r(4) have "\<forall>rq. Send rq \<in> set out \<longrightarrow> by_client ap rq" by auto
  with r(2,3) poll_step_interval [OF _ r(1)] poll_step_timer [OF r(1)] show ?thesis
    unfolding polite_def by blast
qed

lemma show_failure_kept:
  "kept_by_polls ap (show_failure endpoint msg ap) \<and>
   interval_ok (ap_polling (show_failure endpoint msg ap)) = interval_ok (ap_polling ap) \<and>
   timer_active (ap_polling (show_failure endpoint msg ap)) = timer_active (ap_polling ap)"
  by (auto simp: show_failure_def kept_by_polls_def calls_more_def interval_ok_def split: prod.split
      intro!: exI [of _ "d_notifications (ap_desktop ap)"])

lemma polite_failure: "polite rqs start ap (Some (show_failure endpoint msg ap, []))"
  using show_failure_kept by (simp add: polite_def)

lemma polite_api_slots: "polite {} False ap (api_slots e clock sgs ap)"
proof (induction sgs arbitrary: ap)
  case (Cons sg sgs)
  have "polite {} False ap (api_slot e clock sg ap)"
    by (cases sg) (use polite_polls [where ap = ap and e = e and clock = clock] polite_same polite_failure in
        \<open>fastforce intro: polite_mono\<close>)+
  from polite_seq [OF this Cons.IH] show ?case by simp
qed (simp add: polite_same)

lemma polite_session_effects: "polite {rq. Request rq \<in> set xs} False ap (Some (session_effects xs ap))"
proof (induction xs arbitrary: ap)
  case (Cons x xs)
  have fold: "polite rqs False ap (Some (fold (\<lambda>sg ap. case sg of RequestFailed endpoint code msg \<Rightarrow>
      show_failure endpoint msg ap | _ \<Rightarrow> ap) sgs ap, []))" for sgs rqs ap
  proof (induction sgs arbitrary: ap)
    case (Cons sg sgs)
    have "polite rqs False ap (Some ((case sg of RequestFailed endpoint code msg \<Rightarrow> show_failure endpoint msg ap | _ \<Rightarrow> ap), []))"
      by (cases sg) (simp_all add: polite_same polite_failure)
    from polite_seq [OF this Cons.IH] show ?case by simp
  qed (simp add: polite_same)
  have "polite {rq. Request rq \<in> set (x # xs)} False ap (Some (session_sends x ap))"
  proof (cases x)
    case (Request rq)
    then show ?thesis by (simp add: polite_def)
  qed (use fold polite_same in simp_all)
  moreover have "polite {rq. Request rq \<in> set (x # xs)} False ap' (Some (session_effects xs ap'))" for ap'
    by (rule polite_mono [OF Cons.IH]) auto
  ultimately show ?case
    using polite_seq [of "{rq. Request rq \<in> set (x # xs)}" False ap "Some (session_sends x ap)" "\<lambda>ap. Some (session_effects xs ap)"]
    by (simp add: case_prod_beta)
qed (simp add: polite_same)

text \<open>The requests of the session and the starts of the polling among the effects of the desktop.\<close>

definition session_requests :: "desktop_effect list \<Rightarrow> http_request set" where
  "session_requests out = {rq. \<exists>sgs. From_session sgs \<in> set out \<and> Request rq \<in> set sgs}"

definition starts_polling :: "desktop_effect list \<Rightarrow> bool" where
  "starts_polling out \<longleftrightarrow> (\<exists>env. Poll (Start env) \<in> set out)"

lemma polite_desktop_slots: "polite (session_requests out) (starts_polling out) ap (desktop_slots e clock out ap)"
proof (induction out arbitrary: ap)
  case (Cons x xs)
  have "polite (session_requests (x # xs)) (starts_polling (x # xs)) ap (desktop_slot e clock x ap)"
  proof (cases x)
    case (From_session sgs)
    have "polite (session_requests (x # xs)) (starts_polling (x # xs)) ap (Some (session_effects sgs ap))"
      by (rule polite_mono [OF polite_session_effects]) (auto simp: session_requests_def From_session)
    with From_session show ?thesis by simp
  next
    case (Poll op)
    have "polite (session_requests (x # xs)) (starts_polling (x # xs)) ap (polls e clock op ap)"
      by (rule polite_mono [OF polite_polls]) (auto simp: starts_polling_def Poll)
    with Poll show ?thesis by simp
  qed (simp_all add: polite_same)
  moreover have "polite (session_requests (x # xs)) (starts_polling (x # xs)) ap' (desktop_slots e clock xs ap')" for ap'
    by (rule polite_mono [OF Cons.IH]) (auto simp: session_requests_def starts_polling_def)
  ultimately show ?case using polite_seq by fastforce
qed (simp add: polite_same)

lemma desktop_does_spec:
  "\<exists>ap' out'. desktop_does e clock (Some (d, out)) ap = Some (ap', map From_desktop out @ out') \<and>
    kept_by_polls (ap\<lparr>ap_desktop := d, ap_tray := ap_tray ap'\<rparr>) ap' \<and>
    (interval_ok (ap_polling ap) \<longrightarrow> interval_ok (ap_polling ap')) \<and>
    (timer_active (ap_polling ap') \<longrightarrow> timer_active (ap_polling ap) \<or> starts_polling out) \<and>
    (\<forall>rq. Send rq \<in> set out' \<longrightarrow> by_client ap' rq \<or> rq \<in> session_requests out)"
proof -
  let ?ap = "ap\<lparr>ap_desktop := d\<rparr>"
  obtain a o1 where r: "desktop_slots e clock out ?ap = Some (a, o1)" "kept_by_polls ?ap a"
    "interval_ok (ap_polling ap) \<longrightarrow> interval_ok (ap_polling a)"
    "timer_active (ap_polling a) \<longrightarrow> timer_active (ap_polling ap) \<or> starts_polling out"
    "\<forall>rq. Send rq \<in> set o1 \<longrightarrow> by_client ?ap rq \<or> rq \<in> session_requests out"
    using polite_desktop_slots [of out ?ap e clock] by (auto simp: polite_def)
  have t: "ap_polling (tray_slots out a) = ap_polling a" "by_client (tray_slots out a) = by_client a"
    by (simp_all add: tray_slots_def Let_def by_client_def client_def fun_eq_iff)
  have c: "by_client a = by_client ?ap"
    using kept_by_polls_simps(1) [OF r(2)] by (simp add: by_client_def fun_eq_iff)
  have "desktop_does e clock (Some (d, out)) ap = Some (tray_slots out a, map From_desktop out @ o1)"
    using r(1) by (simp add: desktop_does_def)
  moreover have "kept_by_polls (ap\<lparr>ap_desktop := d, ap_tray := ap_tray (tray_slots out a)\<rparr>) (tray_slots out a)"
    using r(2) by (auto simp: kept_by_polls_def calls_more_def tray_slots_def Let_def)
  ultimately show ?thesis using r(3-5) unfolding t(1) [symmetric] c [symmetric] t(2) [symmetric] by blast
qed

section \<open>The invariant of the whole\<close>

fun application_event_ok :: "application_event \<Rightarrow> Application \<Rightarrow> bool" where
  "application_event_ok (Desktop_does ev) ap \<longleftrightarrow> desktop_event_ok ev (ap_desktop ap)"
| "application_event_ok _ ap \<longleftrightarrow> True"

fun application_events_ok :: "app_env \<Rightarrow> ((nat \<Rightarrow> int \<times> int) \<times> application_event) list \<Rightarrow> Application \<Rightarrow> bool" where
  "application_events_ok e [] ap \<longleftrightarrow> True"
| "application_events_ok e (ev # evs) ap \<longleftrightarrow> application_event_ok (snd ev) ap \<and>
     (case application_step e ev ap of None \<Rightarrow> True | Some (ap', out) \<Rightarrow> application_events_ok e evs ap')"

definition event_left :: "(nat \<Rightarrow> int \<times> int) \<times> application_event \<Rightarrow> resource set" where
  "event_left ev = (case snd ev of Desktop_does dev \<Rightarrow> desktop_left dev | _ \<Rightarrow> {})"

definition app_ok :: "resource set \<Rightarrow> resource set \<Rightarrow> Application \<Rightarrow> bool" where
  "app_ok R E ap \<longleftrightarrow>
     mgr_ok R E (d_dlp (ap_desktop ap)) \<and> in_step (ap_desktop ap) \<and> interval_ok (ap_polling ap) \<and>
     transfers_ok (ap_transfers ap)"

lemma app_ok_kept:
  assumes "app_ok R E ap" and "kept_by_polls ap ap'" and "interval_ok (ap_polling ap) \<longrightarrow> interval_ok (ap_polling ap')"
  shows "app_ok R E ap'"
  using assms kept_by_polls_simps [OF assms(2)] by (simp add: app_ok_def in_step_def)

lemma polite_ok:
  assumes "app_ok R E ap" and "polite rqs start ap r"
  shows "\<exists>ap' out. r = Some (ap', out) \<and> app_ok R E ap'"
  using assms(2) app_ok_kept [OF assms(1)] by (auto simp: polite_def)

lemma desktop_does_ok:
  assumes "app_ok R E ap" and "mgr_ok R E' (d_dlp d)" and "in_step d"
  shows "\<exists>ap' out'. desktop_does e clock (Some (d, out)) ap = Some (ap', out') \<and> app_ok R E' ap'"
proof -
  obtain ap' out' where r: "desktop_does e clock (Some (d, out)) ap = Some (ap', map From_desktop out @ out')"
    "kept_by_polls (ap\<lparr>ap_desktop := d, ap_tray := ap_tray ap'\<rparr>) ap'"
    "interval_ok (ap_polling ap) \<longrightarrow> interval_ok (ap_polling ap')"
    using desktop_does_spec [of e clock d out ap] by blast
  have "app_ok R E' (ap\<lparr>ap_desktop := d, ap_tray := ap_tray ap'\<rparr>)" using assms by (simp add: app_ok_def)
  from app_ok_kept [OF this r(2)] r(1,3) show ?thesis by auto
qed

lemma login_does_ok:
  assumes "app_ok R E ap"
  shows "\<exists>ap' out'. login_does e clock ev ap = Some (ap', out') \<and> app_ok R E ap'"
proof -
  let ?d = "ap_desktop ap"
  obtain c out where l: "login_step (ae_web e) ev ((ap_login ap)\<lparr>m_sessionManager := d_session ?d\<rparr>) = (c, out)" by fastforce
  let ?sgs = "concat (map (\<lambda>x. case x of Session sgs \<Rightarrow> sgs | _ \<Rightarrow> []) out)"
  have "mgr_ok R E (d_dlp (?d\<lparr>d_session := m_sessionManager c\<rparr>))" using assms by (simp add: app_ok_def)
  from session_slots_ok [OF this, of "ae_wiring e" ?sgs] obtain d o1 where
    s: "session_slots (ae_wiring e) ?sgs (?d\<lparr>d_session := m_sessionManager c\<rparr>) = Some (d, o1)" "mgr_ok R E (d_dlp d)"
      "d_vpn d = d_vpn ?d" "d_sync d = d_sync ?d" by auto
  have "in_step d" "app_ok R E (ap\<lparr>ap_login := c\<rparr>)" using assms s(3,4) by (simp_all add: app_ok_def in_step_def)
  from desktop_does_ok [OF this(2) s(2) this(1), of e clock "From_session ?sgs # o1"] l s(1) show ?thesis
    by (auto simp: login_does_def)
qed

lemma tray_does_ok:
  assumes "app_ok R E ap" and "r = (v, out)"
    and sgs: "sgs = concat (map (\<lambda>x. case x of Tray_vpn sgs \<Rightarrow> sgs | _ \<Rightarrow> []) out)"
    and "m_state v = m_state (d_vpn (ap_desktop ap)) \<or> Vpn_stateChanged \<in> set sgs"
  shows "\<exists>ap' out'. tray_does e clock r ap = Some (ap', out') \<and> app_ok R E ap'"
proof -
  let ?d = "(ap_desktop ap)\<lparr>d_vpn := v\<rparr>"
  obtain d o1 where s: "vpn_slots (ae_wiring e) sgs ?d = Some (d, o1)" "d_dlp d = d_dlp (ap_desktop ap)"
    using vpn_slots_ok [of "ae_wiring e" sgs ?d] by auto
  have "in_step ?d \<or> Vpn_stateChanged \<in> set sgs" using assms(1,4) by (auto simp: app_ok_def in_step_def)
  from vpn_slots_in_step [OF s(1) this] have "in_step d" .
  moreover have "mgr_ok R E (d_dlp d)" using assms(1) s(2) by (simp add: app_ok_def)
  ultimately show ?thesis
    using desktop_does_ok [OF assms(1), of E d e clock "From_vpn sgs # o1"] s(1) by (auto simp: tray_does_def assms(2) sgs)
qed

lemma vpn_calls_announced:
  "\<lbrakk>vpn_start url token v = (v', out); Vpn_stateChanged \<notin> set out\<rbrakk> \<Longrightarrow> m_state v' = m_state v"
  "\<lbrakk>vpn_stop v = (v', out); Vpn_stateChanged \<notin> set out\<rbrakk> \<Longrightarrow> m_state v' = m_state v"
  using vpn_announced [of "Vpn_start url token" v v' out] vpn_announced [of Vpn_stop v v' out] by simp_all

lemma application_step_ok:
  assumes ok: "app_ok R E ap" and ev: "application_event_ok (snd ev) ap"
  shows "\<exists>ap' out. application_step e ev ap = Some (ap', out) \<and> app_ok R (event_left ev \<union> E) ap'"
proof -
  obtain clock x where x: "ev = (clock, x)" by (cases ev)
  show ?thesis
  proof (cases x)
    case (Desktop_does dev)
    with ok ev x have m: "mgr_ok R E (d_dlp (ap_desktop ap))" "desktop_event_ok dev (ap_desktop ap)" "in_step (ap_desktop ap)"
      by (simp_all add: app_ok_def)
    from desktop_step_mgr [OF m(1,2), of "ae_wiring e"] obtain d out where
      d: "desktop_step (ae_wiring e) dev (ap_desktop ap) = Some (d, out)" "mgr_ok R (desktop_left dev \<union> E) (d_dlp d)" by blast
    have "in_step d" using step_in_step [OF d(1) m(2,3)] m(1) by (auto simp: dlp_ok_def)
    from desktop_does_ok [OF ok d(2) this] d(1) Desktop_does x show ?thesis by (simp add: event_left_def)
  next
    case (Login_does lev)
    with login_does_ok [OF ok] x show ?thesis by (simp add: event_left_def)
  next
    case Poll_timer
    with polite_ok [OF ok polite_polls] ok x show ?thesis by (simp add: event_left_def)
  next
    case Refresh_clicked
    with polite_ok [OF ok polite_polls] x show ?thesis by (simp add: event_left_def)
  next
    case (Interval_set sec)
    with polite_ok [OF ok polite_polls] x show ?thesis by (simp add: event_left_def)
  next
    case (Api_answered i r)
    let ?ap = "ap\<lparr>ap_calls := take i (ap_calls ap) @ drop (Suc i) (ap_calls ap)\<rparr>"
    have "app_ok R E ?ap" using ok by (simp add: app_ok_def)
    from polite_ok [OF this polite_api_slots] Api_answered x ok show ?thesis by (simp add: event_left_def)
  next
    case (Transfer_does te tev)
    obtain m out where t: "transfer_step (te, tev) (ap_transfers ap) = (m, out)" by fastforce
    have "transfers_ok m" using good_step [of "ap_transfers ap" te tev] ok t by (simp add: app_ok_def good_def)
    with t Transfer_does x ok show ?thesis by (simp add: event_left_def app_ok_def)
  next
    case (Tray_connect se)
    obtain v out where c: "onConnectClicked se (Some (d_session (ap_desktop ap))) (d_vpn (ap_desktop ap)) = (v, out)" by fastforce
    have "\<exists>ap' out'. tray_does e clock (v, out) ap = Some (ap', out') \<and> app_ok R E ap'"
      by (rule tray_does_ok [OF ok refl refl])
        (use c in \<open>auto simp: onConnectClicked_def dest: vpn_calls_announced split: if_splits prod.splits\<close>)
    with Tray_connect x c show ?thesis by (simp add: event_left_def)
  next
    case Tray_disconnect
    obtain v out where c: "onDisconnectClicked (d_vpn (ap_desktop ap)) = (v, out)" by fastforce
    have "\<exists>ap' out'. tray_does e clock (v, out) ap = Some (ap', out') \<and> app_ok R E ap'"
      by (rule tray_does_ok [OF ok refl refl])
        (use c in \<open>auto simp: onDisconnectClicked_def dest: vpn_calls_announced split: prod.splits\<close>)
    with Tray_disconnect x c show ?thesis by (simp add: event_left_def)
  qed (use ok x in \<open>simp_all add: event_left_def call_api_def app_ok_def unixSignalHandler_def signal_notified_def\<close>)
qed

lemma application_run_ok:
  assumes "app_ok R E ap" and "application_events_ok e evs ap"
  shows "\<exists>ap' out. application_run e evs ap = Some (ap', out) \<and> app_ok R ((\<Union>ev \<in> set evs. event_left ev) \<union> E) ap'"
proof -
  let ?L = "(\<Union>ev \<in> set evs. event_left ev) \<union> E"
  let ?I = "\<lambda>evs ap. application_events_ok e evs ap \<and> (\<exists>F. app_ok R F ap \<and> (\<Union>ev \<in> set evs. event_left ev) \<union> F = ?L)"
  have "\<exists>ap1 o1. application_step e ev ap = Some (ap1, o1) \<and> ?I evs ap1" if I: "?I (ev # evs) ap" for ev evs ap
  proof -
    from I obtain F where F: "app_ok R F ap" "(\<Union>ev \<in> set (ev # evs). event_left ev) \<union> F = ?L" by blast
    from I have "application_event_ok (snd ev) ap" by simp
    from application_step_ok [OF F(1) this, of e] obtain ap1 o1 where
      "application_step e ev ap = Some (ap1, o1)" "app_ok R (event_left ev \<union> F) ap1" by blast
    moreover have "(\<Union>ev \<in> set evs. event_left ev) \<union> (event_left ev \<union> F) = ?L" using F(2) by auto
    ultimately show ?thesis using I by auto
  qed
  moreover have "?I evs ap" using assms by blast
  ultimately have "\<exists>ap' out. application_run e evs ap = Some (ap', out) \<and> ?I [] ap'" by (intro application.total [where I = ?I])
  then show ?thesis by auto
qed

lemma app_ok_new:
  assumes "new_Application e opt settings session s daemon cached l = Some (ap, out)"
  shows "app_ok (resources s) {} ap"
proof -
  from assms obtain d o1 a o2 where n: "new_Desktop (ae_wiring e) opt settings session s daemon = Some (d, o1)"
    "desktop_slots e (\<lambda>_. (0, 0)) o1
       \<lparr>ap_desktop = d, ap_polling = new_PollingController empty_workspaces empty_tasks cached, ap_calls = [],
        ap_login = new_LoginFlowController session, ap_transfers = new_FileTransferManager,
        ap_tray = new_SystemTrayIcon, ap_log = l, s_sigFd = 0\<rparr> = Some (ap, o2)" (is "desktop_slots e _ o1 ?ap = _")
    by (auto simp: new_Application_def bind_eq_Some_conv)
  have "mgr_ok (resources s) {} (d_dlp d)" using new_Desktop_mgr [OF n(1)] by simp
  moreover have "in_step d" using n(1)
    by (auto simp: new_Desktop_def Let_def case_prod_beta bind_eq_Some_conv in_step_def new_FileSyncManager_def
        new_VpnBridge_def vpn_call_def)
  ultimately have "app_ok (resources s) {} ?ap"
    by (simp add: app_ok_def transfers_ok_new interval_ok_def new_PollingController_def)
  from polite_ok [OF this polite_desktop_slots [of o1 ?ap e "\<lambda>_. (0, 0)"]] n(2) show ?thesis by simp
qed

section \<open>Properties\<close>


section \<open>Signed out\<close>

definition has_token :: "http_request \<Rightarrow> bool" where
  "has_token rq \<longleftrightarrow> ''Coder-Session-Token'' \<in> fst ` set (hr_headers rq)"

definition signed_out :: "SessionManager \<Rightarrow> bool" where
  "signed_out s \<longleftrightarrow> ac_sessionToken (m_apiClient s) = []"

text \<open>The events by which a user signs in: a login, the choice of another deployment, the end of a login flow.\<close>

definition no_sign_in :: "application_event \<Rightarrow> bool" where
  "no_sign_in ev \<longleftrightarrow>
     (case ev of
        Desktop_does (Session_event se (Login url token)) \<Rightarrow> False
      | Desktop_does (Session_event se (Switch url)) \<Rightarrow> False
      | Login_does (JsToken token) \<Rightarrow> False
      | Login_does (Cookie name val) \<Rightarrow> False
      | _ \<Rightarrow> True)"

lemma by_client_token: "by_client ap rq \<Longrightarrow> signed_out (d_session (ap_desktop ap)) \<Longrightarrow> \<not> has_token rq"
  by (auto simp: by_client_def has_token_def signed_out_def client_def buildRequest_def)

lemma signed_out_step:
  assumes "signed_out s" and "session_step f (se, ev) s = (s', out)"
    and "\<forall>url token. ev \<noteq> Login url token" and "\<forall>url. ev \<noteq> Switch url"
  shows "signed_out s' \<and> (\<forall>rq. Request rq \<notin> set out)"
proof (cases ev)
  case (Answer i now r)
  have k: "signed_out (fst (login_answered f se now url token r t)) \<and>
      (\<forall>rq. Request rq \<notin> set (snd (login_answered f se now url token r t)))" if "signed_out t" for url token t
    using that by (auto simp: login_answered_def clear_token_def api_setSessionToken_def startTokenValidation_def
        saveDeployments_def signed_out_def Let_def split: prod.split)
  have v: "signed_out (fst (validation_answered r t)) \<and> (\<forall>rq. Request rq \<notin> set (snd (validation_answered r t)))"
    if "signed_out t" for t using that by (simp add: validation_answered_def signed_out_def)
  let ?t = "s\<lparr>pending := take i (pending s) @ drop (Suc i) (pending s)\<rparr>"
  have t: "signed_out ?t" using assms(1) by (simp add: signed_out_def)
  from Answer assms(1,2) k [OF t] v [OF t] show ?thesis
    by (cases "pending s ! i") (auto simp: Let_def case_prod_beta split: if_splits)
qed (use assms in \<open>auto simp: logout_def removeDeployment_def validateToken_def isAuthenticated_def api_isAuthenticated_def
    clear_credentials_def api_setSessionToken_def api_setBaseUrl_def saveDeployments_def signed_out_def Let_def
    split: if_splits prod.splits\<close>)

lemma session_slots_session:
  "session_slots e sgs d = Some (d', out) \<Longrightarrow> d_session d' = d_session d \<and> session_requests out = {} \<and>
     (starts_polling out \<longrightarrow> \<not> signed_out (d_session d))"
proof (induction sgs arbitrary: d out)
  case (Cons sg sgs)
  then obtain d1 o1 o2 where 1: "session_slot e sg d = Some (d1, o1)" "session_slots e sgs d1 = Some (d', o2)" "out = o1 @ o2"
    by (auto simp: bind_eq_Some_conv)
  from 1(1) have "d_session d1 = d_session d \<and> session_requests o1 = {} \<and>
     (starts_polling o1 \<longrightarrow> \<not> signed_out (d_session d))"
    by (cases sg) (auto simp: auth_polling_def starts_polling_def session_requests_def signed_out_def isAuthenticated_def
        api_isAuthenticated_def split: if_splits)
  with Cons.IH [OF 1(2)] 1(3) show ?case by (auto simp: starts_polling_def session_requests_def)
qed (simp add: starts_polling_def session_requests_def)

lemma vpn_slots_session:
  "vpn_slots e sgs d = Some (d', out) \<Longrightarrow> d_session d' = d_session d \<and> session_requests out = {} \<and> \<not> starts_polling out"
proof (induction sgs arbitrary: d out)
  case (Cons sg sgs)
  then obtain d1 o1 o2 where 1: "vpn_slot e sg d = Some (d1, o1)" "vpn_slots e sgs d1 = Some (d', o2)" "out = o1 @ o2"
    by (auto simp: bind_eq_Some_conv)
  from 1(1) have "d_session d1 = d_session d \<and> session_requests o1 = {} \<and> \<not> starts_polling o1"
    by (cases sg) (auto simp: vpn_stateChanged_def vpn_peerUpdated_def clear_when_def starts_polling_def session_requests_def
        Let_def bind_eq_Some_conv split: if_splits prod.splits)
  with Cons.IH [OF 1(2)] 1(3) show ?case by (auto simp: starts_polling_def session_requests_def)
qed (simp add: starts_polling_def session_requests_def)

lemma signed_out_desktop:
  assumes "signed_out (d_session d)" and "desktop_step e ev d = Some (d', out)" and "no_sign_in (Desktop_does ev)"
  shows "signed_out (d_session d') \<and> session_requests out = {} \<and> \<not> starts_polling out"
proof (cases ev)
  case (Session_event se x)
  obtain s o1 where u: "session_step (we_format e) (se, x) (d_session d) = (s, o1)" by fastforce
  have "signed_out s \<and> (\<forall>rq. Request rq \<notin> set o1)"
    by (rule signed_out_step [OF assms(1) u]) (use assms(3) Session_event in \<open>auto simp: no_sign_in_def\<close>)
  with u Session_event assms(2) session_slots_session [of e o1 "d\<lparr>d_session := s\<rparr>"] show ?thesis
    by (auto simp: starts_polling_def session_requests_def)
next
  case (Vpn_event x)
  with assms(1,2) vpn_slots_session [of e] show ?thesis
    by (fastforce simp: starts_polling_def session_requests_def split: prod.splits)
next
  case (Settings_event op)
  with assms(1,2) show ?thesis
    by (auto simp: settings_slots_def starts_polling_def session_requests_def Let_def split: if_splits prod.splits)
qed (use assms(1,2) in \<open>auto simp: starts_polling_def session_requests_def split: prod.splits\<close>)

text \<open>Signed out, and not polling.\<close>

definition silent :: "Application \<Rightarrow> bool" where
  "silent ap \<longleftrightarrow> signed_out (d_session (ap_desktop ap)) \<and> \<not> timer_active (ap_polling ap)"

definition tokenless :: "app_effect \<Rightarrow> bool" where
  "tokenless x \<longleftrightarrow> (case x of Send rq \<Rightarrow> \<not> has_token rq | _ \<Rightarrow> True)"

lemma tokenless_simps [simp]:
  "tokenless (Send rq) \<longleftrightarrow> \<not> has_token rq" "tokenless (From_desktop y)" "tokenless (From_polling z)"
  "tokenless (From_login a)" "tokenless (From_tray b)" "tokenless (From_transfers c)" "tokenless (Shown f)"
  "tokenless (Model_rows g)" "tokenless (Window h)" "tokenless (Leave i)"
  by (simp_all add: tokenless_def)

lemma tokenless_sends: "(\<And>rq. Send rq \<in> set out \<Longrightarrow> \<not> has_token rq) \<Longrightarrow> \<forall>x \<in> set out. tokenless x"
  by (auto simp: tokenless_def split: app_effect.split)

lemma silent_polite:
  assumes "silent ap" and "polite {} False ap r" and "r = Some (ap', out)"
  shows "silent ap' \<and> (\<forall>x \<in> set out. tokenless x)"
proof
  from assms(2,3) have p: "kept_by_polls ap ap'" "timer_active (ap_polling ap') \<longrightarrow> timer_active (ap_polling ap)"
    "\<forall>rq. Send rq \<in> set out \<longrightarrow> by_client ap rq" by (auto simp: polite_def)
  show "silent ap'" using assms(1) p(2) kept_by_polls_simps(6) [OF p(1)] by (simp add: silent_def)
  show "\<forall>x \<in> set out. tokenless x"
    by (rule tokenless_sends) (use p(3) by_client_token assms(1) in \<open>auto simp: silent_def\<close>)
qed

lemma silent_desktop_does:
  assumes "silent ap" and "signed_out (d_session d)" and "session_requests out = {}" and "\<not> starts_polling out"
    and "desktop_does e clock (Some (d, out)) ap = Some (ap', out')"
  shows "silent ap' \<and> (\<forall>x \<in> set out'. tokenless x)"
proof -
  obtain a o1 where r: "desktop_does e clock (Some (d, out)) ap = Some (a, map From_desktop out @ o1)"
    "kept_by_polls (ap\<lparr>ap_desktop := d, ap_tray := ap_tray a\<rparr>) a"
    "timer_active (ap_polling a) \<longrightarrow> timer_active (ap_polling ap) \<or> starts_polling out"
    "\<And>rq. Send rq \<in> set o1 \<Longrightarrow> by_client a rq \<or> rq \<in> session_requests out"
    using desktop_does_spec [of e clock d out ap] by blast
  have a: "signed_out (d_session (ap_desktop a))" "\<not> timer_active (ap_polling a)"
    using kept_by_polls_simps(6) [OF r(2)] r(3) assms(1,2,4) by (simp_all add: silent_def)
  have "\<forall>x \<in> set o1. tokenless x"
    by (rule tokenless_sends) (use r(4) assms(3) by_client_token [OF _ a(1)] in blast)
  then show ?thesis using a r(1) assms(5) by (auto simp: silent_def)
qed

lemma login_keeps_session:
  assumes "login_step web ev c = (c', out)" and "\<forall>token. ev \<noteq> JsToken token" and "\<forall>name val. ev \<noteq> Cookie name val"
  shows "m_sessionManager c' = m_sessionManager c \<and> (\<forall>sgs. Session sgs \<notin> set out)"
  using assms
  by (cases ev) (auto simp: startFlow_def probeScheme_def continueStartFlow_def cancelFlow_def openExternalCliAuth_def
      https_answered_def http_answered_def clearCookies_def Let_def split: if_splits scheme_probe.splits)

lemma no_sessions: "\<forall>sgs. Session sgs \<notin> set out \<Longrightarrow>
    concat (map (\<lambda>x. case x of Session sgs \<Rightarrow> sgs | _ \<Rightarrow> []) out) = []"
  by (auto split: login_effect.splits)

lemma silent_tray:
  assumes "silent ap" and "tray_does e clock r ap = Some (ap', out)"
  shows "silent ap' \<and> (\<forall>x \<in> set out. tokenless x)"
proof -
  obtain v o1 where r: "r = (v, o1)" by fastforce
  let ?sgs = "concat (map (\<lambda>x. case x of Tray_vpn sgs \<Rightarrow> sgs | _ \<Rightarrow> []) o1)"
  from assms(2) obtain d o2 o3 where s: "vpn_slots (ae_wiring e) ?sgs ((ap_desktop ap)\<lparr>d_vpn := v\<rparr>) = Some (d, o2)"
    "desktop_does e clock (Some (d, From_vpn ?sgs # o2)) ap = Some (ap', o3)" "out = map From_tray o1 @ o3"
    unfolding tray_does_def r Let_def prod.case
    by (cases "vpn_slots (ae_wiring e) ?sgs ((ap_desktop ap)\<lparr>d_vpn := v\<rparr>)") (auto simp: desktop_does_def)
  from vpn_slots_session [OF s(1)] have "signed_out (d_session d)" "session_requests (From_vpn ?sgs # o2) = {}"
    "\<not> starts_polling (From_vpn ?sgs # o2)"
    using assms(1) by (auto simp: silent_def session_requests_def starts_polling_def)
  from silent_desktop_does [OF assms(1) this s(2)] s(3) show ?thesis by auto
qed

lemma silent_step:
  assumes "silent ap" and "application_step e ev ap = Some (ap', out)" and "no_sign_in (snd ev)"
  shows "silent ap' \<and> (\<forall>x \<in> set out. tokenless x)"
proof -
  obtain clock x where x: "ev = (clock, x)" by (cases ev)
  have polls: ?thesis if "polls e clock op ap = Some (ap', out)" "\<forall>env. op \<noteq> Start env" for op
    using silent_polite [OF assms(1) polite_mono [OF polite_polls] that(1)] that(2) by blast
  have call: ?thesis if "call_api call rq ap = Some (ap', out)" "by_client ap rq" for call rq
    using that assms(1) by_client_token [OF that(2)] by (auto simp: call_api_def silent_def)
  show ?thesis
  proof (cases x)
    case (Desktop_does dev)
    with assms(2) x obtain d o1 where d: "desktop_step (ae_wiring e) dev (ap_desktop ap) = Some (d, o1)"
      by (auto simp: desktop_does_def bind_eq_Some_conv)
    have "signed_out (d_session (ap_desktop ap))" using assms(1) by (simp add: silent_def)
    from signed_out_desktop [OF this d] assms(3) x Desktop_does have
      "signed_out (d_session d)" "session_requests o1 = {}" "\<not> starts_polling o1" by simp_all
    from silent_desktop_does [OF assms(1) this] assms(2) x Desktop_does d show ?thesis by simp
  next
    case (Login_does lev)
    obtain c o1 where l: "login_step (ae_web e) lev ((ap_login ap)\<lparr>m_sessionManager := d_session (ap_desktop ap)\<rparr>) = (c, o1)"
      by fastforce
    have "\<forall>token. lev \<noteq> JsToken token" "\<forall>name val. lev \<noteq> Cookie name val"
      using assms(3) x Login_does by (auto simp: no_sign_in_def)
    from login_keeps_session [OF l this] have k: "m_sessionManager c = d_session (ap_desktop ap)"
      "\<forall>sgs. Session sgs \<notin> set o1" by simp_all
    from assms(2) x Login_does l k no_sessions [OF k(2)] obtain o2 where
      d: "desktop_does e clock (Some (ap_desktop ap, [From_session []])) (ap\<lparr>ap_login := c\<rparr>) = Some (ap', o2)"
        "out = map From_login o1 @ o2"
      by (auto simp: login_does_def)
    have "silent (ap\<lparr>ap_login := c\<rparr>)" "signed_out (d_session (ap_desktop ap))" using assms(1) by (simp_all add: silent_def)
    from silent_desktop_does [OF this _ _ d(1)] d(2) show ?thesis by (auto simp: session_requests_def starts_polling_def)
  next
    case (Api_answered i r)
    let ?ap = "ap\<lparr>ap_calls := take i (ap_calls ap) @ drop (Suc i) (ap_calls ap)\<rparr>"
    have "silent ?ap" using assms(1) by (simp add: silent_def)
    from silent_polite [OF this polite_api_slots] assms(1,2) x Api_answered show ?thesis by (auto split: if_splits)
  next
    case Poll_timer
    with assms(1,2) x show ?thesis by (simp add: silent_def)
  next
    case Refresh_clicked
    with assms(2) x show ?thesis by (intro polls [of Refresh]) simp_all
  next
    case (Interval_set sec)
    with assms(2) x show ?thesis by (intro polls [of "Interval sec"]) simp_all
  next
    case (Tray_connect se)
    with assms(2) x show ?thesis by (intro silent_tray [OF assms(1)]) simp
  next
    case Tray_disconnect
    with assms(2) x show ?thesis by (intro silent_tray [OF assms(1)]) simp
  next
    case (Start_workspace wid)
    with assms(2) x show ?thesis
      by (intro call) (auto simp: by_client_def startWorkspace_def createWorkspaceBuild_def api_post_def)
  next
    case (Stop_workspace wid)
    with assms(2) x show ?thesis
      by (intro call) (auto simp: by_client_def stopWorkspace_def createWorkspaceBuild_def api_post_def)
  next
    case (Update_workspace wid)
    with assms(2) x show ?thesis
      by (intro call) (auto simp: by_client_def updateWorkspace_request_def startWorkspace_def createWorkspaceBuild_def api_post_def)
  next
    case (Open_workspace wid)
    with assms(2) x show ?thesis
      by (intro call) (auto simp: by_client_def fetchWorkspaceDetail_def getWorkspace_def api_get_def)
  qed (use assms(1,2) x in \<open>auto simp: silent_def unixSignalHandler_def signal_notified_def object_created_def split: if_splits prod.splits\<close>)
qed

lemma clear_credentials_spec:
  "\<exists>o1. clear_credentials t = (t\<lparr>m_apiClient := \<lparr>ac_baseUrl = [], ac_sessionToken = []\<rparr>\<rparr>, [Api o1]) \<and>
    set o1 \<subseteq> {BaseUrlChanged, ApiAuthChanged}"
  by (cases "m_apiClient t")
    (auto simp: clear_credentials_def api_setSessionToken_def api_setBaseUrl_def chop_slashes.simps Let_def)

lemma logout_spec:
  "\<exists>s' o1. logout f e s = (s', [Api o1, AuthStateChanged]) \<and> set o1 \<subseteq> {BaseUrlChanged, ApiAuthChanged} \<and>
    m_apiClient s' = \<lparr>ac_baseUrl = [], ac_sessionToken = []\<rparr>"
proof -
  let ?url = "dep_url (m_activeDeployment s)"
  let ?t = "if ?url \<noteq> [] then s\<lparr>m_storage := snd (removeToken e ?url (m_storage s))\<rparr> else s"
  obtain o1 where "clear_credentials ?t = (?t\<lparr>m_apiClient := \<lparr>ac_baseUrl = [], ac_sessionToken = []\<rparr>\<rparr>, [Api o1])"
    "set o1 \<subseteq> {BaseUrlChanged, ApiAuthChanged}" using clear_credentials_spec by blast
  then show ?thesis by (simp add: logout_def Let_def saveDeployments_def)
qed

lemma harmless_signals:
  "set sgs \<subseteq> {BaseUrlChanged, ApiAuthChanged} \<Longrightarrow>
    fold (\<lambda>sg ap. case sg of RequestFailed endpoint code msg \<Rightarrow> show_failure endpoint msg ap | _ \<Rightarrow> ap) sgs ap = ap"
  by (induction sgs) auto

lemma logout_step:
  "\<exists>s out. application_step e (clock, Desktop_does (Session_event se Logout)) ap =
      Some (ap\<lparr>ap_desktop := (ap_desktop ap)\<lparr>d_session := s\<rparr>, ap_polling := (ap_polling ap)\<lparr>timer_active := False\<rparr>\<rparr>, out) \<and>
    m_apiClient s = \<lparr>ac_baseUrl = [], ac_sessionToken = []\<rparr> \<and> (\<forall>x \<in> set out. tokenless x)"
proof -
  let ?w = "ae_wiring e"
  obtain s o1 where l: "logout (we_format ?w) se (d_session (ap_desktop ap)) = (s, [Api o1, AuthStateChanged])"
    "set o1 \<subseteq> {BaseUrlChanged, ApiAuthChanged}" "m_apiClient s = \<lparr>ac_baseUrl = [], ac_sessionToken = []\<rparr>"
    using logout_spec by blast
  let ?d = "(ap_desktop ap)\<lparr>d_session := s\<rparr>"
  have "\<not> isAuthenticated s" using l(3) by (simp add: isAuthenticated_def api_isAuthenticated_def)
  moreover have "WorkspaceActionCompleted \<notin> set o1" using l(2) by auto
  ultimately have "desktop_step ?w (Session_event se Logout) (ap_desktop ap) =
      Some (?d, [From_session [Api o1, AuthStateChanged], Poll Stop])"
    using l(1) by (simp add: auth_polling_def updateWatermarkIdentity_def)
  then show ?thesis
    using harmless_signals [OF l(2)] l(3) by (simp add: desktop_does_def polls_def stop_def tray_slots_def) blast
qed

text \<open>C4. Signing out is final. After a logout, in whatever state the application was, and until the user signs in
  again, chooses another deployment or ends a login flow: whatever requests are answered, settings changed, buttons
  clicked and timers run out, in whatever order, no request of the API client carries a session token and polling does not
  resume.\<close>

theorem signed_out_sends_no_token:
  assumes "application_run e ((clock, Desktop_does (Session_event se Logout)) # evs) ap = Some (ap', out)"
    and "list_all (\<lambda>ev. no_sign_in (snd ev)) evs"
  shows "(\<forall>rq. Send rq \<in> set out \<longrightarrow> \<not> has_token rq) \<and> \<not> isPolling (ap_polling ap') \<and>
    \<not> isAuthenticated (d_session (ap_desktop ap'))"
proof -
  from assms(1) obtain ap1 o1 o2 where 1: "application_step e (clock, Desktop_does (Session_event se Logout)) ap = Some (ap1, o1)"
    "application_run e evs ap1 = Some (ap', o2)" "out = o1 @ o2" by (auto simp: bind_eq_Some_conv)
  have q: "silent ap1 \<and> (\<forall>x \<in> set o1. tokenless x)"
    using logout_step [of e clock se ap] 1(1) by (auto simp: silent_def signed_out_def simp del: application_step.simps)
  let ?I = "\<lambda>(evs :: ((nat \<Rightarrow> int \<times> int) \<times> application_event) list) ap. silent ap \<and> list_all (\<lambda>ev. no_sign_in (snd ev)) evs"
  have "?I evs ap1" using q assms(2) by simp
  moreover have "?I evs a1 \<and> (\<forall>x \<in> set o1. tokenless x)" if "?I (ev # evs) a" "application_step e ev a = Some (a1, o1)" for ev evs a a1 o1
    using silent_step [of a e ev a1 o1] that by simp
  ultimately have r: "?I [] ap' \<and> (\<forall>x \<in> set o2. tokenless x)" by (rule application.invariant [where I = ?I and P = tokenless, OF _ 1(2)])
  have "\<not> has_token rq" if "Send rq \<in> set out" for rq
  proof -
    from q r have "\<forall>x \<in> set out. tokenless x" using 1(3) by auto
    with that have "tokenless (Send rq)" by blast
    then show ?thesis by simp
  qed
  with r show ?thesis
    by (simp add: silent_def isPolling_def signed_out_def isAuthenticated_def api_isAuthenticated_def)
qed

section \<open>A late answer\<close>

definition is_answer :: "application_event \<Rightarrow> bool" where
  "is_answer ev = (case ev of Api_answered i r \<Rightarrow> True | _ \<Rightarrow> False)"

lemma polite_more: "polite rqs start ap r \<Longrightarrow> r = Some (ap', out) \<Longrightarrow> calls_more ap ap'"
  by (auto simp: polite_def kept_by_polls_def)

lemma desktop_does_more:
  assumes "desktop_does e clock r ap = Some (ap', out)"
  shows "calls_more ap ap'"
proof -
  obtain d o1 where r: "r = Some (d, o1)" using assms by (auto simp: desktop_does_def bind_eq_Some_conv)
  from desktop_does_spec [of e clock d o1 ap] assms show ?thesis
    unfolding r by (auto simp: kept_by_polls_def calls_more_def)
qed

lemma application_step_more:
  assumes "application_step e ev ap = Some (ap', out)" and "\<not> is_answer (snd ev)"
  shows "calls_more ap ap'"
proof -
  obtain clock x where x: "ev = (clock, x)" by (cases ev)
  show ?thesis
  proof (cases x)
    case (Login_does lev)
    with assms(1) x show ?thesis
      by (auto simp: login_does_def Let_def case_prod_beta calls_more_def dest!: desktop_does_more)
  qed (use assms x in \<open>auto simp: tray_does_def call_api_def is_answer_def unixSignalHandler_def signal_notified_def
      Let_def calls_more_def dest!: desktop_does_more polite_more [OF polite_polls] split: if_splits prod.splits\<close>)
qed

lemma application_run_more:
  assumes "application_run e evs ap = Some (ap', out)" and "list_all (\<lambda>ev. \<not> is_answer (snd ev)) evs"
  shows "calls_more ap ap'"
proof -
  let ?I = "\<lambda>(evs :: ((nat \<Rightarrow> int \<times> int) \<times> application_event) list) a. calls_more ap a \<and> list_all (\<lambda>ev. \<not> is_answer (snd ev)) evs"
  have "?I evs ap" using assms(2) by simp
  moreover have "?I evs a1 \<and> (\<forall>x \<in> set o1. True)" if "?I (ev # evs) a" "application_step e ev a = Some (a1, o1)" for ev evs a a1 o1
    using application_step_more [OF that(2)] that(1) by (auto intro: calls_more_trans)
  ultimately have "?I [] ap' \<and> (\<forall>x \<in> set out. True)"
    by (rule application.invariant [where I = ?I and P = "\<lambda>_. True", OF _ assms(1)])
  then show ?thesis by simp
qed

lemma refresh_calls:
  "application_step e (clock, Refresh_clicked) ap =
     Some (ap\<lparr>ap_calls := ap_calls ap @ [Fetch_workspaces, Fetch_tasks]\<rparr>,
       [From_polling FetchWorkspaces, From_polling FetchTasks,
        Send (fetchWorkspaces (ae_encode e) (client ap)), Send (fetchTasks (client ap))])"
  by (simp add: polls_def refreshNow_def client_def)

definition workspaces_in :: "app_env \<Rightarrow> http_reply \<Rightarrow> json list" where
  "workspaces_in e r =
     toArray (value_of (toObject (json_of (we_format (ae_wiring e)) (rp_body r))) ''workspaces'')"

text \<open>C28. A late answer goes to the wrong deployment. The workspaces are asked for at the deployment that is current,
  with its token; but when the answer comes, whatever has happened meanwhile (another deployment was chosen,
  the user has signed out), its rows are shown, and they are cached as the workspaces of the deployment that is
  current then.\<close>

theorem late_answer:
  assumes "application_step e (c0, Refresh_clicked) ap = Some (ap1, out1)"
    and "application_run e evs ap1 = Some (ap2, out2)" and "list_all (\<lambda>ev. \<not> is_answer (snd ev)) evs"
    and "application_step e (c1, Api_answered (length (ap_calls ap)) r) ap2 = Some (ap3, out3)" and "\<not> rp_error r"
    and "env = poll_env_of (ae_wiring e) (ap_desktop ap2)"
    and "\<not> disableDataCache env" and "open_ok env" and "commit_ok env"
    and "distinct (map wi_id (m_workspaces (m_workspaceModel (ap_polling ap2))))"
  shows "Send (buildRequest GET ''/api/v2/workspaces'' None (client ap)) \<in> set out1 \<and>
    m_workspaces (m_workspaceModel (ap_polling ap3)) =
      merge_rows wi_id (workspaces_of env (workspaces_in e r)) (m_workspaces (m_workspaceModel (ap_polling ap2))) \<and>
    cache_files (ap_polling ap3)
      (cacheRoot env @ ''/'' @ sha1_hex env (ac_baseUrl (client ap2)) @ ''/workspaces.json'') =
      Some (toJson env (workspaces_in e r))"
proof -
  have ap1: "ap_calls ap1 = ap_calls ap @ [Fetch_workspaces, Fetch_tasks]"
    "Send (buildRequest GET ''/api/v2/workspaces'' None (client ap)) \<in> set out1"
    using assms(1) unfolding refresh_calls
    by (auto simp: fetchWorkspaces_def listWorkspaces_def workspaces_path_def api_get_def)
  from application_run_more [OF assms(2,3)] obtain more where "ap_calls ap2 = ap_calls ap @ Fetch_workspaces # Fetch_tasks # more"
    by (auto simp: calls_more_def prefix_def ap1(1))
  then have i: "length (ap_calls ap) < length (ap_calls ap2)" "ap_calls ap2 ! length (ap_calls ap) = Fetch_workspaces" by simp_all
  let ?ap = "ap2\<lparr>ap_calls := take (length (ap_calls ap)) (ap_calls ap2) @ drop (Suc (length (ap_calls ap))) (ap_calls ap2)\<rparr>"
  from assms(4,5) i obtain o4 where "polls e c1 (Workspaces env (workspaces_in e r)) ?ap = Some (ap3, o4)"
    by (auto simp: on_workspaces_def error_handler_def workspaces_in_def assms(6) bind_eq_Some_conv)
  with polls_kept [of "Workspaces env (workspaces_in e r)" ?ap e c1] obtain s where
    h: "handleWorkspacesReceived env (workspaces_in e r) (ap_polling ap2) = Some (ap_polling ap3, s)" by auto
  have "cache_files (ap_polling ap3) (workspace_cache env) = Some (toJson env (workspaces_in e r))"
    using received_files(1) [OF h] assms(7-9) by (simp add: saveWorkspaceCache_def save_cache_def)
  moreover have "baseUrl env = ac_baseUrl (client ap2)" by (simp add: assms(6) poll_env_of_def client_def)
  moreover have "m_workspaces (m_workspaceModel (ap_polling ap3)) =
      merge_rows wi_id (workspaces_of env (workspaces_in e r)) (m_workspaces (m_workspaceModel (ap_polling ap2)))"
    using workspace_poll_spec [OF assms(10), of env "workspaces_in e r"] h by auto
  ultimately show ?thesis using ap1(2) by (simp add: workspace_cache_def cacheDirForDeployment_def)
qed

section \<open>The end releases everything\<close>

lemma finished_scp:
  assumes "distinct (ids m)"
  shows "map (\<lambda>t. (ft_id (info t), scp t)) (m_transfers (fst (scp_finished tid crashed code rest m))) =
    map (\<lambda>t. (ft_id (info t), if ft_id (info t) = tid then Some False else scp t)) (m_transfers m)"
proof (cases "rowForTransfer tid m")
  case None
  then have "\<forall>t \<in> set (m_transfers m). ft_id (info t) \<noteq> tid" by (simp add: row_None)
  with None show ?thesis by (simp add: scp_finished_def)
next
  case (Some row)
  have r: "row < length (m_transfers m)" "ft_id (info (m_transfers m ! row)) = tid" using row_Some [OF Some] by simp_all
  have u: "i = row" if "i < length (m_transfers m)" "ft_id (info (m_transfers m ! i)) = tid" for i
    using assms that r nth_eq_iff_index_eq [of "ids m" i row] by simp
  have set: "map (\<lambda>t. (ft_id (info t), scp t)) (m_transfers (set_transfer row t m)) =
      map (\<lambda>t. (ft_id (info t), if ft_id (info t) = tid then Some False else scp t)) (m_transfers m)"
    if "ft_id (info t) = tid" "scp t = Some False" for t
  proof (rule nth_equalityI)
    fix i assume "i < length (map (\<lambda>t. (ft_id (info t), scp t)) (m_transfers (set_transfer row t m)))"
    then have i: "i < length (m_transfers m)" by (simp add: set_transfer_def)
    show "map (\<lambda>t. (ft_id (info t), scp t)) (m_transfers (set_transfer row t m)) ! i =
      map (\<lambda>t. (ft_id (info t), if ft_id (info t) = tid then Some False else scp t)) (m_transfers m) ! i"
    proof (cases "i = row")
      case False
      with u [OF i] have "ft_id (info (m_transfers m ! i)) \<noteq> tid" by blast
      with i False show ?thesis by (simp add: set_transfer_def)
    qed (use r that in \<open>simp add: set_transfer_def\<close>)
  qed (simp add: set_transfer_def)
  show ?thesis
    using Some r(2) by (simp add: scp_finished_def Let_def set set_state_def set_error_def)
qed

lemma finished_ids: "distinct (ids m) \<Longrightarrow> ids (fst (scp_finished tid crashed code rest m)) = ids m"
  using arg_cong [OF finished_scp [of m tid crashed code rest], of "map fst"] by (simp add: o_def)

lemma finished_running:
  assumes "distinct (ids m)"
  shows "(\<exists>t \<in> set (m_transfers (fst (scp_finished tid crashed code rest m))). scp t = Some True \<and> ft_id (info t) = i) \<longleftrightarrow>
    i \<noteq> tid \<and> (\<exists>t \<in> set (m_transfers m). scp t = Some True \<and> ft_id (info t) = i)"
proof -
  have 1: "(\<exists>t \<in> set ts. scp t = Some True \<and> ft_id (info t) = i) \<longleftrightarrow>
      (i, Some True) \<in> set (map (\<lambda>t. (ft_id (info t), scp t)) ts)" for ts
    by (induction ts) auto
  have 2: "(i, Some True) \<in> set (map (\<lambda>t. (ft_id (info t), if ft_id (info t) = tid then Some False else scp t)) ts) \<longleftrightarrow>
      i \<noteq> tid \<and> (i, Some True) \<in> set (map (\<lambda>t. (ft_id (info t), scp t)) ts)" for ts
    by (induction ts) auto
  show ?thesis unfolding 1 finished_scp [OF assms] 2 by (rule refl)
qed

lemma finished_kills: "Kill_scp i \<notin> set (snd (scp_finished tid crashed code rest m))"
  by (auto simp: scp_finished_def emitActiveCountIfChanged_def Let_def split: option.split)

lemma destroy_transfers_kills:
  "Kill_scp i \<in> set (snd (destroy_transfers ends ts m)) \<longleftrightarrow> (\<exists>t \<in> set ts. scp t = Some True \<and> ft_id (info t) = i)"
proof (induction ts arbitrary: m)
  case (Cons t ts)
  show ?case
    using finished_kills [of i "ft_id (info t)"] by (auto simp: Cons.IH case_prod_beta Let_def split: option.split)
qed simp

lemma destroy_transfers_running:
  assumes "distinct (ids m)" and "\<forall>i. ends i \<noteq> None" and "t \<in> set (m_transfers (fst (destroy_transfers ends ts m)))"
    and "scp t = Some True"
  shows "(\<exists>u \<in> set (m_transfers m). scp u = Some True \<and> ft_id (info u) = ft_id (info t)) \<and>
    (\<forall>u \<in> set ts. scp u = Some True \<longrightarrow> ft_id (info u) \<noteq> ft_id (info t))"
  using assms(1,3)
proof (induction ts arbitrary: m)
  case Nil
  with assms(4) show ?case by auto
next
  case (Cons x xs)
  obtain crashed code rest where q: "ends (ft_id (info x)) = Some (crashed, code, rest)" using assms(2) by (metis not_None_eq prod_cases3)
  let ?m = "fst (scp_finished (ft_id (info x)) crashed code rest m)"
  show ?case
  proof (cases "scp x = Some True")
    case True
    have "distinct (ids ?m)" using Cons.prems(1) by (simp add: finished_ids)
    moreover have "t \<in> set (m_transfers (fst (destroy_transfers ends xs ?m)))"
      using Cons.prems(2) True q by (simp add: case_prod_beta Let_def)
    ultimately have "(\<exists>u \<in> set (m_transfers ?m). scp u = Some True \<and> ft_id (info u) = ft_id (info t)) \<and>
      (\<forall>u \<in> set xs. scp u = Some True \<longrightarrow> ft_id (info u) \<noteq> ft_id (info t))" by (rule Cons.IH)
    then show ?thesis unfolding finished_running [OF Cons.prems(1)] by auto
  next
    case False
    with Cons.prems(2) have "t \<in> set (m_transfers (fst (destroy_transfers ends xs m)))"
      by (simp add: case_prod_beta Let_def)
    from Cons.IH [OF Cons.prems(1) this] False show ?thesis by auto
  qed
qed

lemma stopped_daemon:
  assumes "daemon_stop fin graceful killed d = (d', out)"
  shows "daemon_isRunning d \<longrightarrow> Kill_daemon \<in> set out \<or> (\<exists>env. Daemon_command env [binaryPath d, ''daemon'', ''stop''] \<in> set out)"
    and "killed \<noteq> None \<longrightarrow> \<not> daemon_isRunning d'"
  using assms by (auto simp: daemon_stop_def daemon_exits_def daemon_isRunning_def Let_def split: if_splits option.splits prod.splits)


section \<open>Examples\<close>

definition demo_app_env :: app_env where
  "demo_app_env = \<lparr>ae_wiring = demo_wiring, ae_encode = (\<lambda>q. q), ae_web = True\<rparr>"

definition demo_clock :: "nat \<Rightarrow> int \<times> int" where
  "demo_clock k = (0, 0)"

definition demo_application :: "Desktop \<Rightarrow> Application" where
  "demo_application d =
     \<lparr>ap_desktop = d, ap_polling = new_PollingController empty_workspaces empty_tasks Map.empty, ap_calls = [],
      ap_login = new_LoginFlowController demo_signed_in, ap_transfers = new_FileTransferManager,
      ap_tray = new_SystemTrayIcon, ap_log = open_log True ''/tmp/coder-desktop.log'', s_sigFd = 0\<rparr>"

lemma new_Desktop_apps:
  "new_Desktop e opt settings session s daemon = Some (d, out) \<Longrightarrow> m_apps (d_dlp d) = [] \<and> d_session d = session"
  by (auto simp: new_Desktop_def updateWatermarkIdentity_def setWatermarkIdentity_def setLogLevel_def initial_def
      new_manager_def Let_def case_prod_beta split: if_splits)

text \<open>A user is signed in when the application starts.\<close>

lemma demo_start:
  obtains ap out where
    "new_Application demo_app_env (Some ''info'') demo_settings demo_signed_in demo_os demo_daemon Map.empty
      (open_log True ''/tmp/coder-desktop.log'') = Some (ap, out)"
    "application_event_ok (Desktop_does demo_launch_event) ap" "m_apps (d_dlp (ap_desktop ap)) = []"
    "ap_transfers ap = new_FileTransferManager" "d_session (ap_desktop ap) = demo_signed_in"
proof -
  obtain d out0 where d: "new_Desktop demo_wiring (Some ''info'') demo_settings demo_signed_in demo_os demo_daemon = Some (d, out0)"
    "events_ok demo_wiring [demo_launch_event] d" by (rule demo_desktop)
  let ?ap = "\<lparr>ap_desktop = d, ap_polling = new_PollingController empty_workspaces empty_tasks Map.empty, ap_calls = [],
      ap_login = new_LoginFlowController demo_signed_in, ap_transfers = new_FileTransferManager,
      ap_tray = new_SystemTrayIcon, ap_log = open_log True ''/tmp/coder-desktop.log'', s_sigFd = 0\<rparr>"
  obtain ap o1 where s: "desktop_slots demo_app_env (\<lambda>_. (0, 0)) out0 ?ap = Some (ap, o1)" "kept_by_polls ?ap ap"
    using polite_desktop_slots [of out0 ?ap demo_app_env "\<lambda>_. (0, 0)"] unfolding polite_def by blast
  note k = kept_by_polls_simps [OF s(2)]
  have "new_Application demo_app_env (Some ''info'') demo_settings demo_signed_in demo_os demo_daemon Map.empty
      (open_log True ''/tmp/coder-desktop.log'') = Some (ap, map From_desktop out0 @ o1)"
    using d(1) s(1) by (simp add: new_Application_def demo_app_env_def)
  moreover have "application_event_ok (Desktop_does demo_launch_event) ap"
    using d(2) k(5) by (simp add: demo_launch_event_def)
  ultimately show thesis using that k(2,5,6) new_Desktop_apps [OF d(1)] by simp
qed



theorem signed_out_sends_no_token_witness:
  "\<exists>ap ap' out. isAuthenticated (d_session (ap_desktop ap)) \<and>
    application_run demo_app_env [(demo_clock, Desktop_does (Session_event demo_storage_env Logout)),
      (demo_clock, Refresh_clicked)] ap = Some (ap', out) \<and>
    (\<exists>rq. Send rq \<in> set out) \<and> (\<forall>rq. Send rq \<in> set out \<longrightarrow> \<not> has_token rq) \<and> \<not> isPolling (ap_polling ap')"
proof -
  let ?l = "(demo_clock, Desktop_does (Session_event demo_storage_env Logout))"
  obtain ap out0 where n: "new_Application demo_app_env (Some ''info'') demo_settings demo_signed_in demo_os demo_daemon
      Map.empty (open_log True ''/tmp/coder-desktop.log'') = Some (ap, out0)"
    "d_session (ap_desktop ap) = demo_signed_in" by (rule demo_start)
  have "application_events_ok demo_app_env [?l] ap" by (simp split: option.split)
  from application_run_ok [OF app_ok_new [OF n(1)] this] obtain ap1 o1 where
    s: "application_step demo_app_env ?l ap = Some (ap1, o1)"
    by (cases "application_step demo_app_env ?l ap") (auto simp del: application_step.simps)
  then obtain ap' out where r: "application_run demo_app_env [?l, (demo_clock, Refresh_clicked)] ap = Some (ap', out)"
    "Send (fetchTasks (client ap1)) \<in> set out"
    using refresh_calls [of demo_app_env demo_clock ap1] by (auto simp del: application_step.simps)
  have "isAuthenticated demo_signed_in" by (simp add: demo_signed_in_def isAuthenticated_def api_isAuthenticated_def)
  then have i: "isAuthenticated (d_session (ap_desktop ap))" using n(2) by simp
  have "list_all (\<lambda>ev. no_sign_in (snd ev)) [(demo_clock, Refresh_clicked)]" by (simp add: no_sign_in_def)
  from signed_out_sends_no_token [OF r(1) this] r i show ?thesis by blast
qed

text \<open>The user signs out while the workspaces are on their way.\<close>

theorem late_answer_witness:
  "\<exists>ap ap1 out1 ap2 out2 ap3 out3.
    application_step demo_app_env (demo_clock, Refresh_clicked) ap = Some (ap1, out1) \<and>
    application_run demo_app_env [(demo_clock, Desktop_does (Session_event demo_storage_env Logout))] ap1 = Some (ap2, out2) \<and>
    application_step demo_app_env (demo_clock, Api_answered 0 demo_reply) ap2 = Some (ap3, out3) \<and>
    ac_baseUrl (client ap) = ''https://a'' \<and> ac_baseUrl (client ap2) = [] \<and>
    cache_files (ap_polling ap3) (''/cache/'' @ ''1f'' @ ''/workspaces.json'') = Some []"
proof -
  let ?l = "(demo_clock, Desktop_does (Session_event demo_storage_env Logout))"
  obtain d out0 where d: "new_Desktop demo_wiring (Some ''info'') demo_settings demo_signed_in demo_os demo_daemon = Some (d, out0)"
    "d_settings d = demo_settings" by (rule demo_desktop)
  have ds: "d_session d = demo_signed_in" using new_Desktop_apps [OF d(1)] by simp
  let ?ap = "demo_application d" and ?ap1 = "(demo_application d)\<lparr>ap_calls := [Fetch_workspaces, Fetch_tasks]\<rparr>"
  obtain out1 where r: "application_step demo_app_env (demo_clock, Refresh_clicked) ?ap = Some (?ap1, out1)"
    unfolding refresh_calls by (simp add: demo_application_def)
  obtain s out2 where l: "application_step demo_app_env ?l ?ap1 =
      Some (?ap1\<lparr>ap_desktop := d\<lparr>d_session := s\<rparr>, ap_polling := (ap_polling ?ap1)\<lparr>timer_active := False\<rparr>\<rparr>, out2)"
    "m_apiClient s = \<lparr>ac_baseUrl = [], ac_sessionToken = []\<rparr>"
    using logout_step [of demo_app_env demo_clock demo_storage_env ?ap1] by (auto simp: demo_application_def)
  let ?ap2 = "?ap1\<lparr>ap_desktop := d\<lparr>d_session := s\<rparr>, ap_polling := (ap_polling ?ap1)\<lparr>timer_active := False\<rparr>\<rparr>"
  let ?env = "poll_env_of demo_wiring (ap_desktop ?ap2)"
  have "resolve demo_settings ''disableDataCache'' (V_Bool False) = V_Bool False"
    by (simp add: demo_settings_def demo_mdm_def new_MdmConfigManager_def mdm_parse_def mdm_off_def value_of_def
        mdm_value_def resolve_def)
  note cache = this
  have run: "application_run demo_app_env [?l] ?ap1 = Some (?ap2, out2)" using l(1) by (simp del: application_step.simps)
  have "\<not> disableDataCache ?env" "open_ok ?env" "commit_ok ?env"
    using d(2) by (simp_all add: poll_env_of_def demo_wiring_def demo_poll_def set_disableDataCache_def get_bool_def
        cache demo_conversions_def)
  moreover have "distinct (map wi_id (m_workspaces (m_workspaceModel (ap_polling ?ap2))))"
    by (simp add: demo_application_def new_PollingController_def empty_workspaces_def)
  moreover obtain ap3 out3 where a: "application_step demo_app_env (demo_clock, Api_answered 0 demo_reply) ?ap2 = Some (ap3, out3)"
    using polite_api_slots [of _ demo_app_env demo_clock] by (fastforce simp: polite_def demo_application_def)
  moreover have "0 = length (ap_calls ?ap)" "\<not> rp_error demo_reply" by (simp_all add: demo_application_def demo_reply_def)
  moreover have "?env = poll_env_of (ae_wiring demo_app_env) (ap_desktop ?ap2)" by (simp add: demo_app_env_def)
  ultimately have "cache_files (ap_polling ap3) (cacheRoot ?env @ ''/'' @ sha1_hex ?env (ac_baseUrl (client ?ap2)) @ ''/workspaces.json'') =
      Some (toJson ?env (workspaces_in demo_app_env demo_reply))"
    using late_answer [OF r run, of demo_clock demo_reply ap3 out3 ?env] by (simp add: is_answer_def del: application_step.simps)
  then have "cache_files (ap_polling ap3) (''/cache/'' @ ''1f'' @ ''/workspaces.json'') = Some []"
    by (simp add: poll_env_of_def demo_wiring_def demo_poll_def workspaces_in_def demo_app_env_def demo_reply_def demo_format_def
        demo_array_def value_of_def)
  moreover have "ac_baseUrl (client ?ap) = ''https://a''" "ac_baseUrl (client ?ap2) = []"
    using l(2) ds by (simp_all add: client_def demo_application_def demo_signed_in_def)
  ultimately show ?thesis using r run a by blast
qed

end
