(* ===== verification/Unique_Fd.thy ===== *)
theory Unique_Fd
  imports Machine
begin

text \<open>
  The owner of a descriptor (\<^verbatim>\<open>src/app/src/util/UniqueFd.h\<close>): its operations on one object, then programs that
  use several objects beside descriptors they hold themselves. Closing a descriptor that is not open and
  touching an object that does not live is \<^term>\<open>None\<close>.
\<close>

section \<open>One object\<close>

record UniqueFd =
  m_fd :: int

definition default_UniqueFd :: UniqueFd where
  "default_UniqueFd = \<lparr>m_fd = -1\<rparr>"

definition new_UniqueFd :: "int \<Rightarrow> UniqueFd" where
  "new_UniqueFd fd = \<lparr>m_fd = fd\<rparr>"

definition fd_get :: "UniqueFd \<Rightarrow> int" where
  "fd_get u = m_fd u"

definition fd_isValid :: "UniqueFd \<Rightarrow> bool" where
  "fd_isValid u \<longleftrightarrow> 0 \<le> m_fd u"

definition fd_release :: "UniqueFd \<Rightarrow> int \<times> UniqueFd" where
  "fd_release u = (m_fd u, u\<lparr>m_fd := -1\<rparr>)"

text \<open>The object and the descriptors that are closed.\<close>

definition fd_reset :: "int \<Rightarrow> UniqueFd \<Rightarrow> UniqueFd \<times> int list" where
  "fd_reset fd u = (u\<lparr>m_fd := fd\<rparr>, if 0 \<le> m_fd u then [m_fd u] else [])"

definition move_UniqueFd :: "UniqueFd \<Rightarrow> UniqueFd \<times> UniqueFd" where
  "move_UniqueFd other = (case fd_release other of (fd, other) \<Rightarrow> (new_UniqueFd fd, other))"

definition destroy_UniqueFd :: "UniqueFd \<Rightarrow> int list" where
  "destroy_UniqueFd u = snd (fd_reset (-1) u)"

section \<open>Several objects\<close>

text \<open>The objects by address, the descriptors the program holds itself, and those that are open.\<close>

record descriptors =
  fd_objects :: "nat \<Rightarrow> UniqueFd option"
  raw_fds :: "int set"
  open_fds :: "int set"

type_synonym fd_out = "(descriptors \<times> int list) option"

fun close_fds :: "int list \<Rightarrow> descriptors \<Rightarrow> descriptors option" where
  "close_fds [] d = Some d"
| "close_fds (fd # fds) d =
     (if fd \<in> open_fds d then close_fds fds (d\<lparr>open_fds := open_fds d - {fd}\<rparr>) else None)"

definition put_fd :: "nat \<Rightarrow> UniqueFd option \<Rightarrow> descriptors \<Rightarrow> descriptors" where
  "put_fd i u d = d\<lparr>fd_objects := (fd_objects d)(i := u)\<rparr>"

text \<open>The assignment compares addresses, so that an object assigned to itself keeps its descriptor.\<close>

definition move_assign :: "nat \<Rightarrow> nat \<Rightarrow> descriptors \<Rightarrow> fd_out" where
  "move_assign i j d = do {
     u \<leftarrow> fd_objects d i;
     other \<leftarrow> fd_objects d j;
     if i = j then Some (d, [])
     else do {
       let (u, closed) = fd_reset (-1) u;
       let (fd, other) = fd_release other;
       d \<leftarrow> close_fds closed d;
       Some (put_fd i (Some (u\<lparr>m_fd := fd\<rparr>)) (put_fd j (Some other) d), closed)
     }
   }"

datatype fd_event =
  Opened int | Default_construct nat | Construct nat int | Move_construct nat nat | Move_assign nat nat
| Release_fd nat | Reset_to nat int | Destruct nat

fun fd_step :: "fd_event \<Rightarrow> descriptors \<Rightarrow> fd_out" where
  "fd_step (Opened fd) d = Some (d\<lparr>open_fds := insert fd (open_fds d), raw_fds := insert fd (raw_fds d)\<rparr>, [])"
| "fd_step (Default_construct i) d =
     (if fd_objects d i = None then Some (put_fd i (Some default_UniqueFd) d, []) else None)"
| "fd_step (Construct i fd) d =
     (if fd_objects d i = None
      then Some (put_fd i (Some (new_UniqueFd fd)) (d\<lparr>raw_fds := raw_fds d - {fd}\<rparr>), []) else None)"
| "fd_step (Move_construct i j) d =
     (if fd_objects d i = None
      then do {
        other \<leftarrow> fd_objects d j;
        let (u, other) = move_UniqueFd other;
        Some (put_fd i (Some u) (put_fd j (Some other) d), [])
      }
      else None)"
| "fd_step (Move_assign i j) d = move_assign i j d"
| "fd_step (Release_fd i) d = do {
     u \<leftarrow> fd_objects d i;
     let (fd, u) = fd_release u;
     Some (put_fd i (Some u) (if 0 \<le> fd then d\<lparr>raw_fds := insert fd (raw_fds d)\<rparr> else d), [])
   }"
| "fd_step (Reset_to i fd) d = do {
     u \<leftarrow> fd_objects d i;
     let (u, closed) = fd_reset fd u;
     d \<leftarrow> close_fds closed d;
     Some (put_fd i (Some u) (d\<lparr>raw_fds := raw_fds d - {fd}\<rparr>), closed)
   }"
| "fd_step (Destruct i) d = do {
     u \<leftarrow> fd_objects d i;
     d \<leftarrow> close_fds (destroy_UniqueFd u) d;
     Some (put_fd i None d, destroy_UniqueFd u)
   }"

fun fd_run :: "fd_event list \<Rightarrow> descriptors \<Rightarrow> fd_out" where
  "fd_run [] d = Some (d, [])"
| "fd_run (ev # evs) d = do {
     (d, o1) \<leftarrow> fd_step ev d;
     (d, o2) \<leftarrow> fd_run evs d;
     Some (d, o1 @ o2)
   }"

interpretation descriptors: partial_machine fd_step fd_run
  by unfold_locales simp_all

section \<open>Every descriptor has one owner\<close>

definition owners :: "descriptors \<Rightarrow> int \<Rightarrow> nat set" where
  "owners d fd = {i. 0 \<le> fd \<and> fd_objects d i = Some \<lparr>m_fd = fd\<rparr>}"

text \<open>What is open is held by the program itself or by exactly one object; nothing else is held.\<close>

definition one_owner :: "descriptors \<Rightarrow> int \<Rightarrow> bool" where
  "one_owner d fd \<longleftrightarrow>
     (if fd \<in> raw_fds d then 0 \<le> fd \<and> fd \<in> open_fds d \<and> owners d fd = {}
      else if fd \<in> open_fds d then \<exists>i. owners d fd = {i} else owners d fd = {})"

definition owned_once :: "descriptors \<Rightarrow> bool" where
  "owned_once d \<longleftrightarrow> (\<forall>fd. one_owner d fd)"

text \<open>
  What is up to the program and the system: a descriptor that is opened was not open; an object is made where
  none lives and used while it lives; what is given to one is a descriptor the program holds, or none.
\<close>

fun fd_event_ok :: "fd_event \<Rightarrow> descriptors \<Rightarrow> bool" where
  "fd_event_ok (Opened fd) d \<longleftrightarrow> 0 \<le> fd \<and> fd \<notin> open_fds d"
| "fd_event_ok (Default_construct i) d \<longleftrightarrow> fd_objects d i = None"
| "fd_event_ok (Construct i fd) d \<longleftrightarrow> fd_objects d i = None \<and> (fd < 0 \<or> fd \<in> raw_fds d)"
| "fd_event_ok (Move_construct i j) d \<longleftrightarrow> fd_objects d i = None \<and> fd_objects d j \<noteq> None"
| "fd_event_ok (Move_assign i j) d \<longleftrightarrow> fd_objects d i \<noteq> None \<and> fd_objects d j \<noteq> None"
| "fd_event_ok (Release_fd i) d \<longleftrightarrow> fd_objects d i \<noteq> None"
| "fd_event_ok (Reset_to i fd) d \<longleftrightarrow> fd_objects d i \<noteq> None \<and> (fd < 0 \<or> fd \<in> raw_fds d)"
| "fd_event_ok (Destruct i) d \<longleftrightarrow> fd_objects d i \<noteq> None"

fun fd_events_ok :: "fd_event list \<Rightarrow> descriptors \<Rightarrow> bool" where
  "fd_events_ok [] d \<longleftrightarrow> True"
| "fd_events_ok (ev # evs) d \<longleftrightarrow>
     fd_event_ok ev d \<and> (case fd_step ev d of Some (d', out) \<Rightarrow> fd_events_ok evs d' | None \<Rightarrow> True)"

lemmas fd_defs = default_UniqueFd_def new_UniqueFd_def fd_release_def fd_reset_def move_UniqueFd_def
  destroy_UniqueFd_def put_fd_def move_assign_def

text \<open>The owners after another value is put into an object.\<close>

lemma owners_put [simp]:
  "owners (put_fd i u d) fd = (if 0 \<le> fd \<and> u = Some \<lparr>m_fd = fd\<rparr> then insert i (owners d fd) else owners d fd - {i})"
  by (auto simp: owners_def put_fd_def)

lemma owners_simps [simp]:
  "owners (d\<lparr>open_fds := fds\<rparr>) fd = owners d fd" "owners (d\<lparr>raw_fds := fds\<rparr>) fd = owners d fd"
  by (simp_all add: owners_def)

lemma fd_update [simp]: "(u::UniqueFd)\<lparr>m_fd := fd\<rparr> = \<lparr>m_fd = fd\<rparr>"
  by (cases u) simp

lemma put_simps [simp]:
  "open_fds (put_fd i u d) = open_fds d" "raw_fds (put_fd i u d) = raw_fds d"
  "fd_objects (put_fd i u d) = (fd_objects d)(i := u)"
  by (simp_all add: put_fd_def)

lemma owners_object: "fd_objects d i = Some u \<Longrightarrow> i \<in> owners d fd \<longleftrightarrow> 0 \<le> fd \<and> fd = m_fd u"
  by (cases u) (auto simp: owners_def)

lemma owned_onceI: "(\<And>fd. one_owner d fd) \<Longrightarrow> owned_once d"
  by (simp add: owned_once_def)

lemma owned_at: "owned_once d \<Longrightarrow> one_owner d fd"
  by (simp add: owned_once_def)

lemma owner_at: "owned_once d \<Longrightarrow> i \<in> owners d fd \<Longrightarrow> owners d fd = {i} \<and> fd \<in> open_fds d \<and> fd \<notin> raw_fds d"
  using owned_at [of d fd] by (auto simp: one_owner_def split: if_splits)

lemma owner_cases:
  assumes "owned_once d" and "fd_objects d i = Some u"
  obtains (Here) "0 \<le> fd" "m_fd u = fd" "owners d fd = {i}" "fd \<in> open_fds d" "fd \<notin> raw_fds d"
  | (Elsewhere) "0 \<le> fd \<longrightarrow> m_fd u \<noteq> fd" "i \<notin> owners d fd"
  using owners_object [OF assms(2), of fd] owner_at [OF assms(1), of i fd] by metis

text \<open>Taking the descriptor out of an object, by closing it or into the hands of the program; putting one in.\<close>

lemma close_owned:
  assumes "owned_once d" and "fd_objects d i = Some u" and "v = None \<or> v = Some \<lparr>m_fd = -1\<rparr>"
  obtains d' where "close_fds (if 0 \<le> m_fd u then [m_fd u] else []) d = Some d'" and "fd_objects d' = fd_objects d"
    and "raw_fds d' = raw_fds d" and "owned_once (put_fd i v d')"
proof -
  let ?d = "if 0 \<le> m_fd u then d\<lparr>open_fds := open_fds d - {m_fd u}\<rparr> else d"
  have own: "i \<in> owners d fd \<longleftrightarrow> 0 \<le> fd \<and> fd = m_fd u" for fd by (rule owners_object [OF assms(2)])
  have "owned_once (put_fd i v ?d)"
  proof (rule owned_onceI)
    fix fd show "one_owner (put_fd i v ?d) fd"
      using owned_at [OF assms(1), of fd] assms(3)
      by (cases rule: owner_cases [OF assms(1,2), of fd]) (auto simp: one_owner_def)
  qed
  moreover have "close_fds (if 0 \<le> m_fd u then [m_fd u] else []) d = Some ?d"
    using own [of "m_fd u"] owner_at [OF assms(1), of i "m_fd u"] by simp
  ultimately show ?thesis by (intro that [of ?d]) simp_all
qed

lemma release_owned:
  assumes "owned_once d" and "fd_objects d i = Some u"
  shows "owned_once (put_fd i (Some \<lparr>m_fd = -1\<rparr>) (if 0 \<le> m_fd u then d\<lparr>raw_fds := insert (m_fd u) (raw_fds d)\<rparr> else d))"
proof (rule owned_onceI)
  fix fd
  show "one_owner (put_fd i (Some \<lparr>m_fd = -1\<rparr>) (if 0 \<le> m_fd u then d\<lparr>raw_fds := insert (m_fd u) (raw_fds d)\<rparr> else d)) fd"
    using owned_at [OF assms(1), of fd]
    by (cases rule: owner_cases [OF assms, of fd]) (auto simp: one_owner_def)
qed

lemma give_owned:
  assumes "owned_once d" and "\<And>fd. i \<notin> owners d fd" and "fd < 0 \<or> fd \<in> raw_fds d"
  shows "owned_once (put_fd i (Some \<lparr>m_fd = fd\<rparr>) (d\<lparr>raw_fds := raw_fds d - {fd}\<rparr>))"
proof (rule owned_onceI)
  fix fd'
  show "one_owner (put_fd i (Some \<lparr>m_fd = fd\<rparr>) (d\<lparr>raw_fds := raw_fds d - {fd}\<rparr>)) fd'"
    using owned_at [OF assms(1), of fd'] assms(2) [of fd'] assms(3)
    by (cases "fd' = fd") (auto simp: one_owner_def split: if_splits)
qed

text \<open>A descriptor goes from one object to another.\<close>

lemma move_owned:
  assumes "owned_once d" and "fd_objects d j = Some v" and "\<And>fd. i \<notin> owners d fd" and "i \<noteq> j"
  shows "owned_once (put_fd i (Some \<lparr>m_fd = m_fd v\<rparr>) (put_fd j (Some \<lparr>m_fd = -1\<rparr>) d))"
proof (rule owned_onceI)
  fix fd
  show "one_owner (put_fd i (Some \<lparr>m_fd = m_fd v\<rparr>) (put_fd j (Some \<lparr>m_fd = -1\<rparr>) d)) fd"
    using owned_at [OF assms(1), of fd] assms(3) [of fd] assms(4)
    by (cases rule: owner_cases [OF assms(1,2), of fd]) (auto simp: one_owner_def)
qed

lemma no_owner: "fd_objects d i = None \<or> fd_objects d i = Some \<lparr>m_fd = -1\<rparr> \<Longrightarrow> i \<notin> owners d fd"
  by (auto simp: owners_def)

lemma put_put [simp]: "put_fd i u (put_fd i v d) = put_fd i u d"
  by (simp add: put_fd_def)

lemma move_assign_owned:
  assumes "owned_once d" and "fd_objects d i = Some u" and "fd_objects d j = Some v"
  shows "\<exists>d' out. move_assign i j d = Some (d', out) \<and> owned_once d'"
proof (cases "i = j")
  case False
  from close_owned [OF assms(1,2), of "Some \<lparr>m_fd = -1\<rparr>"] obtain d' where
    d': "close_fds (if 0 \<le> m_fd u then [m_fd u] else []) d = Some d'" "fd_objects d' = fd_objects d"
      "owned_once (put_fd i (Some \<lparr>m_fd = -1\<rparr>) d')" by blast
  have "owned_once (put_fd i (Some \<lparr>m_fd = m_fd v\<rparr>) (put_fd j (Some \<lparr>m_fd = -1\<rparr>) (put_fd i (Some \<lparr>m_fd = -1\<rparr>) d')))"
    using False d'(2) assms(3) by (intro move_owned [OF d'(3)] no_owner) auto
  then show ?thesis using False d' assms(2,3) by (simp add: fd_defs fun_upd_twist)
qed (use assms in \<open>simp add: move_assign_def\<close>)

lemma fd_step_owned:
  assumes "owned_once d" and "fd_event_ok ev d"
  shows "\<exists>d' out. fd_step ev d = Some (d', out) \<and> owned_once d'"
proof (cases ev)
  case (Opened fd)
  have "one_owner (d\<lparr>open_fds := insert fd (open_fds d), raw_fds := insert fd (raw_fds d)\<rparr>) fd'" for fd'
    using owned_at [OF assms(1), of fd'] assms(2) Opened by (auto simp: one_owner_def split: if_splits)
  then show ?thesis using Opened by (auto intro: owned_onceI)
next
  case (Default_construct i)
  have "owned_once (put_fd i (Some \<lparr>m_fd = -1\<rparr>) (d\<lparr>raw_fds := raw_fds d - {-1}\<rparr>))"
    using assms Default_construct by (intro give_owned no_owner) auto
  moreover have "raw_fds d - {-1} = raw_fds d" using owned_at [OF assms(1), of "-1"] by (auto simp: one_owner_def)
  ultimately show ?thesis using assms(2) Default_construct by (simp add: default_UniqueFd_def)
next
  case (Construct i fd)
  have "owned_once (put_fd i (Some \<lparr>m_fd = fd\<rparr>) (d\<lparr>raw_fds := raw_fds d - {fd}\<rparr>))"
    using assms Construct by (intro give_owned no_owner) auto
  then show ?thesis using assms(2) Construct by (simp add: new_UniqueFd_def)
next
  case (Move_construct i j)
  then obtain v where v: "fd_objects d i = None" "fd_objects d j = Some v" using assms(2) by auto
  then have "owned_once (put_fd i (Some \<lparr>m_fd = m_fd v\<rparr>) (put_fd j (Some \<lparr>m_fd = -1\<rparr>) d))"
    by (intro move_owned [OF assms(1)] no_owner) auto
  then show ?thesis using v Move_construct by (simp add: move_UniqueFd_def fd_release_def new_UniqueFd_def)
next
  case (Move_assign i j)
  then show ?thesis using move_assign_owned [OF assms(1)] assms(2) by auto
next
  case (Release_fd i)
  then obtain u where "fd_objects d i = Some u" using assms(2) by auto
  with release_owned [OF assms(1) this] Release_fd show ?thesis by (simp add: fd_release_def)
next
  case (Reset_to i fd)
  then obtain u where u: "fd_objects d i = Some u" using assms(2) by auto
  from close_owned [OF assms(1) u, of "Some \<lparr>m_fd = -1\<rparr>"] obtain d' where
    d': "close_fds (if 0 \<le> m_fd u then [m_fd u] else []) d = Some d'" "raw_fds d' = raw_fds d"
      "owned_once (put_fd i (Some \<lparr>m_fd = -1\<rparr>) d')" by blast
  have "owned_once (put_fd i (Some \<lparr>m_fd = fd\<rparr>)
      ((put_fd i (Some \<lparr>m_fd = -1\<rparr>) d')\<lparr>raw_fds := raw_fds (put_fd i (Some \<lparr>m_fd = -1\<rparr>) d') - {fd}\<rparr>))"
    using assms(2) Reset_to d'(2) by (intro give_owned [OF d'(3)] no_owner) auto
  then show ?thesis using Reset_to u d' by (simp add: fd_reset_def put_fd_def)
next
  case (Destruct i)
  then obtain u where u: "fd_objects d i = Some u" using assms(2) by auto
  from close_owned [OF assms(1) u, of None] obtain d' where
    "close_fds (if 0 \<le> m_fd u then [m_fd u] else []) d = Some d'" "owned_once (put_fd i None d')" by blast
  then show ?thesis using Destruct u by (simp add: destroy_UniqueFd_def fd_reset_def)
qed

text \<open>
  However the objects are moved, reset and destroyed, nothing is closed that is not open, so nothing twice, and
  what is still open at the end has an owner: when every object is gone, that is the program itself.
\<close>

lemma descriptors_owned:
  assumes "owned_once d" and "fd_events_ok evs d"
  obtains d' out where "fd_run evs d = Some (d', out)" and "owned_once d'"
    and "(\<forall>i. fd_objects d' i = None) \<longrightarrow> open_fds d' = raw_fds d'"
proof -
  let ?I = "\<lambda>evs d. owned_once d \<and> fd_events_ok evs d"
  have "?I evs d" using assms by simp
  moreover have "\<exists>d1 o1. fd_step ev d = Some (d1, o1) \<and> ?I evs d1" if "?I (ev # evs) d" for ev evs d
    using fd_step_owned [of d ev] that by auto
  ultimately have "\<exists>d' out. fd_run evs d = Some (d', out) \<and> ?I [] d'" by (rule descriptors.total)
  then obtain d' out where run: "fd_run evs d = Some (d', out)" "owned_once d'" by auto
  have "open_fds d' = raw_fds d'" if "\<forall>i. fd_objects d' i = None"
  proof -
    have "owners d' fd = {}" for fd using that by (simp add: owners_def)
    with owned_at [OF run(2)] show ?thesis by (fastforce simp: one_owner_def split: if_splits)
  qed
  with run show ?thesis by (intro that [of d' out]) simp_all
qed

text \<open>
  What the class leaves to its user: resetting an object to the descriptor it already holds closes it and keeps
  it, and the destructor closes it again.
\<close>

lemma reset_to_own:
  "fd_run [Opened 3, Construct 0 3, Reset_to 0 3, Destruct 0] \<lparr>fd_objects = (\<lambda>_. None), raw_fds = {}, open_fds = {}\<rparr> = None"
  by (simp add: new_UniqueFd_def fd_reset_def destroy_UniqueFd_def put_fd_def)

end
