(* ===== verification/Icon_Theme.thy ===== *)
theory Icon_Theme
  imports Prelude
begin

text \<open>
  The icons of applications for the user interface (\<^verbatim>\<open>src/app/src/apps/IconThemeProvider.cpp\<close>). The icon theme
  is an argument: for the name of an icon, the pixmap it draws at a size, if it has the icon.
\<close>

record 'p pixmap_of_theme =
  fromTheme :: "string \<Rightarrow> (int \<times> int \<Rightarrow> 'p) option"
  pixmap_size :: "'p \<Rightarrow> int \<times> int"
  null_pixmap :: 'p

text \<open>The pixmap, and what is written through the pointer \<^verbatim>\<open>size\<close> if there is one.\<close>

definition requestPixmap :: "'p pixmap_of_theme \<Rightarrow> string \<Rightarrow> bool \<Rightarrow> int \<times> int \<Rightarrow> 'p \<times> (int \<times> int) option" where
  "requestPixmap t ident has_size requestedSize =
     (let width = (if fst requestedSize > 0 then fst requestedSize else 48);
          height = (if snd requestedSize > 0 then snd requestedSize else 48)
      in case fromTheme t ident of
           None \<Rightarrow> (null_pixmap t, if has_size then Some (0, 0) else None)
         | Some icon \<Rightarrow> (let pixmap = icon (width, height) in
             (pixmap, if has_size then Some (pixmap_size t pixmap) else None)))"

text \<open>The theme is only asked for sizes that are positive, whatever the user interface requests.\<close>

lemma requestPixmap_positive:
  assumes "\<And>ident w h. 0 < w \<Longrightarrow> 0 < h \<Longrightarrow> map_option (\<lambda>icon. icon (w, h)) (fromTheme t ident) =
    map_option (\<lambda>icon. icon (w, h)) (fromTheme t' ident)"
    and "pixmap_size t = pixmap_size t'" and "null_pixmap t = null_pixmap t'"
  shows "requestPixmap t ident has_size sz = requestPixmap t' ident has_size sz"
proof -
  let ?w = "if fst sz > 0 then fst sz else 48" and ?h = "if snd sz > 0 then snd sz else 48"
  have "map_option (\<lambda>icon. icon (?w, ?h)) (fromTheme t ident) = map_option (\<lambda>icon. icon (?w, ?h)) (fromTheme t' ident)"
    by (rule assms(1)) simp_all
  then show ?thesis using assms(2,3)
    by (cases "fromTheme t ident"; cases "fromTheme t' ident") (simp_all add: requestPixmap_def Let_def)
qed

end
