(* ===== verification/Spec2Isabelle.thy ===== *)
theory Spec2Isabelle
  imports Registry Launch_Spec Lifetime Polling Web_Socket Manager_Safety File_Sync File_Transfer Settings Session
    Login_Flow Vpn_Bridge Notifications App_Catalogue Sockets Clients Application
    Unique_Fd Icon_Theme
begin

text \<open>
  A model of Coder Desktop for Linux: the compositor library in C that isolates the windows of an
  untrusted application (\<^verbatim>\<open>src/coder-dlp-compositor\<close>) and the logic of the Qt application that
  uses it (\<^verbatim>\<open>src/app/src\<close>), with the theorems that make them correct.

  \<^bold>\<open>The program.\<close> The desktop application shows the workspaces and tasks of a Coder deployment
  and launches applications. Each is launched by the compositor manager in a nested Wayland
  compositor of its own, which the library builds on wlroots: the compositor forwards input, draws
  the windows, marks each frame with a watermark, and starts the application in a
  \<^verbatim>\<open>bubblewrap\<close> sandbox with a filtering D-Bus proxy.

  \<^bold>\<open>The C library\<close> (\<^verbatim>\<open>src/coder-dlp-compositor/src\<close>, public types in \<^verbatim>\<open>include/coder_dlp.h\<close>):

    \<^item> \<^theory_text>\<open>Api_Types\<close>: the public structs and the policy setter (\<^verbatim>\<open>dlp_policy.c\<close>).
    \<^item> \<^theory_text>\<open>Watermark\<close>: \<^verbatim>\<open>watermark.c\<close>; fingerprint, generator and pixel loops over a buffer
      of bytes, where an access out of bounds is \<^term>\<open>None\<close>. A reader that knows the fingerprint
      reads the marks back.
    \<^item> \<^theory_text>\<open>Growable\<close>, \<^theory_text>\<open>Registry\<close>: the growable arrays (a locale, with the registry of
      \<^verbatim>\<open>compositor.c\<close> and the generic array as its interpretations) and the log function.
    \<^item> \<^theory_text>\<open>Compositor\<close>: the structs of \<^verbatim>\<open>compositor_internal.h\<close>, and the calls a handler
      makes. wlroots and libwayland are not in the repository: what a handler reads from them is an
      argument (a \<^verbatim>\<open>wlr_view\<close>), what it does to them is a list of calls with their arguments.
    \<^item> \<^theory_text>\<open>Shell\<close>, \<^theory_text>\<open>Output\<close>, \<^theory_text>\<open>Clipboard\<close>, \<^theory_text>\<open>Input\<close>, \<^theory_text>\<open>Xwayland\<close>,
      \<^theory_text>\<open>Lifecycle\<close>: every handler of the files of these names and of \<^verbatim>\<open>compositor.c\<close>, as
      a function from the compositor to the compositor and its calls.
    \<^item> \<^theory_text>\<open>Listeners\<close>, \<^theory_text>\<open>Link_Groups\<close>: what a list of calls does to the listeners; adding a
      linked listener, removing one that is in no list or freeing a linked one is \<^term>\<open>None\<close>.
    \<^item> \<^theory_text>\<open>System\<close>, \<^theory_text>\<open>System_Safety\<close>, \<^theory_text>\<open>Lifetime\<close>: the running compositor as a step
      relation over the events it is announced to, its invariant, and creation and destruction.
    \<^item> \<^theory_text>\<open>Definedness\<close>: what the libraries guarantee of an event and of the creation, and that no handler
      and no creation is undefined then.
    \<^item> \<^theory_text>\<open>Process\<close>, \<^theory_text>\<open>Bwrap\<close>, \<^theory_text>\<open>Dbus_Proxy\<close>, \<^theory_text>\<open>Launch\<close>:
      \<^verbatim>\<open>sandbox_launcher.c\<close> over a model of processes, descriptors and files.
    \<^item> \<^theory_text>\<open>Bwrap_Spec\<close>, \<^theory_text>\<open>Launch_Spec\<close>: the abstract specifications: the sandbox as a list
      of mount operations which the argument vector refines, and the resources of the system which
      launching, reaping and cleaning up account for.

  \<^bold>\<open>The interfaces.\<close> \<^theory_text>\<open>Machine\<close> is what the components run by events have in common: the locale
  \<^verbatim>\<open>partial_machine\<close>, a step that may be undefined and its run, and \<^verbatim>\<open>machine\<close>, one that is not. It
  gives invariants, completion, composition and splitting of runs; every state machine below is an
  interpretation, up to the whole application. Rows with keys (\<^verbatim>\<open>keyed_rows\<close>), the list models over
  them (\<^verbatim>\<open>list_model\<close>), the growable arrays and the stores of tokens (\<^verbatim>\<open>token_store\<close>) are locales too,
  interpreted on the definitions of the components that provide them.

  \<^bold>\<open>The application\<close> (\<^verbatim>\<open>src/app/src\<close>):

    \<^item> \<^theory_text>\<open>Row_Sync\<close>, \<^theory_text>\<open>Dto\<close>, \<^theory_text>\<open>Models\<close>: the list models (\<^verbatim>\<open>models\<close>) and the data
      read from the API (\<^verbatim>\<open>api/dto\<close>). The locale \<^verbatim>\<open>list_model\<close> is what the views rely on;
      the two models are its interpretations.
    \<^item> \<^theory_text>\<open>Polling\<close>: the periodic refresh with its notifications and cache
      (\<^verbatim>\<open>api/PollingController.cpp\<close>).
    \<^item> \<^theory_text>\<open>Web_Socket\<close>: connection and reconnection (\<^verbatim>\<open>api/WebSocketBase.cpp\<close>).
    \<^item> \<^theory_text>\<open>Running_Apps\<close>: the list of running applications and the launch profiles
      (\<^verbatim>\<open>apps/RunningAppModel.cpp\<close>, \<^verbatim>\<open>apps/AppLaunchProfile.cpp\<close>).
    \<^item> \<^theory_text>\<open>Dlp_Manager\<close>: the manager (\<^verbatim>\<open>dlp/DlpCompositorManager.cpp\<close>), whose operations call
      the model of the library over one memory, one registry and one operating system.
    \<^item> \<^theory_text>\<open>Shared_System\<close>, \<^theory_text>\<open>Manager_Invariant\<close>, \<^theory_text>\<open>Manager_Steps\<close>,
      \<^theory_text>\<open>Manager_Safety\<close>: several compositors over one system, the invariant of the manager,
      each operation, and any sequence of them.

    \<^item> \<^theory_text>\<open>Settings\<close>: policy of the administrator, preferences, defaults (\<^verbatim>\<open>settings\<close>).
    \<^item> \<^theory_text>\<open>Secure_Storage\<close>, \<^theory_text>\<open>Api_Client\<close>, \<^theory_text>\<open>Session\<close>, \<^theory_text>\<open>Login_Flow\<close>: where the tokens
      are kept, the HTTP client, the session with its deployments (\<^verbatim>\<open>data\<close>, \<^verbatim>\<open>api\<close>) and the login
      (\<^verbatim>\<open>auth\<close>), each a state machine over requests and the answers that are still to come.
    \<^item> \<^theory_text>\<open>File_Sync\<close>, \<^theory_text>\<open>File_Transfer\<close>: synchronisation by a Mutagen daemon and transfers
      by \<^verbatim>\<open>scp\<close> (\<^verbatim>\<open>filesync\<close>).
    \<^item> \<^theory_text>\<open>Vpn_Bridge\<close>, \<^theory_text>\<open>Notifications\<close>, \<^theory_text>\<open>Tray\<close>: the client of the VPN helper with its
      peers (\<^verbatim>\<open>vpn\<close>, \<^verbatim>\<open>models/PeerModel.cpp\<close>), desktop notifications, the icon in the tray.
    \<^item> \<^theory_text>\<open>App_Catalogue\<close>: which applications can be launched (\<^verbatim>\<open>apps/AppDiscovery.cpp\<close>,
      \<^verbatim>\<open>apps/AppModel.cpp\<close>).
    \<^item> \<^theory_text>\<open>Sockets\<close>, \<^theory_text>\<open>Clients\<close>: the sockets over the base class (tasks, build logs, terminal),
      the updater, the directories of an agent, the addresses of the web view.
    \<^item> \<^theory_text>\<open>Wiring\<close>: the slots of \<^verbatim>\<open>main.cpp\<close> that connect settings, session, manager, VPN,
      synchronisation and notifications to one desktop.
    \<^item> \<^theory_text>\<open>Application\<close>: the whole program of \<^verbatim>\<open>main.cpp\<close>: the desktop with polling and the requests
      that are in flight, the login flow, the transfers, the tray, the log and the termination signals,
      from the start to the destructors.
    \<^item> \<^theory_text>\<open>Unique_Fd\<close>, \<^theory_text>\<open>Icon_Theme\<close>: the owner of a descriptor (\<^verbatim>\<open>util/UniqueFd.h\<close>), the icons of
      applications (\<^verbatim>\<open>apps/IconThemeProvider.cpp\<close>).

  \<^bold>\<open>What is shown.\<close> For the library: the sandbox is the specified one, memory and resources are
  accounted for on every failure, the handlers keep listeners and structs consistent, the watermark
  is read back and touches nothing else. For the application: invariants over any sequence of events
  of the manager, the session, the transfers, the tray and the application as a whole; that nothing
  is sent with a token after signing out; what is released when the program ends; that the views are
  told what changed; what survives a restart, a login among it; and, where the code does not do what it means to, the
  theorem that says what it does instead (lost polls, a policy that is not applied, answers that
  belong to an earlier request or deployment).

  \<^bold>\<open>Conventions.\<close> A C \<^verbatim>\<open>int\<close> is an \<^typ>\<open>int\<close> where no overflow is possible before memory
  ends, bytes and hashes are words of their width. A pointer is an optional address. Undefined
  behaviour is \<^term>\<open>None\<close> of the whole operation, an error the code handles is a value. Log
  output is left out. A result of \<^verbatim>\<open>malloc\<close>, \<^verbatim>\<open>realloc\<close>, a system call or the library is an
  argument, so a theorem covers every failure.

  \<^bold>\<open>Bounds.\<close> The loops are recursions over lists and counters and need no fuel; the one loop that
  may not end, the walk up the parents of a scene node (\<^verbatim>\<open>input.c\<close>), is a
  \<^verbatim>\<open>partial_function\<close>. Waiting for the socket of the proxy ends after its two hundred rounds. Identifiers of transfers and
  sizes of files are integers without a bound: their wrap-around is not modelled, which is right for less than
  \<open>2 ^ 31 - 2\<close> transfers and sizes below \<open>2 ^ 63\<close>.

  \<^bold>\<open>Hypotheses about the libraries.\<close> What wlroots, libwayland and the system are supposed to do is stated once
  and used by name: an event is for objects that have been announced and are still there (\<open>announced\<close>, with the
  lemma that every such event is handled, in \<^theory_text>\<open>Definedness\<close>), a launch gets new memory, a display, the globals whose creation
  the code does not check, and process numbers that no listed application has (\<open>launch_allowed\<close>; that holds of the
  applications whose process still runs, and is supposed of those whose process has been waited for). Requests
  of the user are never restricted: stopping an application that is still listed although its process has been waited
  for sends a signal to a process that is no child, which the model records as an effect of its own (\<open>Stray_kill\<close>).

  \<^bold>\<open>Views.\<close> A view of a model (\<^theory_text>\<open>Row_Sync\<close>) keeps the contents it has read until a signal tells it
  that a row has changed; that signals lead it from the old rows to the new ones (\<open>view_led\<close>) says that it never refers
  to a row it does not have, ends with as many rows, and shows nothing stale. The transfers, whose signals name the roles
  that have changed, have this for the view of each role.

  \<^bold>\<open>Not modelled.\<close> The user interface in QML; in \<^verbatim>\<open>main.cpp\<close> the set-up of Qt (fonts, style,
  the command line parser, the properties of the QML engine); the drawing of the icon in the tray; the VPN
  helper, a program in Go; packaging, build files and tests. Strings are lists of bytes: conversions between encodings are
  left out, and upper and lower case is that of ASCII. Paths of the sandbox are compared as text, without resolving
  \<^verbatim>\<open>..\<close>, final slashes or links. The handlers libwayland calls for the clients of a display that is being
  destroyed are not run. One output, keyboard and touch device at a time is the supposition of the lemmas about the
  running compositor, and the removal of an input device, for which the code has no handler, is no event of it.
\<close>

end
